(* ===== verification/Prelude.thy ===== *)
theory Prelude
  imports Main "HOL-Library.Sublist" "HOL-Library.Word"
begin

text \<open>
  Shared ground of the development: the proof collections, the error values of the Go code,
  generic facts on lists, and the operations of Go's package \<open>strings\<close> and \<open>strconv\<close> that the
  repository calls. A Go string is a sequence of bytes and a HOL \<^typ>\<open>char\<close> is a byte, so Go
  strings are modelled by \<^typ>\<open>string\<close>.
\<close>

section \<open>Collections\<close>

named_theorems go_string_simps "evaluation and normal forms of the Go string operations"
named_theorems audit_simps "how the operations of a pipeline extend the recorded trace"
named_theorems branch_simps "the branches of the pipelines"

section \<open>Errors\<close>

text \<open>
  Error values. \<open>BrokerError\<close> is \<open>broker.Error\<close> (internal/broker/errors.go), which carries the
  HTTP status. \<open>Plain\<close> is a value of \<open>errors.New\<close>, \<open>Wrapped\<close> a value of
  \<open>fmt.Errorf("...: %w", err)\<close>, \<open>Joined\<close> a value of \<open>errors.Join\<close>. \<open>Sdk\<close> is an error of an AWS
  client with its error code, \<open>Classified\<close> the \<open>tunnelingError\<close> wrapper of internal/tunneling and
  \<open>AssumeRole\<close> its \<open>assumeRoleError\<close>.
\<close>

datatype TunnelingErrorKind =
  TunnelingErrorUnknown | TunnelingErrorLimitExceeded | TunnelingErrorTargetAccessDenied

datatype go_error =
    BrokerError (StatusCode: int) (Message: string)
  | Plain string
  | Wrapped string go_error
  | Joined "go_error list"
  | Sdk string
  | Classified TunnelingErrorKind go_error
  | AssumeRole go_error

type_synonym 'a result = "go_error + 'a"

text \<open>
  \<open>errors.As(err, &domainErr)\<close> for \<open>broker.Error\<close>: the first domain error of the chain, where a
  joined error is searched in order.
\<close>

fun as_broker_error :: "go_error \<Rightarrow> (int \<times> string) option" where
  "as_broker_error (BrokerError c m) = Some (c, m)"
| "as_broker_error (Plain s) = None"
| "as_broker_error (Wrapped s e) = as_broker_error e"
| "as_broker_error (Joined es) =
     (case filter (\<lambda>x. x \<noteq> None) (map as_broker_error es) of [] \<Rightarrow> None | x # _ \<Rightarrow> x)"
| "as_broker_error (Sdk c) = None"
| "as_broker_error (Classified k e) = as_broker_error e"
| "as_broker_error (AssumeRole e) = as_broker_error e"

text \<open>\<open>errors.Join\<close> drops nil errors and is nil when nothing is left.\<close>

definition errors_Join :: "go_error option list \<Rightarrow> go_error option" where
  "errors_Join es =
     (case List.map_filter (\<lambda>e. e) es of [] \<Rightarrow> None | e # es' \<Rightarrow> Some (Joined (e # es')))"

lemma errors_Join_None: "errors_Join es = None \<longleftrightarrow> (\<forall>e \<in> set es. e = None)"
  by (induction es) (auto simp: errors_Join_def List.map_filter_def split: list.splits)

text \<open>\<open>errors.Is\<close> for a sentinel: it is somewhere in the tree of wrapped errors.\<close>

fun errors_Is :: "go_error \<Rightarrow> go_error \<Rightarrow> bool" where
  "errors_Is (Wrapped s e) target \<longleftrightarrow> Wrapped s e = target \<or> errors_Is e target"
| "errors_Is (Joined es) target \<longleftrightarrow> Joined es = target \<or> list_ex (\<lambda>e. errors_Is e target) es"
| "errors_Is (Classified k e) target \<longleftrightarrow> Classified k e = target \<or> errors_Is e target"
| "errors_Is (AssumeRole e) target \<longleftrightarrow> AssumeRole e = target \<or> errors_Is e target"
| "errors_Is e target \<longleftrightarrow> e = target"

section \<open>Prefixes, suffixes and stripping\<close>

text \<open>
  \<open>strip ws s\<close> removes from the front of \<open>s\<close>, as long as it can, a non-empty member of \<open>ws\<close>.
  It is the loop of \<open>strings.TrimLeftFunc\<close> with the runes given by their byte sequences.
\<close>

function strip :: "'a list list \<Rightarrow> 'a list \<Rightarrow> 'a list" where
  "strip ws s = (case find (\<lambda>w. w \<noteq> [] \<and> prefix w s) ws of
       None \<Rightarrow> s
     | Some w \<Rightarrow> strip ws (drop (length w) s))"
  by pat_completeness auto
termination
  by (relation "measure (\<lambda>(ws, s). length s)")
    (auto simp: find_Some_iff prefix_def)

declare strip.simps [simp del]

lemma strip_id: "(\<And>w. w \<in> set ws \<Longrightarrow> w \<noteq> [] \<Longrightarrow> \<not> prefix w s) \<Longrightarrow> strip ws s = s"
  by (subst strip.simps) (auto split: option.splits simp: find_Some_iff)

lemma strip_no_prefix: "w \<in> set ws \<Longrightarrow> w \<noteq> [] \<Longrightarrow> \<not> prefix w (strip ws s)"
proof (induction ws s rule: strip.induct)
  case (1 ws s)
  show ?case
  proof (cases "find (\<lambda>w. w \<noteq> [] \<and> prefix w s) ws")
    case None
    then have "strip ws s = s" by (simp add: strip.simps [of ws s])
    with None "1.prems" show ?thesis
      by (auto simp: find_None_iff)
  next
    case (Some v)
    with "1.IH" "1.prems" show ?thesis
      by (subst strip.simps) simp
  qed
qed

lemma strip_idem [simp]: "strip ws (strip ws s) = strip ws s"
  by (rule strip_id) (rule strip_no_prefix)

lemma strip_suffix: "suffix (strip ws s) s"
proof (induction ws s rule: strip.induct)
  case (1 ws s)
  show ?case
  proof (cases "find (\<lambda>w. w \<noteq> [] \<and> prefix w s) ws")
    case None
    then show ?thesis by (subst strip.simps) simp
  next
    case (Some v)
    with "1.IH" have "suffix (strip ws (drop (length v) s)) (drop (length v) s)" by simp
    with Some show ?thesis
      by (subst strip.simps) (simp, meson suffix_drop suffix_order.trans)
  qed
qed

lemma strip_Nil [simp]: "strip ws [] = []"
  by (rule strip_id) simp

section \<open>Whitespace: strings.TrimSpace\<close>

text \<open>
  The UTF-8 byte sequences of the code points that \<open>unicode.IsSpace\<close> accepts (U+0009 to U+000D,
  U+0020, U+0085, U+00A0, U+1680, U+2000 to U+200A, U+2028, U+2029, U+202F, U+205F, U+3000).
  A Go string starts (ends) with such a rune exactly when it starts (ends) with its bytes: the
  encodings are a prefix code, and an invalid byte decodes to U+FFFD, which is no space.
\<close>

definition ws_runes :: "string list" where
  "ws_runes =
     [[CHR 0x20], [CHR 0x09], [CHR 0x0A], [CHR 0x0B], [CHR 0x0C], [CHR 0x0D],
      [CHR 0xC2, CHR 0x85], [CHR 0xC2, CHR 0xA0], [CHR 0xE1, CHR 0x9A, CHR 0x80],
      [CHR 0xE2, CHR 0x80, CHR 0x80], [CHR 0xE2, CHR 0x80, CHR 0x81],
      [CHR 0xE2, CHR 0x80, CHR 0x82], [CHR 0xE2, CHR 0x80, CHR 0x83],
      [CHR 0xE2, CHR 0x80, CHR 0x84], [CHR 0xE2, CHR 0x80, CHR 0x85],
      [CHR 0xE2, CHR 0x80, CHR 0x86], [CHR 0xE2, CHR 0x80, CHR 0x87],
      [CHR 0xE2, CHR 0x80, CHR 0x88], [CHR 0xE2, CHR 0x80, CHR 0x89],
      [CHR 0xE2, CHR 0x80, CHR 0x8A], [CHR 0xE2, CHR 0x80, CHR 0xA8],
      [CHR 0xE2, CHR 0x80, CHR 0xA9], [CHR 0xE2, CHR 0x80, CHR 0xAF],
      [CHR 0xE2, CHR 0x81, CHR 0x9F], [CHR 0xE3, CHR 0x80, CHR 0x80]]"

definition trim_left :: "string \<Rightarrow> string" where
  "trim_left s = strip ws_runes s"

definition trim_right :: "string \<Rightarrow> string" where
  "trim_right s = rev (strip (map rev ws_runes) (rev s))"

definition TrimSpace :: "string \<Rightarrow> string" where
  "TrimSpace s = trim_right (trim_left s)"

text \<open>Printable ASCII other than the blank: the bytes no whitespace rune contains.\<close>

definition ascii_graphic :: "char \<Rightarrow> bool" where
  "ascii_graphic c \<longleftrightarrow> 0x20 < (of_char c :: nat) \<and> (of_char c :: nat) < 0x7F"

lemma ws_runes_not_graphic: "w \<in> set ws_runes \<Longrightarrow> c \<in> set w \<Longrightarrow> \<not> ascii_graphic c"
  by (auto simp: ws_runes_def ascii_graphic_def)

lemma ws_runes_nonempty: "w \<in> set ws_runes \<Longrightarrow> w \<noteq> []"
  by (auto simp: ws_runes_def)

lemma trim_left_no_prefix: "w \<in> set ws_runes \<Longrightarrow> \<not> prefix w (trim_left s)"
  by (simp add: trim_left_def strip_no_prefix ws_runes_nonempty)

lemma trim_right_no_suffix: "w \<in> set ws_runes \<Longrightarrow> \<not> suffix w (trim_right s)"
  using strip_no_prefix [of "rev w" "map rev ws_runes" "rev s"] ws_runes_nonempty [of w]
  by (auto simp: trim_right_def suffix_to_prefix)

lemma trim_right_prefix: "prefix (trim_right s) s"
  using strip_suffix [of "map rev ws_runes" "rev s"]
  by (simp add: trim_right_def suffix_to_prefix)

lemma trim_left_suffix: "suffix (trim_left s) s"
  by (simp add: trim_left_def strip_suffix)

lemma TrimSpace_no_prefix: "w \<in> set ws_runes \<Longrightarrow> \<not> prefix w (TrimSpace s)"
  unfolding TrimSpace_def
  by (meson prefix_order.trans trim_left_no_prefix trim_right_prefix)

lemma TrimSpace_no_suffix: "w \<in> set ws_runes \<Longrightarrow> \<not> suffix w (TrimSpace s)"
  by (simp add: TrimSpace_def trim_right_no_suffix)

lemma trim_left_id: "(\<And>w. w \<in> set ws_runes \<Longrightarrow> \<not> prefix w s) \<Longrightarrow> trim_left s = s"
  unfolding trim_left_def by (rule strip_id) blast

lemma trim_right_id: "(\<And>w. w \<in> set ws_runes \<Longrightarrow> \<not> suffix w s) \<Longrightarrow> trim_right s = s"
proof -
  assume "\<And>w. w \<in> set ws_runes \<Longrightarrow> \<not> suffix w s"
  then have "strip (map rev ws_runes) (rev s) = rev s"
    by (intro strip_id) (auto simp: suffix_to_prefix)
  then show ?thesis by (simp add: trim_right_def)
qed

lemma TrimSpace_id:
  assumes "\<And>w. w \<in> set ws_runes \<Longrightarrow> \<not> prefix w s" and "\<And>w. w \<in> set ws_runes \<Longrightarrow> \<not> suffix w s"
  shows "TrimSpace s = s"
  using assms by (simp add: TrimSpace_def trim_left_id trim_right_id)

lemma TrimSpace_idem [simp]: "TrimSpace (TrimSpace s) = TrimSpace s"
  by (rule TrimSpace_id) (simp_all add: TrimSpace_no_prefix TrimSpace_no_suffix)

lemma TrimSpace_graphic_ends:
  assumes "s \<noteq> [] \<Longrightarrow> ascii_graphic (hd s)" and "s \<noteq> [] \<Longrightarrow> ascii_graphic (last s)"
  shows "TrimSpace s = s"
proof (rule TrimSpace_id)
  fix w assume w: "w \<in> set ws_runes"
  then have ne: "w \<noteq> []" by (rule ws_runes_nonempty)
  show "\<not> prefix w s"
    using assms(1) ws_runes_not_graphic [OF w, of "hd w"] ne
    by (cases w; cases s) auto
  show "\<not> suffix w s"
  proof
    assume "suffix w s"
    then have "last s = last w" and "s \<noteq> []" using ne by (auto simp: suffix_def)
    with assms(2) ws_runes_not_graphic [OF w, of "last w"] ne show False by simp
  qed
qed

lemma TrimSpace_graphic: "list_all ascii_graphic s \<Longrightarrow> TrimSpace s = s"
  by (rule TrimSpace_graphic_ends) (auto simp: list_all_iff)

lemma TrimSpace_Nil [simp]: "TrimSpace [] = []"
  by (rule TrimSpace_graphic) simp

lemma TrimSpace_set: "set (TrimSpace s) \<subseteq> set s"
  using set_mono_prefix [OF trim_right_prefix [of "trim_left s"]]
    set_mono_suffix [OF trim_left_suffix [of s]]
  by (auto simp: TrimSpace_def)

end
