(* ===== verification/Go_Strings.thy ===== *)
theory Go_Strings
  imports Prelude
begin

text \<open>
  The parts of Go's packages \<open>strings\<close>, \<open>strconv\<close> and \<open>unicode/utf8\<close> that the repository uses,
  as executable functions on byte strings, with the laws the components rest on: UTF-8 decoding is
  a left inverse of encoding, and \<open>strconv.ParseInt\<close> reads back what \<open>strconv.FormatInt\<close> writes.
\<close>

section \<open>Package unicode/utf8\<close>

definition RuneError :: nat where
  "RuneError = 0xFFFD"

definition cont_byte :: "nat \<Rightarrow> bool" where
  "cont_byte b \<longleftrightarrow> 0x80 \<le> b \<and> b \<le> 0xBF"

text \<open>The code point of a sequence of two, three and four bytes.\<close>

definition rune2 :: "nat \<Rightarrow> nat \<Rightarrow> nat" where
  "rune2 b0 b1 = (b0 - 0xC0) * 64 + (b1 - 0x80)"

definition rune3 :: "nat \<Rightarrow> nat \<Rightarrow> nat \<Rightarrow> nat" where
  "rune3 b0 b1 b2 = (b0 - 0xE0) * 4096 + (b1 - 0x80) * 64 + (b2 - 0x80)"

definition rune4 :: "nat \<Rightarrow> nat \<Rightarrow> nat \<Rightarrow> nat \<Rightarrow> nat" where
  "rune4 b0 b1 b2 b3 = (b0 - 0xF0) * 262144 + (b1 - 0x80) * 4096 + (b2 - 0x80) * 64 + (b3 - 0x80)"

text \<open>
  \<open>utf8.DecodeRuneInString\<close>: the first code point and its width; an invalid or truncated sequence
  is one byte wide and decodes to U+FFFD. The ranges of the second byte exclude overlong forms,
  surrogates and values above U+10FFFF.
\<close>

definition decode2 :: "nat \<Rightarrow> nat list \<Rightarrow> nat \<times> nat" where
  "decode2 b0 bs =
     (case bs of
        b1 # _ \<Rightarrow> (if cont_byte b1 then (rune2 b0 b1, 2) else (RuneError, 1))
      | [] \<Rightarrow> (RuneError, 1))"

definition decode3 :: "nat \<Rightarrow> nat list \<Rightarrow> nat \<times> nat" where
  "decode3 b0 bs =
     (case bs of
        b1 # b2 # _ \<Rightarrow>
          (if (if b0 = 0xE0 then 0xA0 else 0x80) \<le> b1 \<and> b1 \<le> (if b0 = 0xED then 0x9F else 0xBF)
              \<and> cont_byte b2
           then (rune3 b0 b1 b2, 3) else (RuneError, 1))
      | _ \<Rightarrow> (RuneError, 1))"

definition decode4 :: "nat \<Rightarrow> nat list \<Rightarrow> nat \<times> nat" where
  "decode4 b0 bs =
     (case bs of
        b1 # b2 # b3 # _ \<Rightarrow>
          (if (if b0 = 0xF0 then 0x90 else 0x80) \<le> b1 \<and> b1 \<le> (if b0 = 0xF4 then 0x8F else 0xBF)
              \<and> cont_byte b2 \<and> cont_byte b3
           then (rune4 b0 b1 b2 b3, 4) else (RuneError, 1))
      | _ \<Rightarrow> (RuneError, 1))"

definition decode_bytes :: "nat list \<Rightarrow> nat \<times> nat" where
  "decode_bytes bytes =
     (case bytes of
        [] \<Rightarrow> (RuneError, 0)
      | b0 # bs \<Rightarrow>
          if b0 < 0x80 then (b0, 1)
          else if b0 < 0xC2 \<or> 0xF4 < b0 then (RuneError, 1)
          else if b0 < 0xE0 then decode2 b0 bs
          else if b0 < 0xF0 then decode3 b0 bs
          else decode4 b0 bs)"

lemmas decode_defs = decode_bytes_def decode2_def decode3_def decode4_def

definition DecodeRune :: "string \<Rightarrow> nat \<times> nat" where
  "DecodeRune s = decode_bytes (map of_char (take 4 s))"

definition valid_rune :: "nat \<Rightarrow> bool" where
  "valid_rune r \<longleftrightarrow> r < 0xD800 \<or> 0xDFFF < r \<and> r \<le> 0x10FFFF"

text \<open>\<open>utf8.AppendRune\<close>: an invalid code point is written as U+FFFD.\<close>

definition enc_valid :: "nat \<Rightarrow> nat list" where
  "enc_valid r =
     (if r < 0x80 then [r]
      else if r < 0x800 then [0xC0 + r div 64, 0x80 + r mod 64]
      else if r < 0x10000 then [0xE0 + r div 4096, 0x80 + r div 64 mod 64, 0x80 + r mod 64]
      else [0xF0 + r div 262144, 0x80 + r div 4096 mod 64, 0x80 + r div 64 mod 64, 0x80 + r mod 64])"

definition EncodeRune :: "nat \<Rightarrow> string" where
  "EncodeRune r = map char_of (enc_valid (if valid_rune r then r else RuneError))"

text \<open>The conversion \<open>[]rune(s)\<close> and its length \<open>utf8.RuneCountInString(s)\<close>.\<close>

lemma DecodeRune_pos: "s \<noteq> [] \<Longrightarrow> 0 < snd (DecodeRune s)"
  by (cases s) (auto simp: DecodeRune_def decode_defs split: list.splits)

function runes :: "string \<Rightarrow> nat list" where
  "runes s = (if s = [] then [] else fst (DecodeRune s) # runes (drop (snd (DecodeRune s)) s))"
  by pat_completeness auto
termination
proof (relation "measure length")
  fix s :: string
  assume "s \<noteq> []"
  with DecodeRune_pos [of s] show "(drop (snd (DecodeRune s)) s, s) \<in> measure length"
    by (cases s) auto
qed simp

declare runes.simps [simp del]

definition RuneCountInString :: "string \<Rightarrow> nat" where
  "RuneCountInString s = length (runes s)"

lemma enc_valid_bytes: "valid_rune r \<Longrightarrow> b \<in> set (enc_valid r) \<Longrightarrow> b < 256"
  by (auto simp: enc_valid_def valid_rune_def split: if_splits)

lemma map_of_char_EncodeRune:
  assumes "valid_rune r"
  shows "map (of_char :: char \<Rightarrow> nat) (EncodeRune r) = enc_valid r"
proof -
  have "map (\<lambda>b. of_char (char_of b :: char) :: nat) (enc_valid r) = map (\<lambda>b. b) (enc_valid r)"
    by (rule map_cong) (use enc_valid_bytes [OF assms] in auto)
  with assms show ?thesis by (simp add: EncodeRune_def comp_def)
qed

lemma split64:
  fixes r :: nat
  shows "r div 64 * 64 + r mod 64 = r" and "r div 4096 * 64 + r div 64 mod 64 = r div 64"
    and "r div 262144 * 64 + r div 4096 mod 64 = r div 4096"
  using div_mult2_eq [of r 64 64] div_mult2_eq [of r 4096 64]
    div_mult_mod_eq [of "r div 64" 64] div_mult_mod_eq [of "r div 4096" 64]
  by simp_all

lemma enc_valid_cases:
  assumes "valid_rune r"
  obtains (one) "r < 0x80" "enc_valid r = [r]"
  | (two) a b where "enc_valid r = [0xC0 + a, 0x80 + b]" "2 \<le> a" "a < 32" "b < 64" "r = a * 64 + b"
  | (three) a b c where "enc_valid r = [0xE0 + a, 0x80 + b, 0x80 + c]" "a < 16" "b < 64" "c < 64"
      "r = a * 4096 + b * 64 + c" "a = 0 \<longrightarrow> 32 \<le> b" "a = 13 \<longrightarrow> b \<le> 31"
  | (four) a b c d where "enc_valid r = [0xF0 + a, 0x80 + b, 0x80 + c, 0x80 + d]" "a < 5" "b < 64" "c < 64" "d < 64"
      "r = a * 262144 + b * 4096 + c * 64 + d" "a = 0 \<longrightarrow> 16 \<le> b" "a = 4 \<longrightarrow> b \<le> 15"
proof -
  note sp = split64 [of r]
  note lt = mod_less_divisor [of 64 r] mod_less_divisor [of 64 "r div 64"] mod_less_divisor [of 64 "r div 4096"]
  have e3: "r div 4096 * 4096 + r div 64 mod 64 * 64 + r mod 64 = r"
    and e4: "r div 262144 * 262144 + r div 4096 mod 64 * 4096 + r div 64 mod 64 * 64 + r mod 64 = r"
    using sp by linarith+
  consider "r < 0x80" | "0x80 \<le> r" "r < 0x800" | "0x800 \<le> r" "r < 0x10000" | "0x10000 \<le> r"
    by linarith
  then show thesis
  proof cases
    case 1
    then show thesis by (intro one) (simp_all add: enc_valid_def)
  next
    case 2
    show thesis
      by (rule two [of "r div 64" "r mod 64"]) (use 2 sp lt in \<open>auto simp: enc_valid_def\<close>)
  next
    case 3
    show thesis
      by (rule three [of "r div 4096" "r div 64 mod 64" "r mod 64"])
        (use 3 assms sp lt e3 in \<open>auto simp: enc_valid_def valid_rune_def\<close>)
  next
    case 4
    show thesis
      by (rule four [of "r div 262144" "r div 4096 mod 64" "r div 64 mod 64" "r mod 64"])
        (use 4 div_le_mono [of 65536 r 4096] assms sp lt e4 in \<open>auto simp: enc_valid_def valid_rune_def\<close>)
  qed
qed

lemma decode_bytes_enc_valid:
  assumes "valid_rune r"
  shows "decode_bytes (enc_valid r @ t) = (r, length (enc_valid r))"
  using assms by (cases rule: enc_valid_cases)
      (simp_all add: decode_defs cont_byte_def rune2_def rune3_def rune4_def)

lemma length_EncodeRune: "valid_rune r \<Longrightarrow> length (EncodeRune r) = length (enc_valid r)"
  by (simp add: EncodeRune_def)

lemma enc_valid_length: "length (enc_valid r) \<le> 4" "0 < length (enc_valid r)"
  by (simp_all add: enc_valid_def)

lemma DecodeRune_EncodeRune:
  assumes "valid_rune r"
  shows "DecodeRune (EncodeRune r @ s) = (r, length (EncodeRune r))"
proof -
  have "map (of_char :: char \<Rightarrow> nat) (take 4 (EncodeRune r @ s))
      = enc_valid r @ map of_char (take (4 - length (enc_valid r)) s)"
    using map_of_char_EncodeRune [OF assms] length_EncodeRune [OF assms] enc_valid_length [of r]
    by simp
  then show ?thesis
    by (simp only: DecodeRune_def decode_bytes_enc_valid [OF assms] length_EncodeRune [OF assms])
qed

text \<open>Whatever the bytes, a decoded rune is a valid code point (the replacement character at worst).\<close>

lemma rune2_valid: "b0 < 0xE0 \<Longrightarrow> b1 \<le> 0xBF \<Longrightarrow> valid_rune (rune2 b0 b1)"
  unfolding valid_rune_def rune2_def by (intro disjI1) linarith

lemma rune3_valid:
  assumes "0xE0 \<le> b0" "b0 < 0xF0" "0x80 \<le> b1" "b1 \<le> 0xBF" "b0 = 0xED \<Longrightarrow> b1 \<le> 0x9F" "b2 \<le> 0xBF"
  shows "valid_rune (rune3 b0 b1 b2)"
proof -
  consider "b0 < 0xED" | "b0 = 0xED" | "0xEE \<le> b0" by linarith
  then show ?thesis by cases (use assms in \<open>auto simp: valid_rune_def rune3_def\<close>)
qed

lemma rune4_valid:
  assumes "0xF0 \<le> b0" "b0 \<le> 0xF4" "b1 \<le> 0xBF" "b0 = 0xF0 \<Longrightarrow> 0x90 \<le> b1" "b0 = 0xF4 \<Longrightarrow> b1 \<le> 0x8F"
    "b2 \<le> 0xBF" "b3 \<le> 0xBF"
  shows "valid_rune (rune4 b0 b1 b2 b3)"
proof -
  consider "b0 = 0xF0" | "0xF0 < b0" "b0 < 0xF4" | "b0 = 0xF4"
    using assms(1,2) by (cases "b0 = 0xF0"; cases "b0 = 0xF4") auto
  then show ?thesis by cases (use assms in \<open>auto simp: valid_rune_def rune4_def\<close>)
qed

lemma RuneError_valid: "valid_rune RuneError"
  by (simp add: valid_rune_def RuneError_def)

lemma decode2_valid: "b0 < 0xE0 \<Longrightarrow> valid_rune (fst (decode2 b0 bs))"
  by (auto simp: decode2_def cont_byte_def RuneError_valid intro: rune2_valid split: list.split)

lemma decode3_valid: "0xE0 \<le> b0 \<Longrightarrow> b0 < 0xF0 \<Longrightarrow> valid_rune (fst (decode3 b0 bs))"
  by (auto simp: decode3_def cont_byte_def RuneError_valid intro!: rune3_valid split: list.split)

lemma decode4_valid: "0xF0 \<le> b0 \<Longrightarrow> b0 \<le> 0xF4 \<Longrightarrow> valid_rune (fst (decode4 b0 bs))"
  by (auto simp: decode4_def cont_byte_def RuneError_valid intro!: rune4_valid split: list.split)

lemma decode_bytes_valid: "valid_rune (fst (decode_bytes bs))"
proof (cases bs)
  case Nil
  then show ?thesis by (simp add: decode_bytes_def RuneError_valid)
next
  case (Cons b0 cs)
  have "b0 < 0x80 \<Longrightarrow> valid_rune b0" by (simp add: valid_rune_def)
  then show ?thesis
    using decode2_valid [of b0 cs] decode3_valid [of b0 cs] decode4_valid [of b0 cs] RuneError_valid
    by (auto simp: decode_bytes_def Cons)
qed

lemma DecodeRune_valid: "valid_rune (fst (DecodeRune s))"
  unfolding DecodeRune_def by (rule decode_bytes_valid)

lemma runes_valid: "r \<in> set (runes s) \<Longrightarrow> valid_rune r"
proof (induction s rule: runes.induct)
  case (1 s)
  then show ?case
    by (auto simp: runes.simps [of s] DecodeRune_valid split: if_splits)
qed

text \<open>The conversion \<open>string(rs)\<close>.\<close>

definition string_of_runes :: "nat list \<Rightarrow> string" where
  "string_of_runes rs = concat (map EncodeRune rs)"

lemma EncodeRune_nonempty [simp]: "EncodeRune r \<noteq> []"
  by (simp add: EncodeRune_def enc_valid_def)

lemma runes_EncodeRune: "valid_rune r \<Longrightarrow> runes (EncodeRune r @ s) = r # runes s"
  by (subst runes.simps) (simp add: DecodeRune_EncodeRune)

lemma runes_string_of_runes: "(\<And>r. r \<in> set rs \<Longrightarrow> valid_rune r) \<Longrightarrow> runes (string_of_runes rs) = rs"
proof (induction rs)
  case Nil
  then show ?case by (simp add: string_of_runes_def runes.simps)
next
  case (Cons r rs)
  then have "runes (string_of_runes rs) = rs" by simp
  with Cons.prems show ?case
    by (simp add: string_of_runes_def runes_EncodeRune)
qed

section \<open>Package strings\<close>

text \<open>\<open>strings.CutPrefix\<close> and \<open>strings.CutSuffix\<close>.\<close>

definition CutPrefix :: "string \<Rightarrow> string \<Rightarrow> string option" where
  "CutPrefix s p = (if prefix p s then Some (drop (length p) s) else None)"

definition CutSuffix :: "string \<Rightarrow> string \<Rightarrow> string option" where
  "CutSuffix s p = (if suffix p s then Some (take (length s - length p) s) else None)"

lemma CutPrefix_append [simp, go_string_simps]: "CutPrefix (p @ s) p = Some s"
  by (simp add: CutPrefix_def)

lemma CutSuffix_append [simp, go_string_simps]: "CutSuffix (s @ p) p = Some s"
  by (simp add: CutSuffix_def suffix_def)

lemma CutPrefix_Some: "CutPrefix s p = Some t \<longleftrightarrow> s = p @ t"
  by (auto simp: CutPrefix_def prefix_def)

lemma CutSuffix_Some: "CutSuffix s p = Some t \<longleftrightarrow> s = t @ p"
  by (auto simp: CutSuffix_def suffix_def)

text \<open>\<open>strings.Split\<close> with a one-byte separator.\<close>

fun Split :: "char \<Rightarrow> string \<Rightarrow> string list" where
  "Split c [] = [[]]"
| "Split c (x # xs) =
     (if x = c then [] # Split c xs
      else (case Split c xs of [] \<Rightarrow> [[x]] | y # ys \<Rightarrow> (x # y) # ys))"

lemma Split_nonempty [simp]: "Split c s \<noteq> []"
  by (induction s) (auto split: list.splits)

lemma Split_no_sep: "c \<notin> set s \<Longrightarrow> Split c s = [s]"
  by (induction s) auto

lemma Split_parts_no_sep: "p \<in> set (Split c s) \<Longrightarrow> c \<notin> set p"
proof (induction s arbitrary: p)
  case Nil
  then show ?case by simp
next
  case (Cons x xs)
  obtain y ys where yys: "Split c xs = y # ys"
    by (cases "Split c xs") auto
  from Cons.IH [of y] yys have "c \<notin> set y" by simp
  with Cons yys show ?case by (auto split: if_splits)
qed

text \<open>\<open>strings.Index\<close>, \<open>strings.Count\<close> and \<open>strings.Replace(s, old, new, 1)\<close>.\<close>

fun Index :: "string \<Rightarrow> string \<Rightarrow> nat option" where
  "Index [] sub = (if sub = [] then Some 0 else None)"
| "Index (x # xs) sub =
     (if prefix sub (x # xs) then Some 0 else map_option Suc (Index xs sub))"

lemma Index_Some: "Index s sub = Some i \<Longrightarrow> prefix sub (drop i s) \<and> i + length sub \<le> length s"
proof (induction s arbitrary: i)
  case Nil
  then show ?case by (auto split: if_splits)
next
  case (Cons x xs)
  then show ?case by (fastforce split: if_splits dest: prefix_length_le)
qed

lemma Index_None: "Index s sub = None \<longleftrightarrow> \<not> sublist sub s"
  by (induction s) (auto simp: sublist_Cons_right)

function Count :: "string \<Rightarrow> string \<Rightarrow> nat" where
  "Count s sub =
     (if sub = [] then Suc (RuneCountInString s)
      else case Index s sub of None \<Rightarrow> 0 | Some i \<Rightarrow> Suc (Count (drop (i + length sub) s) sub))"
  by pat_completeness auto
termination
proof (relation "measure (\<lambda>(s, sub). length s)")
  fix s sub :: string and i
  assume "sub \<noteq> []" and "Index s sub = Some i"
  with Index_Some [of s sub i] show "((drop (i + length sub) s, sub), s, sub) \<in> measure (\<lambda>(s, sub). length s)"
    by (cases sub) auto
qed simp

declare Count.simps [simp del]

definition Replace1 :: "string \<Rightarrow> string \<Rightarrow> string \<Rightarrow> string" where
  "Replace1 s old new =
     (case Index s old of None \<Rightarrow> s | Some i \<Rightarrow> take i s @ new @ drop (i + length old) s)"

definition Contains :: "string \<Rightarrow> string \<Rightarrow> bool" where
  "Contains s sub \<longleftrightarrow> Index s sub \<noteq> None"

text \<open>
  \<open>strings.Fields\<close>: the maximal runs of non-space bytes. \<open>fields_aux\<close> carries the current field,
  reversed.
\<close>

function fields_aux :: "string \<Rightarrow> string \<Rightarrow> string list" where
  "fields_aux cur s =
     (case find (\<lambda>w. w \<noteq> [] \<and> prefix w s) ws_runes of
        Some w \<Rightarrow> (if cur = [] then [] else [rev cur]) @ fields_aux [] (drop (length w) s)
      | None \<Rightarrow>
          (case s of
             [] \<Rightarrow> (if cur = [] then [] else [rev cur])
           | c # cs \<Rightarrow> fields_aux (c # cur) cs))"
  by pat_completeness auto
termination
  by (relation "measure (\<lambda>(cur, s). length s)")
    (auto simp: find_Some_iff prefix_def)

declare fields_aux.simps [simp del]

definition Fields :: "string \<Rightarrow> string list" where
  "Fields s = fields_aux [] s"

section \<open>Package strconv\<close>

definition is_digit :: "char \<Rightarrow> bool" where
  "is_digit c \<longleftrightarrow> 48 \<le> (of_char c :: nat) \<and> (of_char c :: nat) \<le> 57"

definition digit_val :: "char \<Rightarrow> nat" where
  "digit_val c = of_char c - 48"

definition digit_char :: "nat \<Rightarrow> char" where
  "digit_char d = char_of (48 + d)"

lemma digit_char [simp]:
  "d < 10 \<Longrightarrow> is_digit (digit_char d)" "d < 10 \<Longrightarrow> digit_val (digit_char d) = d"
  by (simp_all add: is_digit_def digit_val_def digit_char_def)

lemma is_digit_graphic: "is_digit c \<Longrightarrow> ascii_graphic c"
  by (simp add: is_digit_def ascii_graphic_def)

fun digits_val :: "nat \<Rightarrow> string \<Rightarrow> nat" where
  "digits_val acc [] = acc"
| "digits_val acc (c # cs) = digits_val (10 * acc + digit_val c) cs"

lemma digits_val_append: "digits_val acc (s @ [c]) = 10 * digits_val acc s + digit_val c"
  by (induction s arbitrary: acc) auto

fun nat_str :: "nat \<Rightarrow> string" where
  "nat_str n = (if n < 10 then [digit_char n] else nat_str (n div 10) @ [digit_char (n mod 10)])"

declare nat_str.simps [simp del]

lemma nat_str_digits: "list_all is_digit (nat_str n)"
  by (induction n rule: nat_str.induct) (subst nat_str.simps, auto)

lemma nat_str_nonempty [simp]: "nat_str n \<noteq> []"
  by (subst nat_str.simps) simp

lemma digits_val_nat_str: "digits_val 0 (nat_str n) = n"
proof (induction n rule: nat_str.induct)
  case (1 n)
  show ?case
  proof (cases "n < 10")
    case True
    then show ?thesis by (simp add: nat_str.simps [of n])
  next
    case False
    with 1 have "digits_val 0 (nat_str (n div 10)) = n div 10" by simp
    with False show ?thesis by (simp add: nat_str.simps [of n] digits_val_append)
  qed
qed

text \<open>\<open>strconv.FormatInt(i, 10)\<close> and \<open>strconv.ParseInt(s, 10, 64)\<close> (\<open>strconv.Atoi\<close> on a 64-bit
  platform); \<open>None\<close> is a syntax or range error.\<close>

definition FormatInt :: "int \<Rightarrow> string" where
  "FormatInt i = (if i < 0 then CHR ''-'' # nat_str (nat (- i)) else nat_str (nat i))"

definition ParseInt64 :: "string \<Rightarrow> int option" where
  "ParseInt64 s =
     (let neg = (s \<noteq> [] \<and> hd s = CHR ''-'');
          ds = (if s \<noteq> [] \<and> (hd s = CHR ''-'' \<or> hd s = CHR ''+'') then tl s else s);
          v = (if neg then - int (digits_val 0 ds) else int (digits_val 0 ds))
      in if ds = [] \<or> \<not> list_all is_digit ds then None
         else if - (2 ^ 63) \<le> v \<and> v < 2 ^ 63 then Some v else None)"

lemma hd_nat_str_digit: "is_digit (hd (nat_str n))"
  using nat_str_digits [of n] nat_str_nonempty [of n] by (cases "nat_str n") auto

lemma ParseInt64_FormatInt:
  assumes "- (2 ^ 63) \<le> i" and "i < 2 ^ 63"
  shows "ParseInt64 (FormatInt i) = Some i"
proof -
  have "\<not> is_digit (CHR ''-'')" and "\<not> is_digit (CHR ''+'')" by (simp_all add: is_digit_def)
  then have "hd (nat_str n) \<noteq> CHR ''-''" and "hd (nat_str n) \<noteq> CHR ''+''" for n
    using hd_nat_str_digit [of n] by auto
  with assms show ?thesis
    by (cases "i < 0")
      (simp_all add: ParseInt64_def FormatInt_def Let_def nat_str_digits digits_val_nat_str
        nat_less_iff)
qed

lemma ParseInt64_range: "ParseInt64 s = Some v \<Longrightarrow> - (2 ^ 63) \<le> v \<and> v < 2 ^ 63"
  by (auto simp: ParseInt64_def Let_def split: if_splits)

lemma FormatInt_graphic: "list_all ascii_graphic (FormatInt i)"
  using nat_str_digits [of "nat i"] nat_str_digits [of "nat (- i)"] is_digit_graphic
  by (auto simp: FormatInt_def list_all_iff ascii_graphic_def)

text \<open>\<open>strconv.Itoa\<close> writes different numerals for different integers.\<close>

lemma FormatInt_inj:
  assumes "FormatInt i = FormatInt j"
  shows "i = j"
proof -
  have neq: "nat_str a \<noteq> CHR ''-'' # nat_str b" for a b
    using hd_nat_str_digit [of a] by (auto simp: is_digit_def)
  have "nat_str a = nat_str b \<Longrightarrow> a = b" for a b
    by (metis digits_val_nat_str)
  with assms neq neq [symmetric] show ?thesis
    by (force simp: FormatInt_def split: if_splits)
qed

definition is_ascii :: "char \<Rightarrow> bool" where
  "is_ascii c \<longleftrightarrow> of_char c < (0x80 :: nat)"

lemma is_ascii_graphic: "ascii_graphic c \<Longrightarrow> is_ascii c"
  by (simp add: is_ascii_def ascii_graphic_def)

text \<open>\<open>strings.TrimRight(s, "/")\<close>.\<close>

definition TrimRight_slash :: "string \<Rightarrow> string" where
  "TrimRight_slash s = rev (dropWhile (\<lambda>c. c = CHR ''/'') (rev s))"

end
