(* ===== verification/Go_Time.thy ===== *)
theory Go_Time
  imports Go_Strings "HOL-Library.Monad_Syntax"
begin

text \<open>
  Go's package \<open>time\<close> as the repository uses it. An instant is the number of nanoseconds since the
  Unix epoch (\<^typ>\<open>int\<close>, so that no conversion hides a wrap-around), always read in UTC; a
  \<open>time.Duration\<close> is a number of nanoseconds. The calendar is the proleptic Gregorian one.
  \<open>FormatRFC3339\<close> and \<open>ParseRFC3339\<close> are \<open>Time.Format\<close> and \<open>time.Parse\<close> for the layout
  \<open>time.RFC3339\<close>; the main fact is that parsing what was formatted gives the instant back, cut to
  whole seconds.
\<close>

type_synonym time = int
type_synonym duration = int

definition Second :: duration where "Second = 1000000000"
definition Minute :: duration where "Minute = 60 * Second"
definition Hour :: duration where "Hour = 60 * Minute"

text \<open>\<open>Time.Unix()\<close> and \<open>time.Unix(sec, 0)\<close>.\<close>

definition Unix :: "time \<Rightarrow> int" where
  "Unix t = t div Second"

definition time_Unix :: "int \<Rightarrow> time" where
  "time_Unix sec = sec * Second"

lemma Unix_time_Unix [simp]: "Unix (time_Unix s) = s"
  by (simp add: Unix_def time_Unix_def Second_def)

section \<open>The calendar\<close>

definition leap :: "int \<Rightarrow> bool" where
  "leap y \<longleftrightarrow> y mod 4 = 0 \<and> (y mod 100 \<noteq> 0 \<or> y mod 400 = 0)"

text \<open>Days from 1 January of year 0 to 1 January of year \<open>y\<close>.\<close>

definition days_before :: "int \<Rightarrow> int" where
  "days_before y = 365 * y + (y + 3) div 4 - (y + 99) div 100 + (y + 399) div 400"

definition year_len :: "int \<Rightarrow> int" where
  "year_len y = (if leap y then 366 else 365)"

definition month_len :: "int \<Rightarrow> nat \<Rightarrow> int" where
  "month_len y m =
     (if m = 2 then (if leap y then 29 else 28) else if m \<in> {4, 6, 9, 11} then 30 else 31)"

fun month_start :: "int \<Rightarrow> nat \<Rightarrow> int" where
  "month_start y 0 = 0"
| "month_start y (Suc m) = (if m = 0 then 0 else month_start y m + month_len y m)"

text \<open>The day number of 1 January 1970.\<close>

definition epoch_days :: int where
  "epoch_days = 719528"

lemma epoch_days: "days_before 1970 = epoch_days"
  by (simp add: days_before_def epoch_days_def)

lemma div_bounds: "0 < k \<Longrightarrow> k * (x div k) \<le> x \<and> x < k * (x div k) + k" for x k :: int
  using mult_div_mod_eq [of k x] pos_mod_sign [of k x] pos_mod_bound [of k x] by linarith

lemma ceil_div:
  fixes y k :: int
  assumes "0 < k"
  shows "(y + (k - 1)) div k = y div k + (if y mod k = 0 then 0 else 1)"
proof -
  have "y + (k - 1) = (y mod k + (k - 1)) + (y div k) * k"
    using div_mult_mod_eq [of y k] by linarith
  then have "(y + (k - 1)) div k = (y mod k + (k - 1)) div k + y div k"
    using assms by (simp only: div_mult_self1)
  moreover have "(y mod k + (k - 1)) div k = (if y mod k = 0 then 0 else 1)"
  proof (cases "y mod k = 0")
    case False
    have "y mod k + (k - 1) = (y mod k - 1) + 1 * k" by simp
    then have "(y mod k + (k - 1)) div k = (y mod k - 1) div k + 1"
      using assms by (metis add.commute div_mult_self1 less_irrefl)
    moreover have "(y mod k - 1) div k = 0"
      using assms False pos_mod_bound [of k y] pos_mod_sign [of k y]
      by (intro div_pos_pos_trivial) linarith+
    ultimately show ?thesis using False by simp
  qed (use assms in simp)
  ultimately show ?thesis by simp
qed

lemma ceil_div_eq: "x = y + (k - 1) \<Longrightarrow> 0 < k \<Longrightarrow> x div k = y div k + (if y mod k = 0 then 0 else 1)"
  for x y k :: int
  using ceil_div by blast

lemma ceil_div_Suc: "x = y + k \<Longrightarrow> 0 < k \<Longrightarrow> x div k = y div k + 1" for x y k :: int
  by (simp only: div_add_self2 less_imp_neq [symmetric] not_False_eq_True)

lemma days_before_Suc: "days_before (y + 1) = days_before y + year_len y"
proof -
  have s: "(y + 1 + 3) div 4 = y div 4 + 1" "(y + 1 + 99) div 100 = y div 100 + 1"
    "(y + 1 + 399) div 400 = y div 400 + 1"
    by (rule ceil_div_Suc; linarith)+
  have c: "(y + 3) div 4 = y div 4 + (if y mod 4 = 0 then 0 else 1)"
    "(y + 99) div 100 = y div 100 + (if y mod 100 = 0 then 0 else 1)"
    "(y + 399) div 400 = y div 400 + (if y mod 400 = 0 then 0 else 1)"
    by (rule ceil_div_eq; linarith)+
  have m: "y mod 400 = 0 \<Longrightarrow> y mod 100 = 0" "y mod 100 = 0 \<Longrightarrow> y mod 4 = 0"
    using mod_mod_cancel [of 100 400 y] mod_mod_cancel [of 4 100 y] by simp_all
  show ?thesis
    unfolding days_before_def s c year_len_def leap_def using m
    by (cases "y mod 4 = 0"; cases "y mod 100 = 0"; cases "y mod 400 = 0") simp_all
qed

lemma days_before_cycle: "days_before (400 * n + y) = 146097 * n + days_before y"
proof -
  have "400 * n + y + 3 = (y + 3) + (100 * n) * 4" "400 * n + y + 99 = (y + 99) + (4 * n) * 100"
    "400 * n + y + 399 = (y + 399) + n * 400" by simp_all
  then have "(400 * n + y + 3) div 4 = (y + 3) div 4 + 100 * n"
    "(400 * n + y + 99) div 100 = (y + 99) div 100 + 4 * n"
    "(400 * n + y + 399) div 400 = (y + 399) div 400 + n"
    by (simp_all only: div_mult_self1 zero_neq_numeral not_False_eq_True)
  then show ?thesis by (simp only: days_before_def) simp
qed

lemma year_len_pos: "0 < year_len y"
  by (simp add: year_len_def)

lemma days_before_mono: "y \<le> z \<Longrightarrow> days_before y \<le> days_before z"
proof (induction z rule: int_ge_induct)
  case (step i)
  then show ?case using days_before_Suc [of i] year_len_pos [of i] by linarith
qed simp

lemma days_before_le:
  assumes "0 \<le> y" "y < 400"
  shows "days_before y \<le> 366 * y"
proof (cases "y \<le> 2")
  case True
  with assms have "y = 0 \<or> y = 1 \<or> y = 2" by linarith
  then show ?thesis by (auto simp: days_before_def)
next
  case False
  then show ?thesis
    using assms div_bounds [of 4 "y + 3"] div_bounds [of 100 "y + 99"] div_bounds [of 400 "y + 399"]
    unfolding days_before_def by simp
qed

lemma days_before_ge:
  assumes "0 \<le> y" "y < 400"
  shows "366 * y + 366 \<le> days_before (y + 1 + 1)"
  using assms div_bounds [of 4 "y + 1 + 1 + 3"] div_bounds [of 100 "y + 1 + 1 + 99"]
    div_bounds [of 400 "y + 1 + 1 + 399"]
  unfolding days_before_def by simp

text \<open>The year of a day number: the 400-year cycle, then an estimate that is at most one short.\<close>

definition year_of :: "int \<Rightarrow> int" where
  "year_of d =
     (let r = d mod 146097; y = r div 366
      in 400 * (d div 146097) + (if days_before (y + 1) \<le> r then y + 1 else y))"

lemma year_of_bounds: "days_before (year_of d) \<le> d \<and> d < days_before (year_of d + 1)"
proof -
  define r where "r = d mod 146097"
  define y where "y = r div 366"
  define k where "k = (if days_before (y + 1) \<le> r then y + 1 else y)"
  have r: "0 \<le> r" "r < 146097" by (simp_all add: r_def)
  then have y: "0 \<le> y" "y < 400" "366 * y \<le> r" "r < 366 * y + 366"
    using div_bounds [of 366 r] by (auto simp: y_def)
  have lo: "days_before y \<le> r" and hi: "r < days_before (y + 1 + 1)"
    using y days_before_le [of y] days_before_ge [of y] by linarith+
  have k: "days_before k \<le> r" "r < days_before (k + 1)"
    using lo hi by (auto simp: k_def)
  have eq: "year_of d = 400 * (d div 146097) + k"
    by (simp add: year_of_def k_def y_def r_def Let_def)
  have d: "146097 * (d div 146097) + r = d"
    unfolding r_def by (rule mult_div_mod_eq)
  have "days_before (year_of d) = 146097 * (d div 146097) + days_before k"
    by (simp only: eq days_before_cycle)
  moreover have "days_before (year_of d + 1) = 146097 * (d div 146097) + days_before (k + 1)"
    using days_before_cycle [of "d div 146097" "k + 1"] by (simp add: eq add.assoc)
  ultimately show ?thesis using k d by linarith
qed

lemma year_of_unique:
  assumes "days_before y \<le> d" and "d < days_before (y + 1)"
  shows "year_of d = y"
proof (rule ccontr)
  assume "year_of d \<noteq> y"
  then consider "year_of d + 1 \<le> y" | "y + 1 \<le> year_of d" by linarith
  then show False
    by cases (use days_before_mono year_of_bounds [of d] assms in fastforce)+
qed

text \<open>Month and day of the month from the zero-based day of the year.\<close>

fun find_month :: "int \<Rightarrow> nat \<Rightarrow> nat \<Rightarrow> int \<Rightarrow> nat \<times> int" where
  "find_month y 0 m yd = (m, yd + 1)"
| "find_month y (Suc n) m yd =
     (if yd < month_len y m then (m, yd + 1) else find_month y n (Suc m) (yd - month_len y m))"

definition civil_from_days :: "int \<Rightarrow> int \<times> nat \<times> int" where
  "civil_from_days d = (let y = year_of d in (y, find_month y 11 1 (d - days_before y)))"

definition days_from_civil :: "int \<Rightarrow> nat \<Rightarrow> int \<Rightarrow> int" where
  "days_from_civil y m d = days_before y + month_start y m + d - 1"

definition valid_date :: "int \<Rightarrow> nat \<Rightarrow> int \<Rightarrow> bool" where
  "valid_date y m d \<longleftrightarrow> 1 \<le> m \<and> m \<le> 12 \<and> 1 \<le> d \<and> d \<le> month_len y m"

lemma month_cases:
  assumes "1 \<le> (m::nat)" "m \<le> 12"
  shows "m = 1 \<or> m = 2 \<or> m = 3 \<or> m = 4 \<or> m = 5 \<or> m = 6 \<or> m = 7 \<or> m = 8 \<or> m = 9 \<or> m = 10 \<or> m = 11 \<or> m = 12"
  using assms by arith

lemma month_starts:
  "month_start y (Suc 0) = 0" "month_start y 1 = 0" "month_start y 2 = 31"
  "month_start y 3 = (if leap y then 60 else 59)" "month_start y 4 = (if leap y then 91 else 90)"
  "month_start y 5 = (if leap y then 121 else 120)" "month_start y 6 = (if leap y then 152 else 151)"
  "month_start y 7 = (if leap y then 182 else 181)" "month_start y 8 = (if leap y then 213 else 212)"
  "month_start y 9 = (if leap y then 244 else 243)" "month_start y 10 = (if leap y then 274 else 273)"
  "month_start y 11 = (if leap y then 305 else 304)" "month_start y 12 = (if leap y then 335 else 334)"
  by (simp_all add: eval_nat_numeral month_len_def)

lemma find_month_start:
  assumes "valid_date y m d"
  shows "find_month y 11 1 (month_start y m + d - 1) = (m, d)"
    and "0 \<le> month_start y m + d - 1" and "month_start y m + d - 1 < year_len y"
proof -
  from assms have m: "1 \<le> m" "m \<le> 12" and d: "1 \<le> d" "d \<le> month_len y m"
    by (simp_all add: valid_date_def)
  show "find_month y 11 1 (month_start y m + d - 1) = (m, d)"
    using month_cases [OF m] d
    by (elim disjE) (simp_all add: month_starts month_len_def eval_nat_numeral split: if_splits)
  show "0 \<le> month_start y m + d - 1" and "month_start y m + d - 1 < year_len y"
    using month_cases [OF m] d
    by (auto simp: month_starts month_len_def year_len_def split: if_splits)
qed

theorem civil_from_days_from_civil:
  assumes "valid_date y m d"
  shows "civil_from_days (days_from_civil y m d) = (y, m, d)"
proof -
  note fm = find_month_start [OF assms]
  have "year_of (days_from_civil y m d) = y"
    by (rule year_of_unique) (use fm(2,3) in \<open>simp_all add: days_from_civil_def days_before_Suc\<close>)
  moreover have "days_from_civil y m d - days_before y = month_start y m + d - 1"
    by (simp add: days_from_civil_def)
  ultimately show ?thesis using fm(1) by (simp add: civil_from_days_def Let_def)
qed

section \<open>RFC 3339\<close>

text \<open>The fields of an instant: \<open>Time.Date\<close> and \<open>Time.Clock\<close>.\<close>

definition time_days :: "time \<Rightarrow> int" where
  "time_days t = Unix t div 86400"

definition sec_of_day :: "time \<Rightarrow> int" where
  "sec_of_day t = Unix t mod 86400"

definition Date :: "time \<Rightarrow> int \<times> nat \<times> int" where
  "Date t = civil_from_days (time_days t + epoch_days)"

definition Clock :: "time \<Rightarrow> int \<times> int \<times> int" where
  "Clock t = (let s = sec_of_day t in (s div 3600, s mod 3600 div 60, s mod 60))"

text \<open>\<open>time.Date(y, m, d, hh, mm, ss, ns, UTC)\<close> for fields in range.\<close>

definition time_Date :: "int \<Rightarrow> nat \<Rightarrow> int \<Rightarrow> int \<Rightarrow> int \<Rightarrow> int \<Rightarrow> int \<Rightarrow> time" where
  "time_Date y m d hh mm ss ns =
     ((days_from_civil y m d - epoch_days) * 86400 + hh * 3600 + mm * 60 + ss) * Second + ns"

text \<open>\<open>appendInt(b, x, width)\<close>: decimal, padded with zeros on the left.\<close>

definition pad :: "nat \<Rightarrow> nat \<Rightarrow> string" where
  "pad w n = replicate (w - length (nat_str n)) CHR ''0'' @ nat_str n"

definition appendInt :: "int \<Rightarrow> nat \<Rightarrow> string" where
  "appendInt x w = (if x < 0 then ''-'' @ pad w (nat (- x)) else pad w (nat x))"

definition FormatRFC3339 :: "time \<Rightarrow> string" where
  "FormatRFC3339 t =
     (case Date t of (y, m, d) \<Rightarrow> case Clock t of (hh, mm, ss) \<Rightarrow>
        appendInt y 4 @ ''-'' @ pad 2 m @ ''-'' @ appendInt d 2 @ ''T'' @
        appendInt hh 2 @ '':'' @ appendInt mm 2 @ '':'' @ appendInt ss 2 @ ''Z'')"

text \<open>
  The scanner of \<open>time.Parse\<close> for the layout \<open>2006-01-02T15:04:05Z07:00\<close>. \<open>getnum\<close> reads two
  digits, or one where the layout element is not fixed (the hour). A fraction after the seconds is
  accepted although the layout has none, introduced by a period or a comma, of which at most nine
  digits count.
\<close>

type_synonym 'a scanner = "string \<Rightarrow> ('a \<times> string) option"

definition getnum :: "bool \<Rightarrow> nat scanner" where
  "getnum fixed s =
     (case s of
        [] \<Rightarrow> None
      | c # cs \<Rightarrow>
          if \<not> is_digit c then None
          else (case cs of
                  c2 # cs2 \<Rightarrow>
                    if is_digit c2 then Some (10 * digit_val c + digit_val c2, cs2)
                    else if fixed then None else Some (digit_val c, cs)
                | [] \<Rightarrow> if fixed then None else Some (digit_val c, cs)))"

definition skip :: "char \<Rightarrow> unit scanner" where
  "skip c s = (case s of x # xs \<Rightarrow> if x = c then Some ((), xs) else None | [] \<Rightarrow> None)"

definition scan_year :: "nat scanner" where
  "scan_year s =
     (if length s < 4 \<or> \<not> list_all is_digit (take 4 s) then None
      else Some (digits_val 0 (take 4 s), drop 4 s))"

definition scan_fraction :: "nat scanner" where
  "scan_fraction s =
     (case s of
        c # d # cs \<Rightarrow>
          if (c = CHR ''.'' \<or> c = CHR '','') \<and> is_digit d then
            (let ds = takeWhile is_digit (d # cs); ds9 = take 9 ds
             in Some (digits_val 0 ds9 * 10 ^ (9 - length ds9), dropWhile is_digit (d # cs)))
          else Some (0, s)
      | _ \<Rightarrow> Some (0, s))"

definition scan_zone :: "int scanner" where
  "scan_zone s =
     (case s of
        CHR ''Z'' # cs \<Rightarrow> Some (0, cs)
      | sign # h1 # h2 # colon # m1 # m2 # cs \<Rightarrow>
          if colon \<noteq> CHR '':'' then None
          else do {
            (hr, _) \<leftarrow> getnum True [h1, h2];
            (mm, _) \<leftarrow> getnum True [m1, m2];
            if 24 < hr \<or> 60 < mm then None
            else if sign = CHR ''+'' then Some (int (hr * 60 + mm) * 60, cs)
            else if sign = CHR ''-'' then Some (- (int (hr * 60 + mm) * 60), cs)
            else None
          }
      | _ \<Rightarrow> None)"

definition ParseRFC3339 :: "string \<Rightarrow> time option" where
  "ParseRFC3339 s0 = do {
     (y, s) \<leftarrow> scan_year s0;
     (_, s) \<leftarrow> skip CHR ''-'' s;
     (m, s) \<leftarrow> getnum True s;
     (_, s) \<leftarrow> skip CHR ''-'' s;
     (d, s) \<leftarrow> getnum True s;
     (_, s) \<leftarrow> skip CHR ''T'' s;
     (hh, s) \<leftarrow> getnum False s;
     (_, s) \<leftarrow> skip CHR '':'' s;
     (mm, s) \<leftarrow> getnum True s;
     (_, s) \<leftarrow> skip CHR '':'' s;
     (ss, s) \<leftarrow> getnum True s;
     (ns, s) \<leftarrow> scan_fraction s;
     (off, s) \<leftarrow> scan_zone s;
     if s \<noteq> [] \<or> m = 0 \<or> 12 < m \<or> 24 \<le> hh \<or> 60 \<le> mm \<or> 60 \<le> ss
        \<or> d < 1 \<or> month_len (int y) m < int d
     then None
     else Some (time_Date (int y) m (int d) (int hh) (int mm) (int ss) (int ns) - off * Second)
   }"

subsection \<open>Parsing inverts formatting\<close>

lemma nat_str_small: "n < 10 \<Longrightarrow> nat_str n = [digit_char n]"
  by (simp add: nat_str.simps)

lemma nat_str_large: "10 \<le> n \<Longrightarrow> nat_str n = nat_str (n div 10) @ [digit_char (n mod 10)]"
  by (subst nat_str.simps) simp

lemma digit_char_0: "digit_char 0 = CHR ''0''"
  by (simp add: digit_char_def char_of_def bit_0)

lemma pad2: "n < 100 \<Longrightarrow> pad 2 n = [digit_char (n div 10), digit_char (n mod 10)]"
  by (cases "n < 10") (simp_all add: pad_def nat_str_small nat_str_large digit_char_0 less_mult_imp_div_less numeral_2_eq_2)

lemma getnum_pad2: "n < 100 \<Longrightarrow> getnum f (pad 2 n @ s) = Some (n, s)"
  by (simp add: getnum_def pad2 less_mult_imp_div_less)

lemma digits_val_replicate0: "digits_val 0 (replicate k CHR ''0'' @ s) = digits_val 0 s"
  by (induction k) (simp_all add: digit_val_def)

lemma length_nat_str: "n < 10 ^ k \<Longrightarrow> 0 < k \<Longrightarrow> length (nat_str n) \<le> k"
proof (induction k arbitrary: n)
  case (Suc k)
  show ?case
  proof (cases "n < 10")
    case True
    then show ?thesis by (simp add: nat_str_small)
  next
    case False
    then have "0 < k" using Suc.prems by (cases k) auto
    moreover have "n div 10 < 10 ^ k" using Suc.prems by (simp add: less_mult_imp_div_less mult.commute)
    ultimately have "length (nat_str (n div 10)) \<le> k" using Suc.IH by blast
    with False show ?thesis by (simp add: nat_str_large)
  qed
qed simp

lemma scan_year_pad4:
  assumes "n < 10000"
  shows "scan_year (pad 4 n @ s) = Some (n, s)"
proof -
  have l: "length (pad 4 n) = 4"
    using length_nat_str [of n 4] assms by (simp add: pad_def)
  have "list_all is_digit (pad 4 n)"
    using nat_str_digits [of n] by (auto simp: pad_def list_all_iff is_digit_def)
  moreover have "digits_val 0 (pad 4 n) = n"
    by (simp add: pad_def digits_val_replicate0 digits_val_nat_str)
  ultimately show ?thesis using l by (simp add: scan_year_def)
qed

lemma skip_Cons [simp]: "skip c (c # s) = Some ((), s)"
  by (simp add: skip_def)

lemma scan_fraction_Z [simp]: "scan_fraction (CHR ''Z'' # s) = Some (0, CHR ''Z'' # s)"
  by (simp add: scan_fraction_def split: list.split)

lemma scan_zone_Z [simp]: "scan_zone (CHR ''Z'' # s) = Some (0, s)"
  by (simp add: scan_zone_def)

lemma find_month_valid:
  assumes "0 \<le> yd" "yd < year_len y"
  shows "case find_month y 11 1 yd of (m, d) \<Rightarrow> valid_date y m d \<and> month_start y m + d - 1 = yd"
  using assms
  by (simp add: eval_nat_numeral valid_date_def month_len_def year_len_def split: if_splits)

lemma Date_valid:
  assumes "Date t = (y, m, d)"
  shows "valid_date y m d" and "days_from_civil y m d = time_days t + epoch_days"
proof -
  let ?n = "time_days t + epoch_days"
  have y: "y = year_of ?n" and md: "find_month y 11 1 (?n - days_before y) = (m, d)"
    using assms by (auto simp: Date_def civil_from_days_def Let_def)
  have "0 \<le> ?n - days_before y" "?n - days_before y < year_len y"
    using year_of_bounds [of ?n] days_before_Suc [of y] by (simp_all add: y)
  from find_month_valid [OF this] md
  show "valid_date y m d" and "days_from_civil y m d = ?n"
    by (simp_all add: days_from_civil_def)
qed

lemma Clock_bounds:
  assumes "Clock t = (hh, mm, ss)"
  shows "0 \<le> hh" "hh < 24" "0 \<le> mm" "mm < 60" "0 \<le> ss" "ss < 60"
    and "hh * 3600 + mm * 60 + ss = sec_of_day t"
proof -
  define s where "s = sec_of_day t"
  have s: "0 \<le> s" "s < 86400" by (simp_all add: s_def sec_of_day_def)
  have e: "hh = s div 3600" "mm = s mod 3600 div 60" "ss = s mod 60"
    using assms by (auto simp: Clock_def s_def Let_def)
  have "s mod 60 = s mod 3600 mod 60" using mod_mod_cancel [of 60 3600 s] by simp
  then show "hh * 3600 + mm * 60 + ss = sec_of_day t"
    unfolding e s_def [symmetric] by (metis add.assoc div_mult_mod_eq)
  show "0 \<le> hh" "hh < 24" "0 \<le> mm" "mm < 60" "0 \<le> ss" "ss < 60"
    using s by (auto simp: e)
qed

theorem ParseRFC3339_FormatRFC3339:
  assumes "0 \<le> fst (Date t)" and "fst (Date t) \<le> 9999"
  shows "ParseRFC3339 (FormatRFC3339 t) = Some (time_Unix (Unix t))"
proof -
  obtain y m d where D: "Date t = (y, m, d)" by (cases "Date t") auto
  obtain hh mm ss where C: "Clock t = (hh, mm, ss)" by (cases "Clock t") auto
  note v = Date_valid [OF D] and c = Clock_bounds [OF C]
  have y: "0 \<le> y" "nat y < 10000" using assms D by auto
  have d: "1 \<le> d" "d < 100" "d \<le> month_len y m" and m: "1 \<le> m" "m \<le> 12"
    using v(1) by (auto simp: valid_date_def month_len_def split: if_splits)
  have F: "FormatRFC3339 t = pad 4 (nat y) @ CHR ''-'' # pad 2 m @ CHR ''-'' # pad 2 (nat d) @ CHR ''T'' #
      pad 2 (nat hh) @ CHR '':'' # pad 2 (nat mm) @ CHR '':'' # pad 2 (nat ss) @ ''Z''"
    using D C y d c by (simp add: FormatRFC3339_def appendInt_def)
  have "ParseRFC3339 (FormatRFC3339 t) = Some (time_Date y m d hh mm ss 0)"
    unfolding F ParseRFC3339_def
    using y d m c by (simp add: scan_year_pad4 getnum_pad2 not_le nat_less_iff)
  moreover have "time_Date y m d hh mm ss 0 = time_Unix (Unix t)"
  proof -
    have "(days_from_civil y m d - epoch_days) * 86400 + (hh * 3600 + mm * 60 + ss) = Unix t"
      by (simp only: v(2) c(7) time_days_def sec_of_day_def add_diff_cancel_right' div_mult_mod_eq)
    then show ?thesis by (simp add: time_Date_def time_Unix_def add.assoc)
  qed
  ultimately show ?thesis by simp
qed

text \<open>\<open>time.Date(y, time.January, 1, 0, 0, 0, 0, time.UTC)\<close>.\<close>

definition new_year :: "int \<Rightarrow> time" where
  "new_year y = time_Date y 1 1 0 0 0 0"

lemma pad_ascii: "list_all is_ascii (pad w n)"
  using nat_str_digits [of n] is_digit_graphic is_ascii_graphic
  by (auto simp: pad_def list_all_iff is_ascii_def)

lemma appendInt_ascii: "list_all is_ascii (appendInt x w)"
  using pad_ascii by (auto simp: appendInt_def is_ascii_def)

lemma FormatRFC3339_ascii: "list_all is_ascii (FormatRFC3339 t)"
  by (auto simp: FormatRFC3339_def pad_ascii appendInt_ascii is_ascii_def split: prod.splits)

end
