(* ===== verification/Broker_Types.thy ===== *)
theory Broker_Types
  imports Go_Time
begin

text \<open>
  The data of the broker's domain layer (src/internal/broker/types.go, runes.go, id.go and the
  context types of preamble.go): requests, responses, audit events, certificates, the records the
  abstraction interfaces exchange, and the string constants of the wire format. A Go \<open>map\<close> is an
  association list whose order is the (unspecified) iteration order of the Go runtime.
\<close>

section \<open>Dynamic values and machine integers\<close>

text \<open>
  \<open>float64\<close>: a finite value is \<open>mantissa * 2 ^ exponent\<close>. \<open>any\<close> covers the dynamic types that
  attribute and claim values take: what JSON and DynamoDB decoding produce, and \<open>int64\<close>.
\<close>

datatype float64 = NaN | PosInf | NegInf | Finite int int

datatype any =
    VNil
  | VString string
  | VBool bool
  | VInt64 int
  | VFloat float64
  | VList "any list"
  | VStrings "string list"
  | VObject "(string \<times> any) list"

text \<open>The conversions \<open>int32(x)\<close>, \<open>int64(x)\<close> keep the low bits, read as two's complement.\<close>

definition int32 :: "int \<Rightarrow> int" where
  "int32 x = signed_take_bit 31 x"

definition int64 :: "int \<Rightarrow> int" where
  "int64 x = signed_take_bit 63 x"

lemma int64_id: "- (2 ^ 63) \<le> x \<Longrightarrow> x < 2 ^ 63 \<Longrightarrow> int64 x = x"
  unfolding int64_def by (rule signed_take_bit_int_eq_self) simp_all

text \<open>\<open>time.Unix(ts, 0)\<close> for an arbitrary \<open>int64\<close>: seconds are kept since year 1, in 64 bits.\<close>

definition time_Unix64 :: "int \<Rightarrow> time" where
  "time_Unix64 sec = time_Unix (int64 (sec + 62135596800) - 62135596800)"

section \<open>Constants\<close>

definition ModeOperator :: string where "ModeOperator = ''operator''"
definition ModeTimefix :: string where "ModeTimefix = ''timefix''"
definition ModeTunnel :: string where "ModeTunnel = ''tunnel''"

definition PrincipalTypeOperator :: string where "PrincipalTypeOperator = ''operator''"
definition PrincipalTypeTimefix :: string where "PrincipalTypeTimefix = ''timefix''"

definition EventCertAuthorized :: string where "EventCertAuthorized = ''ssh_cert_authorized''"
definition EventCertIssued :: string where "EventCertIssued = ''ssh_cert_issued''"
definition EventCertDenied :: string where "EventCertDenied = ''ssh_cert_denied''"
definition EventTimePayloadAuthorized :: string where "EventTimePayloadAuthorized = ''time_payload_authorized''"
definition EventTimePayloadIssued :: string where "EventTimePayloadIssued = ''time_payload_issued''"
definition EventTimePayloadDenied :: string where "EventTimePayloadDenied = ''time_payload_denied''"
definition EventTunnelAuthorized :: string where "EventTunnelAuthorized = ''tunnel_authorized''"
definition EventTunnelIssued :: string where "EventTunnelIssued = ''tunnel_issued''"
definition EventTunnelDenied :: string where "EventTunnelDenied = ''tunnel_denied''"

lemmas mode_defs = ModeOperator_def ModeTimefix_def ModeTunnel_def
  PrincipalTypeOperator_def PrincipalTypeTimefix_def

lemmas event_defs = EventCertAuthorized_def EventCertIssued_def EventCertDenied_def
  EventTimePayloadAuthorized_def EventTimePayloadIssued_def EventTimePayloadDenied_def
  EventTunnelAuthorized_def EventTunnelIssued_def EventTunnelDenied_def

definition DenyReasonMissingBearerToken :: string where
  "DenyReasonMissingBearerToken = ''missing_bearer_token''"
definition DenyReasonMalformedRequestBody :: string where
  "DenyReasonMalformedRequestBody = ''malformed_request_body''"
definition DenyReasonInvalidPrincipalType :: string where
  "DenyReasonInvalidPrincipalType = ''invalid_principal_type''"
definition DenyReasonInvalidAccessToken :: string where
  "DenyReasonInvalidAccessToken = ''invalid_access_token''"
definition DenyReasonMissingDeviceID :: string where
  "DenyReasonMissingDeviceID = ''missing_device_id''"
definition DenyReasonMissingPublicKey :: string where
  "DenyReasonMissingPublicKey = ''missing_public_key''"
definition DenyReasonInvalidPublicKey :: string where
  "DenyReasonInvalidPublicKey = ''invalid_public_key''"
definition DenyReasonRateLimitExceeded :: string where
  "DenyReasonRateLimitExceeded = ''rate_limit_exceeded''"
definition DenyReasonDeviceNotFound :: string where
  "DenyReasonDeviceNotFound = ''device_not_found''"
definition DenyReasonRegistryUnavailable :: string where
  "DenyReasonRegistryUnavailable = ''registry_unavailable''"
definition DenyReasonAuthorizationDenied :: string where
  "DenyReasonAuthorizationDenied = ''authorization_denied''"
definition DenyReasonPolicyUnavailable :: string where
  "DenyReasonPolicyUnavailable = ''policy_unavailable''"
definition DenyReasonSignerFailure :: string where
  "DenyReasonSignerFailure = ''signer_failure''"
definition DenyReasonMissingNonce :: string where
  "DenyReasonMissingNonce = ''missing_nonce''"
definition DenyReasonInvalidNonce :: string where
  "DenyReasonInvalidNonce = ''invalid_nonce''"
definition DenyReasonMaxLifetimeExceedsCeiling :: string where
  "DenyReasonMaxLifetimeExceedsCeiling = ''max_lifetime_exceeds_ceiling''"
definition DenyReasonTunnelingUnavailable :: string where
  "DenyReasonTunnelingUnavailable = ''tunneling_unavailable''"
definition DenyReasonTunnelLimitExceeded :: string where
  "DenyReasonTunnelLimitExceeded = ''tunnel_limit_exceeded''"
definition DenyReasonTunnelTargetMissing :: string where
  "DenyReasonTunnelTargetMissing = ''tunnel_target_missing''"
definition DenyReasonTunnelTargetInvalid :: string where
  "DenyReasonTunnelTargetInvalid = ''tunnel_target_invalid''"
definition DenyReasonTunnelRoleNotAllowed :: string where
  "DenyReasonTunnelRoleNotAllowed = ''tunnel_role_not_allowed''"
definition DenyReasonTunnelTargetAccessDenied :: string where
  "DenyReasonTunnelTargetAccessDenied = ''tunnel_target_access_denied''"

definition TunnelRoleARNAttribute :: string where "TunnelRoleARNAttribute = ''tunnel_role_arn''"
definition TunnelRegionAttribute :: string where "TunnelRegionAttribute = ''tunnel_region''"

definition quoted :: "string \<Rightarrow> string" where
  "quoted s = CHR 0x22 # s @ [CHR 0x22]"

section \<open>Records\<close>

record ID =
  id_UUID :: string
  id_Serial :: "64 word"

record HandlerDenial =
  hd_DeniedReason :: string
  hd_DeviceID :: string
  hd_SourceIP :: string
  hd_UserAgent :: string

record CallerClaims =
  cl_Subject :: string
  cl_Email :: string
  cl_Groups :: "string list"
  cl_Class :: string
  cl_ClientID :: string
  cl_Raw :: "(string \<times> any) list"

record DeviceRecord =
  dev_Serial :: string
  dev_FriendlyID :: string
  dev_Attributes :: "(string \<times> any) list"

record PolicyRequest =
  pol_AccessToken :: string
  pol_Caller :: CallerClaims
  pol_Device :: DeviceRecord
  pol_Mode :: string
  pol_SourceIP :: string
  pol_UserAgent :: string
  pol_RequestID :: string
  pol_Timestamp :: time
  pol_Context :: "(string \<times> any) list"

record RateLimitRequest =
  rl_Caller :: CallerClaims
  rl_Device :: DeviceRecord
  rl_Mode :: string
  rl_SourceIP :: string
  rl_UserAgent :: string
  rl_RequestID :: string

record AuditEvent =
  ev_Timestamp :: time
  ev_Event :: string
  ev_DeniedReason :: string
  ev_EngineerSub :: string
  ev_EngineerEmail :: string
  ev_EngineerGroups :: "string list"
  ev_PrincipalClass :: string
  ev_ClientID :: string
  ev_DeviceSerial :: string
  ev_DeviceIDUsed :: string
  ev_PrincipalType :: string
  ev_CertSerial :: string
  ev_JTI :: string
  ev_ValidAfter :: int
  ev_ValidBefore :: int
  ev_IssuedAt :: int
  ev_SourceIP :: string
  ev_UserAgent :: string
  ev_TunnelRoleARN :: string
  ev_TunnelRegion :: string

text \<open>The zero value \<open>time.Time{}\<close> (1 January of year 1) and the zero value \<open>AuditEvent{}\<close>.\<close>

definition zero_time :: time where
  "zero_time = time_Date 1 1 1 0 0 0 0"

definition empty_event :: AuditEvent where
  "empty_event =
     \<lparr>ev_Timestamp = zero_time, ev_Event = [], ev_DeniedReason = [], ev_EngineerSub = [],
      ev_EngineerEmail = [], ev_EngineerGroups = [], ev_PrincipalClass = [], ev_ClientID = [],
      ev_DeviceSerial = [], ev_DeviceIDUsed = [], ev_PrincipalType = [], ev_CertSerial = [],
      ev_JTI = [], ev_ValidAfter = 0, ev_ValidBefore = 0, ev_IssuedAt = 0, ev_SourceIP = [],
      ev_UserAgent = [], ev_TunnelRoleARN = [], ev_TunnelRegion = []\<rparr>"

record SSHCertIssueRequest =
  scr_AccessToken :: string
  scr_DeviceID :: string
  scr_PrincipalType :: string
  scr_PublicKey :: string
  scr_MaxLifetimeMinutes :: int
  scr_UserAgent :: string
  scr_RemoteAddr :: string

record SSHCertIssueResponse =
  scp_SSHCert :: string
  scp_CAPubkeyFingerprint :: string

record TunnelTarget =
  tt_RoleARN :: string
  tt_Region :: string

record TunnelOpenInternal =
  toi_ThingName :: string
  toi_Services :: "string list"
  toi_MaxLifetimeMinutes :: int
  toi_Target :: "TunnelTarget option"

record TunnelOpenResult =
  tor_TunnelID :: string
  tor_SourceAccessToken :: string
  tor_Region :: string

record TunnelOpenRequest =
  tun_AccessToken :: string
  tun_DeviceID :: string
  tun_MaxLifetimeMinutes :: int
  tun_UserAgent :: string
  tun_RemoteAddr :: string

record TunnelOpenResponse =
  tup_TunnelID :: string
  tup_SourceAccessToken :: string
  tup_Region :: string
  tup_MaxLifetimeMinutes :: int

text \<open>
  The types of golang.org/x/crypto/ssh that the broker touches. A parsed \<open>ssh.PublicKey\<close> is a bare
  key or an \<open>*ssh.Certificate\<close>; \<open>Permissions\<close> is inlined in the certificate; \<open>crt_Signature\<close> is
  what \<open>SignCert\<close> fills in.
\<close>

datatype PublicKey = BareKey string | CertKey string

definition UserCert :: "32 word" where "UserCert = 1"

record Certificate =
  crt_Key :: PublicKey
  crt_Serial :: "64 word"
  crt_CertType :: "32 word"
  crt_KeyId :: string
  crt_ValidPrincipals :: "string list"
  crt_ValidAfter :: "64 word"
  crt_ValidBefore :: "64 word"
  crt_CriticalOptions :: "(string \<times> string) list"
  crt_Extensions :: "(string \<times> string) list"
  crt_Signature :: string

section \<open>TruncateRunes\<close>

definition TruncateRunes :: "string \<Rightarrow> nat \<Rightarrow> string" where
  "TruncateRunes s limit =
     (if RuneCountInString s \<le> limit then s else string_of_runes (take limit (runes s)))"

lemma runes_TruncateRunes: "runes (TruncateRunes s limit) = take limit (runes s)"
proof (cases "RuneCountInString s \<le> limit")
  case True
  then show ?thesis by (simp add: TruncateRunes_def RuneCountInString_def)
next
  case False
  have "runes (string_of_runes (take limit (runes s))) = take limit (runes s)"
    by (rule runes_string_of_runes) (meson in_set_takeD runes_valid)
  with False show ?thesis by (simp add: TruncateRunes_def)
qed

text \<open>
  \<open>TruncateRunes\<close> caps a string at \<open>limit\<close> code points: the result has the first \<open>limit\<close> runes
  of the input and nothing else, so its rune count is the minimum of the two; a string within the
  limit is returned byte for byte, and the operation is idempotent.
\<close>

theorem TruncateRunes_correct:
  "RuneCountInString (TruncateRunes s limit) = min (RuneCountInString s) limit
   \<and> runes (TruncateRunes s limit) = take limit (runes s)
   \<and> TruncateRunes (TruncateRunes s limit) limit = TruncateRunes s limit"
proof -
  have "RuneCountInString (TruncateRunes s limit) = min (RuneCountInString s) limit"
    by (simp add: RuneCountInString_def runes_TruncateRunes)
  then show ?thesis
    using runes_TruncateRunes by (simp add: TruncateRunes_def [of "TruncateRunes s limit"])
qed

end
