(* ===== verification/Go_JSON.thy ===== *)
theory Go_JSON
  imports Go_Strings
begin

text \<open>
  Go's package \<open>encoding/json\<close>, as far as the repository uses it: \<open>json.Marshal\<close> writes a value in
  compact form with the escapes of Go 1.24 (HTML characters, U+2028, U+2029 and invalid UTF-8
  included), and the decoder reads any RFC 8259 text. A number keeps its literal, because
  the conversion depends on the type of the target. The nesting limit of 10,000 levels of the Go
  scanner is not modelled. The main law is that decoding inverts encoding.
\<close>

section \<open>Values and encoding\<close>

datatype json =
    JNull
  | JBool bool
  | JNumber string
  | JString string
  | JArray "json list"
  | JObject "(string \<times> json) list"

abbreviation quote_char :: char where "quote_char \<equiv> CHR 0x22"
abbreviation backslash :: char where "backslash \<equiv> CHR 0x5C"

definition hex_lower :: "nat \<Rightarrow> char" where
  "hex_lower n = (if n < 10 then char_of (48 + n) else char_of (87 + n))"

definition hex4 :: "nat \<Rightarrow> string" where
  "hex4 n = [hex_lower (n div 4096 mod 16), hex_lower (n div 256 mod 16), hex_lower (n div 16 mod 16), hex_lower (n mod 16)]"

text \<open>\<open>escape_rune r n\<close>: how a rune that was decoded from \<open>n\<close> bytes is written.\<close>

definition escape_rune :: "nat \<Rightarrow> nat \<Rightarrow> string" where
  "escape_rune r n =
     (if r = 0x22 then [backslash, quote_char]
      else if r = 0x5C then [backslash, backslash]
      else if r = 0x08 then [backslash, CHR ''b'']
      else if r = 0x0C then [backslash, CHR ''f'']
      else if r = 0x0A then [backslash, CHR ''n'']
      else if r = 0x0D then [backslash, CHR ''r'']
      else if r = 0x09 then [backslash, CHR ''t'']
      else if r < 0x20 \<or> r = 0x3C \<or> r = 0x3E \<or> r = 0x26 \<or> r = 0x2028 \<or> r = 0x2029 \<or> r = RuneError \<and> n = 1
        then backslash # CHR ''u'' # hex4 r
      else EncodeRune r)"

function json_escape :: "string \<Rightarrow> string" where
  "json_escape s =
     (if s = [] then []
      else escape_rune (fst (DecodeRune s)) (snd (DecodeRune s)) @ json_escape (drop (snd (DecodeRune s)) s))"
  by pat_completeness auto
termination
proof (relation "measure length")
  fix s :: string
  assume "s \<noteq> []"
  with DecodeRune_pos [of s] show "(drop (snd (DecodeRune s)) s, s) \<in> measure length"
    by (cases s) auto
qed simp

declare json_escape.simps [simp del]

definition json_quote :: "string \<Rightarrow> string" where
  "json_quote s = quote_char # json_escape s @ [quote_char]"

fun json_print :: "json \<Rightarrow> string"
  and json_print_elems :: "json list \<Rightarrow> string"
  and json_print_members :: "(string \<times> json) list \<Rightarrow> string" where
  "json_print JNull = ''null''"
| "json_print (JBool b) = (if b then ''true'' else ''false'')"
| "json_print (JNumber l) = l"
| "json_print (JString s) = json_quote s"
| "json_print (JArray vs) = CHR ''['' # json_print_elems vs @ '']''"
| "json_print (JObject ms) = CHR ''{'' # json_print_members ms @ ''}''"
| "json_print_elems [] = []"
| "json_print_elems (v # vs) = json_print v @ (if vs = [] then [] else CHR '','' # json_print_elems vs)"
| "json_print_members [] = []"
| "json_print_members ((k, v) # ms) =
     json_quote k @ CHR '':'' # json_print v @ (if ms = [] then [] else CHR '','' # json_print_members ms)"

section \<open>Decoding\<close>

definition json_ws :: "char \<Rightarrow> bool" where
  "json_ws c \<longleftrightarrow> c \<in> {CHR 0x20, CHR 0x09, CHR 0x0A, CHR 0x0D}"

definition skip_ws :: "string \<Rightarrow> string" where
  "skip_ws s = dropWhile json_ws s"

definition hex_val :: "char \<Rightarrow> nat option" where
  "hex_val c =
     (let n = of_char c in
      if 48 \<le> n \<and> n \<le> 57 then Some (n - 48)
      else if 97 \<le> n \<and> n \<le> 102 then Some (n - 87)
      else if 65 \<le> n \<and> n \<le> 70 then Some (n - 55)
      else None)"

fun getu4 :: "string \<Rightarrow> (nat \<times> string) option" where
  "getu4 (a # b # c # d # rest) =
     (case (hex_val a, hex_val b, hex_val c, hex_val d) of
        (Some w, Some x, Some y, Some z) \<Rightarrow> Some (w * 4096 + x * 256 + y * 16 + z, rest)
      | _ \<Rightarrow> None)"
| "getu4 _ = None"

text \<open>\<open>\uXXXX\<close>: two escapes that form a surrogate pair are one rune, a lone surrogate is U+FFFD.\<close>

definition unescape_u :: "string \<Rightarrow> (nat \<times> string) option" where
  "unescape_u s =
     (case getu4 s of
        None \<Rightarrow> None
      | Some (r, rest) \<Rightarrow>
          if r < 0xD800 \<or> 0xDFFF < r then Some (r, rest)
          else (case (if r < 0xDC00 \<and> prefix (backslash # ''u'') rest then getu4 (drop 2 rest) else None) of
                  Some (r1, rest1) \<Rightarrow>
                    if 0xDC00 \<le> r1 \<and> r1 \<le> 0xDFFF
                    then Some ((r - 0xD800) * 1024 + (r1 - 0xDC00) + 0x10000, rest1)
                    else Some (RuneError, rest)
                | None \<Rightarrow> Some (RuneError, rest)))"

definition unescape :: "string \<Rightarrow> (nat \<times> string) option" where
  "unescape s =
     (case s of
        [] \<Rightarrow> None
      | c # cs \<Rightarrow>
          if c = quote_char \<or> c = backslash \<or> c = CHR ''/'' then Some (of_char c, cs)
          else if c = CHR ''b'' then Some (0x08, cs)
          else if c = CHR ''f'' then Some (0x0C, cs)
          else if c = CHR ''n'' then Some (0x0A, cs)
          else if c = CHR ''r'' then Some (0x0D, cs)
          else if c = CHR ''t'' then Some (0x09, cs)
          else if c = CHR ''u'' then unescape_u cs
          else None)"

lemma getu4_length: "getu4 s = Some (r, rest) \<Longrightarrow> length rest < length s"
  by (induction s rule: getu4.induct) (auto split: option.splits)

lemma unescape_u_length: "unescape_u s = Some (r, rest) \<Longrightarrow> length rest < length s"
  by (auto simp: unescape_u_def split: option.splits if_splits dest!: getu4_length)

lemma unescape_length: "unescape s = Some (r, rest) \<Longrightarrow> length rest < length s"
  by (auto simp: unescape_def split: list.splits if_splits dest!: unescape_u_length)

text \<open>The rest of a string literal after its opening quote: the decoded bytes and what follows.\<close>

function json_string :: "string \<Rightarrow> (string \<times> string) option" where
  "json_string s =
     (case s of
        [] \<Rightarrow> None
      | c # cs \<Rightarrow>
          if c = quote_char then Some ([], cs)
          else if c = backslash then
            (case unescape cs of
               None \<Rightarrow> None
             | Some (r, rest) \<Rightarrow> map_option (apfst (append (EncodeRune r))) (json_string rest))
          else if of_char c < (0x20 :: nat) then None
          else map_option (apfst (append (EncodeRune (fst (DecodeRune s)))))
                 (json_string (drop (snd (DecodeRune s)) s)))"
  by pat_completeness auto
termination
proof (relation "measure length", goal_cases)
  case (2 s c cs x r rest)
  with unescape_length [of cs r rest] show ?case by simp
next
  case (3 s c cs)
  with DecodeRune_pos [of s] show ?case by simp
qed simp

declare json_string.simps [simp del]

lemma json_string_length: "json_string s = Some (t, rest) \<Longrightarrow> length rest < length s"
proof (induction s arbitrary: t rest rule: json_string.induct)
  case (1 s)
  show ?case
  proof (cases s)
    case (Cons c cs)
    from "1.prems" Cons consider "rest = cs"
      | r u t' where "c \<noteq> quote_char" "c = backslash" "unescape cs = Some (r, u)" "json_string u = Some (t', rest)"
      | t' where "c \<noteq> quote_char" "c \<noteq> backslash" "\<not> of_char c < (0x20 :: nat)"
          "json_string (drop (snd (DecodeRune s)) s) = Some (t', rest)"
      by (auto simp: json_string.simps [of "c # cs"] split: if_splits option.splits)
    then show ?thesis
    proof cases
      case 1
      with Cons show ?thesis by simp
    next
      case 2
      from "1.IH"(1) [OF Cons 2(1,2,3) refl 2(4)] unescape_length [OF 2(3)] Cons show ?thesis by simp
    next
      case 3
      from "1.IH"(2) [OF Cons 3(1-3) 3(4)] show ?thesis by simp
    qed
  qed (use "1.prems" in \<open>simp add: json_string.simps\<close>)
qed

text \<open>Number literals.\<close>

definition scan_digits :: "string \<Rightarrow> (string \<times> string) option" where
  "scan_digits s = (if takeWhile is_digit s = [] then None else Some (takeWhile is_digit s, dropWhile is_digit s))"

definition scan_int :: "string \<Rightarrow> (string \<times> string) option" where
  "scan_int s =
     (case s of
        [] \<Rightarrow> None
      | c # cs \<Rightarrow> if c = CHR ''0'' then Some (''0'', cs) else scan_digits s)"

definition scan_frac :: "string \<Rightarrow> (string \<times> string) option" where
  "scan_frac s =
     (case s of
        c # cs \<Rightarrow> if c = CHR ''.'' then map_option (apfst (Cons c)) (scan_digits cs) else Some ([], s)
      | [] \<Rightarrow> Some ([], s))"

definition scan_exp :: "string \<Rightarrow> (string \<times> string) option" where
  "scan_exp s =
     (case s of
        c # cs \<Rightarrow>
          if c = CHR ''e'' \<or> c = CHR ''E'' then
            (case cs of
               d # ds \<Rightarrow>
                 if d = CHR ''+'' \<or> d = CHR ''-'' then map_option (apfst (\<lambda>x. c # d # x)) (scan_digits ds)
                 else map_option (apfst (Cons c)) (scan_digits cs)
             | [] \<Rightarrow> None)
          else Some ([], s)
      | [] \<Rightarrow> Some ([], s))"

definition json_number :: "string \<Rightarrow> (string \<times> string) option" where
  "json_number s =
     (let sign = (if s \<noteq> [] \<and> hd s = CHR ''-'' then ''-'' else [])
      in case scan_int (drop (length sign) s) of
           None \<Rightarrow> None
         | Some (i, s1) \<Rightarrow>
             (case scan_frac s1 of
                None \<Rightarrow> None
              | Some (f, s2) \<Rightarrow>
                  (case scan_exp s2 of
                     None \<Rightarrow> None
                   | Some (e, s3) \<Rightarrow> Some (sign @ i @ f @ e, s3))))"

lemma skip_ws_length: "length (skip_ws s) \<le> length s"
  by (simp add: skip_ws_def length_dropWhile_le)

text \<open>
  Values. The comparisons of lengths hold in every run (each parser consumes input); they are what
  makes the recursion visibly terminating.
\<close>

function json_value :: "string \<Rightarrow> (json \<times> string) option"
  and json_elems :: "string \<Rightarrow> (json list \<times> string) option"
  and json_members :: "string \<Rightarrow> ((string \<times> json) list \<times> string) option" where
  "json_value s =
     (case skip_ws s of
        [] \<Rightarrow> None
      | c # cs \<Rightarrow>
          if c = quote_char then map_option (apfst JString) (json_string cs)
          else if c = CHR ''['' then
            (if prefix '']'' (skip_ws cs) then Some (JArray [], tl (skip_ws cs))
             else map_option (apfst JArray) (json_elems cs))
          else if c = CHR ''{'' then
            (if prefix ''}'' (skip_ws cs) then Some (JObject [], tl (skip_ws cs))
             else map_option (apfst JObject) (json_members cs))
          else if prefix ''true'' (c # cs) then Some (JBool True, drop 3 cs)
          else if prefix ''false'' (c # cs) then Some (JBool False, drop 4 cs)
          else if prefix ''null'' (c # cs) then Some (JNull, drop 3 cs)
          else map_option (apfst JNumber) (json_number (c # cs)))"
| "json_elems s =
     (case json_value s of
        None \<Rightarrow> None
      | Some (v, r) \<Rightarrow>
          (case skip_ws r of
             [] \<Rightarrow> None
           | c # r1 \<Rightarrow>
               if c = CHR '']'' then Some ([v], r1)
               else if c = CHR '','' \<and> length r1 < length s then map_option (apfst (Cons v)) (json_elems r1)
               else None))"
| "json_members s =
     (case skip_ws s of
        [] \<Rightarrow> None
      | q # cs \<Rightarrow>
          if q \<noteq> quote_char then None
          else (case json_string cs of
                  None \<Rightarrow> None
                | Some (k, r) \<Rightarrow>
                    (case skip_ws r of
                       [] \<Rightarrow> None
                     | c # r1 \<Rightarrow>
                         if c \<noteq> CHR '':'' then None
                         else (case json_value r1 of
                                 None \<Rightarrow> None
                               | Some (v, r2) \<Rightarrow>
                                   (case skip_ws r2 of
                                      [] \<Rightarrow> None
                                    | d # r3 \<Rightarrow>
                                        if d = CHR ''}'' then Some ([(k, v)], r3)
                                        else if d = CHR '','' \<and> length r3 < length s
                                          then map_option (apfst (Cons (k, v))) (json_members r3)
                                        else None)))))"
  by pat_completeness auto
termination
proof (relation "measure (\<lambda>x. case x of Inl s \<Rightarrow> 2 * length s | Inr (Inl s) \<Rightarrow> 2 * length s + 1 | Inr (Inr s) \<Rightarrow> 2 * length s + 1)",
    goal_cases)
  case (2 s c cs)
  with skip_ws_length [of s] show ?case by simp
next
  case (3 s c cs)
  with skip_ws_length [of s] show ?case by simp
next
  case (6 s q cs x k r c r1)
  with skip_ws_length [of s] skip_ws_length [of r] json_string_length [of cs k r] show ?case by simp
qed auto

declare json_value.simps [simp del] json_elems.simps [simp del] json_members.simps [simp del]

section \<open>Decoding inverts encoding\<close>

lemma hex_val_lower: "n < 16 \<Longrightarrow> hex_val (hex_lower n) = Some n"
  by (auto simp: hex_val_def hex_lower_def Let_def take_bit_eq_mod)

lemma hex_digits_sum:
  fixes n :: nat
  assumes "n < 65536"
  shows "n div 4096 mod 16 * 4096 + n div 256 mod 16 * 256 + n div 16 mod 16 * 16 + n mod 16 = n"
proof -
  have "n div 16 div 16 = n div 256" "n div 256 div 16 = n div 4096"
    by (simp_all add: div_mult2_eq [symmetric])
  then have "n mod 16 + 16 * (n div 16) = n" "n div 16 mod 16 + 16 * (n div 256) = n div 16"
    "n div 256 mod 16 + 16 * (n div 4096) = n div 256" "n div 4096 mod 16 = n div 4096"
    using assms mod_mult_div_eq [of n 16] mod_mult_div_eq [of "n div 16" 16] mod_mult_div_eq [of "n div 256" 16]
    by (simp_all add: less_mult_imp_div_less)
  then show ?thesis by linarith
qed

lemma getu4_hex4: "n < 65536 \<Longrightarrow> getu4 (hex4 n @ rest) = Some (n, rest)"
  using hex_digits_sum [of n] by (simp add: hex4_def hex_val_lower)

lemma json_string_escape:
  "unescape s = Some (r, rest) \<Longrightarrow>
     json_string (backslash # s) = map_option (apfst (append (EncodeRune r))) (json_string rest)"
  by (simp add: json_string.simps [of "backslash # s"])

lemma hd_EncodeRune:
  assumes "valid_rune r"
  shows "(of_char (hd (EncodeRune r)) :: nat) = (if r < 0x80 then r else hd (enc_valid r))"
    and "\<not> r < 0x80 \<Longrightarrow> 0xC0 \<le> (of_char (hd (EncodeRune r)) :: nat)"
proof -
  from map_of_char_EncodeRune [OF assms] have hd: "(of_char (hd (EncodeRune r)) :: nat) = hd (enc_valid r)"
    by (metis EncodeRune_nonempty list.map_sel(1))
  then show "(of_char (hd (EncodeRune r)) :: nat) = (if r < 0x80 then r else hd (enc_valid r))"
    by (simp add: enc_valid_def)
  show "0xC0 \<le> (of_char (hd (EncodeRune r)) :: nat)" if "\<not> r < 0x80"
    using that by (simp add: hd enc_valid_def)
qed

lemma json_string_raw:
  assumes "valid_rune r" and "0x20 \<le> r" and "r \<noteq> 0x22" and "r \<noteq> 0x5C"
  shows "json_string (EncodeRune r @ t) = map_option (apfst (append (EncodeRune r))) (json_string t)"
proof -
  obtain c cs where c: "EncodeRune r = c # cs" by (cases "EncodeRune r") auto
  have "(of_char c :: nat) \<noteq> 0x22" "(of_char c :: nat) \<noteq> 0x5C" "\<not> of_char c < (0x20 :: nat)"
    using hd_EncodeRune [OF assms(1)] assms(2-) by (auto simp: c split: if_splits)
  then have "c \<noteq> quote_char" "c \<noteq> backslash" "\<not> of_char c < (0x20 :: nat)" by auto
  with DecodeRune_EncodeRune [OF assms(1), of t] c show ?thesis
    by (simp add: json_string.simps [of "c # cs @ t"])
qed

lemma json_string_u:
  assumes "r < 0xD800 \<or> 0xDFFF < r" and "r < 65536"
  shows "json_string (backslash # CHR ''u'' # hex4 r @ t) = map_option (apfst (append (EncodeRune r))) (json_string t)"
  by (rule json_string_escape) (use assms in \<open>auto simp: unescape_def unescape_u_def getu4_hex4\<close>)

lemma json_string_escape_rune:
  assumes "valid_rune r"
  shows "json_string (escape_rune r n @ t) = map_option (apfst (append (EncodeRune r))) (json_string t)"
proof -
  let ?short = "r \<in> {0x22, 0x5C, 0x08, 0x0C, 0x0A, 0x0D, 0x09}"
  let ?long = "r < 0x20 \<or> r = 0x3C \<or> r = 0x3E \<or> r = 0x26 \<or> r = 0x2028 \<or> r = 0x2029 \<or> r = RuneError \<and> n = 1"
  show ?thesis
  proof (cases ?short)
    case True
    then show ?thesis
      by (elim insertE emptyE) (simp_all add: escape_rune_def unescape_def json_string.simps [of "backslash # x # t" for x])
  next
    case short: False
    show ?thesis
    proof (cases ?long)
      case True
      with short have "escape_rune r n = backslash # CHR ''u'' # hex4 r" by (simp add: escape_rune_def)
      moreover from True have "r < 0xD800 \<or> 0xDFFF < r" "r < 65536" by (auto simp: RuneError_def)
      ultimately show ?thesis using json_string_u by simp
    next
      case False
      with short have "escape_rune r n = EncodeRune r" by (auto simp: escape_rune_def)
      with short False assms show ?thesis by (simp add: json_string_raw)
    qed
  qed
qed

text \<open>A Go string as the decoder returns it: invalid UTF-8 is replaced, valid text is unchanged.\<close>

definition coerce_utf8 :: "string \<Rightarrow> string" where
  "coerce_utf8 s = string_of_runes (runes s)"

lemma json_string_json_escape: "json_string (json_escape s @ quote_char # rest) = Some (coerce_utf8 s, rest)"
proof (induction s rule: json_escape.induct)
  case (1 s)
  show ?case
  proof (cases "s = []")
    case True
    then show ?thesis
      by (simp add: json_escape.simps json_string.simps [of "quote_char # rest"] coerce_utf8_def string_of_runes_def runes.simps)
  next
    case False
    with 1 have "json_string (json_escape (drop (snd (DecodeRune s)) s) @ quote_char # rest)
        = Some (coerce_utf8 (drop (snd (DecodeRune s)) s), rest)" by blast
    with False show ?thesis
      by (simp add: json_escape.simps [of s] json_string_escape_rune DecodeRune_valid coerce_utf8_def
          string_of_runes_def runes.simps [of s])
  qed
qed

lemma EncodeRune_ascii: "is_ascii c \<Longrightarrow> EncodeRune (of_char c) = [c]"
  by (simp add: is_ascii_def EncodeRune_def enc_valid_def valid_rune_def)

lemma coerce_utf8_ascii: "list_all is_ascii s \<Longrightarrow> coerce_utf8 s = s"
proof (induction s)
  case Nil
  then show ?case by (simp add: coerce_utf8_def string_of_runes_def runes.simps)
next
  case (Cons c s)
  then have "runes ([c] @ s) = of_char c # runes s"
    using runes_EncodeRune [of "of_char c" s] EncodeRune_ascii [of c] by (simp add: is_ascii_def valid_rune_def)
  with Cons show ?case by (simp add: coerce_utf8_def string_of_runes_def EncodeRune_ascii)
qed

lemma coerce_utf8_graphic: "list_all ascii_graphic s \<Longrightarrow> coerce_utf8 s = s"
  by (rule coerce_utf8_ascii) (simp add: list_all_iff is_ascii_graphic)

text \<open>Characters that are written as they are.\<close>

definition plain_char :: "char \<Rightarrow> bool" where
  "plain_char c \<longleftrightarrow> 0x20 \<le> (of_char c :: nat) \<and> is_ascii c
     \<and> c \<notin> {quote_char, backslash, CHR ''<'', CHR ''>'', CHR ''&''}"

lemma DecodeRune_ascii: "is_ascii c \<Longrightarrow> DecodeRune (c # s) = (of_char c, 1)"
  by (simp add: DecodeRune_def decode_bytes_def is_ascii_def take_Cons')

lemma json_escape_plain: "list_all plain_char s \<Longrightarrow> json_escape s = s"
proof (induction s)
  case Nil
  then show ?case by (simp add: json_escape.simps)
next
  case (Cons c s)
  then have c: "is_ascii c" "0x20 \<le> (of_char c :: nat)" by (simp_all add: plain_char_def)
  have eq: "(of_char c :: nat) = of_char d \<longleftrightarrow> c = d" for d by simp
  have "escape_rune (of_char c) 1 = EncodeRune (of_char c)"
    using Cons.prems c eq [of quote_char] eq [of backslash] eq [of "CHR ''<''"] eq [of "CHR ''>''"] eq [of "CHR ''&''"]
    by (simp add: escape_rune_def plain_char_def RuneError_def is_ascii_def)
  with Cons c show ?case
    by (simp add: json_escape.simps [of "c # s"] DecodeRune_ascii EncodeRune_ascii)
qed

text \<open>What may follow a number: no character that would continue its literal.\<close>

definition number_end :: "string \<Rightarrow> bool" where
  "number_end rest \<longleftrightarrow> rest = [] \<or> \<not> is_digit (hd rest) \<and> hd rest \<notin> {CHR ''.'', CHR ''e'', CHR ''E''}"

definition number_lit :: "string \<Rightarrow> bool" where
  "number_lit l \<longleftrightarrow> (\<forall>rest. number_end rest \<longrightarrow> json_number (l @ rest) = Some (l, rest))"

fun json_ok :: "json \<Rightarrow> bool" where
  "json_ok (JNumber l) = number_lit l"
| "json_ok (JArray vs) = (\<forall>v \<in> set vs. json_ok v)"
| "json_ok (JObject ms) = (\<forall>m \<in> set ms. json_ok (snd m))"
| "json_ok _ = True"

fun json_coerce :: "json \<Rightarrow> json" where
  "json_coerce (JString s) = JString (coerce_utf8 s)"
| "json_coerce (JArray vs) = JArray (map json_coerce vs)"
| "json_coerce (JObject ms) = JObject (map (\<lambda>m. (coerce_utf8 (fst m), json_coerce (snd m))) ms)"
| "json_coerce v = v"

lemma scan_digits_append:
  "list_all is_digit ds \<Longrightarrow> ds \<noteq> [] \<Longrightarrow> rest = [] \<or> \<not> is_digit (hd rest) \<Longrightarrow> scan_digits (ds @ rest) = Some (ds, rest)"
  by (cases ds; cases rest) (auto simp: scan_digits_def list_all_iff dropWhile_append takeWhile_append)

lemma nat_str_head: "0 < n \<Longrightarrow> hd (nat_str n) \<noteq> CHR ''0''"
proof (induction n rule: nat_str.induct)
  case (1 n)
  show ?case
  proof (cases "n < 10")
    case True
    with 1 digit_char(2) [of n] show ?thesis
      by (subst nat_str.simps) (auto simp: digit_val_def)
  next
    case False
    with 1 have "hd (nat_str (n div 10)) \<noteq> CHR ''0''" by simp
    with False show ?thesis by (subst nat_str.simps) simp
  qed
qed

lemma number_end_stop:
  assumes "number_end rest"
  shows "scan_frac rest = Some ([], rest)" and "scan_exp rest = Some ([], rest)" and "rest = [] \<or> \<not> is_digit (hd rest)"
  using assms by (cases rest; auto simp: number_end_def scan_frac_def scan_exp_def)+

lemma scan_int_nat_str:
  assumes "number_end rest"
  shows "scan_int (nat_str n @ rest) = Some (nat_str n, rest)"
proof (cases "n = 0")
  case True
  have "nat_str 0 = ''0''" by code_simp
  with True show ?thesis by (simp add: scan_int_def)
next
  case False
  then have "scan_int (nat_str n @ rest) = scan_digits (nat_str n @ rest)"
    using nat_str_head [of n] nat_str_nonempty [of n] by (cases "nat_str n") (auto simp: scan_int_def)
  also have "\<dots> = Some (nat_str n, rest)"
    using number_end_stop(3) [OF assms] by (intro scan_digits_append nat_str_digits nat_str_nonempty)
  finally show ?thesis .
qed

lemma number_lit_FormatInt: "number_lit (FormatInt i)"
proof -
  have "hd (nat_str n) \<noteq> CHR ''-''" for n
    using hd_nat_str_digit [of n] by (auto simp: is_digit_def)
  then show ?thesis
    by (auto simp: number_lit_def json_number_def FormatInt_def Let_def scan_int_nat_str number_end_stop)
qed

lemma json_number_head:
  assumes "json_number (c # cs) = Some (l, rest)"
  shows "is_digit c \<or> c = CHR ''-''"
proof -
  have z: "is_digit CHR ''0''" by (simp add: is_digit_def)
  show ?thesis using assms z
    by (auto simp: json_number_def scan_int_def scan_digits_def Let_def split: if_splits option.splits)
qed

lemma json_value_number:
  assumes "number_lit l" and "number_end rest"
  shows "json_value (l @ rest) = Some (JNumber l, rest)"
proof -
  from assms have num: "json_number (l @ rest) = Some (l, rest)" by (simp add: number_lit_def)
  have "json_number [] = None" by (simp add: json_number_def scan_int_def)
  with assms(1) have "l \<noteq> []" by (auto simp: number_lit_def number_end_def)
  then obtain c cs where l: "l = c # cs" by (cases l) auto
  from num have "is_digit c \<or> c = CHR ''-''" by (auto simp: l dest: json_number_head)
  then have "c \<notin> {quote_char, CHR ''['', CHR ''{'', CHR ''t'', CHR ''f'', CHR ''n''}" "\<not> json_ws c"
    by (auto simp: is_digit_def json_ws_def)
  with num show ?thesis by (auto simp: json_value.simps [of "c # cs @ rest"] l skip_ws_def)
qed

lemma skip_ws_Cons: "\<not> json_ws c \<Longrightarrow> skip_ws (c # s) = c # s"
  by (simp add: skip_ws_def)

lemma json_value_string: "json_value (json_quote s @ rest) = Some (JString (coerce_utf8 s), rest)"
  by (subst json_value.simps) (simp add: json_quote_def skip_ws_Cons json_ws_def json_string_json_escape)

lemma json_value_array:
  assumes "json_elems s = Some (vs, rest)" and "\<not> prefix '']'' (skip_ws s)"
  shows "json_value (CHR ''['' # s) = Some (JArray vs, rest)"
  using assms by (subst json_value.simps) (simp add: skip_ws_Cons json_ws_def)

lemma json_value_object:
  assumes "json_members s = Some (ms, rest)" and "\<not> prefix ''}'' (skip_ws s)"
  shows "json_value (CHR ''{'' # s) = Some (JObject ms, rest)"
  using assms by (subst json_value.simps) (simp add: skip_ws_Cons json_ws_def)

lemma json_elems_last:
  assumes "json_value s = Some (v, CHR '']'' # rest)"
  shows "json_elems s = Some ([v], rest)"
  using assms by (subst json_elems.simps) (simp add: skip_ws_Cons json_ws_def)

lemma json_elems_more:
  assumes "json_value s = Some (v, CHR '','' # r)" and "length r < length s"
  shows "json_elems s = map_option (apfst (Cons v)) (json_elems r)"
  using assms by (subst json_elems.simps) (simp add: skip_ws_Cons json_ws_def)

lemma json_members_last:
  assumes "json_value s = Some (v, CHR ''}'' # rest)"
  shows "json_members (json_quote k @ CHR '':'' # s) = Some ([(coerce_utf8 k, v)], rest)"
  using assms
  by (subst json_members.simps) (simp add: json_quote_def skip_ws_Cons json_ws_def json_string_json_escape)

lemma json_members_more:
  assumes "json_value s = Some (v, CHR '','' # r)" and "length r < length s"
  shows "json_members (json_quote k @ CHR '':'' # s) = map_option (apfst (Cons (coerce_utf8 k, v))) (json_members r)"
  using assms
  by (subst json_members.simps) (simp add: json_quote_def skip_ws_Cons json_ws_def json_string_json_escape)

lemma number_end_delims [simp]:
  "number_end (CHR '','' # s)" "number_end (CHR '']'' # s)" "number_end (CHR ''}'' # s)" "number_end []"
  by (simp_all add: number_end_def is_digit_def)

text \<open>The first character of a printed value is no white space and no closing bracket.\<close>

lemma json_print_head:
  assumes "json_ok v"
  shows "\<exists>c cs. json_print v = c # cs \<and> \<not> json_ws c \<and> c \<noteq> CHR '']''"
proof (cases v)
  case (JNumber l)
  have "json_number [] = None" by (simp add: json_number_def scan_int_def)
  with assms JNumber have n: "json_number l = Some (l, [])" "l \<noteq> []"
    by (auto simp: number_lit_def number_end_def)
  then obtain c cs where l: "l = c # cs" by (cases l) auto
  with n have "is_digit c \<or> c = CHR ''-''" by (auto dest: json_number_head)
  with JNumber l show ?thesis by (auto simp: is_digit_def json_ws_def)
qed (auto simp: json_quote_def json_ws_def)

lemma json_value_print:
  "json_ok v \<Longrightarrow> number_end rest \<Longrightarrow> json_value (json_print v @ rest) = Some (json_coerce v, rest)"
  "(\<And>v. v \<in> set vs \<Longrightarrow> json_ok v) \<Longrightarrow> vs \<noteq> [] \<Longrightarrow>
     json_elems (json_print_elems vs @ CHR '']'' # rest) = Some (map json_coerce vs, rest)"
  "(\<And>m. m \<in> set ms \<Longrightarrow> json_ok (snd m)) \<Longrightarrow> ms \<noteq> [] \<Longrightarrow>
     json_members (json_print_members ms @ CHR ''}'' # rest)
       = Some (map (\<lambda>m. (coerce_utf8 (fst m), json_coerce (snd m))) ms, rest)"
proof (induction v and vs and ms arbitrary: rest and rest and rest
    rule: json_print_json_print_elems_json_print_members.induct)
  case 1
  then show ?case by (simp add: json_value.simps [of "CHR ''n'' # s" for s] skip_ws_Cons json_ws_def)
next
  case (2 b)
  then show ?case
    by (simp add: json_value.simps [of "CHR ''t'' # s" for s] json_value.simps [of "CHR ''f'' # s" for s] skip_ws_Cons json_ws_def)
next
  case (3 l)
  then show ?case by (simp add: json_value_number)
next
  case (4 s)
  then show ?case by (simp add: json_value_string)
next
  case (5 vs)
  show ?case
  proof (cases vs)
    case Nil
    then show ?thesis by (simp add: json_value.simps [of "CHR ''['' # s" for s] skip_ws_Cons json_ws_def)
  next
    case (Cons v us)
    with "5.prems" json_print_head [of v] obtain c cs
      where "json_print v = c # cs" "\<not> json_ws c" "c \<noteq> CHR '']''" by auto
    then have "\<not> prefix '']'' (skip_ws (json_print_elems vs @ CHR '']'' # rest))"
      by (simp add: Cons skip_ws_Cons)
    moreover have "json_elems (json_print_elems vs @ CHR '']'' # rest) = Some (map json_coerce vs, rest)"
      by (rule "5.IH") (use "5.prems" Cons in auto)
    ultimately show ?thesis by (simp add: json_value_array)
  qed
next
  case (6 ms)
  show ?case
  proof (cases ms)
    case Nil
    then show ?thesis by (simp add: json_value.simps [of "CHR ''{'' # s" for s] skip_ws_Cons json_ws_def)
  next
    case (Cons m us)
    then have "\<not> prefix ''}'' (skip_ws (json_print_members ms @ CHR ''}'' # rest))"
      by (cases m) (simp add: json_quote_def skip_ws_Cons json_ws_def)
    moreover have "json_members (json_print_members ms @ CHR ''}'' # rest)
        = Some (map (\<lambda>m. (coerce_utf8 (fst m), json_coerce (snd m))) ms, rest)"
      by (rule "6.IH") (use "6.prems" Cons in auto)
    ultimately show ?thesis by (simp add: json_value_object)
  qed
next
  case (8 v vs)
  then show ?case
    by (cases "vs = []") (simp_all add: json_elems_last json_elems_more)
next
  case (10 k v ms)
  moreover from "10.prems"(1) [of "(k, v)"] have "json_ok v" by simp
  ultimately show ?case
    by (cases "ms = []") (simp_all add: json_members_last json_members_more)
qed simp_all

text \<open>\<open>json.Unmarshal\<close> wants one value and white space around it.\<close>

definition json_parse :: "string \<Rightarrow> json option" where
  "json_parse s =
     (case json_value s of
        Some (v, rest) \<Rightarrow> if skip_ws rest = [] then Some v else None
      | None \<Rightarrow> None)"

lemma json_parse_print: "json_ok v \<Longrightarrow> json_parse (json_print v) = Some (json_coerce v)"
  using json_value_print(1) [of v "[]"] by (simp add: json_parse_def skip_ws_def)

section \<open>Binding to the fields of a struct\<close>

text \<open>
  A key selects the field of that name, or else a field whose name is equal up to case folding. The
  ASCII letters have two foreign partners: U+017F folds with S and U+212A with K.
\<close>

definition fold_rune :: "nat \<Rightarrow> nat" where
  "fold_rune r = (if 97 \<le> r \<and> r \<le> 122 then r - 32 else if r = 0x17F then 83 else if r = 0x212A then 75 else r)"

definition foldName :: "string \<Rightarrow> nat list" where
  "foldName s = map fold_rune (runes s)"

text \<open>A field is its JSON name and its setter; \<open>None\<close> is a type or range error of the value.\<close>

type_synonym 's json_field = "string \<times> (json \<Rightarrow> 's \<Rightarrow> 's option)"

definition find_field :: "'s json_field list \<Rightarrow> string \<Rightarrow> (json \<Rightarrow> 's \<Rightarrow> 's option) option" where
  "find_field fs k =
     (case find (\<lambda>f. fst f = k) fs of
        Some f \<Rightarrow> Some (snd f)
      | None \<Rightarrow> map_option snd (find (\<lambda>f. foldName (fst f) = foldName k) fs))"

text \<open>\<open>strict\<close> is \<open>Decoder.DisallowUnknownFields\<close>.\<close>

fun json_bind :: "bool \<Rightarrow> 's json_field list \<Rightarrow> (string \<times> json) list \<Rightarrow> 's \<Rightarrow> 's option" where
  "json_bind strict fs [] st = Some st"
| "json_bind strict fs ((k, v) # ms) st =
     (case find_field fs k of
        None \<Rightarrow> if strict then None else json_bind strict fs ms st
      | Some set_field \<Rightarrow>
          (case set_field v st of
             None \<Rightarrow> None
           | Some st' \<Rightarrow> json_bind strict fs ms st'))"

definition set_string :: "(string \<Rightarrow> 's \<Rightarrow> 's) \<Rightarrow> json \<Rightarrow> 's \<Rightarrow> 's option" where
  "set_string upd v st = (case v of JString s \<Rightarrow> Some (upd s st) | JNull \<Rightarrow> Some st | _ \<Rightarrow> None)"

definition set_int64 :: "(int \<Rightarrow> 's \<Rightarrow> 's) \<Rightarrow> json \<Rightarrow> 's \<Rightarrow> 's option" where
  "set_int64 upd v st =
     (case v of JNumber l \<Rightarrow> map_option (\<lambda>i. upd i st) (ParseInt64 l) | JNull \<Rightarrow> Some st | _ \<Rightarrow> None)"

definition bind_value :: "bool \<Rightarrow> 's json_field list \<Rightarrow> 's \<Rightarrow> json \<Rightarrow> 's option" where
  "bind_value strict fs zero v =
     (case v of JObject ms \<Rightarrow> json_bind strict fs ms zero | JNull \<Rightarrow> Some zero | _ \<Rightarrow> None)"

definition json_Unmarshal :: "'s json_field list \<Rightarrow> 's \<Rightarrow> string \<Rightarrow> 's option" where
  "json_Unmarshal fs zero s = Option.bind (json_parse s) (bind_value False fs zero)"

lemma find_field_exact: "find (\<lambda>f. fst f = k) fs = Some f \<Longrightarrow> find_field fs k = Some (snd f)"
  by (simp add: find_field_def)

end
