(* ===== verification/Go_Value.thy ===== *)
theory Go_Value
  imports Broker_Types Go_JSON "HOL-Library.AList"
begin

text \<open>
  Values that cross a process boundary: \<open>float64\<close> numbers with their decimal conversion, JSON
  decoding into \<open>any\<close> and into string slices and maps, \<open>json.Decoder\<close>, and the requests and
  responses of \<open>net/http\<close>. A \<open>map\<close> that the code builds is an association list written with
  \<^const>\<open>AList.update\<close>.
\<close>

section \<open>float64\<close>

text \<open>
  \<open>strconv.ParseFloat(s, 64)\<close> on a JSON number literal: the decimal is an exact fraction, which is
  rounded to the nearest double, ties to even; a magnitude beyond the largest double is a range
  error (\<open>None\<close>).
\<close>

fun bit_length :: "nat \<Rightarrow> nat" where
  "bit_length n = (if n = 0 then 0 else Suc (bit_length (n div 2)))"

declare bit_length.simps [simp del]

definition round_half_even :: "nat \<Rightarrow> nat \<Rightarrow> nat" where
  "round_half_even n d =
     (let q = n div d; r = n mod d in
      if d < 2 * r \<or> 2 * r = d \<and> odd q then q + 1 else q)"

definition float_exponent :: "nat \<Rightarrow> nat \<Rightarrow> int" where
  "float_exponent n d =
     (let e = int (bit_length n) - int (bit_length d) - 53;
          fits = (if 0 \<le> e then n < d * 2 ^ (nat e + 53) else n * 2 ^ nat (- e) < d * 2 ^ 53)
      in max (- 1074) (if fits then e else e + 1))"

definition float_of_fraction :: "bool \<Rightarrow> nat \<Rightarrow> nat \<Rightarrow> float64 option" where
  "float_of_fraction neg n d =
     (if n = 0 then Some (Finite 0 0)
      else let e = float_exponent n d;
               m = (if 0 \<le> e then round_half_even n (d * 2 ^ nat e)
                    else round_half_even (n * 2 ^ nat (- e)) d)
           in if 0 \<le> e \<and> 2 ^ 1024 \<le> m * 2 ^ nat e then None
              else Some (Finite (if neg then - int m else int m) e))"

definition ParseFloat64 :: "string \<Rightarrow> float64 option" where
  "ParseFloat64 lit =
     (let neg = (lit \<noteq> [] \<and> hd lit = CHR ''-'');
          s = (if neg then tl lit else lit);
          whole = takeWhile is_digit s;
          s1 = dropWhile is_digit s;
          frac = (if s1 \<noteq> [] \<and> hd s1 = CHR ''.'' then takeWhile is_digit (tl s1) else []);
          s2 = (if s1 \<noteq> [] \<and> hd s1 = CHR ''.'' then dropWhile is_digit (tl s1) else s1);
          ex = (if s2 = [] then 0
                else let t = tl s2 in
                     if t \<noteq> [] \<and> hd t = CHR ''-'' then - int (digits_val 0 (tl t))
                     else if t \<noteq> [] \<and> hd t = CHR ''+'' then int (digits_val 0 (tl t))
                     else int (digits_val 0 t));
          n = digits_val 0 (whole @ frac);
          e10 = ex - int (length frac)
      in if 0 \<le> e10 then float_of_fraction neg (n * 10 ^ nat e10) 1
         else float_of_fraction neg n (10 ^ nat (- e10)))"

text \<open>
  Integral floats: \<open>math.Trunc(x) == x\<close>, the value of an integral float, and the comparisons of
  a float with an integer constant.
\<close>

definition float_integral :: "int \<Rightarrow> int \<Rightarrow> bool" where
  "float_integral m e \<longleftrightarrow> 0 \<le> e \<or> m mod 2 ^ nat (- e) = 0"

definition float_floor :: "int \<Rightarrow> int \<Rightarrow> int" where
  "float_floor m e = (if 0 \<le> e then m * 2 ^ nat e else m div 2 ^ nat (- e))"

definition float_ge :: "int \<Rightarrow> int \<Rightarrow> int \<Rightarrow> bool" where
  "float_ge m e k \<longleftrightarrow> (if 0 \<le> e then k \<le> m * 2 ^ nat e else k * 2 ^ nat (- e) \<le> m)"

lemma le_div_iff: "0 < p \<Longrightarrow> k \<le> m div p \<longleftrightarrow> k * p \<le> m" for k m p :: int
proof
  assume p: "0 < p"
  show "k * p \<le> m" if "k \<le> m div p"
    using div_bounds [OF p, of m] mult_left_mono [OF that less_imp_le [OF p]] by (metis mult.commute order_trans)
  show "k \<le> m div p" if "k * p \<le> m"
  proof (rule ccontr)
    assume "\<not> k \<le> m div p"
    then have "m div p + 1 \<le> k" by simp
    from mult_left_mono [OF this, of p] p have "p * (m div p) + p \<le> p * k" by (simp add: distrib_left)
    with div_bounds [OF p, of m] that show False by (simp add: mult.commute)
  qed
qed

lemma float_ge_floor: "float_ge m e k \<longleftrightarrow> k \<le> float_floor m e"
  by (simp add: float_ge_def float_floor_def le_div_iff)

lemma bit_length_bounds: "0 < n \<Longrightarrow> 2 ^ (bit_length n - 1) \<le> n \<and> n < 2 ^ bit_length n \<and> 0 < bit_length n"
proof (induction n rule: bit_length.induct)
  case (1 n)
  show ?case
  proof (cases "n = 1")
    case True
    then show ?thesis by (simp add: bit_length.simps)
  next
    case False
    with 1 have "2 ^ (bit_length (n div 2) - 1) \<le> n div 2" "n div 2 < 2 ^ bit_length (n div 2)" "0 < bit_length (n div 2)"
      by auto
    then obtain b where "bit_length (n div 2) = Suc b" "2 ^ b \<le> n div 2" "n div 2 < 2 ^ Suc b"
      by (cases "bit_length (n div 2)") auto
    moreover from \<open>0 < n\<close> this(1) have "bit_length n = Suc (Suc b)" by (simp add: bit_length.simps [of n])
    ultimately show ?thesis by simp linarith
  qed
qed

lemma bit_length_le: "n < 2 ^ k \<Longrightarrow> bit_length n \<le> k"
proof (cases "n = 0")
  case False
  assume "n < 2 ^ k"
  with bit_length_bounds [of n] False have "(2::nat) ^ (bit_length n - 1) < 2 ^ k" by (meson le_less_trans not_gr_zero)
  then show ?thesis by simp
qed (simp add: bit_length.simps)

text \<open>An integer of at most 53 bits is represented exactly.\<close>

lemma float_of_small_nat:
  assumes "n < 2 ^ 53"
  shows "\<exists>m e. float_of_fraction neg n 1 = Some (Finite m e) \<and> float_integral m e
    \<and> float_floor m e = (if neg then - int n else int n)"
proof (cases "n = 0")
  case True
  then show ?thesis by (simp add: float_of_fraction_def float_integral_def float_floor_def)
next
  case False
  define b where "b = bit_length n"
  have b: "2 ^ (b - 1) \<le> n" "n < 2 ^ b" "0 < b" "b \<le> 53"
    using bit_length_bounds [of n] bit_length_le [OF assms] False by (simp_all add: b_def)
  have one: "bit_length (Suc 0) = 1" by (simp add: bit_length.simps)
  have "(2::nat) ^ 53 = 2 ^ (b - 1) * 2 ^ (54 - b)"
    using b(3,4) by (simp flip: power_add)
  also have "\<dots> \<le> n * 2 ^ (54 - b)" using b(1) by simp
  finally have nofit: "\<not> n * 2 ^ (54 - b) < 2 ^ 53" by simp
  have e: "float_exponent n 1 = int b - 53"
  proof -
    have neg: "\<not> (0::int) \<le> int b - 54" and nat: "nat (54 - int b) = 54 - b" using b(4) by auto
    show ?thesis
      using nofit b(3,4)
      by (simp add: float_exponent_def one b_def [symmetric] Let_def neg nat del: of_nat_diff)
  qed
  have r: "round_half_even k 1 = k" for k by (simp add: round_half_even_def)
  show ?thesis
  proof (cases "b = 53")
    case True
    with e False assms show ?thesis
      using r [of n] by (simp add: float_of_fraction_def float_integral_def float_floor_def Let_def)
  next
    case bl: False
    with b have k: "nat (53 - int b) = 53 - b" "\<not> 53 \<le> b" by auto
    moreover have "- (int n * 2 ^ (53 - b)) div 2 ^ (53 - b) = - int n" by (simp flip: mult_minus_left)
    ultimately show ?thesis
      using e False r [of "n * 2 ^ (53 - b)"] by (simp add: float_of_fraction_def float_integral_def float_floor_def Let_def)
  qed
qed

lemma dropWhile_digits [simp]: "dropWhile is_digit (nat_str n) = []" "takeWhile is_digit (nat_str n) = nat_str n"
  using nat_str_digits [of n] by (simp_all add: list_all_iff takeWhile_eq_all_conv dropWhile_eq_Nil_conv)

lemma ParseFloat64_FormatInt:
  assumes "\<bar>i\<bar> < 2 ^ 53"
  shows "\<exists>m e. ParseFloat64 (FormatInt i) = Some (Finite m e) \<and> float_integral m e \<and> float_floor m e = i"
proof -
  have "nat \<bar>i\<bar> < 2 ^ 53" using assms by (simp add: nat_less_iff)
  from float_of_small_nat [OF this, of "i < 0"]
  have "\<exists>m e. float_of_fraction (i < 0) (nat \<bar>i\<bar>) 1 = Some (Finite m e) \<and> float_integral m e \<and> float_floor m e = i"
    by auto
  moreover have "hd (nat_str (nat i)) \<noteq> CHR ''-''"
    using hd_nat_str_digit [of "nat i"] by (auto simp: is_digit_def)
  then have "ParseFloat64 (FormatInt i) = float_of_fraction (i < 0) (nat \<bar>i\<bar>) 1"
    by (simp add: ParseFloat64_def FormatInt_def digits_val_nat_str Let_def)
  ultimately show ?thesis by simp
qed

section \<open>Decoding into dynamic values\<close>

text \<open>
  The target \<open>any\<close>: an object becomes a map in which the last of several equal keys wins. \<open>None\<close> is
  the error of a number out of range.
\<close>

fun json_any :: "json \<Rightarrow> any option"
  and json_anys :: "json list \<Rightarrow> any list option"
  and json_any_members :: "(string \<times> json) list \<Rightarrow> (string \<times> any) list \<Rightarrow> (string \<times> any) list option" where
  "json_any JNull = Some VNil"
| "json_any (JBool b) = Some (VBool b)"
| "json_any (JNumber l) = map_option VFloat (ParseFloat64 l)"
| "json_any (JString s) = Some (VString s)"
| "json_any (JArray vs) = map_option VList (json_anys vs)"
| "json_any (JObject ms) = map_option VObject (json_any_members ms [])"
| "json_anys [] = Some []"
| "json_anys (v # vs) =
     (case json_any v of None \<Rightarrow> None | Some a \<Rightarrow> map_option (Cons a) (json_anys vs))"
| "json_any_members [] acc = Some acc"
| "json_any_members ((k, v) # ms) acc =
     (case json_any v of None \<Rightarrow> None | Some a \<Rightarrow> json_any_members ms (AList.update k a acc))"

text \<open>Fields of type \<open>map[string]any\<close> (an object is merged into the map, null clears it) and
  \<open>[]string\<close> (a null element leaves the empty string).\<close>

definition set_any_map ::
  "('s \<Rightarrow> (string \<times> any) list) \<Rightarrow> ((string \<times> any) list \<Rightarrow> 's \<Rightarrow> 's) \<Rightarrow> json \<Rightarrow> 's \<Rightarrow> 's option" where
  "set_any_map sel upd v st =
     (case v of
        JObject ms \<Rightarrow> map_option (\<lambda>m. upd m st) (json_any_members ms (sel st))
      | JNull \<Rightarrow> Some (upd [] st)
      | _ \<Rightarrow> None)"

fun json_strings :: "json list \<Rightarrow> string list option" where
  "json_strings [] = Some []"
| "json_strings (v # vs) =
     (case v of
        JString s \<Rightarrow> map_option (Cons s) (json_strings vs)
      | JNull \<Rightarrow> map_option (Cons []) (json_strings vs)
      | _ \<Rightarrow> None)"

definition set_strings :: "(string list \<Rightarrow> 's \<Rightarrow> 's) \<Rightarrow> json \<Rightarrow> 's \<Rightarrow> 's option" where
  "set_strings upd v st =
     (case v of
        JArray vs \<Rightarrow> map_option (\<lambda>ss. upd ss st) (json_strings vs)
      | JNull \<Rightarrow> Some (upd [] st)
      | _ \<Rightarrow> None)"

section \<open>Package net/http\<close>

text \<open>
  A body is what its reader delivers: bytes and the error, if any, that ends them instead of EOF.
  \<open>Decode\<close> is one call of \<open>json.Decoder.Decode\<close> on it: the first value of the stream; what follows
  it is not looked at. A literal or number that is not followed by a byte needs the EOF to end.
\<close>

type_synonym body = "string \<times> go_error option"

definition self_delimiting :: "json \<Rightarrow> bool" where
  "self_delimiting v = (case v of JString _ \<Rightarrow> True | JArray _ \<Rightarrow> True | JObject _ \<Rightarrow> True | _ \<Rightarrow> False)"

definition Decode :: "bool \<Rightarrow> 's json_field list \<Rightarrow> 's \<Rightarrow> body \<Rightarrow> 's result" where
  "Decode strict fs zero b =
     (case json_value (fst b) of
        None \<Rightarrow> Inl (case snd b of Some e \<Rightarrow> e | None \<Rightarrow> Plain ''invalid JSON'')
      | Some (v, rest) \<Rightarrow>
          (case snd b of
             Some e \<Rightarrow>
               if rest = [] \<and> \<not> self_delimiting v then Inl e
               else (case bind_value strict fs zero v of
                       Some st \<Rightarrow> Inr st | None \<Rightarrow> Inl (Plain ''cannot unmarshal''))
           | None \<Rightarrow>
               (case bind_value strict fs zero v of
                  Some st \<Rightarrow> Inr st | None \<Rightarrow> Inl (Plain ''cannot unmarshal''))))"

text \<open>\<open>io.LimitReader\<close>: after \<open>n\<close> bytes the reader reports EOF.\<close>

definition LimitReader :: "nat \<Rightarrow> body \<Rightarrow> body" where
  "LimitReader n b = (take n (fst b), if n \<le> length (fst b) then None else snd b)"

record http_request =
  hq_Method :: string
  hq_URL :: string
  hq_Header :: "(string \<times> string) list"
  hq_Body :: body

record http_response =
  hr_StatusCode :: int
  hr_Header :: "(string \<times> string) list"
  hr_Body :: body

text \<open>\<open>Header.Set\<close> and \<open>Header.Get\<close>, for names in canonical form and single values.\<close>

definition Header_Set :: "string \<Rightarrow> string \<Rightarrow> http_request \<Rightarrow> http_request" where
  "Header_Set k v r = r\<lparr>hq_Header := AList.update k v (hq_Header r)\<rparr>"

definition Header_Get :: "string \<Rightarrow> (string \<times> string) list \<Rightarrow> string" where
  "Header_Get k h = (case map_of h k of Some v \<Rightarrow> v | None \<Rightarrow> [])"

type_synonym 'w http_client = "http_request \<Rightarrow> 'w \<Rightarrow> http_response result \<times> 'w"

text \<open>
  Package \<open>net/url\<close> is a parameter: \<open>url_Parse\<close>, the \<open>String\<close> method, and \<open>Query\<close> followed by
  \<open>Set\<close> and \<open>Encode\<close> as one operation on the raw query.
\<close>

record url =
  url_Scheme :: string
  url_Host :: string
  url_Path :: string
  url_RawQuery :: string
  url_Fragment :: string

record url_lib =
  url_Parse :: "string \<Rightarrow> url result"
  url_String :: "url \<Rightarrow> string"
  url_SetQuery :: "string \<Rightarrow> string \<Rightarrow> string \<Rightarrow> string"
  url_Hostname :: "url \<Rightarrow> string"

text \<open>\<open>IsHTTPSOrLoopback\<close> (internal/broker/url.go).\<close>

definition IsHTTPSOrLoopback :: "url_lib \<Rightarrow> string \<Rightarrow> bool" where
  "IsHTTPSOrLoopback lib raw =
     (case url_Parse lib (TrimSpace raw) of
        Inl _ \<Rightarrow> False
      | Inr parsed \<Rightarrow>
          url_Scheme parsed = ''https''
          \<or> (let host = url_Hostname lib parsed in
             host = ''localhost'' \<or> host = ''127.0.0.1'' \<or> host = ''::1''))"

end
