(* ===== verification/Go_Duration.thy ===== *)
theory Go_Duration
  imports Go_Value
begin

text \<open>
  \<open>time.ParseDuration\<close> as the library computes it: unsigned 64-bit accumulation with its overflow
  checks, and the fraction of a component computed in \<open>float64\<close> with two roundings.
\<close>

section \<open>Positive floats\<close>

text \<open>A positive double as mantissa and exponent; \<open>float_round n d\<close> is the double nearest to \<open>n / d\<close>.\<close>

definition float_round :: "nat \<Rightarrow> nat \<Rightarrow> nat \<times> int" where
  "float_round n d =
     (if n = 0 then (0, 0)
      else let e = float_exponent n d
           in (if 0 \<le> e then round_half_even n (d * 2 ^ nat e) else round_half_even (n * 2 ^ nat (- e)) d, e))"

definition float_num :: "nat \<times> int \<Rightarrow> nat" where
  "float_num x = (if 0 \<le> snd x then fst x * 2 ^ nat (snd x) else fst x)"

definition float_den :: "nat \<times> int \<Rightarrow> nat" where
  "float_den x = (if 0 \<le> snd x then 1 else 2 ^ nat (- snd x))"

definition float_mul :: "nat \<times> int \<Rightarrow> nat \<times> int \<Rightarrow> nat \<times> int" where
  "float_mul x y = float_round (float_num x * float_num y) (float_den x * float_den y)"

definition float_div :: "nat \<times> int \<Rightarrow> nat \<times> int \<Rightarrow> nat \<times> int" where
  "float_div x y = float_round (float_num x * float_den y) (float_den x * float_num y)"

definition float_trunc :: "nat \<times> int \<Rightarrow> nat" where
  "float_trunc x = float_num x div float_den x"

section \<open>The scanner\<close>

text \<open>\<open>leadingInt\<close>: \<open>None\<close> when the value exceeds \<open>1<<63\<close>.\<close>

fun leadingInt :: "nat \<Rightarrow> string \<Rightarrow> (nat \<times> string) option" where
  "leadingInt x [] = Some (x, [])"
| "leadingInt x (c # cs) =
     (if \<not> is_digit c then Some (x, c # cs)
      else if 2 ^ 63 div 10 < x then None
      else let y = x * 10 + digit_val c in if 2 ^ 63 < y then None else leadingInt y cs)"

text \<open>\<open>leadingFraction\<close>: digits beyond the precision are skipped; the scale is a \<open>float64\<close>.\<close>

fun leadingFraction :: "nat \<Rightarrow> nat \<times> int \<Rightarrow> bool \<Rightarrow> string \<Rightarrow> nat \<times> (nat \<times> int) \<times> string" where
  "leadingFraction x scale overflow [] = (x, scale, [])"
| "leadingFraction x scale overflow (c # cs) =
     (if \<not> is_digit c then (x, scale, c # cs)
      else if overflow then leadingFraction x scale True cs
      else if (2 ^ 63 - 1) div 10 < x then leadingFraction x scale True cs
      else let y = x * 10 + digit_val c in
        if 2 ^ 63 < y then leadingFraction x scale True cs
        else leadingFraction y (float_mul scale (float_round 10 1)) False cs)"

definition unitMap :: "(string \<times> nat) list" where
  "unitMap = [(''ns'', 1), (''us'', 1000), ([CHR 0xC2, CHR 0xB5, CHR ''s''], 1000), ([CHR 0xCE, CHR 0xBC, CHR ''s''], 1000),
     (''ms'', 1000000), (''s'', 1000000000), (''m'', 60000000000), (''h'', 3600000000000)]"

text \<open>The unit after the number \<open>v\<close> with the fraction \<open>f / scale\<close>: nanoseconds and the rest.\<close>

definition duration_unit :: "nat \<Rightarrow> nat \<Rightarrow> nat \<times> int \<Rightarrow> string \<Rightarrow> (nat \<times> string) option" where
  "duration_unit v f scale s =
     (let u = takeWhile (\<lambda>c. c \<noteq> CHR ''.'' \<and> \<not> is_digit c) s in
      if u = [] then None
      else case map_of unitMap u of
        None \<Rightarrow> None
      | Some ns \<Rightarrow>
          if 2 ^ 63 div ns < v then None
          else if f = 0 then Some (v * ns, drop (length u) s)
          else let w = v * ns + float_trunc (float_mul (float_round f 1) (float_div (float_round ns 1) scale))
               in if 2 ^ 63 < w then None else Some (w, drop (length u) s))"

definition duration_component :: "string \<Rightarrow> (nat \<times> string) option" where
  "duration_component s =
     (if s = [] \<or> \<not> (hd s = CHR ''.'' \<or> is_digit (hd s)) then None
      else case leadingInt 0 s of
        None \<Rightarrow> None
      | Some (v, s1) \<Rightarrow>
          if s1 \<noteq> [] \<and> hd s1 = CHR ''.'' then
            (case leadingFraction 0 (float_round 1 1) False (tl s1) of (f, scale, s2) \<Rightarrow>
               if length s1 = length s \<and> length s2 = length (tl s1) then None
               else duration_unit v f scale s2)
          else if length s1 = length s then None
          else duration_unit v 0 (float_round 1 1) s1)"

lemma leadingInt_length: "leadingInt x s = Some (y, r) \<Longrightarrow> length r \<le> length s"
  by (induction x s rule: leadingInt.induct) (auto simp: Let_def split: if_splits)

lemma leadingFraction_length: "leadingFraction x sc ov s = (y, sc', r) \<Longrightarrow> length r \<le> length s"
  by (induction x sc ov s rule: leadingFraction.induct) (auto simp: Let_def split: if_splits)

lemma duration_unit_length: "duration_unit v f scale s = Some (w, r) \<Longrightarrow> length r < length s"
  by (cases s) (auto simp: duration_unit_def Let_def split: if_splits option.splits)

lemma duration_component_length:
  assumes "duration_component s = Some (v, r)"
  shows "length r < length s"
proof -
  from assms obtain x s1 f sc s2 where "leadingInt 0 s = Some (x, s1)" "duration_unit x f sc s2 = Some (v, r)"
    "s2 = s1 \<or> leadingFraction 0 (float_round 1 1) False (tl s1) = (f, sc, s2)"
    by (auto simp: duration_component_def split: if_splits option.splits prod.splits)
  then have "length s1 \<le> length s" "length r < length s2" "length s2 \<le> length s1"
    by (auto dest: leadingInt_length duration_unit_length leadingFraction_length)
  then show ?thesis by simp
qed

function duration_sum :: "nat \<Rightarrow> string \<Rightarrow> nat option" where
  "duration_sum d s =
     (if s = [] then Some d
      else case duration_component s of
        None \<Rightarrow> None
      | Some (v, r) \<Rightarrow> if 2 ^ 63 < d + v then None else duration_sum (d + v) r)"
  by pat_completeness auto
termination
  by (relation "measure (\<lambda>(d, s). length s)") (auto dest: duration_component_length)

declare duration_sum.simps [simp del]

definition ParseDuration :: "string \<Rightarrow> duration option" where
  "ParseDuration s0 =
     (let neg = (s0 \<noteq> [] \<and> hd s0 = CHR ''-'');
          s = (if s0 \<noteq> [] \<and> (hd s0 = CHR ''-'' \<or> hd s0 = CHR ''+'') then tl s0 else s0)
      in if s = ''0'' then Some 0
         else if s = [] then None
         else case duration_sum 0 s of
                None \<Rightarrow> None
              | Some d \<Rightarrow>
                  if neg then Some (- int d)
                  else if 2 ^ 63 - 1 < d then None
                  else Some (int d))"

lemma duration_sum_bound: "duration_sum d s = Some r \<Longrightarrow> d \<le> 2 ^ 63 \<Longrightarrow> r \<le> 2 ^ 63"
proof (induction d s rule: duration_sum.induct)
  case (1 d s)
  show ?case
  proof (cases "s = []")
    case True
    with 1 show ?thesis by (simp add: duration_sum.simps)
  next
    case False
    with "1.prems" obtain v t where v: "duration_component s = Some (v, t)" "\<not> 2 ^ 63 < d + v" "duration_sum (d + v) t = Some r"
      by (subst (asm) duration_sum.simps) (auto split: option.splits if_splits)
    from "1.IH" [OF False v(1) refl v(2,3)] v(2) show ?thesis by simp
  qed
qed

lemma ParseDuration_int64: "ParseDuration s = Some d \<Longrightarrow> - (2 ^ 63) \<le> d \<and> d < 2 ^ 63"
  by (auto simp: ParseDuration_def Let_def split: if_splits option.splits dest!: duration_sum_bound)

end
