(* ===== verification/Tunnel_Target.thy ===== *)
theory Tunnel_Target
  imports Broker_Types "HOL-Library.While_Combinator"
begin

text \<open>
  Registry-targeted tunnels (src/internal/broker/tunneltarget.go): which AWS role and region a device
  record asks for, and whether the operator's allowlist admits the role. The regular expressions are
  written out as predicates, and \<open>globMatch\<close> is the source's loop with its four variables. The main
  results are that the loop terminates and decides the declarative wildcard relation, and that a
  wildcard never reaches another account.
\<close>

section \<open>Patterns\<close>

definition is_lower :: "char \<Rightarrow> bool" where
  "is_lower c \<longleftrightarrow> 97 \<le> (of_char c :: nat) \<and> (of_char c :: nat) \<le> 122"

definition is_upper :: "char \<Rightarrow> bool" where
  "is_upper c \<longleftrightarrow> 65 \<le> (of_char c :: nat) \<and> (of_char c :: nat) \<le> 90"

definition alnum :: "char \<Rightarrow> bool" where
  "alnum c \<longleftrightarrow> is_lower c \<or> is_upper c \<or> is_digit c"

text \<open>\<open>^arn:aws:iam::[0-9]{12}:role/X+$\<close> for a character class \<open>X\<close>.\<close>

definition arn_pattern :: "(char \<Rightarrow> bool) \<Rightarrow> string \<Rightarrow> bool" where
  "arn_pattern cls s \<longleftrightarrow>
     prefix ''arn:aws:iam::'' s \<and> length (take 12 (drop 13 s)) = 12 \<and> list_all is_digit (take 12 (drop 13 s))
     \<and> prefix '':role/'' (drop 25 s) \<and> drop 31 s \<noteq> [] \<and> list_all cls (drop 31 s)"

definition tunnelRoleARNPattern :: "string \<Rightarrow> bool" where
  "tunnelRoleARNPattern s \<longleftrightarrow> arn_pattern (\<lambda>c. alnum c \<or> c \<in> set ''+=,.@_/-'') s"

definition allowedRoleARNPattern :: "string \<Rightarrow> bool" where
  "allowedRoleARNPattern s \<longleftrightarrow> arn_pattern (\<lambda>c. alnum c \<or> c \<in> set ''+=.@_/*-'') s"

text \<open>\<open>^[a-z]{2}(-[a-z]+)+-[0-9]+$\<close>, by the parts between the hyphens.\<close>

definition tunnelRegionPattern :: "string \<Rightarrow> bool" where
  "tunnelRegionPattern s \<longleftrightarrow>
     (let parts = Split CHR ''-'' s in
      3 \<le> length parts \<and> length (hd parts) = 2 \<and> list_all is_lower (hd parts)
      \<and> list_all (\<lambda>p. p \<noteq> [] \<and> list_all is_lower p) (butlast (tl parts))
      \<and> last parts \<noteq> [] \<and> list_all is_digit (last parts))"

definition ValidAllowedRoleARN :: "string \<Rightarrow> bool" where
  "ValidAllowedRoleARN entry = allowedRoleARNPattern entry"

definition maxAuditTargetRunes :: nat where
  "maxAuditTargetRunes = 2048"

section \<open>Wildcard matching\<close>

record glob_state =
  gl_p :: nat
  gl_v :: nat
  gl_star :: "nat option"
  gl_mark :: nat
  gl_fail :: bool

text \<open>One turn of the first loop; \<open>gl_fail\<close> is its \<open>return false\<close>.\<close>

definition globStep :: "string \<Rightarrow> string \<Rightarrow> glob_state \<Rightarrow> glob_state" where
  "globStep pat val s =
     (if gl_p s < length pat \<and> pat ! gl_p s = CHR ''*'' then
        s\<lparr>gl_star := Some (gl_p s), gl_mark := gl_v s, gl_p := gl_p s + 1\<rparr>
      else if gl_p s < length pat \<and> pat ! gl_p s = val ! gl_v s then
        s\<lparr>gl_p := gl_p s + 1, gl_v := gl_v s + 1\<rparr>
      else (case gl_star s of
              Some star \<Rightarrow> s\<lparr>gl_p := star + 1, gl_mark := gl_mark s + 1, gl_v := gl_mark s + 1\<rparr>
            | None \<Rightarrow> s\<lparr>gl_fail := True\<rparr>))"

definition globLoop :: "string \<Rightarrow> string \<Rightarrow> glob_state option" where
  "globLoop pat val =
     while_option (\<lambda>s. \<not> gl_fail s \<and> gl_v s < length val) (globStep pat val)
       \<lparr>gl_p = 0, gl_v = 0, gl_star = None, gl_mark = 0, gl_fail = False\<rparr>"

text \<open>The second loop skips trailing stars; \<open>None\<close> would be a first loop that never ends.\<close>

definition globMatch :: "string \<Rightarrow> string \<Rightarrow> bool option" where
  "globMatch pat val =
     map_option (\<lambda>s. \<not> gl_fail s \<and> dropWhile (\<lambda>c. c = CHR ''*'') (drop (gl_p s) pat) = []) (globLoop pat val)"

section \<open>The declarative relation\<close>

fun glob :: "string \<Rightarrow> string \<Rightarrow> bool" where
  "glob [] v = (v = [])"
| "glob (c # p) v =
     (if c = CHR ''*'' then (\<exists>k \<le> length v. glob p (drop k v))
      else (case v of [] \<Rightarrow> False | x # xs \<Rightarrow> c = x \<and> glob p xs))"

declare glob.simps(2) [simp del]

lemma glob_star: "glob (CHR ''*'' # p) v \<longleftrightarrow> (\<exists>k \<le> length v. glob p (drop k v))"
  by (simp add: glob.simps)

lemma glob_lit: "c \<noteq> CHR ''*'' \<Longrightarrow> glob (c # p) v \<longleftrightarrow> (\<exists>xs. v = c # xs \<and> glob p xs)"
  by (auto simp: glob.simps split: list.splits)

lemma glob_lits: "CHR ''*'' \<notin> set w \<Longrightarrow> glob (w @ p) v \<longleftrightarrow> (\<exists>u. v = w @ u \<and> glob p u)"
  by (induction w arbitrary: v) (auto simp: glob_lit)

lemma glob_Nil: "glob p [] \<longleftrightarrow> dropWhile (\<lambda>c. c = CHR ''*'') p = []"
  by (induction p) (auto simp: glob.simps)

lemma glob_star_suffix:
  assumes "glob (CHR ''*'' # p) (drop k v)"
  shows "glob (CHR ''*'' # p) v"
proof -
  from assms obtain j where "j \<le> length (drop k v)" "glob p (drop (j + k) v)" by (auto simp: glob_star)
  then show ?thesis unfolding glob_star
    by (intro exI [of _ "min (j + k) (length v)"]) (auto simp: min_def)
qed

lemma glob_star_step:
  "glob (CHR ''*'' # p) v \<longleftrightarrow> glob p v \<or> (\<exists>x xs. v = x # xs \<and> glob (CHR ''*'' # p) xs)"
proof
  assume "glob (CHR ''*'' # p) v"
  then obtain k where k: "k \<le> length v" "glob p (drop k v)" by (auto simp: glob_star)
  show "glob p v \<or> (\<exists>x xs. v = x # xs \<and> glob (CHR ''*'' # p) xs)"
  proof (cases k)
    case 0
    with k show ?thesis by simp
  next
    case (Suc n)
    with k obtain x xs where "v = x # xs" by (cases v) auto
    with k Suc show ?thesis by (auto simp: glob_star)
  qed
next
  assume "glob p v \<or> (\<exists>x xs. v = x # xs \<and> glob (CHR ''*'' # p) xs)"
  then show "glob (CHR ''*'' # p) v"
    using glob_star_suffix [of p 1 v] by (fastforce simp: glob_star intro: exI [of _ 0])
qed

section \<open>The loop decides the relation\<close>

text \<open>
  The invariant. Without a star so far, the rest of the pattern must match the rest of the value.
  With a star at \<open>star\<close>, the question is whether the pattern from that star on matches the value
  from \<open>mark\<close> on, and the literals between the star and \<open>p\<close> are the bytes between \<open>mark\<close> and \<open>v\<close>.
\<close>

definition glob_inv :: "string \<Rightarrow> string \<Rightarrow> glob_state \<Rightarrow> bool" where
  "glob_inv pat val s \<longleftrightarrow>
     gl_p s \<le> length pat \<and> gl_v s \<le> length val \<and> (gl_fail s \<longrightarrow> \<not> glob pat val)
     \<and> (case gl_star s of
          None \<Rightarrow> glob pat val \<longleftrightarrow> glob (drop (gl_p s) pat) (drop (gl_v s) val)
        | Some star \<Rightarrow> \<exists>w. drop star pat = CHR ''*'' # w @ drop (gl_p s) pat \<and> CHR ''*'' \<notin> set w
            \<and> gl_p s = star + 1 + length w \<and> gl_v s = gl_mark s + length w
            \<and> drop (gl_mark s) val = w @ drop (gl_v s) val
            \<and> (glob pat val \<longleftrightarrow> glob (drop star pat) (drop (gl_mark s) val)))"

lemma glob_inv_init: "glob_inv pat val \<lparr>gl_p = 0, gl_v = 0, gl_star = None, gl_mark = 0, gl_fail = False\<rparr>"
  by (simp add: glob_inv_def)

text \<open>Matching the literals after the earlier star at their first place is no loss before a new star.\<close>

lemma glob_greedy:
  assumes "CHR ''*'' \<notin> set w"
  shows "glob (CHR ''*'' # w @ CHR ''*'' # q) (w @ u) \<longleftrightarrow> glob (CHR ''*'' # q) u"
proof
  assume "glob (CHR ''*'' # w @ CHR ''*'' # q) (w @ u)"
  then obtain k where k: "glob (w @ CHR ''*'' # q) (drop k (w @ u))" by (auto simp: glob_star)
  with glob_lits [OF assms] obtain t where t: "drop k (w @ u) = w @ t" "glob (CHR ''*'' # q) t" by metis
  have "drop (length w) (drop k (w @ u)) = drop k u" by (simp only: drop_drop) simp
  with t(1) have "t = drop k u" by simp
  with t(2) show "glob (CHR ''*'' # q) u" using glob_star_suffix by blast
next
  assume "glob (CHR ''*'' # q) u"
  then have "glob (w @ CHR ''*'' # q) (w @ u)" using glob_lits [OF assms] by blast
  then show "glob (CHR ''*'' # w @ CHR ''*'' # q) (w @ u)"
    by (subst glob_star) (auto intro: exI [of _ 0])
qed

lemma glob_inv_star:
  assumes "glob_inv pat val s" and "gl_p s < length pat" and "pat ! gl_p s = CHR ''*''" and "\<not> gl_fail s"
  shows "glob_inv pat val (s\<lparr>gl_star := Some (gl_p s), gl_mark := gl_v s, gl_p := gl_p s + 1\<rparr>)"
proof -
  have d: "drop (gl_p s) pat = CHR ''*'' # drop (gl_p s + 1) pat"
    using assms(2,3) by (metis Cons_nth_drop_Suc Suc_eq_plus1)
  have "glob pat val \<longleftrightarrow> glob (drop (gl_p s) pat) (drop (gl_v s) val)"
  proof (cases "gl_star s")
    case None
    with assms(1) show ?thesis by (simp add: glob_inv_def)
  next
    case (Some star)
    with assms(1) d obtain w where "drop star pat = CHR ''*'' # w @ CHR ''*'' # drop (gl_p s + 1) pat"
      "CHR ''*'' \<notin> set w" "drop (gl_mark s) val = w @ drop (gl_v s) val"
      "glob pat val \<longleftrightarrow> glob (drop star pat) (drop (gl_mark s) val)" by (auto simp: glob_inv_def)
    with glob_greedy d show ?thesis by simp
  qed
  with assms d show ?thesis by (simp add: glob_inv_def)
qed

lemma glob_inv_lit:
  assumes "glob_inv pat val s" and "gl_p s < length pat" and "gl_v s < length val"
    and "pat ! gl_p s = val ! gl_v s" and "pat ! gl_p s \<noteq> CHR ''*''" and "\<not> gl_fail s"
  shows "glob_inv pat val (s\<lparr>gl_p := gl_p s + 1, gl_v := gl_v s + 1\<rparr>)"
proof -
  have d: "drop (gl_p s) pat = pat ! gl_p s # drop (gl_p s + 1) pat"
    "drop (gl_v s) val = pat ! gl_p s # drop (gl_v s + 1) val"
    using assms(2-4) by (metis Cons_nth_drop_Suc Suc_eq_plus1)+
  show ?thesis
  proof (cases "gl_star s")
    case None
    with assms(1,2,3,6) d glob_lit [OF assms(5)] show ?thesis by (simp add: glob_inv_def)
  next
    case (Some star)
    with assms(1) obtain w where w: "drop star pat = CHR ''*'' # w @ drop (gl_p s) pat" "CHR ''*'' \<notin> set w"
      "gl_p s = star + 1 + length w" "gl_v s = gl_mark s + length w" "drop (gl_mark s) val = w @ drop (gl_v s) val"
      "glob pat val \<longleftrightarrow> glob (drop star pat) (drop (gl_mark s) val)" by (auto simp: glob_inv_def)
    show ?thesis
      using assms(2,3,5,6) Some w d unfolding glob_inv_def
      by (auto intro!: exI [of _ "w @ [pat ! gl_p s]"])
  qed
qed

lemma glob_inv_back:
  assumes "glob_inv pat val s" and "gl_v s < length val" and "gl_star s = Some star" and "\<not> gl_fail s"
    and "\<not> (gl_p s < length pat \<and> pat ! gl_p s = CHR ''*'')" and "\<not> (gl_p s < length pat \<and> pat ! gl_p s = val ! gl_v s)"
  shows "glob_inv pat val (s\<lparr>gl_p := star + 1, gl_mark := gl_mark s + 1, gl_v := gl_mark s + 1\<rparr>)"
proof -
  from assms(1,3) obtain w where w: "drop star pat = CHR ''*'' # w @ drop (gl_p s) pat" "CHR ''*'' \<notin> set w"
    "gl_p s = star + 1 + length w" "gl_v s = gl_mark s + length w" "drop (gl_mark s) val = w @ drop (gl_v s) val"
    "glob pat val \<longleftrightarrow> glob (drop star pat) (drop (gl_mark s) val)" "gl_p s \<le> length pat" by (auto simp: glob_inv_def)
  have star: "drop (star + 1) pat = w @ drop (gl_p s) pat"
    using arg_cong [OF w(1), of tl] by (simp add: drop_Suc tl_drop)
  have "\<not> glob (drop (gl_p s) pat) (drop (gl_v s) val)"
  proof (cases "gl_p s < length pat")
    case True
    with assms(2,5,6) show ?thesis
      by (metis Cons_nth_drop_Suc glob_lit list.inject)
  next
    case False
    with assms(2) show ?thesis by simp
  qed
  with glob_lits [OF w(2)] w(5) have "\<not> glob (w @ drop (gl_p s) pat) (drop (gl_mark s) val)" by auto
  moreover have m: "gl_mark s < length val" using w(4) assms(2) by simp
  ultimately have "glob pat val \<longleftrightarrow> glob (drop star pat) (drop (gl_mark s + 1) val)"
    unfolding w(6) w(1) by (subst glob_star_step) (simp add: Cons_nth_drop_Suc [OF m, symmetric])
  with assms(3,4) star w(1,3,7) m show ?thesis
    by (auto simp: glob_inv_def)
qed

lemma glob_inv_fail:
  assumes "glob_inv pat val s" and "gl_v s < length val" and "gl_star s = None"
    and "\<not> (gl_p s < length pat \<and> pat ! gl_p s = CHR ''*'')" and "\<not> (gl_p s < length pat \<and> pat ! gl_p s = val ! gl_v s)"
  shows "glob_inv pat val (s\<lparr>gl_fail := True\<rparr>)"
proof -
  have "\<not> glob (drop (gl_p s) pat) (drop (gl_v s) val)"
  proof (cases "gl_p s < length pat")
    case True
    with assms(2,4,5) show ?thesis by (metis Cons_nth_drop_Suc glob_lit list.inject)
  next
    case False
    with assms(2) show ?thesis by simp
  qed
  with assms(1,3) show ?thesis by (simp add: glob_inv_def)
qed

lemma glob_inv_step:
  assumes "glob_inv pat val s" and "\<not> gl_fail s" and "gl_v s < length val"
  shows "glob_inv pat val (globStep pat val s)"
  using assms glob_inv_star glob_inv_lit glob_inv_back glob_inv_fail
  by (auto simp: globStep_def split: option.splits)

text \<open>Termination: the star moves right, else the mark does, else the value position does.\<close>

definition glob_measures :: "string \<Rightarrow> string \<Rightarrow> (glob_state \<Rightarrow> nat) list" where
  "glob_measures pat val =
     [\<lambda>s. if gl_fail s then 0 else 1,
      \<lambda>s. length pat - (case gl_star s of None \<Rightarrow> 0 | Some star \<Rightarrow> Suc star),
      \<lambda>s. length val - gl_mark s,
      \<lambda>s. length val - gl_v s]"

lemma globStep_decreases:
  assumes "glob_inv pat val s" and "\<not> gl_fail s" and "gl_v s < length val"
  shows "(globStep pat val s, s) \<in> measures (glob_measures pat val)"
proof (cases "gl_star s")
  case None
  with assms(2,3) show ?thesis by (auto simp: globStep_def glob_measures_def)
next
  case (Some star)
  with assms(1) obtain w :: string where "gl_p s = star + 1 + length w" "gl_v s = gl_mark s + length w"
    by (auto simp: glob_inv_def)
  with Some assms(2,3) show ?thesis by (auto simp: globStep_def glob_measures_def)
qed

lemma globLoop_correct: "\<exists>s. globLoop pat val = Some s \<and> glob_inv pat val s \<and> (gl_fail s \<or> gl_v s = length val)"
proof -
  let ?b = "\<lambda>s. \<not> gl_fail s \<and> gl_v s < length val"
  let ?init = "\<lparr>gl_p = 0, gl_v = 0, gl_star = None, gl_mark = 0, gl_fail = False\<rparr>"
  have "{(t, s). (glob_inv pat val s \<and> ?b s) \<and> t = globStep pat val s} \<subseteq> measures (glob_measures pat val)"
    using globStep_decreases by auto
  then have "wf {(t, s). (glob_inv pat val s \<and> ?b s) \<and> t = globStep pat val s}"
    by (rule wf_subset [OF wf_measures])
  then obtain s where s: "while_option ?b (globStep pat val) ?init = Some s"
    using wf_while_option_Some [of "glob_inv pat val" ?b "globStep pat val" ?init] glob_inv_step glob_inv_init by blast
  have "glob_inv pat val s"
    by (rule while_option_rule [OF _ s]) (use glob_inv_step glob_inv_init in auto)
  moreover from while_option_stop [OF s] have "gl_fail s \<or> length val \<le> gl_v s" by auto
  ultimately show ?thesis using s by (auto simp: globLoop_def glob_inv_def)
qed

lemma glob_inv_end:
  assumes "glob_inv pat val s" and "\<not> gl_fail s" and "gl_v s = length val"
  shows "glob pat val \<longleftrightarrow> dropWhile (\<lambda>c. c = CHR ''*'') (drop (gl_p s) pat) = []"
proof (cases "gl_star s")
  case None
  with assms show ?thesis by (simp add: glob_inv_def glob_Nil)
next
  case (Some star)
  with assms obtain w where w: "drop star pat = CHR ''*'' # w @ drop (gl_p s) pat" "CHR ''*'' \<notin> set w"
    "drop (gl_mark s) val = w" "glob pat val \<longleftrightarrow> glob (drop star pat) (drop (gl_mark s) val)"
    by (auto simp: glob_inv_def)
  have "glob (w @ q) (drop k w) \<longleftrightarrow> k = 0 \<and> glob q []" if "k \<le> length w" for q k
  proof
    assume "glob (w @ q) (drop k w)"
    with glob_lits [OF w(2)] obtain u where u: "drop k w = w @ u" "glob q u" by blast
    from arg_cong [OF u(1), of length] that have "k = 0" "u = []" by (auto simp: length_0_conv [symmetric] simp del: length_0_conv)
    with u show "k = 0 \<and> glob q []" by simp
  qed (use glob_lits [OF w(2), of q w] in auto)
  with w show ?thesis by (auto simp: glob_star glob_Nil)
qed

section \<open>Targets\<close>

definition roleARNAllowed :: "string \<Rightarrow> string list \<Rightarrow> bool" where
  "roleARNAllowed roleARN allowed \<longleftrightarrow> list_ex (\<lambda>pat. globMatch pat roleARN = Some True) allowed"

text \<open>\<open>tunnelTargetAttribute\<close>: the value, whether it is present, and whether it is a string.\<close>

definition tunnelTargetAttribute :: "(string \<times> any) list \<Rightarrow> string \<Rightarrow> string \<times> bool \<times> bool" where
  "tunnelTargetAttribute attributes key =
     (case map_of attributes key of
        None \<Rightarrow> ([], False, False)
      | Some VNil \<Rightarrow> ([], False, False)
      | Some (VString text) \<Rightarrow> (TrimSpace text, TrimSpace text \<noteq> [], True)
      | Some _ \<Rightarrow> ([], True, False))"

text \<open>The operator-facing detail of a denial is only logged and is left out.\<close>

record tunnelTargetDenial =
  td_reason :: string
  td_err :: go_error
  td_target :: "TunnelTarget option"

definition resolveTunnelTarget :: "DeviceRecord \<Rightarrow> string list \<Rightarrow> tunnelTargetDenial + TunnelTarget" where
  "resolveTunnelTarget device allowedRoleARNs =
     (case tunnelTargetAttribute (dev_Attributes device) TunnelRoleARNAttribute of (roleARN, hasRole, roleIsString) \<Rightarrow>
      case tunnelTargetAttribute (dev_Attributes device) TunnelRegionAttribute of (region, hasRegion, regionIsString) \<Rightarrow>
      let attempted = \<lparr>tt_RoleARN = TruncateRunes roleARN maxAuditTargetRunes,
                       tt_Region = TruncateRunes region maxAuditTargetRunes\<rparr>;
          invalid = Inl \<lparr>td_reason = DenyReasonTunnelTargetInvalid,
            td_err = BrokerError 500 ''device tunnel target is invalid; contact your operator'',
            td_target = Some attempted\<rparr>
      in if \<not> hasRole \<and> \<not> hasRegion then
           Inl \<lparr>td_reason = DenyReasonTunnelTargetMissing,
             td_err = BrokerError 409 ''device has no tunnel target; reach it over the LAN or contact your operator'',
             td_target = None\<rparr>
         else if \<not> hasRole then invalid
         else if \<not> hasRegion then invalid
         else if \<not> roleIsString then invalid
         else if \<not> regionIsString then invalid
         else if \<not> tunnelRoleARNPattern roleARN then invalid
         else if \<not> tunnelRegionPattern region then invalid
         else if \<not> roleARNAllowed roleARN allowedRoleARNs then
           Inl \<lparr>td_reason = DenyReasonTunnelRoleNotAllowed,
             td_err = BrokerError 403 ''device tunnel target role is not allowed by this broker'',
             td_target = Some attempted\<rparr>
         else Inr \<lparr>tt_RoleARN = roleARN, tt_Region = region\<rparr>)"

definition ErrTunnelingAllowedRoleARNsRequired :: go_error where
  "ErrTunnelingAllowedRoleARNsRequired =
     Plain ''tunneling allowed role ARNs are required when targeting from the registry''"

definition ErrTunnelingAllowedRoleARNInvalid :: go_error where
  "ErrTunnelingAllowedRoleARNInvalid = Plain ''tunneling allowed role ARN is invalid''"

definition validateAllowedRoleARNs :: "string list \<Rightarrow> go_error option" where
  "validateAllowedRoleARNs entries = errors_Join
     (map (\<lambda>entry. if ValidAllowedRoleARN entry then None
                   else Some (Wrapped (quoted entry) ErrTunnelingAllowedRoleARNInvalid)) entries)"

section \<open>Properties\<close>

lemma globMatch_glob: "globMatch pat val = Some (glob pat val)"
proof -
  from globLoop_correct [of pat val] obtain s where
    s: "globLoop pat val = Some s" "glob_inv pat val s" "gl_fail s \<or> gl_v s = length val" by blast
  show ?thesis
  proof (cases "gl_fail s")
    case True
    with s show ?thesis by (simp add: globMatch_def glob_inv_def)
  next
    case False
    with s glob_inv_end [OF s(2) False] show ?thesis by (simp add: globMatch_def)
  qed
qed

text \<open>
  C10: \<open>globMatch\<close> always returns, and it returns the declarative wildcard relation: a star matches any
  run of bytes, every other character only itself, and the whole value must be matched. In particular
  backtracking to the last star only is enough.
\<close>

theorem globMatch_correct: "globMatch pat val = Some b \<longleftrightarrow> b = glob pat val"
  using globMatch_glob by auto

lemma arn_head_literal:
  assumes "arn_pattern cls e"
  shows "CHR ''*'' \<notin> set (take 31 e)" and "31 \<le> length e"
proof -
  from assms obtain r where e: "e = ''arn:aws:iam::'' @ r"
    and d: "length (take 12 r) = 12" "list_all is_digit (take 12 r)"
    and role: "prefix '':role/'' (drop 25 e)" by (auto simp: arn_pattern_def prefix_def)
  have r: "drop 25 e = drop 12 r" by (simp add: e)
  from role r obtain u where "drop 12 r = '':role/'' @ u" by (auto simp: prefix_def)
  then have "r = take 12 r @ '':role/'' @ u" by (metis append_take_drop_id)
  then have full: "e = (''arn:aws:iam::'' @ take 12 r @ '':role/'') @ u" using e by simp
  moreover have len: "length (''arn:aws:iam::'' @ take 12 r @ '':role/'') = 31" using d(1) by simp
  ultimately have t: "take 31 e = ''arn:aws:iam::'' @ take 12 r @ '':role/''"
    by (metis append_eq_conv_conj)
  have "CHR ''*'' \<notin> set (take 12 r)" using d(2) by (auto simp: list_all_iff is_digit_def)
  then show "CHR ''*'' \<notin> set (take 31 e)" by (simp add: t)
  show "31 \<le> length e" using full len by (metis le_add1 length_append)
qed

lemma Split_chars: "x \<in> set s \<Longrightarrow> x = c \<or> (\<exists>p \<in> set (Split c s). x \<in> set p)"
  by (induction s) (auto split: list.splits)

lemma region_chars:
  assumes "tunnelRegionPattern s" and "x \<in> set s"
  shows "is_lower x \<or> is_digit x \<or> x = CHR ''-''"
proof -
  let ?ps = "Split CHR ''-'' s"
  have "list_all is_lower p \<or> list_all is_digit p" if "p \<in> set ?ps" for p
  proof -
    from assms(1) obtain h t where t: "?ps = h # t" "t \<noteq> []"
      by (cases ?ps; cases "tl ?ps") (auto simp: tunnelRegionPattern_def Let_def)
    from t(2) have "set t = set (butlast t) \<union> {last t}"
      by (metis append_butlast_last_id empty_set list.simps(15) set_append)
    with that t(1) have "p = h \<or> p \<in> set (butlast t) \<or> p = last t" by auto
    with assms(1) t show ?thesis by (auto simp: tunnelRegionPattern_def Let_def list_all_iff)
  qed
  with Split_chars [OF assms(2), of "CHR ''-''"] show ?thesis by (auto simp: list_all_iff)
qed

text \<open>
  Only listed accounts are reachable. With an allowlist of valid entries, a target that
  \<open>resolveTunnelTarget\<close> accepts matches an entry with exactly its 12-digit account: the wildcard of an
  entry never reaches past the role name, so no registry record can lead the broker into an account
  the operator did not write down. The region, which the client puts into a host name, has only
  lower-case letters, digits and hyphens.
\<close>

theorem accepted_target_listed:
  assumes "resolveTunnelTarget device allowed = Inr target" and "validateAllowedRoleARNs allowed = None"
  shows "(\<exists>entry \<in> set allowed. glob entry (tt_RoleARN target) \<and> take 31 (tt_RoleARN target) = take 31 entry
      \<and> list_all is_digit (take 12 (drop 13 entry)))
    \<and> list_all (\<lambda>c. is_lower c \<or> is_digit c \<or> c = CHR ''-'') (tt_Region target)"
proof -
  from assms(1) have allowed: "roleARNAllowed (tt_RoleARN target) allowed" and reg: "tunnelRegionPattern (tt_Region target)"
    by (auto simp: resolveTunnelTarget_def Let_def split: prod.splits if_splits)
  from allowed obtain entry where entry: "entry \<in> set allowed" "glob entry (tt_RoleARN target)"
    by (auto simp: roleARNAllowed_def list_ex_iff globMatch_glob)
  with assms(2) have v: "allowedRoleARNPattern entry"
    by (auto simp: validateAllowedRoleARNs_def errors_Join_None ValidAllowedRoleARN_def split: if_splits)
  note head = arn_head_literal [OF v [unfolded allowedRoleARNPattern_def]]
  from entry(2) glob_lits [OF head(1), of "drop 31 entry" "tt_RoleARN target"] obtain u
    where "tt_RoleARN target = take 31 entry @ u" by auto
  then have "take 31 (tt_RoleARN target) = take 31 entry" using head(2) by simp
  with entry v region_chars [OF reg] show ?thesis
    by (auto simp: allowedRoleARNPattern_def arn_pattern_def list_all_iff)
qed

definition sample_target_device :: DeviceRecord where
  "sample_target_device = \<lparr>dev_Serial = ''S1'', dev_FriendlyID = ''lab'',
     dev_Attributes = [(TunnelRoleARNAttribute, VString ''arn:aws:iam::123456789012:role/tun-a''),
                       (TunnelRegionAttribute, VString ''us-east-1'')]\<rparr>"

lemma sample_target:
  "resolveTunnelTarget sample_target_device [''arn:aws:iam::123456789012:role/tun-*'']
     = Inr \<lparr>tt_RoleARN = ''arn:aws:iam::123456789012:role/tun-a'', tt_Region = ''us-east-1''\<rparr>"
  "validateAllowedRoleARNs [''arn:aws:iam::123456789012:role/tun-*''] = None"
  by code_simp+

theorem accepted_target_listed_witness:
  "take 31 ''arn:aws:iam::123456789012:role/tun-a'' = take 31 ''arn:aws:iam::123456789012:role/tun-*''
   \<and> glob ''arn:aws:iam::123456789012:role/tun-*'' ''arn:aws:iam::123456789012:role/tun-a''"
  using accepted_target_listed [OF sample_target] by simp

end
