(* ===== verification/Config.thy ===== *)
theory Config
  imports Go_Duration Tunnel_Target
begin

text \<open>
  The broker's configuration (src/pkg/brokerhandlers/config.go): the resolved shape, defaults,
  environment overrides, the selection of the file, and validation. YAML, the file system and the
  functions of \<open>net\<close>, \<open>net/url\<close> and \<open>strings.ToLower\<close> are parameters; the environment is a function
  from names to values. In error messages a quoted value is written without Go's escapes.
\<close>

section \<open>Constants\<close>

definition DefaultEnvPrefix :: string where "DefaultEnvPrefix = ''POSTERN''"
definition BrokerConfigEnv :: string where "BrokerConfigEnv = ''POSTERN_BROKER_CONFIG''"
definition DefaultBrokerConfigPath :: string where "DefaultBrokerConfigPath = ''/etc/postern/broker.yaml''"
definition LocalBrokerConfigPath :: string where "LocalBrokerConfigPath = ''./broker.yaml''"
definition DefaultOperatorCertTTLText :: string where "DefaultOperatorCertTTLText = ''12h''"
definition ConfigOperatorCertTTL :: duration where "ConfigOperatorCertTTL = 12 * Hour"
definition DefaultListenAddr :: string where "DefaultListenAddr = ''127.0.0.1:8080''"
definition DefaultRateLimitLimit :: int where "DefaultRateLimitLimit = 60"
definition DefaultRateLimitWindow :: duration where "DefaultRateLimitWindow = Minute"
definition ConfigPrincipalClass :: string where "ConfigPrincipalClass = ''user''"
definition ConfigMaxPrincipalClassRunes :: nat where "ConfigMaxPrincipalClassRunes = 64"
definition DefaultTunnelingThingNameFormat :: string where "DefaultTunnelingThingNameFormat = ''device-{serial}''"
definition TunnelingThingNameSerialPlaceholder :: string where "TunnelingThingNameSerialPlaceholder = ''{serial}''"
definition RegistryHTTPAuthModeNone :: string where "RegistryHTTPAuthModeNone = ''none''"
definition RegistryHTTPAuthModeBearer :: string where "RegistryHTTPAuthModeBearer = ''bearer''"
definition RegistryHTTPAuthModeSigV4 :: string where "RegistryHTTPAuthModeSigV4 = ''aws_sigv4''"

text \<open>The sentinel errors of validation, by their source names.\<close>

datatype config_error =
    ErrIDPIssuerRequired | ErrIDPIssuerNotHTTPS | ErrIDPAudienceOrRequiredScopeRequired
  | ErrPrincipalClassNameEmpty | ErrPrincipalClassNameTooLong | ErrPrincipalClassRulePredicate
  | ErrSignerKMSKeyARNRequired | ErrRegistryBackendRequired | ErrRegistryBackendConflict
  | ErrRegistryHTTPAuthModeInvalid | ErrRegistryHTTPAuthModeWithoutURL | ErrRegistryHTTPURLNotHTTPS
  | ErrRegistryHTTPBearerTokenRequired | ErrRegistryHTTPBearerTokenUnexpected | ErrRegistryHTTPAWSRegionUnexpected
  | ErrRateLimitTableRequired | ErrRateLimitLimitInvalid | ErrRateLimitWindowInvalid
  | ErrAuditLogGroupRequired | ErrConfigPolicyStoreIDRequired | ErrCertTTLOperatorPositive | ErrCertTTLClassPositive
  | ErrListenAddrRequired | ErrTrustedProxyInvalid | ErrConfigThingNameFormatInvalid
  | ErrConfigAllowedRoleARNsRequired | ErrConfigAllowedRoleARNsUnexpected | ErrConfigAllowedRoleARNInvalid

section \<open>The configuration\<close>

record ListenConfig =
  ln_Addr :: string

record ClassRuleConfig =
  rc_Class :: string
  rc_ClaimPresent :: string
  rc_ClaimAbsent :: string
  rc_Claim :: string
  rc_Equals :: string
  rc_ScopeContains :: string

record PrincipalClassesConfig =
  pc_Default :: string
  pc_Rules :: "ClassRuleConfig list"

record IDPConfig =
  ic_Issuer :: string
  ic_Audience :: string
  ic_RequiredScope :: string
  ic_PrincipalClasses :: "PrincipalClassesConfig option"

record SignerConfig =
  sc_KMSKeyARN :: string

record RegistryConfig =
  rg_DynamoDBTable :: string
  rg_HTTPURL :: string
  rg_HTTPAuthMode :: string
  rg_HTTPBearerToken :: string
  rg_HTTPAWSRegion :: string
  rg_HTTPTimeout :: duration

record RateLimitConfig =
  rt_DynamoDBTable :: string
  rt_Limit :: int
  rt_Window :: duration

record AuditConfig =
  ac_CloudWatchLogGroup :: string

record TunnelingConfig =
  tg_IOTRegion :: string
  tg_DefaultMaxLifetimeMinutes :: int
  tg_ThingNameFormat :: string
  tg_TargetFromRegistry :: bool
  tg_AllowedRoleARNs :: "string list"

record PolicyConfig =
  pl_AVPPolicyStoreID :: string

record CertTTLConfig =
  ct_Operator :: duration
  ct_ByClass :: "(string \<times> duration) list"

record Config =
  cf_Listen :: ListenConfig
  cf_IDP :: IDPConfig
  cf_Signer :: SignerConfig
  cf_Registry :: RegistryConfig
  cf_RateLimit :: RateLimitConfig
  cf_Audit :: AuditConfig
  cf_Tunneling :: "TunnelingConfig option"
  cf_Policy :: PolicyConfig
  cf_CertTTL :: CertTTLConfig
  cf_TrustedProxies :: "string list"

type_synonym sources = "(string \<times> string) list"
type_synonym env = "string \<Rightarrow> string option"

record ResolvedConfig =
  rs_Config :: Config
  rs_Sources :: sources

text \<open>The zero values.\<close>

definition zero_tunneling :: TunnelingConfig where
  "zero_tunneling = \<lparr>tg_IOTRegion = [], tg_DefaultMaxLifetimeMinutes = 0, tg_ThingNameFormat = [],
     tg_TargetFromRegistry = False, tg_AllowedRoleARNs = []\<rparr>"

definition zero_config :: Config where
  "zero_config =
     \<lparr>cf_Listen = \<lparr>ln_Addr = []\<rparr>,
      cf_IDP = \<lparr>ic_Issuer = [], ic_Audience = [], ic_RequiredScope = [], ic_PrincipalClasses = None\<rparr>,
      cf_Signer = \<lparr>sc_KMSKeyARN = []\<rparr>,
      cf_Registry = \<lparr>rg_DynamoDBTable = [], rg_HTTPURL = [], rg_HTTPAuthMode = [], rg_HTTPBearerToken = [],
        rg_HTTPAWSRegion = [], rg_HTTPTimeout = 0\<rparr>,
      cf_RateLimit = \<lparr>rt_DynamoDBTable = [], rt_Limit = 0, rt_Window = 0\<rparr>,
      cf_Audit = \<lparr>ac_CloudWatchLogGroup = []\<rparr>, cf_Tunneling = None, cf_Policy = \<lparr>pl_AVPPolicyStoreID = []\<rparr>,
      cf_CertTTL = \<lparr>ct_Operator = 0, ct_ByClass = []\<rparr>, cf_TrustedProxies = []\<rparr>"

text \<open>
  The parameters: \<open>url_lib\<close>, \<open>net.ParseCIDR\<close> with the networks it returns, and \<open>strings.ToLower\<close>.
\<close>

record 'n config_lib =
  cl_url :: url_lib
  cl_ParseCIDR :: "string \<Rightarrow> 'n result"
  cl_ToLower :: "string \<Rightarrow> string"

subsection \<open>Durations in YAML\<close>

datatype yaml_node = Yaml_Scalar string | Yaml_Other

definition Duration_UnmarshalYAML :: "yaml_node \<Rightarrow> duration result" where
  "Duration_UnmarshalYAML node =
     (case node of
        Yaml_Other \<Rightarrow> Inl (Plain ''duration must be a string'')
      | Yaml_Scalar s \<Rightarrow>
          (case ParseDuration (TrimSpace s) of
             None \<Rightarrow> Inl (Plain ''time: invalid duration'')
           | Some d \<Rightarrow> Inr d))"

section \<open>Validation\<close>

definition predicateCount :: "ClassRuleConfig \<Rightarrow> nat" where
  "predicateCount r =
     (if TrimSpace (rc_ClaimPresent r) \<noteq> [] then 1 else 0) + (if TrimSpace (rc_ClaimAbsent r) \<noteq> [] then 1 else 0)
     + (if TrimSpace (rc_Claim r) \<noteq> [] then 1 else 0) + (if TrimSpace (rc_ScopeContains r) \<noteq> [] then 1 else 0)"

definition validateClassRule :: "ClassRuleConfig \<Rightarrow> config_error list" where
  "validateClassRule rule =
     (let name = TrimSpace (rc_Class rule) in
      (if name = [] then [ErrPrincipalClassNameEmpty]
       else if ConfigMaxPrincipalClassRunes < RuneCountInString name then [ErrPrincipalClassNameTooLong] else [])
      @ (if predicateCount rule \<noteq> 1 then [ErrPrincipalClassRulePredicate] else []))"

definition validatePrincipalClasses :: "PrincipalClassesConfig option \<Rightarrow> config_error list" where
  "validatePrincipalClasses classes =
     (case classes of
        None \<Rightarrow> []
      | Some c \<Rightarrow>
          (if ConfigMaxPrincipalClassRunes < RuneCountInString (TrimSpace (pc_Default c)) then [ErrPrincipalClassNameTooLong] else [])
          @ concat (map validateClassRule (pc_Rules c)))"

definition validateTunnelingTarget :: "TunnelingConfig \<Rightarrow> config_error list" where
  "validateTunnelingTarget t =
     (if \<not> tg_TargetFromRegistry t then
        (if 0 < length (tg_AllowedRoleARNs t) then [ErrConfigAllowedRoleARNsUnexpected] else [])
      else if tg_AllowedRoleARNs t = [] then [ErrConfigAllowedRoleARNsRequired]
      else concat (map (\<lambda>entry. if \<not> ValidAllowedRoleARN entry then [ErrConfigAllowedRoleARNInvalid] else []) (tg_AllowedRoleARNs t)))"

definition validateAuthMode :: "'n config_lib \<Rightarrow> RegistryConfig \<Rightarrow> config_error list" where
  "validateAuthMode lib r =
     (if rg_HTTPAuthMode r = [] \<or> rg_HTTPAuthMode r = RegistryHTTPAuthModeNone then
        (if rg_HTTPBearerToken r \<noteq> [] then [ErrRegistryHTTPBearerTokenUnexpected] else [])
        @ (if rg_HTTPAWSRegion r \<noteq> [] then [ErrRegistryHTTPAWSRegionUnexpected] else [])
      else if rg_HTTPAuthMode r = RegistryHTTPAuthModeBearer then
        (if rg_HTTPURL r = [] then [ErrRegistryHTTPAuthModeWithoutURL]
         else if \<not> IsHTTPSOrLoopback (cl_url lib) (rg_HTTPURL r) then [ErrRegistryHTTPURLNotHTTPS] else [])
        @ (if rg_HTTPBearerToken r = [] then [ErrRegistryHTTPBearerTokenRequired] else [])
        @ (if rg_HTTPAWSRegion r \<noteq> [] then [ErrRegistryHTTPAWSRegionUnexpected] else [])
      else if rg_HTTPAuthMode r = RegistryHTTPAuthModeSigV4 then
        (if rg_HTTPURL r = [] then [ErrRegistryHTTPAuthModeWithoutURL] else [])
        @ (if rg_HTTPBearerToken r \<noteq> [] then [ErrRegistryHTTPBearerTokenUnexpected] else [])
      else [ErrRegistryHTTPAuthModeInvalid])"

text \<open>\<open>Validate\<close>: the joined sentinels, in order; the empty list is the nil error.\<close>

definition Validate :: "'n config_lib \<Rightarrow> Config \<Rightarrow> config_error list" where
  "Validate lib c =
     (let idp = cf_IDP c; reg = cf_Registry c;
          registrySources = (if rg_DynamoDBTable reg \<noteq> [] then 1 else 0 :: nat) + (if rg_HTTPURL reg \<noteq> [] then 1 else 0)
      in (if ln_Addr (cf_Listen c) = [] then [ErrListenAddrRequired] else [])
       @ (if ic_Issuer idp = [] then [ErrIDPIssuerRequired]
          else if \<not> IsHTTPSOrLoopback (cl_url lib) (ic_Issuer idp) then [ErrIDPIssuerNotHTTPS] else [])
       @ (if ic_Audience idp = [] \<and> ic_RequiredScope idp = [] then [ErrIDPAudienceOrRequiredScopeRequired] else [])
       @ validatePrincipalClasses (ic_PrincipalClasses idp)
       @ (if sc_KMSKeyARN (cf_Signer c) = [] then [ErrSignerKMSKeyARNRequired] else [])
       @ (if registrySources = 0 then [ErrRegistryBackendRequired] else [])
       @ (if 1 < registrySources then [ErrRegistryBackendConflict] else [])
       @ validateAuthMode lib reg
       @ (if rt_DynamoDBTable (cf_RateLimit c) = [] then [ErrRateLimitTableRequired] else [])
       @ (if rt_Limit (cf_RateLimit c) \<le> 0 then [ErrRateLimitLimitInvalid] else [])
       @ (if rt_Window (cf_RateLimit c) \<le> 0 then [ErrRateLimitWindowInvalid] else [])
       @ (if ac_CloudWatchLogGroup (cf_Audit c) = [] then [ErrAuditLogGroupRequired] else [])
       @ (if pl_AVPPolicyStoreID (cf_Policy c) = [] then [ErrConfigPolicyStoreIDRequired] else [])
       @ (if ct_Operator (cf_CertTTL c) \<le> 0 then [ErrCertTTLOperatorPositive] else [])
       @ concat (map (\<lambda>(class, ttl). if ttl \<le> 0 then [ErrCertTTLClassPositive] else []) (ct_ByClass (cf_CertTTL c)))
       @ concat (map (\<lambda>entry. if isl (cl_ParseCIDR lib (TrimSpace entry)) then [ErrTrustedProxyInvalid] else []) (cf_TrustedProxies c))
       @ (case cf_Tunneling c of
            None \<Rightarrow> []
          | Some t \<Rightarrow>
              (if tg_ThingNameFormat t \<noteq> [] \<and> Count (tg_ThingNameFormat t) TunnelingThingNameSerialPlaceholder \<noteq> 1
               then [ErrConfigThingNameFormatInvalid] else [])
              @ validateTunnelingTarget t))"

fun ParsedTrustedProxies_loop :: "'n config_lib \<Rightarrow> string list \<Rightarrow> 'n list result" where
  "ParsedTrustedProxies_loop lib [] = Inr []"
| "ParsedTrustedProxies_loop lib (entry # rest) =
     (case cl_ParseCIDR lib (TrimSpace entry) of
        Inl err \<Rightarrow> Inl (Wrapped (''parse trusted proxy CIDR '' @ quoted entry @ '': '') err)
      | Inr network \<Rightarrow>
          (case ParsedTrustedProxies_loop lib rest of
             Inl err \<Rightarrow> Inl err
           | Inr networks \<Rightarrow> Inr (network # networks)))"

definition ParsedTrustedProxies :: "'n config_lib \<Rightarrow> Config \<Rightarrow> 'n list result" where
  "ParsedTrustedProxies lib c = ParsedTrustedProxies_loop lib (cf_TrustedProxies c)"

section \<open>Loading\<close>

definition trimConfig :: "'n config_lib \<Rightarrow> Config \<Rightarrow> Config" where
  "trimConfig lib c =
     (let idp = cf_IDP c; reg = cf_Registry c in
      c\<lparr>cf_Listen := \<lparr>ln_Addr = TrimSpace (ln_Addr (cf_Listen c))\<rparr>,
        cf_IDP := idp\<lparr>ic_Issuer := TrimSpace (ic_Issuer idp), ic_Audience := TrimSpace (ic_Audience idp),
          ic_RequiredScope := TrimSpace (ic_RequiredScope idp)\<rparr>,
        cf_Signer := \<lparr>sc_KMSKeyARN = TrimSpace (sc_KMSKeyARN (cf_Signer c))\<rparr>,
        cf_Registry := reg\<lparr>rg_DynamoDBTable := TrimSpace (rg_DynamoDBTable reg), rg_HTTPURL := TrimSpace (rg_HTTPURL reg),
          rg_HTTPAuthMode := cl_ToLower lib (TrimSpace (rg_HTTPAuthMode reg)),
          rg_HTTPBearerToken := TrimSpace (rg_HTTPBearerToken reg), rg_HTTPAWSRegion := TrimSpace (rg_HTTPAWSRegion reg)\<rparr>,
        cf_RateLimit := (cf_RateLimit c)\<lparr>rt_DynamoDBTable := TrimSpace (rt_DynamoDBTable (cf_RateLimit c))\<rparr>,
        cf_Audit := \<lparr>ac_CloudWatchLogGroup = TrimSpace (ac_CloudWatchLogGroup (cf_Audit c))\<rparr>,
        cf_Policy := \<lparr>pl_AVPPolicyStoreID = TrimSpace (pl_AVPPolicyStoreID (cf_Policy c))\<rparr>,
        cf_Tunneling := map_option (\<lambda>t. t\<lparr>tg_IOTRegion := TrimSpace (tg_IOTRegion t),
          tg_ThingNameFormat := TrimSpace (tg_ThingNameFormat t),
          tg_AllowedRoleARNs := map TrimSpace (tg_AllowedRoleARNs t)\<rparr>) (cf_Tunneling c)\<rparr>)"

text \<open>\<open>yaml_config\<close> decodes the bytes of a file, \<open>yaml_classes\<close> (strict) those of an environment variable.\<close>

definition LoadConfig :: "'n config_lib \<Rightarrow> (string \<Rightarrow> Config result) \<Rightarrow> string \<Rightarrow> Config result" where
  "LoadConfig lib yaml_config bytes =
     (case yaml_config bytes of Inl err \<Rightarrow> Inl err | Inr c \<Rightarrow> Inr (trimConfig lib c))"

definition set_source :: "string \<Rightarrow> string \<Rightarrow> sources \<Rightarrow> sources" where
  "set_source field src s = AList.update field src s"

definition WithDefaults :: "Config \<Rightarrow> sources \<Rightarrow> Config \<times> sources" where
  "WithDefaults c0 s0 =
     (let (c1, s1) = (if ln_Addr (cf_Listen c0) = []
            then (c0\<lparr>cf_Listen := \<lparr>ln_Addr = DefaultListenAddr\<rparr>\<rparr>, set_source ''listen.addr'' ''default'' s0) else (c0, s0));
          (c2, s2) = (if ct_Operator (cf_CertTTL c1) = 0
            then (c1\<lparr>cf_CertTTL := (cf_CertTTL c1)\<lparr>ct_Operator := ConfigOperatorCertTTL\<rparr>\<rparr>, set_source ''cert_ttl.operator'' ''default'' s1)
            else (c1, s1));
          (c3, s3) = (if rt_Limit (cf_RateLimit c2) = 0
            then (c2\<lparr>cf_RateLimit := (cf_RateLimit c2)\<lparr>rt_Limit := DefaultRateLimitLimit\<rparr>\<rparr>, set_source ''ratelimit.limit'' ''default'' s2)
            else (c2, s2));
          (c4, s4) = (if rt_Window (cf_RateLimit c3) = 0
            then (c3\<lparr>cf_RateLimit := (cf_RateLimit c3)\<lparr>rt_Window := DefaultRateLimitWindow\<rparr>\<rparr>, set_source ''ratelimit.window'' ''default'' s3)
            else (c3, s3));
          (c5, s5) = (case cf_Tunneling c4 of
              Some t \<Rightarrow> if tg_ThingNameFormat t = []
                then (c4\<lparr>cf_Tunneling := Some (t\<lparr>tg_ThingNameFormat := DefaultTunnelingThingNameFormat\<rparr>)\<rparr>,
                      set_source ''tunneling.thing_name_format'' ''default'' s4)
                else (c4, s4)
            | None \<Rightarrow> (c4, s4));
          (c6, s6) = (case ic_PrincipalClasses (cf_IDP c5) of
              Some p \<Rightarrow> if TrimSpace (pc_Default p) = []
                then (c5\<lparr>cf_IDP := (cf_IDP c5)\<lparr>ic_PrincipalClasses := Some (p\<lparr>pc_Default := ConfigPrincipalClass\<rparr>)\<rparr>\<rparr>,
                      set_source ''idp.principal_classes.default'' ''default'' s5)
                else (c5, s5)
            | None \<Rightarrow> (c5, s5))
      in (c6, s6))"

text \<open>\<open>markFileSources\<close>: a field that the file sets is attributed to it.\<close>

definition markSource :: "sources \<Rightarrow> string \<Rightarrow> string \<Rightarrow> string \<Rightarrow> sources" where
  "markSource s field val src = (if val \<noteq> [] then set_source field src s else s)"

definition markIf :: "bool \<Rightarrow> string \<Rightarrow> string \<Rightarrow> sources \<Rightarrow> sources" where
  "markIf b field src s = (if b then set_source field src s else s)"

definition markFileSources :: "Config \<Rightarrow> string \<Rightarrow> sources \<Rightarrow> sources" where
  "markFileSources c src s0 =
     (let reg = cf_Registry c;
          s = markSource s0 ''listen.addr'' (ln_Addr (cf_Listen c)) src;
          s = markSource s ''idp.issuer'' (ic_Issuer (cf_IDP c)) src;
          s = markSource s ''idp.audience'' (ic_Audience (cf_IDP c)) src;
          s = markSource s ''idp.required_scope'' (ic_RequiredScope (cf_IDP c)) src;
          s = markSource s ''signer.kms_key_arn'' (sc_KMSKeyARN (cf_Signer c)) src;
          s = markSource s ''registry.dynamodb_table'' (rg_DynamoDBTable reg) src;
          s = markSource s ''registry.http_url'' (rg_HTTPURL reg) src;
          s = markSource s ''registry.http_auth_mode'' (rg_HTTPAuthMode reg) src;
          s = markSource s ''registry.http_bearer_token'' (rg_HTTPBearerToken reg) src;
          s = markSource s ''registry.http_aws_region'' (rg_HTTPAWSRegion reg) src;
          s = markSource s ''ratelimit.dynamodb_table'' (rt_DynamoDBTable (cf_RateLimit c)) src;
          s = markIf (rt_Limit (cf_RateLimit c) \<noteq> 0) ''ratelimit.limit'' src s;
          s = markIf (rt_Window (cf_RateLimit c) \<noteq> 0) ''ratelimit.window'' src s;
          s = markSource s ''audit.cloudwatch_log_group'' (ac_CloudWatchLogGroup (cf_Audit c)) src;
          s = (case cf_Tunneling c of
                 None \<Rightarrow> s
               | Some t \<Rightarrow>
                   let s = markSource s ''tunneling.iot_region'' (tg_IOTRegion t) src;
                       s = markIf (tg_DefaultMaxLifetimeMinutes t \<noteq> 0) ''tunneling.default_max_lifetime_minutes'' src s;
                       s = markSource s ''tunneling.thing_name_format'' (tg_ThingNameFormat t) src;
                       s = markIf (tg_TargetFromRegistry t) ''tunneling.target_from_registry'' src s
                   in markIf (0 < length (tg_AllowedRoleARNs t)) ''tunneling.allowed_role_arns'' src s);
          s = markSource s ''policy.avp_policy_store_id'' (pl_AVPPolicyStoreID (cf_Policy c)) src;
          s = markIf (ct_Operator (cf_CertTTL c) \<noteq> 0) ''cert_ttl.operator'' src s
      in markIf (0 < length (cf_TrustedProxies c)) ''trusted_proxies'' src s)"

section \<open>Environment overrides\<close>

type_synonym loading = "Config \<times> sources"

definition lookupTrimmedEnv :: "string \<Rightarrow> env \<Rightarrow> string option" where
  "lookupTrimmedEnv envName lookupEnv =
     (case lookupEnv envName of
        None \<Rightarrow> None
      | Some v \<Rightarrow> if TrimSpace v = [] then None else Some (TrimSpace v))"

definition setStringFromEnv :: "(string \<Rightarrow> Config \<Rightarrow> Config) \<Rightarrow> string \<Rightarrow> env \<Rightarrow> string \<Rightarrow> loading \<Rightarrow> loading" where
  "setStringFromEnv target envName lookupEnv field cs =
     (case lookupTrimmedEnv envName lookupEnv of
        None \<Rightarrow> cs
      | Some v \<Rightarrow> (target v (fst cs), set_source field envName (snd cs)))"

definition setDurationFromEnv ::
  "(duration \<Rightarrow> Config \<Rightarrow> Config) \<Rightarrow> string \<Rightarrow> env \<Rightarrow> string \<Rightarrow> loading \<Rightarrow> loading result" where
  "setDurationFromEnv target envName lookupEnv field cs =
     (case lookupTrimmedEnv envName lookupEnv of
        None \<Rightarrow> Inr cs
      | Some v \<Rightarrow>
          (case ParseDuration v of
             None \<Rightarrow> Inl (Wrapped (envName @ ''='' @ quoted v @ '': invalid duration: '') (Plain ''time: invalid duration''))
           | Some d \<Rightarrow> Inr (target d (fst cs), set_source field envName (snd cs))))"

text \<open>\<open>strconv.Atoi\<close> on a 64-bit platform accepts what \<open>ParseInt\<close> accepts.\<close>

definition setIntFromEnv :: "(int \<Rightarrow> Config \<Rightarrow> Config) \<Rightarrow> string \<Rightarrow> env \<Rightarrow> string \<Rightarrow> loading \<Rightarrow> loading result" where
  "setIntFromEnv target envName lookupEnv field cs =
     (case lookupTrimmedEnv envName lookupEnv of
        None \<Rightarrow> Inr cs
      | Some v \<Rightarrow>
          (case ParseInt64 v of
             None \<Rightarrow> Inl (Wrapped (envName @ ''='' @ quoted v @ '': invalid integer: '') (Plain ''strconv.Atoi''))
           | Some i \<Rightarrow> Inr (target i (fst cs), set_source field envName (snd cs))))"

definition splitList :: "string \<Rightarrow> string list" where
  "splitList v = filter (\<lambda>p. p \<noteq> []) (map TrimSpace (Split CHR '','' v))"

definition setStringSliceFromEnv :: "(string list \<Rightarrow> Config \<Rightarrow> Config) \<Rightarrow> string \<Rightarrow> env \<Rightarrow> string \<Rightarrow> loading \<Rightarrow> loading" where
  "setStringSliceFromEnv target envName lookupEnv field cs =
     (case lookupTrimmedEnv envName lookupEnv of
        None \<Rightarrow> cs
      | Some v \<Rightarrow>
          if splitList v = [] then cs
          else (target (splitList v) (fst cs), set_source field envName (snd cs)))"

text \<open>The tunneling section is allocated when a variable needs it.\<close>

definition update_tunneling :: "(TunnelingConfig \<Rightarrow> TunnelingConfig) \<Rightarrow> Config \<Rightarrow> Config" where
  "update_tunneling f c =
     c\<lparr>cf_Tunneling := Some (f (case cf_Tunneling c of Some t \<Rightarrow> t | None \<Rightarrow> zero_tunneling))\<rparr>"

definition setPrincipalClassesFromEnv ::
  "(string \<Rightarrow> PrincipalClassesConfig result) \<Rightarrow> env \<Rightarrow> loading \<Rightarrow> loading result" where
  "setPrincipalClassesFromEnv yaml_classes lookupEnv cs =
     (case lookupEnv ''POSTERN_IDP_PRINCIPAL_CLASSES'' of
        None \<Rightarrow> Inr cs
      | Some v \<Rightarrow>
          if TrimSpace v = [] then Inr cs
          else (case yaml_classes v of
                  Inl err \<Rightarrow> Inl (Wrapped ''POSTERN_IDP_PRINCIPAL_CLASSES: '' err)
                | Inr parsed \<Rightarrow>
                    Inr ((fst cs)\<lparr>cf_IDP := (cf_IDP (fst cs))\<lparr>ic_PrincipalClasses := Some parsed\<rparr>\<rparr>,
                         set_source ''idp.principal_classes'' ''POSTERN_IDP_PRINCIPAL_CLASSES'' (snd cs))))"

definition setPrincipalClassDefaultFromEnv :: "env \<Rightarrow> loading \<Rightarrow> loading" where
  "setPrincipalClassDefaultFromEnv lookupEnv cs =
     setStringFromEnv
       (\<lambda>v c. c\<lparr>cf_IDP := (cf_IDP c)\<lparr>ic_PrincipalClasses :=
          Some ((case ic_PrincipalClasses (cf_IDP c) of Some p \<Rightarrow> p | None \<Rightarrow> \<lparr>pc_Default = [], pc_Rules = []\<rparr>)\<lparr>pc_Default := v\<rparr>)\<rparr>\<rparr>)
       ''POSTERN_IDP_PRINCIPAL_CLASS_DEFAULT'' lookupEnv ''idp.principal_classes.default'' cs"

definition setTunnelingRegionFromEnv :: "env \<Rightarrow> loading \<Rightarrow> loading" where
  "setTunnelingRegionFromEnv lookupEnv cs =
     setStringFromEnv (\<lambda>v. update_tunneling (\<lambda>t. t\<lparr>tg_IOTRegion := v\<rparr>))
       ''POSTERN_TUNNELING_IOT_REGION'' lookupEnv ''tunneling.iot_region'' cs"

definition setTunnelingThingNameFormatFromEnv :: "env \<Rightarrow> loading \<Rightarrow> loading" where
  "setTunnelingThingNameFormatFromEnv lookupEnv cs =
     setStringFromEnv (\<lambda>v. update_tunneling (\<lambda>t. t\<lparr>tg_ThingNameFormat := v\<rparr>))
       ''POSTERN_TUNNELING_THING_NAME_FORMAT'' lookupEnv ''tunneling.thing_name_format'' cs"

definition ParseBool :: "string \<Rightarrow> bool option" where
  "ParseBool s =
     (if s \<in> {''1'', ''t'', ''T'', ''true'', ''TRUE'', ''True''} then Some True
      else if s \<in> {''0'', ''f'', ''F'', ''false'', ''FALSE'', ''False''} then Some False
      else None)"

text \<open>The flag of the pair is \<open>disabled\<close>.\<close>

definition setTunnelingTargetFromRegistryFromEnv :: "env \<Rightarrow> loading \<Rightarrow> (bool \<times> loading) result" where
  "setTunnelingTargetFromRegistryFromEnv lookupEnv cs =
     (case lookupTrimmedEnv ''POSTERN_TUNNELING_TARGET_FROM_REGISTRY'' lookupEnv of
        None \<Rightarrow> Inr (False, cs)
      | Some v \<Rightarrow>
          (case ParseBool v of
             None \<Rightarrow> Inl (Wrapped (''POSTERN_TUNNELING_TARGET_FROM_REGISTRY='' @ quoted v @ '': invalid boolean: '') (Plain ''strconv.ParseBool''))
           | Some parsed \<Rightarrow>
               let c1 = update_tunneling (\<lambda>t. t\<lparr>tg_TargetFromRegistry := parsed\<rparr>) (fst cs);
                   s1 = set_source ''tunneling.target_from_registry'' ''POSTERN_TUNNELING_TARGET_FROM_REGISTRY'' (snd cs)
               in if parsed then Inr (False, c1, s1)
                  else Inr (True, update_tunneling (\<lambda>t. t\<lparr>tg_AllowedRoleARNs := []\<rparr>) c1,
                         AList.delete ''tunneling.allowed_role_arns'' s1)))"

definition setTunnelingAllowedRoleARNsFromEnv :: "env \<Rightarrow> loading \<Rightarrow> loading" where
  "setTunnelingAllowedRoleARNsFromEnv lookupEnv cs =
     setStringSliceFromEnv (\<lambda>arns. update_tunneling (\<lambda>t. t\<lparr>tg_AllowedRoleARNs := arns\<rparr>))
       ''POSTERN_TUNNELING_ALLOWED_ROLE_ARNS'' lookupEnv ''tunneling.allowed_role_arns'' cs"

definition setTunnelingMaxLifetimeFromEnv :: "env \<Rightarrow> loading \<Rightarrow> loading result" where
  "setTunnelingMaxLifetimeFromEnv lookupEnv cs =
     setIntFromEnv (\<lambda>i. update_tunneling (\<lambda>t. t\<lparr>tg_DefaultMaxLifetimeMinutes := int32 i\<rparr>))
       ''POSTERN_TUNNELING_DEFAULT_MAX_LIFETIME_MINUTES'' lookupEnv ''tunneling.default_max_lifetime_minutes'' cs"

definition setRegistryFromEnv :: "env \<Rightarrow> loading \<Rightarrow> loading" where
  "setRegistryFromEnv lookupEnv cs =
     (let table = lookupTrimmedEnv ''POSTERN_REGISTRY_DYNAMODB_TABLE'' lookupEnv;
          url = lookupTrimmedEnv ''POSTERN_REGISTRY_HTTP_URL'' lookupEnv;
          put_table = (\<lambda>v (c, s). (c\<lparr>cf_Registry := (cf_Registry c)\<lparr>rg_DynamoDBTable := v\<rparr>\<rparr>, s));
          put_url = (\<lambda>v (c, s). (c\<lparr>cf_Registry := (cf_Registry c)\<lparr>rg_HTTPURL := v\<rparr>\<rparr>, s));
          cs1 = (case table of Some v \<Rightarrow> apsnd (set_source ''registry.dynamodb_table'' ''POSTERN_REGISTRY_DYNAMODB_TABLE'') (put_table v cs)
                 | None \<Rightarrow> cs);
          cs2 = (case url of Some v \<Rightarrow> apsnd (set_source ''registry.http_url'' ''POSTERN_REGISTRY_HTTP_URL'') (put_url v cs1)
                 | None \<Rightarrow> cs1);
          cs3 = (if table \<noteq> None \<and> url = None then apsnd (AList.delete ''registry.http_url'') (put_url [] cs2) else cs2)
      in if url \<noteq> None \<and> table = None then apsnd (AList.delete ''registry.dynamodb_table'') (put_table [] cs3) else cs3)"

definition and_then :: "'a result \<Rightarrow> ('a \<Rightarrow> 'b result) \<Rightarrow> 'b result" where
  "and_then r f = (case r of Inl e \<Rightarrow> Inl e | Inr x \<Rightarrow> f x)"

definition update_registry :: "(RegistryConfig \<Rightarrow> RegistryConfig) \<Rightarrow> Config \<Rightarrow> Config" where
  "update_registry f c = c\<lparr>cf_Registry := f (cf_Registry c)\<rparr>"

definition update_idp :: "(IDPConfig \<Rightarrow> IDPConfig) \<Rightarrow> Config \<Rightarrow> Config" where
  "update_idp f c = c\<lparr>cf_IDP := f (cf_IDP c)\<rparr>"

definition update_ratelimit :: "(RateLimitConfig \<Rightarrow> RateLimitConfig) \<Rightarrow> Config \<Rightarrow> Config" where
  "update_ratelimit f c = c\<lparr>cf_RateLimit := f (cf_RateLimit c)\<rparr>"

text \<open>The overrides in the order of the source, in three groups.\<close>

definition overrideIdentity :: "(string \<Rightarrow> PrincipalClassesConfig result) \<Rightarrow> env \<Rightarrow> loading \<Rightarrow> loading result" where
  "overrideIdentity yaml_classes env cs0 =
     (let cs1 = setStringFromEnv (\<lambda>v c. c\<lparr>cf_Listen := \<lparr>ln_Addr = v\<rparr>\<rparr>) ''POSTERN_BROKER_ADDR'' env ''listen.addr'' cs0;
          cs2 = setStringFromEnv (\<lambda>v. update_idp (\<lambda>i. i\<lparr>ic_Issuer := v\<rparr>)) ''POSTERN_IDP_ISSUER'' env ''idp.issuer'' cs1;
          cs3 = setStringFromEnv (\<lambda>v. update_idp (\<lambda>i. i\<lparr>ic_Audience := v\<rparr>)) ''POSTERN_IDP_AUDIENCE'' env ''idp.audience'' cs2;
          cs4 = setStringFromEnv (\<lambda>v. update_idp (\<lambda>i. i\<lparr>ic_RequiredScope := v\<rparr>)) ''POSTERN_IDP_REQUIRED_SCOPE'' env ''idp.required_scope'' cs3
      in and_then (setPrincipalClassesFromEnv yaml_classes env cs4) (\<lambda>cs5.
           let cs6 = setPrincipalClassDefaultFromEnv env cs5
           in Inr (setStringFromEnv (\<lambda>v c. c\<lparr>cf_Signer := \<lparr>sc_KMSKeyARN = v\<rparr>\<rparr>) ''POSTERN_SIGNER_KMS_KEY_ARN'' env ''signer.kms_key_arn'' cs6)))"

definition overrideBackends :: "'n config_lib \<Rightarrow> env \<Rightarrow> loading \<Rightarrow> loading result" where
  "overrideBackends lib env cs0 =
     (let cs1 = setRegistryFromEnv env cs0;
          cs2 = setStringFromEnv (\<lambda>v. update_registry (\<lambda>r. r\<lparr>rg_HTTPAuthMode := v\<rparr>)) ''POSTERN_REGISTRY_HTTP_AUTH_MODE'' env ''registry.http_auth_mode'' cs1;
          cs3 = apfst (update_registry (\<lambda>r. r\<lparr>rg_HTTPAuthMode := cl_ToLower lib (rg_HTTPAuthMode r)\<rparr>)) cs2;
          cs4 = setStringFromEnv (\<lambda>v. update_registry (\<lambda>r. r\<lparr>rg_HTTPBearerToken := v\<rparr>)) ''POSTERN_REGISTRY_HTTP_BEARER_TOKEN'' env ''registry.http_bearer_token'' cs3;
          cs5 = setStringFromEnv (\<lambda>v. update_registry (\<lambda>r. r\<lparr>rg_HTTPAWSRegion := v\<rparr>)) ''POSTERN_REGISTRY_HTTP_AWS_REGION'' env ''registry.http_aws_region'' cs4
      in and_then (setDurationFromEnv (\<lambda>d. update_registry (\<lambda>r. r\<lparr>rg_HTTPTimeout := d\<rparr>)) ''POSTERN_REGISTRY_HTTP_TIMEOUT'' env ''registry.http_timeout'' cs5) (\<lambda>cs6.
         let cs7 = setStringFromEnv (\<lambda>v. update_ratelimit (\<lambda>r. r\<lparr>rt_DynamoDBTable := v\<rparr>)) ''POSTERN_RATELIMIT_DYNAMODB_TABLE'' env ''ratelimit.dynamodb_table'' cs6
         in and_then (setIntFromEnv (\<lambda>i. update_ratelimit (\<lambda>r. r\<lparr>rt_Limit := i\<rparr>)) ''POSTERN_RATELIMIT_LIMIT'' env ''ratelimit.limit'' cs7) (\<lambda>cs8.
            and_then (setDurationFromEnv (\<lambda>d. update_ratelimit (\<lambda>r. r\<lparr>rt_Window := d\<rparr>)) ''POSTERN_RATELIMIT_WINDOW'' env ''ratelimit.window'' cs8) (\<lambda>cs9.
            Inr (setStringFromEnv (\<lambda>v c. c\<lparr>cf_Audit := \<lparr>ac_CloudWatchLogGroup = v\<rparr>\<rparr>) ''POSTERN_AUDIT_CLOUDWATCH_LOG_GROUP'' env ''audit.cloudwatch_log_group'' cs9)))))"

definition overrideTunneling :: "env \<Rightarrow> loading \<Rightarrow> loading result" where
  "overrideTunneling env cs0 =
     and_then (setTunnelingMaxLifetimeFromEnv env (setTunnelingRegionFromEnv env cs0)) (\<lambda>cs1.
     and_then (setTunnelingTargetFromRegistryFromEnv env (setTunnelingThingNameFormatFromEnv env cs1)) (\<lambda>(targetDisabled, cs2).
     Inr (if targetDisabled then cs2 else setTunnelingAllowedRoleARNsFromEnv env cs2)))"

definition overrideRest :: "env \<Rightarrow> loading \<Rightarrow> loading result" where
  "overrideRest env cs0 =
     (let cs1 = setStringFromEnv (\<lambda>v c. c\<lparr>cf_Policy := \<lparr>pl_AVPPolicyStoreID = v\<rparr>\<rparr>) ''POSTERN_POLICY_AVP_POLICY_STORE_ID'' env ''policy.avp_policy_store_id'' cs0
      in and_then (setDurationFromEnv (\<lambda>d c. c\<lparr>cf_CertTTL := (cf_CertTTL c)\<lparr>ct_Operator := d\<rparr>\<rparr>) ''POSTERN_CERT_TTL_OPERATOR'' env ''cert_ttl.operator'' cs1) (\<lambda>cs2.
         Inr (setStringSliceFromEnv (\<lambda>l c. c\<lparr>cf_TrustedProxies := l\<rparr>) ''POSTERN_TRUSTED_PROXIES'' env ''trusted_proxies'' cs2)))"

definition applyEnvOverrides ::
  "'n config_lib \<Rightarrow> (string \<Rightarrow> PrincipalClassesConfig result) \<Rightarrow> env \<Rightarrow> loading \<Rightarrow> loading result" where
  "applyEnvOverrides lib yaml_classes env cs =
     and_then (overrideIdentity yaml_classes env cs) (\<lambda>cs1.
     and_then (overrideBackends lib env cs1) (\<lambda>cs2.
     and_then (overrideTunneling env cs2) (overrideRest env)))"

section \<open>Resolution\<close>

record LoadConfigOptions =
  lo_Path :: string
  lo_Candidates :: "string list option"

definition DefaultConfigPaths :: "string list" where
  "DefaultConfigPaths = [DefaultBrokerConfigPath, LocalBrokerConfigPath]"

text \<open>
  The file system: \<open>fs_Stat\<close> and \<open>fs_ReadFile\<close> fail with \<open>os.ErrNotExist\<close>, written
  \<open>Plain ''file does not exist''\<close>, or another error.
\<close>

record file_system =
  fs_Stat :: "string \<Rightarrow> go_error option"
  fs_ReadFile :: "string \<Rightarrow> string result"

fun is_not_exist :: "go_error \<Rightarrow> bool" where
  "is_not_exist (Plain s) \<longleftrightarrow> s = ''file does not exist''"
| "is_not_exist (Wrapped _ e) \<longleftrightarrow> is_not_exist e"
| "is_not_exist (Joined es) \<longleftrightarrow> list_ex is_not_exist es"
| "is_not_exist _ \<longleftrightarrow> False"

fun selectCandidate :: "file_system \<Rightarrow> string list \<Rightarrow> string option result" where
  "selectCandidate fs [] = Inr None"
| "selectCandidate fs (candidate0 # rest) =
     (let candidate = TrimSpace candidate0 in
      if candidate = [] then selectCandidate fs rest
      else case fs_Stat fs candidate of
             None \<Rightarrow> Inr (Some candidate)
           | Some err \<Rightarrow> if is_not_exist err then selectCandidate fs rest else Inl err)"

text \<open>The path, when there is one, and whether it was named explicitly.\<close>

definition selectedConfigPath :: "file_system \<Rightarrow> LoadConfigOptions \<Rightarrow> env \<Rightarrow> (string option \<times> bool) result" where
  "selectedConfigPath fs options lookupEnv =
     (if TrimSpace (lo_Path options) \<noteq> [] then Inr (Some (TrimSpace (lo_Path options)), True)
      else case lookupTrimmedEnv BrokerConfigEnv lookupEnv of
             Some v \<Rightarrow> Inr (Some v, True)
           | None \<Rightarrow>
               and_then (selectCandidate fs (case lo_Candidates options of Some l \<Rightarrow> l | None \<Rightarrow> DefaultConfigPaths))
                 (\<lambda>p. Inr (p, False)))"

definition LoadConfigFile :: "'n config_lib \<Rightarrow> (string \<Rightarrow> Config result) \<Rightarrow> file_system \<Rightarrow> string \<Rightarrow> Config result" where
  "LoadConfigFile lib yaml_config fs path = and_then (fs_ReadFile fs path) (LoadConfig lib yaml_config)"

definition loadSelected ::
  "'n config_lib \<Rightarrow> (string \<Rightarrow> Config result) \<Rightarrow> file_system \<Rightarrow> string option \<times> bool \<Rightarrow> loading result" where
  "loadSelected lib yaml_config fs sel =
     (case fst sel of
        None \<Rightarrow> Inr (zero_config, [])
      | Some path \<Rightarrow>
          (case LoadConfigFile lib yaml_config fs path of
             Inl err \<Rightarrow>
               if snd sel \<or> \<not> is_not_exist err then Inl (Wrapped (''load broker config '' @ quoted path @ '': '') err)
               else Inr (zero_config, [])
           | Inr loaded \<Rightarrow> Inr (loaded, markFileSources loaded path [])))"

text \<open>\<open>HasPrefix\<close>, and the annotation of a registry conflict; a validation failure is the list of sentinels.\<close>

datatype load_error = Load_failed go_error | Invalid "config_error list" "string option"

definition annotateValidationError :: "config_error list \<Rightarrow> sources \<Rightarrow> load_error" where
  "annotateValidationError errs s =
     (if ErrRegistryBackendConflict \<notin> set errs then Invalid errs None
      else let dynamoSrc = (case map_of s ''registry.dynamodb_table'' of Some v \<Rightarrow> v | None \<Rightarrow> []);
               httpSrc = (case map_of s ''registry.http_url'' of Some v \<Rightarrow> v | None \<Rightarrow> [])
           in if prefix ''POSTERN_'' dynamoSrc \<and> prefix ''POSTERN_'' httpSrc
              then Invalid errs (Some (dynamoSrc @ '' and '' @ httpSrc @ '' both set''))
              else Invalid errs None)"

definition LoadResolvedConfig ::
  "'n config_lib \<Rightarrow> (string \<Rightarrow> Config result) \<Rightarrow> (string \<Rightarrow> PrincipalClassesConfig result) \<Rightarrow> file_system
    \<Rightarrow> LoadConfigOptions \<Rightarrow> env \<Rightarrow> load_error + ResolvedConfig" where
  "LoadResolvedConfig lib yaml_config yaml_classes fs options lookupEnv =
     (case and_then (selectedConfigPath fs options lookupEnv) (\<lambda>sel.
             and_then (loadSelected lib yaml_config fs sel) (\<lambda>(c, s).
               applyEnvOverrides lib yaml_classes lookupEnv (WithDefaults c s))) of
        Inl err \<Rightarrow> Inl (Load_failed err)
      | Inr (c, s) \<Rightarrow>
          (if Validate lib c \<noteq> [] then Inl (annotateValidationError (Validate lib c) s)
           else Inr \<lparr>rs_Config = c, rs_Sources = s\<rparr>))"

section \<open>Properties\<close>

lemma LoadResolvedConfig_valid:
  "LoadResolvedConfig lib yc ycl fs options env = Inr r \<Longrightarrow> Validate lib (rs_Config r) = []"
  by (auto simp: LoadResolvedConfig_def split: sum.splits prod.splits if_splits)

lemma if_Nil: "((if P then [e] else []) = []) = (\<not> P)"
  by simp

lemma if_not_P_swap: "(if x \<noteq> [] then a else b) = (if x = [] then b else a)"
  by simp

lemma concat_if_Nil: "concat (map (\<lambda>x. if P x then [e] else []) xs) = [] \<longleftrightarrow> (\<forall>x \<in> set xs. \<not> P x)"
  by (induction xs) auto

lemma validateTunnelingTarget_Nil:
  "validateTunnelingTarget t = [] \<longleftrightarrow>
     (if tg_TargetFromRegistry t then tg_AllowedRoleARNs t \<noteq> [] \<and> list_all ValidAllowedRoleARN (tg_AllowedRoleARNs t)
      else tg_AllowedRoleARNs t = [])"
  by (auto simp: validateTunnelingTarget_def concat_if_Nil list_all_iff)

text \<open>What a configuration without validation errors satisfies, field by field.\<close>

lemma Validate_Nil:
  assumes "Validate lib c = []"
  shows "ln_Addr (cf_Listen c) \<noteq> []" "ic_Issuer (cf_IDP c) \<noteq> []" "IsHTTPSOrLoopback (cl_url lib) (ic_Issuer (cf_IDP c))"
    "ic_Audience (cf_IDP c) \<noteq> [] \<or> ic_RequiredScope (cf_IDP c) \<noteq> []"
    "validatePrincipalClasses (ic_PrincipalClasses (cf_IDP c)) = []" "sc_KMSKeyARN (cf_Signer c) \<noteq> []"
    "(rg_DynamoDBTable (cf_Registry c) = []) \<noteq> (rg_HTTPURL (cf_Registry c) = [])" "validateAuthMode lib (cf_Registry c) = []"
    "rt_DynamoDBTable (cf_RateLimit c) \<noteq> []" "0 < rt_Limit (cf_RateLimit c)" "0 < rt_Window (cf_RateLimit c)"
    "ac_CloudWatchLogGroup (cf_Audit c) \<noteq> []" "pl_AVPPolicyStoreID (cf_Policy c) \<noteq> []" "0 < ct_Operator (cf_CertTTL c)"
    "\<forall>(class, ttl) \<in> set (ct_ByClass (cf_CertTTL c)). 0 < ttl"
    "\<forall>entry \<in> set (cf_TrustedProxies c). \<not> isl (cl_ParseCIDR lib (TrimSpace entry))"
    "cf_Tunneling c = Some t \<Longrightarrow> tg_ThingNameFormat t = [] \<or> Count (tg_ThingNameFormat t) TunnelingThingNameSerialPlaceholder = 1"
    "cf_Tunneling c = Some t \<Longrightarrow> validateTunnelingTarget t = []"
proof -
  note v = assms [unfolded Validate_def Let_def append_is_Nil_conv if_Nil]
  note issuer = v [THEN conjunct2, THEN conjunct1]
  show "ln_Addr (cf_Listen c) \<noteq> []" "ic_Audience (cf_IDP c) \<noteq> [] \<or> ic_RequiredScope (cf_IDP c) \<noteq> []"
    "validatePrincipalClasses (ic_PrincipalClasses (cf_IDP c)) = []" "sc_KMSKeyARN (cf_Signer c) \<noteq> []"
    "validateAuthMode lib (cf_Registry c) = []" "rt_DynamoDBTable (cf_RateLimit c) \<noteq> []"
    "ac_CloudWatchLogGroup (cf_Audit c) \<noteq> []" "pl_AVPPolicyStoreID (cf_Policy c) \<noteq> []"
    using v by blast+
  show "ic_Issuer (cf_IDP c) \<noteq> []" "IsHTTPSOrLoopback (cl_url lib) (ic_Issuer (cf_IDP c))"
    using issuer by (auto split: if_splits)
  have one: "((if P then 0 else 1 :: nat) + (if Q then 0 else 1) = 0) = (P \<and> Q)" 
    "(1 < (if P then 0 else 1 :: nat) + (if Q then 0 else 1)) = (\<not> P \<and> \<not> Q)" for P Q by auto
  show "(rg_DynamoDBTable (cf_Registry c) = []) \<noteq> (rg_HTTPURL (cf_Registry c) = [])"
    using v by (simp only: if_not_P_swap one) blast
  show "0 < rt_Limit (cf_RateLimit c)" "0 < rt_Window (cf_RateLimit c)" "0 < ct_Operator (cf_CertTTL c)"
    using v unfolding not_le by blast+
  show "\<forall>(class, ttl) \<in> set (ct_ByClass (cf_CertTTL c)). 0 < ttl"
    using v by (simp only: case_prod_unfold concat_if_Nil not_le) blast
  show "\<forall>entry \<in> set (cf_TrustedProxies c). \<not> isl (cl_ParseCIDR lib (TrimSpace entry))"
    using v unfolding concat_if_Nil by blast
  have t: "(case cf_Tunneling c of None \<Rightarrow> [] | Some t \<Rightarrow>
      (if tg_ThingNameFormat t \<noteq> [] \<and> Count (tg_ThingNameFormat t) TunnelingThingNameSerialPlaceholder \<noteq> 1
       then [ErrConfigThingNameFormatInvalid] else []) @ validateTunnelingTarget t) = []"
    using v by blast
  show "cf_Tunneling c = Some t \<Longrightarrow> tg_ThingNameFormat t = [] \<or> Count (tg_ThingNameFormat t) TunnelingThingNameSerialPlaceholder = 1"
    "cf_Tunneling c = Some t \<Longrightarrow> validateTunnelingTarget t = []"
    using t by (auto split: if_splits)
qed

lemma validateAuthMode_Nil:
  assumes "validateAuthMode lib r = []"
  shows "rg_HTTPBearerToken r \<noteq> [] \<longleftrightarrow> rg_HTTPAuthMode r = ''bearer''"
    and "rg_HTTPAuthMode r = ''bearer'' \<Longrightarrow> rg_HTTPURL r \<noteq> [] \<and> IsHTTPSOrLoopback (cl_url lib) (rg_HTTPURL r)"
    and "rg_HTTPAuthMode r \<in> {[], ''none'', ''bearer'', ''aws_sigv4''}"
    and "rg_HTTPAuthMode r = ''aws_sigv4'' \<Longrightarrow> rg_HTTPURL r \<noteq> []"
  using assms
  by (auto simp: validateAuthMode_def RegistryHTTPAuthModeNone_def RegistryHTTPAuthModeBearer_def RegistryHTTPAuthModeSigV4_def
      split: if_splits)

text \<open>
  C22: a configuration that loads is safe to run with, whatever the file and the environment say. There
  is exactly one registry backend; a bearer token is configured only for an HTTPS (or loopback) registry,
  and the identity provider is reached over HTTPS too; an audience or a scope is required of tokens; the
  rate limit, its window and every certificate lifetime are positive; a role allowlist exists exactly
  when tunnels are opened in other accounts, and all its entries name a fixed account.
\<close>

theorem resolved_config_safe:
  assumes "LoadResolvedConfig lib yaml_config yaml_classes fs options env = Inr r" and "rs_Config r = c"
  shows "(rg_DynamoDBTable (cf_Registry c) = []) \<noteq> (rg_HTTPURL (cf_Registry c) = [])
    \<and> (rg_HTTPBearerToken (cf_Registry c) \<noteq> [] \<longrightarrow> IsHTTPSOrLoopback (cl_url lib) (rg_HTTPURL (cf_Registry c)))
    \<and> IsHTTPSOrLoopback (cl_url lib) (ic_Issuer (cf_IDP c))
    \<and> (ic_Audience (cf_IDP c) \<noteq> [] \<or> ic_RequiredScope (cf_IDP c) \<noteq> [])
    \<and> 0 < rt_Limit (cf_RateLimit c) \<and> 0 < rt_Window (cf_RateLimit c) \<and> 0 < ct_Operator (cf_CertTTL c)
    \<and> list_all (\<lambda>(class, ttl). 0 < ttl) (ct_ByClass (cf_CertTTL c))
    \<and> (\<forall>t. cf_Tunneling c = Some t \<longrightarrow> (tg_AllowedRoleARNs t \<noteq> []) = tg_TargetFromRegistry t
         \<and> list_all ValidAllowedRoleARN (tg_AllowedRoleARNs t))"
proof -
  have v: "Validate lib c = []" using LoadResolvedConfig_valid [OF assms(1)] assms(2) by simp
  note n = Validate_Nil [OF v]
  have "(tg_AllowedRoleARNs t \<noteq> []) = tg_TargetFromRegistry t \<and> list_all ValidAllowedRoleARN (tg_AllowedRoleARNs t)"
    if "cf_Tunneling c = Some t" for t
    using n(18) [OF that] by (auto simp: validateTunnelingTarget_Nil split: if_splits)
  with n validateAuthMode_Nil [OF n(8)] show ?thesis by (simp add: list_all_iff)
qed

definition sample_config :: Config where
  "sample_config = zero_config
     \<lparr>cf_IDP := \<lparr>ic_Issuer = ''https://idp'', ic_Audience = ''postern'', ic_RequiredScope = [], ic_PrincipalClasses = None\<rparr>,
      cf_Signer := \<lparr>sc_KMSKeyARN = ''arn:key''\<rparr>,
      cf_Registry := \<lparr>rg_DynamoDBTable = ''devices'', rg_HTTPURL = [], rg_HTTPAuthMode = [], rg_HTTPBearerToken = [],
        rg_HTTPAWSRegion = [], rg_HTTPTimeout = 0\<rparr>,
      cf_RateLimit := \<lparr>rt_DynamoDBTable = ''limits'', rt_Limit = 0, rt_Window = 0\<rparr>,
      cf_Audit := \<lparr>ac_CloudWatchLogGroup = ''audit''\<rparr>, cf_Policy := \<lparr>pl_AVPPolicyStoreID = ''ps''\<rparr>\<rparr>"

definition sample_config_lib :: "unit config_lib" where
  "sample_config_lib = \<lparr>cl_url = \<lparr>url_Parse = (\<lambda>s. Inr \<lparr>url_Scheme = ''https'', url_Host = s, url_Path = [], url_RawQuery = [], url_Fragment = []\<rparr>),
       url_String = url_Host, url_SetQuery = (\<lambda>q k v. q), url_Hostname = url_Host\<rparr>,
     cl_ParseCIDR = (\<lambda>s. Inr ()), cl_ToLower = (\<lambda>s. s)\<rparr>"

definition sample_fs :: file_system where
  "sample_fs = \<lparr>fs_Stat = (\<lambda>p. if p = ''./broker.yaml'' then None else Some (Plain ''file does not exist'')),
     fs_ReadFile = (\<lambda>p. Inr [])\<rparr>"

definition sample_options :: LoadConfigOptions where
  "sample_options = \<lparr>lo_Path = [], lo_Candidates = None\<rparr>"

definition sample_loaded :: "load_error + ResolvedConfig" where
  "sample_loaded = LoadResolvedConfig sample_config_lib (\<lambda>_. Inr sample_config) (\<lambda>_. Inl (Plain ''none'')) sample_fs sample_options
     (\<lambda>k. if k = ''POSTERN_RATELIMIT_LIMIT'' then Some '' 7 '' else None)"

theorem resolved_config_safe_witness:
  "\<exists>r. sample_loaded = Inr r \<and> 0 < rt_Limit (cf_RateLimit (rs_Config r)) \<and> 0 < ct_Operator (cf_CertTTL (rs_Config r))"
proof -
  have "\<not> isl sample_loaded" by code_simp
  then have r: "sample_loaded = Inr (projr sample_loaded)" by simp
  from resolved_config_safe [OF r [unfolded sample_loaded_def] refl] r show ?thesis
    unfolding sample_loaded_def [symmetric] by blast
qed

lemma int32_bounds: "- (2 ^ 31) \<le> int32 i" "int32 i < 2 ^ 31" "2 ^ 32 dvd i - int32 i" "int32 i = i \<longleftrightarrow> - (2 ^ 31) \<le> i \<and> i < 2 ^ 31"
proof -
  show b: "- (2 ^ 31) \<le> int32 i" "int32 i < 2 ^ 31"
    using signed_take_bit_int_greater_eq_minus_exp [of 31 i] signed_take_bit_int_less_exp [of 31 i] by (simp_all add: int32_def)
  have "take_bit 32 (int32 i) = take_bit 32 i" by (simp add: int32_def take_bit_signed_take_bit)
  then have "int32 i mod 2 ^ 32 = i mod 2 ^ 32" unfolding take_bit_eq_mod .
  then show "2 ^ 32 dvd i - int32 i" by (metis mod_eq_dvd_iff)
  show "int32 i = i \<longleftrightarrow> - (2 ^ 31) \<le> i \<and> i < 2 ^ 31"
    using b signed_take_bit_int_eq_self [of 31 i] by (auto simp: int32_def)
qed

lemma ParseInt64_FormatInt_None:
  assumes "\<not> (- (2 ^ 63) \<le> i \<and> i < 2 ^ 63)"
  shows "ParseInt64 (FormatInt i) = None"
proof -
  have "hd (nat_str n) \<noteq> CHR ''-''" "hd (nat_str n) \<noteq> CHR ''+''" for n
    using hd_nat_str_digit [of n] by (auto simp: is_digit_def)
  with assms show ?thesis
    by (cases "i < 0") (auto simp: ParseInt64_def FormatInt_def Let_def nat_str_digits digits_val_nat_str nat_less_iff)
qed

text \<open>
  C23: an override of the tunnel lifetime that does not fit in 32 bits is not rejected but reduced. Whatever
  integer the variable holds, with white space around it or not: beyond 64 bits the load fails; otherwise the default
  lifetime becomes the 32-bit integer that is congruent to it, and nothing else of the configuration changes. So it is the value that
  was asked for exactly if that fits in 32 bits.
\<close>

theorem tunnel_lifetime_env_wraps:
  assumes "lookupEnv ''POSTERN_TUNNELING_DEFAULT_MAX_LIFETIME_MINUTES'' = Some raw" and "TrimSpace raw = FormatInt i"
  shows "if - (2 ^ 63) \<le> i \<and> i < 2 ^ 63
    then \<exists>n s'. setTunnelingMaxLifetimeFromEnv lookupEnv (c, s) = Inr (update_tunneling (\<lambda>t. t\<lparr>tg_DefaultMaxLifetimeMinutes := n\<rparr>) c, s')
      \<and> - (2 ^ 31) \<le> n \<and> n < 2 ^ 31 \<and> 2 ^ 32 dvd i - n \<and> (n = i \<longleftrightarrow> - (2 ^ 31) \<le> i \<and> i < 2 ^ 31)
    else \<exists>e. setTunnelingMaxLifetimeFromEnv lookupEnv (c, s) = Inl e"
proof -
  have "FormatInt i \<noteq> []" by (simp add: FormatInt_def)
  with assms have l: "lookupTrimmedEnv ''POSTERN_TUNNELING_DEFAULT_MAX_LIFETIME_MINUTES'' lookupEnv = Some (FormatInt i)"
    by (simp add: lookupTrimmedEnv_def)
  show ?thesis
  proof (cases "- (2 ^ 63) \<le> i \<and> i < 2 ^ 63")
    case True
    with l have "\<exists>s'. setTunnelingMaxLifetimeFromEnv lookupEnv (c, s) = Inr (update_tunneling (\<lambda>t. t\<lparr>tg_DefaultMaxLifetimeMinutes := int32 i\<rparr>) c, s')"
      by (simp add: setTunnelingMaxLifetimeFromEnv_def setIntFromEnv_def ParseInt64_FormatInt)
    with True int32_bounds [of i] show ?thesis by auto
  next
    case False
    then have "ParseInt64 (FormatInt i) = None" by (rule ParseInt64_FormatInt_None)
    with False l show ?thesis by (auto simp: setTunnelingMaxLifetimeFromEnv_def setIntFromEnv_def)
  qed
qed

theorem tunnel_lifetime_env_wraps_witness:
  "\<exists>s'. setTunnelingMaxLifetimeFromEnv (\<lambda>_. Some (FormatInt 4294967356)) (sample_config, []) = Inr (update_tunneling (\<lambda>t. t\<lparr>tg_DefaultMaxLifetimeMinutes := 60\<rparr>) sample_config, s')"
proof -
  have raw: "TrimSpace (FormatInt 4294967356) = FormatInt 4294967356" by (rule TrimSpace_graphic [OF FormatInt_graphic])
  have sixty: "n = 60" if "- (2 ^ 31) \<le> n" "n < 2 ^ 31" "2 ^ 32 dvd 4294967356 - n" for n :: int
  proof -
    from that(3) obtain k where k: "4294967356 - n = 4294967296 * k" by (auto elim!: dvdE)
    with that(1,2) have "0 < k" "k < 2" by simp_all
    with k show ?thesis by simp
  qed
  have "\<exists>n s'. setTunnelingMaxLifetimeFromEnv (\<lambda>_. Some (FormatInt 4294967356)) (sample_config, []) = Inr (update_tunneling (\<lambda>t. t\<lparr>tg_DefaultMaxLifetimeMinutes := n\<rparr>) sample_config, s')
      \<and> - (2 ^ 31) \<le> n \<and> n < 2 ^ 31 \<and> 2 ^ 32 dvd 4294967356 - n"
    using tunnel_lifetime_env_wraps [OF refl raw, of sample_config "[]"] by auto
  then show ?thesis using sixty by blast
qed

end
