(* ===== verification/IDP.thy ===== *)
theory IDP
  imports Go_Value
begin

text \<open>
  The token verifier (src/internal/idp/oidc.go). The library go-oidc, which checks signature, issuer
  and expiry, is a parameter: it returns the audiences and the payload of a token it accepts. The
  claims are decoded from the payload as the code decodes them.
\<close>

section \<open>Configuration\<close>

definition ErrAudienceOrScopeRequired :: go_error where
  "ErrAudienceOrScopeRequired = Plain ''OIDCVerifier requires at least one of Audience or RequiredScope''"

definition iatFutureSkew :: duration where "iatFutureSkew = 5 * Minute"
definition iatMaxAge :: duration where "iatMaxAge = 24 * Hour"
definition maxSubjectRunes :: nat where "maxSubjectRunes = 256"
definition maxEmailRunes :: nat where "maxEmailRunes = 320"
definition maxGroupEntries :: nat where "maxGroupEntries = 64"
definition maxGroupRunes :: nat where "maxGroupRunes = 64"
definition DefaultPrincipalClass :: string where "DefaultPrincipalClass = ''user''"
definition MaxPrincipalClassRunes :: nat where "MaxPrincipalClassRunes = 64"

datatype PrincipalClassPredicate =
  PredicateClaimPresent | PredicateClaimAbsent | PredicateClaimEquals | PredicateScopeContains

record PrincipalClassRule =
  rule_Class :: string
  rule_Predicate :: PrincipalClassPredicate
  rule_Claim :: string
  rule_Value :: string

record OIDCVerifierConfig =
  oc_Issuer :: string
  oc_Audience :: string
  oc_RequiredScope :: string
  oc_DefaultPrincipalClass :: string
  oc_PrincipalClassRules :: "PrincipalClassRule list"

text \<open>\<open>IDToken\<close>: the audiences and the JSON payload of a verified token.\<close>

record IDToken =
  idt_Audience :: "string list"
  idt_Claims :: string

record 'w OIDCVerifier =
  ov_verifier :: "string \<Rightarrow> 'w \<Rightarrow> IDToken result \<times> 'w"
  ov_audience :: string
  ov_requiredScope :: string
  ov_defaultClass :: string
  ov_classRules :: "PrincipalClassRule list"
  ov_now :: "'w \<Rightarrow> time \<times> 'w"

text \<open>
  The verifier options: the client id check is off and only asymmetric algorithms are accepted.
  \<open>NewProvider\<close> performs discovery; its result maps the options to the verifying function.
\<close>

definition SupportedSigningAlgs :: "string list" where
  "SupportedSigningAlgs = [''RS256'', ''RS384'', ''RS512'', ''ES256'', ''ES384'', ''ES512'', ''PS256'', ''PS384'', ''PS512'', ''EdDSA'']"

definition NewOIDCVerifier ::
  "(string \<Rightarrow> 'w \<Rightarrow> (bool \<Rightarrow> string list \<Rightarrow> string \<Rightarrow> 'w \<Rightarrow> IDToken result \<times> 'w) result \<times> 'w)
    \<Rightarrow> ('w \<Rightarrow> time \<times> 'w) \<Rightarrow> OIDCVerifierConfig \<Rightarrow> 'w \<Rightarrow> 'w OIDCVerifier result \<times> 'w" where
  "NewOIDCVerifier NewProvider time_Now config e =
     (let audience = TrimSpace (oc_Audience config); requiredScope = TrimSpace (oc_RequiredScope config) in
      if audience = [] \<and> requiredScope = [] then (Inl ErrAudienceOrScopeRequired, e)
      else let trimmed = TrimSpace (oc_DefaultPrincipalClass config);
               defaultClass = (if trimmed = [] then DefaultPrincipalClass else trimmed)
           in case NewProvider (TrimSpace (oc_Issuer config)) e of
                (Inl err, e1) \<Rightarrow> (Inl err, e1)
              | (Inr provider, e1) \<Rightarrow>
                  (Inr \<lparr>ov_verifier = provider True SupportedSigningAlgs, ov_audience = audience,
                     ov_requiredScope = requiredScope, ov_defaultClass = defaultClass,
                     ov_classRules = oc_PrincipalClassRules config, ov_now = time_Now\<rparr>, e1))"

section \<open>Claims\<close>

record accessTokenClaims =
  at_Subject :: string
  at_Email :: string
  at_ClientID :: string
  at_Scope :: string
  at_SCP :: "string list"
  at_Groups :: "string list"
  at_CognitoGroups :: "string list"
  at_TokenUse :: string
  at_IssuedAt :: int

definition zero_token_claims :: accessTokenClaims where
  "zero_token_claims = \<lparr>at_Subject = [], at_Email = [], at_ClientID = [], at_Scope = [], at_SCP = [], at_Groups = [],
     at_CognitoGroups = [], at_TokenUse = [], at_IssuedAt = 0\<rparr>"

definition accessTokenClaims_fields :: "accessTokenClaims json_field list" where
  "accessTokenClaims_fields =
     [(''sub'', set_string (\<lambda>s c. c\<lparr>at_Subject := s\<rparr>)),
      (''email'', set_string (\<lambda>s c. c\<lparr>at_Email := s\<rparr>)),
      (''client_id'', set_string (\<lambda>s c. c\<lparr>at_ClientID := s\<rparr>)),
      (''scope'', set_string (\<lambda>s c. c\<lparr>at_Scope := s\<rparr>)),
      (''scp'', set_strings (\<lambda>s c. c\<lparr>at_SCP := s\<rparr>)),
      (''groups'', set_strings (\<lambda>s c. c\<lparr>at_Groups := s\<rparr>)),
      (''cognito:groups'', set_strings (\<lambda>s c. c\<lparr>at_CognitoGroups := s\<rparr>)),
      (''token_use'', set_string (\<lambda>s c. c\<lparr>at_TokenUse := s\<rparr>)),
      (''iat'', set_int64 (\<lambda>i c. c\<lparr>at_IssuedAt := i\<rparr>))]"

text \<open>\<open>token.Claims(&raw)\<close> for \<open>map[string]any\<close>; a payload \<open>null\<close> leaves the nil map.\<close>

definition rawClaims :: "string \<Rightarrow> (string \<times> any) list option" where
  "rawClaims payload =
     (case json_parse payload of
        Some (JObject ms) \<Rightarrow> json_any_members ms []
      | Some JNull \<Rightarrow> Some []
      | _ \<Rightarrow> None)"

definition claimPresent :: "any option \<Rightarrow> bool" where
  "claimPresent v =
     (case v of
        None \<Rightarrow> False
      | Some VNil \<Rightarrow> False
      | Some (VString s) \<Rightarrow> TrimSpace s \<noteq> []
      | Some (VList xs) \<Rightarrow> 0 < length xs
      | Some (VStrings xs) \<Rightarrow> 0 < length xs
      | Some _ \<Rightarrow> True)"

definition is_string :: "string \<Rightarrow> any \<Rightarrow> bool" where
  "is_string want v = (case v of VString s \<Rightarrow> s = want | _ \<Rightarrow> False)"

definition claimEquals :: "any option \<Rightarrow> string \<Rightarrow> bool" where
  "claimEquals v want =
     (case v of
        Some (VString s) \<Rightarrow> s = want
      | Some (VList xs) \<Rightarrow> list_ex (is_string want) xs
      | Some (VStrings xs) \<Rightarrow> List.member xs want
      | _ \<Rightarrow> False)"

definition scopeContains :: "(string \<times> any) list \<Rightarrow> string \<Rightarrow> bool" where
  "scopeContains raw want =
     (if (case map_of raw ''scope'' of Some (VString scope) \<Rightarrow> List.member (Fields scope) want | _ \<Rightarrow> False) then True
      else case map_of raw ''scp'' of Some (VList xs) \<Rightarrow> list_ex (is_string want) xs | _ \<Rightarrow> False)"

definition rule_matches :: "PrincipalClassRule \<Rightarrow> (string \<times> any) list \<Rightarrow> bool" where
  "rule_matches r raw =
     (case rule_Predicate r of
        PredicateClaimPresent \<Rightarrow> claimPresent (map_of raw (rule_Claim r))
      | PredicateClaimAbsent \<Rightarrow> \<not> claimPresent (map_of raw (rule_Claim r))
      | PredicateClaimEquals \<Rightarrow> claimEquals (map_of raw (rule_Claim r)) (rule_Value r)
      | PredicateScopeContains \<Rightarrow> scopeContains raw (rule_Value r))"

fun classify_rules :: "PrincipalClassRule list \<Rightarrow> string \<Rightarrow> (string \<times> any) list \<Rightarrow> string" where
  "classify_rules [] dflt raw = dflt"
| "classify_rules (r # rs) dflt raw = (if rule_matches r raw then rule_Class r else classify_rules rs dflt raw)"

definition classify :: "'w OIDCVerifier \<Rightarrow> (string \<times> any) list \<Rightarrow> string" where
  "classify v raw = classify_rules (ov_classRules v) (ov_defaultClass v) raw"

definition capGroups :: "string list \<Rightarrow> nat \<Rightarrow> nat \<Rightarrow> string list" where
  "capGroups groups maxEntries maxRunesPerEntry =
     (let kept = (if maxEntries < length groups then take maxEntries groups else groups)
      in map (\<lambda>g. TruncateRunes g maxRunesPerEntry) kept)"

definition hasScope :: "string \<Rightarrow> string list \<Rightarrow> string \<Rightarrow> bool" where
  "hasScope scope scp required0 =
     (let required = TrimSpace required0 in
      if required = [] then True
      else if list_ex (\<lambda>value. value = required) (Fields scope) then True
      else List.member scp required)"

fun mergeGroups :: "string list \<Rightarrow> string list \<Rightarrow> string list" where
  "mergeGroups merged [] = merged"
| "mergeGroups merged (g0 # gs) =
     (let group = TrimSpace g0 in
      if group = [] \<or> group \<in> set merged then mergeGroups merged gs
      else mergeGroups (merged @ [group]) gs)"

definition mergedGroups :: "string list \<Rightarrow> string list \<Rightarrow> string list" where
  "mergedGroups groups cognitoGroups = mergeGroups [] (groups @ cognitoGroups)"

section \<open>Verification\<close>

text \<open>The checks on the claims of a token that go-oidc accepted, at the time \<open>now\<close>.\<close>

definition checkClaims :: "'w OIDCVerifier \<Rightarrow> IDToken \<Rightarrow> accessTokenClaims \<Rightarrow> (string \<times> any) list \<Rightarrow> time \<Rightarrow> CallerClaims result" where
  "checkClaims v token claims raw now =
     (if at_IssuedAt claims \<noteq> 0 \<and> now + iatFutureSkew < time_Unix64 (at_IssuedAt claims)
        then Inl (Plain ''access token iat is in the future'')
      else if at_IssuedAt claims \<noteq> 0 \<and> time_Unix64 (at_IssuedAt claims) < now - iatMaxAge
        then Inl (Plain ''access token iat exceeds maximum age (24h0m0s)'')
      else if TrimSpace (at_Subject claims) = [] then Inl (Plain ''access token sub claim is required'')
      else if maxSubjectRunes < RuneCountInString (at_Subject claims) then Inl (Plain ''access token sub exceeds 256 runes'')
      else if maxEmailRunes < RuneCountInString (at_Email claims) then Inl (Plain ''access token email exceeds 320 runes'')
      else Inr \<lparr>cl_Subject = at_Subject claims, cl_Email = at_Email claims,
             cl_Groups = capGroups (mergedGroups (at_Groups claims) (at_CognitoGroups claims)) maxGroupEntries maxGroupRunes,
             cl_Class = classify v raw, cl_ClientID = at_ClientID claims, cl_Raw = raw\<rparr>)"

definition VerifyAccessToken :: "'w OIDCVerifier \<Rightarrow> string \<Rightarrow> 'w \<Rightarrow> CallerClaims result \<times> 'w" where
  "VerifyAccessToken v accessToken0 e =
     (let accessToken = TrimSpace accessToken0 in
      if accessToken = [] then (Inl (Plain ''access token is required''), e)
      else case ov_verifier v accessToken e of
        (Inl err, e1) \<Rightarrow> (Inl err, e1)
      | (Inr token, e1) \<Rightarrow>
          (case json_Unmarshal accessTokenClaims_fields zero_token_claims (idt_Claims token) of
             None \<Rightarrow> (Inl (Plain ''cannot unmarshal claims''), e1)
           | Some claims \<Rightarrow>
               (case rawClaims (idt_Claims token) of
                  None \<Rightarrow> (Inl (Plain ''cannot unmarshal claims''), e1)
                | Some raw \<Rightarrow>
                    if at_TokenUse claims \<noteq> [] \<and> at_TokenUse claims \<noteq> ''access''
                      then (Inl (Plain ''token_use must be access''), e1)
                    else
                      let matchedAudience = (ov_audience v \<noteq> [] \<and> List.member (idt_Audience token) (ov_audience v));
                          matchedScope = (ov_requiredScope v \<noteq> [] \<and> hasScope (at_Scope claims) (at_SCP claims) (ov_requiredScope v))
                      in if \<not> matchedAudience \<and> \<not> matchedScope
                           then (Inl (Plain ''access token missing required audience or scope''), e1)
                         else if at_IssuedAt claims \<noteq> 0 then
                           (case ov_now v e1 of (now, e2) \<Rightarrow> (checkClaims v token claims raw now, e2))
                         else (checkClaims v token claims raw 0, e1))))"

section \<open>Groups\<close>

lemma mergeGroups_set: "set (mergeGroups m gs) = set m \<union> {g. g \<noteq> [] \<and> g \<in> TrimSpace ` set gs}"
  by (induction m gs rule: mergeGroups.induct) (auto simp: Let_def)

lemma mergeGroups_distinct: "distinct m \<Longrightarrow> distinct (mergeGroups m gs)"
  by (induction m gs rule: mergeGroups.induct) (auto simp: Let_def)

lemma capGroups_bounds:
  "length (capGroups gs n k) \<le> n" "g \<in> set (capGroups gs n k) \<Longrightarrow> RuneCountInString g \<le> k"
  by (auto simp: capGroups_def Let_def RuneCountInString_def runes_TruncateRunes)

lemma mergedGroups_ok:
  "distinct (mergedGroups a b)" "set (mergedGroups a b) = {g. g \<noteq> [] \<and> g \<in> TrimSpace ` (set a \<union> set b)}"
  by (simp_all add: mergedGroups_def mergeGroups_distinct mergeGroups_set)

section \<open>Properties\<close>

lemma hasScope_iff: "TrimSpace r \<noteq> [] \<Longrightarrow> hasScope scope scp r \<longleftrightarrow> TrimSpace r \<in> set (Fields scope) \<union> set scp"
  by (auto simp: hasScope_def list_ex_iff Let_def)

lemma classify_first:
  "classify_rules rs dflt raw = (case find (\<lambda>r. rule_matches r raw) rs of Some r \<Rightarrow> rule_Class r | None \<Rightarrow> dflt)"
  by (induction rs) auto

text \<open>
  C17: what an accepted access token proves. If a verifier built by \<open>NewOIDCVerifier\<close> accepts a token,
  the library verified it with asymmetric algorithms only, and one of the configured proofs is
  present: the audience is among the token's audiences, or the required scope is a word of \<open>scope\<close> or
  an entry of \<open>scp\<close>. An ID token is not accepted, an issue time lies between 24 hours ago and 5
  minutes ahead, the subject is not blank and has at most 256 runes, there are at most 64 groups of at
  most 64 runes, and the class is that of the first matching rule, or the default.
\<close>

theorem accepted_token_sound:
  assumes "NewOIDCVerifier NewProvider clock config e0 = (Inr v, e0')" and "VerifyAccessToken v token e = (Inr c, e')"
  shows "\<exists>idt cl raw e1 provider. fst (NewProvider (TrimSpace (oc_Issuer config)) e0) = Inr provider
    \<and> provider True SupportedSigningAlgs (TrimSpace token) e = (Inr idt, e1) \<and> TrimSpace token \<noteq> []
    \<and> json_Unmarshal accessTokenClaims_fields zero_token_claims (idt_Claims idt) = Some cl \<and> rawClaims (idt_Claims idt) = Some raw
    \<and> (TrimSpace (oc_Audience config) \<noteq> [] \<and> TrimSpace (oc_Audience config) \<in> set (idt_Audience idt)
       \<or> TrimSpace (oc_RequiredScope config) \<noteq> [] \<and> TrimSpace (oc_RequiredScope config) \<in> set (Fields (at_Scope cl)) \<union> set (at_SCP cl))
    \<and> at_TokenUse cl \<in> {[], ''access''}
    \<and> (at_IssuedAt cl \<noteq> 0 \<longrightarrow> (let now = fst (clock e1) in
         now - 24 * Hour \<le> time_Unix64 (at_IssuedAt cl) \<and> time_Unix64 (at_IssuedAt cl) \<le> now + 5 * Minute))
    \<and> cl_Subject c = at_Subject cl \<and> TrimSpace (cl_Subject c) \<noteq> [] \<and> RuneCountInString (cl_Subject c) \<le> 256
    \<and> RuneCountInString (cl_Email c) \<le> 320
    \<and> length (cl_Groups c) \<le> 64 \<and> list_all (\<lambda>g. RuneCountInString g \<le> 64) (cl_Groups c)
    \<and> cl_Class c = (case find (\<lambda>r. rule_matches r raw) (oc_PrincipalClassRules config) of
         Some r \<Rightarrow> rule_Class r
       | None \<Rightarrow> if TrimSpace (oc_DefaultPrincipalClass config) = [] then ''user'' else TrimSpace (oc_DefaultPrincipalClass config))"
proof -
  from assms(1) obtain provider where P: "fst (NewProvider (TrimSpace (oc_Issuer config)) e0) = Inr provider"
    and v: "ov_verifier v = provider True SupportedSigningAlgs" "ov_audience v = TrimSpace (oc_Audience config)"
      "ov_requiredScope v = TrimSpace (oc_RequiredScope config)" "ov_classRules v = oc_PrincipalClassRules config"
      "ov_now v = clock"
      "ov_defaultClass v = (if TrimSpace (oc_DefaultPrincipalClass config) = [] then ''user'' else TrimSpace (oc_DefaultPrincipalClass config))"
    by (auto simp: NewOIDCVerifier_def DefaultPrincipalClass_def Let_def split: if_splits prod.splits sum.splits)
  from assms(2) obtain idt cl raw e1 now where t: "TrimSpace token \<noteq> []" "ov_verifier v (TrimSpace token) e = (Inr idt, e1)"
    "json_Unmarshal accessTokenClaims_fields zero_token_claims (idt_Claims idt) = Some cl" "rawClaims (idt_Claims idt) = Some raw"
    "at_TokenUse cl \<in> {[], ''access''}"
    "ov_audience v \<noteq> [] \<and> ov_audience v \<in> set (idt_Audience idt)
      \<or> ov_requiredScope v \<noteq> [] \<and> hasScope (at_Scope cl) (at_SCP cl) (ov_requiredScope v)"
    and k: "checkClaims v idt cl raw now = Inr c" "at_IssuedAt cl \<noteq> 0 \<Longrightarrow> now = fst (ov_now v e1)"
    by (auto simp: VerifyAccessToken_def Let_def split: if_splits prod.splits sum.splits option.splits)
  have "TrimSpace (oc_RequiredScope config) \<in> set (Fields (at_Scope cl)) \<union> set (at_SCP cl)"
    if "ov_requiredScope v \<noteq> []" "hasScope (at_Scope cl) (at_SCP cl) (ov_requiredScope v)"
    using that hasScope_iff [of "ov_requiredScope v"] by (simp add: v)
  with P v t k show ?thesis
    using capGroups_bounds [where gs = "mergedGroups (at_Groups cl) (at_CognitoGroups cl)" and n = 64 and k = 64]
    by (intro exI [of _ idt] exI [of _ cl] exI [of _ raw] exI [of _ e1] exI [of _ provider])
      (auto simp: checkClaims_def classify_def classify_first list_all_iff Let_def iatMaxAge_def iatFutureSkew_def
        maxSubjectRunes_def maxEmailRunes_def maxGroupEntries_def maxGroupRunes_def not_less split: if_splits)
qed

definition sample_oidc_config :: OIDCVerifierConfig where
  "sample_oidc_config = \<lparr>oc_Issuer = ''https://idp'', oc_Audience = ''postern'', oc_RequiredScope = [], oc_DefaultPrincipalClass = [],
     oc_PrincipalClassRules = [\<lparr>rule_Class = ''bot'', rule_Predicate = PredicateClaimAbsent, rule_Claim = ''sub'', rule_Value = []\<rparr>]\<rparr>"

definition sample_payload :: string where
  "sample_payload = json_print (JObject [(''sub'', JString ''u1'')])"

definition sample_provider :: "string \<Rightarrow> unit \<Rightarrow> (bool \<Rightarrow> string list \<Rightarrow> string \<Rightarrow> unit \<Rightarrow> IDToken result \<times> unit) result \<times> unit" where
  "sample_provider issuer e = (Inr (\<lambda>skip algs t e1. (if t = ''tok'' then Inr \<lparr>idt_Audience = [''postern''], idt_Claims = sample_payload\<rparr>
     else Inl (Plain ''bad token''), e1)), e)"

lemma sample_payload_parse: "json_parse sample_payload = Some (JObject [(''sub'', JString ''u1'')])"
proof -
  have "coerce_utf8 ''sub'' = ''sub''" "coerce_utf8 ''u1'' = ''u1''" by (rule coerce_utf8_ascii, simp add: is_ascii_def)+
  then show ?thesis
    using json_parse_print [of "JObject [(''sub'', JString ''u1'')]"] unfolding sample_payload_def by simp
qed

lemma sample_runes: "RuneCountInString ''u1'' \<le> 256" "RuneCountInString [] \<le> 320"
  by (code_simp, code_simp)

theorem accepted_token_sound_witness:
  "\<exists>v c. NewOIDCVerifier sample_provider (\<lambda>e. (0, e)) sample_oidc_config () = (Inr v, ())
     \<and> VerifyAccessToken v ''tok'' () = (Inr c, ()) \<and> TrimSpace (cl_Subject c) \<noteq> [] \<and> cl_Class c = ''user''"
proof -
  have tr: "TrimSpace ''tok'' = ''tok''" "TrimSpace ''postern'' = ''postern''" "TrimSpace ''u1'' = ''u1''"
    by (code_simp, code_simp, code_simp)
  define v where "v = \<lparr>ov_verifier = (\<lambda>t e1. (if t = ''tok'' then Inr \<lparr>idt_Audience = [''postern''], idt_Claims = sample_payload\<rparr>
     else Inl (Plain ''bad token''), e1)), ov_audience = ''postern'', ov_requiredScope = [], ov_defaultClass = ''user'',
     ov_classRules = oc_PrincipalClassRules sample_oidc_config, ov_now = (\<lambda>e::unit. (0::time, e))\<rparr>"
  have N: "NewOIDCVerifier sample_provider (\<lambda>e. (0, e)) sample_oidc_config () = (Inr v, ())"
    by (simp add: NewOIDCVerifier_def sample_provider_def sample_oidc_config_def v_def DefaultPrincipalClass_def tr Let_def)
  have claims: "json_Unmarshal accessTokenClaims_fields zero_token_claims sample_payload = Some (zero_token_claims\<lparr>at_Subject := ''u1''\<rparr>)"
    by (simp add: json_Unmarshal_def sample_payload_parse bind_value_def accessTokenClaims_fields_def find_field_def set_string_def)
  have raw: "rawClaims sample_payload = Some [(''sub'', VString ''u1'')]"
    by (simp add: rawClaims_def sample_payload_parse)
  obtain c where V: "VerifyAccessToken v ''tok'' () = (Inr c, ())" and cls: "cl_Class c = ''user''"
    using claims raw tr sample_runes
    by (auto simp: VerifyAccessToken_def v_def checkClaims_def zero_token_claims_def maxSubjectRunes_def maxEmailRunes_def Let_def
        classify_def sample_oidc_config_def rule_matches_def claimPresent_def)
  from accepted_token_sound [OF N V] have "TrimSpace (cl_Subject c) \<noteq> []" by blast
  with N V cls show ?thesis by blast
qed

end
