(* ===== verification/Registry.thy ===== *)
theory Registry
  imports Go_Value Tunnel_Target
begin

text \<open>
  The device registries (src/internal/registry): a DynamoDB table and an HTTP service that resolve
  a device id to a hardware serial, and the guard on the serial that both share. The AWS SDK, the
  HTTP transport and \<open>net/url\<close> are parameters. The locale \<open>device_registry\<close> is the contract the
  issue pipelines rely on; both registries are interpreted in it.
\<close>

section \<open>Serials\<close>

definition serial_char :: "char \<Rightarrow> bool" where
  "serial_char c \<longleftrightarrow> alnum c \<or> c \<in> {CHR ''_'', CHR ''.'', CHR ''-''}"

definition serialPattern :: "string \<Rightarrow> bool" where
  "serialPattern s \<longleftrightarrow> list_all serial_char s \<and> 1 \<le> length s \<and> length s \<le> 64"

definition validateSerial :: "string \<Rightarrow> go_error option" where
  "validateSerial serial =
     (if \<not> serialPattern serial then Some (BrokerError 502 ''registry returned malformed serial'') else None)"

lemma serial_char_graphic: "serial_char c \<Longrightarrow> ascii_graphic c"
  by (auto simp: serial_char_def alnum_def is_lower_def is_upper_def is_digit_def ascii_graphic_def)

lemma serialPattern_trim: "serialPattern s \<Longrightarrow> TrimSpace s = s"
  by (rule TrimSpace_graphic) (auto simp: serialPattern_def list_all_iff serial_char_graphic)

text \<open>
  The values \<open>DeviceRecord.Attributes\<close> may carry: trimmed non-empty strings, booleans and 64-bit
  integers.
\<close>

definition int64_range :: "int \<Rightarrow> bool" where
  "int64_range i \<longleftrightarrow> - (2 ^ 63) \<le> i \<and> i < 2 ^ 63"

definition attribute_value :: "any \<Rightarrow> bool" where
  "attribute_value v =
     (case v of
        VString s \<Rightarrow> s \<noteq> [] \<and> TrimSpace s = s
      | VBool _ \<Rightarrow> True
      | VInt64 i \<Rightarrow> int64_range i
      | _ \<Rightarrow> False)"

definition attributes_ok :: "(string \<times> any) list \<Rightarrow> bool" where
  "attributes_ok as \<longleftrightarrow> (\<forall>(k, v) \<in> set as. attribute_value v)"

lemma attributes_ok_Nil [simp]: "attributes_ok []"
  by (simp add: attributes_ok_def)

lemma update_pair_cases: "p \<in> set (AList.update k v m) \<Longrightarrow> p = (k, v) \<or> p \<in> set m"
  by (induction m) (auto split: if_splits)

lemma attributes_ok_update: "attributes_ok m \<Longrightarrow> attribute_value v \<Longrightarrow> attributes_ok (AList.update k v m)"
  by (auto simp: attributes_ok_def dest!: update_pair_cases)

section \<open>DynamoDB\<close>

text \<open>\<open>types.AttributeValue\<close>; \<open>AV_other\<close> stands for the members L, M, SS, NS, BS, NULL and B.\<close>

datatype dynamo_value = AV_S string | AV_N string | AV_BOOL bool | AV_other

type_synonym dynamo_item = "(string \<times> dynamo_value) list"

record GetItemInput =
  gi_TableName :: string
  gi_ConsistentRead :: bool
  gi_Key :: dynamo_item

type_synonym 'w GetItem = "GetItemInput \<Rightarrow> 'w \<Rightarrow> dynamo_item result \<times> 'w"

record 'w DynamoDBRegistry =
  dr_client :: "'w GetItem"
  dr_table :: string

definition ErrDynamoDBTableRequired :: go_error where
  "ErrDynamoDBTableRequired = Plain ''registry DynamoDB table is required''"

definition NewDynamoDBRegistry :: "'w GetItem \<Rightarrow> string \<Rightarrow> 'w DynamoDBRegistry result" where
  "NewDynamoDBRegistry client table =
     (if table = [] then Inl ErrDynamoDBTableRequired
      else Inr \<lparr>dr_client = client, dr_table = table\<rparr>)"

definition stringAttributeValue :: "dynamo_value option \<Rightarrow> string" where
  "stringAttributeValue v = (case v of Some (AV_S s) \<Rightarrow> TrimSpace s | _ \<Rightarrow> [])"

definition stringAttribute :: "dynamo_item \<Rightarrow> string \<Rightarrow> string" where
  "stringAttribute item name = stringAttributeValue (map_of item name)"

definition normalizeDynamoDBAttribute :: "dynamo_value \<Rightarrow> any option" where
  "normalizeDynamoDBAttribute v =
     (case v of
        AV_S s \<Rightarrow> (if TrimSpace s = [] then None else Some (VString (TrimSpace s)))
      | AV_BOOL b \<Rightarrow> Some (VBool b)
      | AV_N s \<Rightarrow> map_option VInt64 (ParseInt64 (TrimSpace s))
      | AV_other \<Rightarrow> None)"

fun dynamoAttributes :: "dynamo_item \<Rightarrow> (string \<times> any) list \<Rightarrow> (string \<times> any) list" where
  "dynamoAttributes [] attributes = attributes"
| "dynamoAttributes ((key, value) # item) attributes =
     (if key = ''device_id'' \<or> key = ''serial'' \<or> key = ''friendly_id'' then dynamoAttributes item attributes
      else case normalizeDynamoDBAttribute value of
             Some normalized \<Rightarrow> dynamoAttributes item (AList.update key normalized attributes)
           | None \<Rightarrow> dynamoAttributes item attributes)"

definition DynamoDB_ResolveDevice :: "'w DynamoDBRegistry \<Rightarrow> string \<Rightarrow> 'w \<Rightarrow> DeviceRecord result \<times> 'w" where
  "DynamoDB_ResolveDevice r deviceID0 e =
     (let deviceID = TrimSpace deviceID0 in
      if deviceID = [] then (Inl (BrokerError 400 ''device_id is required''), e)
      else case dr_client r \<lparr>gi_TableName = dr_table r, gi_ConsistentRead = True,
                  gi_Key = [(''device_id'', AV_S deviceID)]\<rparr> e of
             (Inl err, e1) \<Rightarrow> (Inl (Wrapped ''registry: '' err), e1)
           | (Inr item, e1) \<Rightarrow>
               (if item = [] then Inl (BrokerError 404 ''device not found'')
                else let serial = stringAttribute item ''serial'' in
                  if serial = [] then Inl (BrokerError 500 ''registry item missing serial'')
                  else case validateSerial serial of
                         Some err \<Rightarrow> Inl err
                       | None \<Rightarrow>
                           Inr \<lparr>dev_Serial = serial, dev_FriendlyID = stringAttribute item ''friendly_id'',
                                dev_Attributes = dynamoAttributes item []\<rparr>, e1))"

section \<open>HTTP\<close>

definition emptyPayloadSHA256 :: string where
  "emptyPayloadSHA256 = ''e3b0c44298fc1c149afbf4c8996fb92427ae41e4649b934ca495991b7852b855''"

definition awsExecuteAPIService :: string where
  "awsExecuteAPIService = ''execute-api''"

definition DefaultHTTPRegistryTimeout :: duration where
  "DefaultHTTPRegistryTimeout = 15 * Second"

text \<open>\<open>default_client\<close> is \<open>&http.Client{Timeout: DefaultHTTPRegistryTimeout}\<close>, a function of the timeout.\<close>

definition NewBearerAuthClient ::
  "(duration \<Rightarrow> 'w http_client) \<Rightarrow> 'w http_client option \<Rightarrow> string \<Rightarrow> 'w http_client" where
  "NewBearerAuthClient mk_client inner token =
     (\<lambda>req. (case inner of Some c \<Rightarrow> c | None \<Rightarrow> mk_client DefaultHTTPRegistryTimeout)
        (Header_Set ''Authorization'' (''Bearer '' @ token) req))"

text \<open>
  The SigV4 client: \<open>Retrieve\<close> is the credentials provider (nil when \<open>None\<close>) and \<open>SignHTTP\<close> the
  signer of the AWS SDK, which rewrites the headers of the request.
\<close>

record ('c, 'w) sigV4AuthClient =
  sv_inner :: "'w http_client"
  sv_SignHTTP :: "'c \<Rightarrow> http_request \<Rightarrow> string \<Rightarrow> string \<Rightarrow> string \<Rightarrow> time \<Rightarrow> http_request result"
  sv_provider :: "('w \<Rightarrow> 'c result \<times> 'w) option"
  sv_region :: string
  sv_now :: "'w \<Rightarrow> time \<times> 'w"

definition sigV4_Do :: "('c, 'w) sigV4AuthClient \<Rightarrow> 'w http_client" where
  "sigV4_Do c req e =
     (case sv_provider c of
        None \<Rightarrow> (Inl (Plain ''sigv4 auth: credentials provider is nil''), e)
      | Some retrieve \<Rightarrow>
          if TrimSpace (sv_region c) = [] then (Inl (Plain ''sigv4 auth: region is required''), e)
          else (case retrieve e of
                  (Inl err, e1) \<Rightarrow> (Inl (Wrapped ''sigv4 auth: retrieve credentials: '' err), e1)
                | (Inr creds, e1) \<Rightarrow>
                    (case sv_now c e1 of (now, e2) \<Rightarrow>
                     case sv_SignHTTP c creds req emptyPayloadSHA256 awsExecuteAPIService (sv_region c) now of
                       Inl err \<Rightarrow> (Inl (Wrapped ''sigv4 auth: sign request: '' err), e2)
                     | Inr req' \<Rightarrow> sv_inner c req' e2)))"

definition NewSigV4AuthClient ::
  "(duration \<Rightarrow> 'w http_client) \<Rightarrow> ('c \<Rightarrow> http_request \<Rightarrow> string \<Rightarrow> string \<Rightarrow> string \<Rightarrow> time \<Rightarrow> http_request result)
    \<Rightarrow> ('w \<Rightarrow> time \<times> 'w) \<Rightarrow> 'w http_client option \<Rightarrow> ('w \<Rightarrow> 'c result \<times> 'w) option \<Rightarrow> string \<Rightarrow> 'w http_client" where
  "NewSigV4AuthClient mk_client sign now inner provider region =
     sigV4_Do \<lparr>sv_inner = (case inner of Some c \<Rightarrow> c | None \<Rightarrow> mk_client DefaultHTTPRegistryTimeout),
       sv_SignHTTP = sign, sv_provider = provider, sv_region = region, sv_now = now\<rparr>"

record 'w HTTPRegistry =
  hg_client :: "'w http_client"
  hg_endpoint :: url

record HTTPRegistryResponse =
  hrr_Serial :: string
  hrr_FriendlyID :: string
  hrr_Attributes :: "(string \<times> any) list"

definition HTTPRegistryResponse_fields :: "HTTPRegistryResponse json_field list" where
  "HTTPRegistryResponse_fields =
     [(''serial'', set_string (\<lambda>s r. r\<lparr>hrr_Serial := s\<rparr>)),
      (''friendly_id'', set_string (\<lambda>s r. r\<lparr>hrr_FriendlyID := s\<rparr>)),
      (''attributes'', set_any_map hrr_Attributes (\<lambda>m r. r\<lparr>hrr_Attributes := m\<rparr>))]"

definition ErrHTTPURLRequired :: go_error where
  "ErrHTTPURLRequired = Plain ''registry HTTP URL is required''"

definition NewHTTPRegistryWithClient ::
  "url_lib \<Rightarrow> (duration \<Rightarrow> 'w http_client) \<Rightarrow> 'w http_client option \<Rightarrow> string \<Rightarrow> 'w HTTPRegistry result" where
  "NewHTTPRegistryWithClient lib mk_client client0 endpoint =
     (let client = (case client0 of Some c \<Rightarrow> c | None \<Rightarrow> mk_client DefaultHTTPRegistryTimeout) in
      if endpoint = [] then Inl ErrHTTPURLRequired
      else case url_Parse lib endpoint of
             Inl err \<Rightarrow> Inl (Wrapped ''parse registry HTTP URL: '' err)
           | Inr parsed \<Rightarrow>
               if url_Scheme parsed \<noteq> ''http'' \<and> url_Scheme parsed \<noteq> ''https'' \<or> url_Host parsed = []
               then Inl (Plain ''registry HTTP URL must be an absolute http or https URL'')
               else Inr \<lparr>hg_client = client, hg_endpoint = parsed\<lparr>url_Fragment := []\<rparr>\<rparr>)"

definition NewHTTPRegistry :: "url_lib \<Rightarrow> (duration \<Rightarrow> 'w http_client) \<Rightarrow> string \<Rightarrow> 'w HTTPRegistry result" where
  "NewHTTPRegistry lib mk_client endpoint =
     NewHTTPRegistryWithClient lib mk_client (Some (mk_client DefaultHTTPRegistryTimeout)) endpoint"

definition normalizeHTTPAttribute :: "any \<Rightarrow> any option" where
  "normalizeHTTPAttribute value =
     (case value of
        VString s \<Rightarrow> (if TrimSpace s = [] then None else Some (VString (TrimSpace s)))
      | VBool b \<Rightarrow> Some (VBool b)
      | VFloat (Finite m e) \<Rightarrow>
          if float_ge m e (2 ^ 63) \<or> \<not> float_ge m e (- (2 ^ 63)) then None
          else if \<not> float_integral m e then None
          else Some (VInt64 (float_floor m e))
      | _ \<Rightarrow> None)"

fun httpAttributes :: "(string \<times> any) list \<Rightarrow> (string \<times> any) list \<Rightarrow> (string \<times> any) list" where
  "httpAttributes [] attributes = attributes"
| "httpAttributes ((rawKey, rawValue) # rest) attributes =
     (let key = TrimSpace rawKey in
      if key = [] then httpAttributes rest attributes
      else case normalizeHTTPAttribute rawValue of
             Some normalized \<Rightarrow> httpAttributes rest (AList.update key normalized attributes)
           | None \<Rightarrow> httpAttributes rest attributes)"

definition deviceRecordFromHTTPResponse :: "HTTPRegistryResponse \<Rightarrow> DeviceRecord result" where
  "deviceRecordFromHTTPResponse response =
     (let serial = TrimSpace (hrr_Serial response) in
      if serial = [] then Inl (BrokerError 502 ''registry response missing serial'')
      else case validateSerial serial of
             Some err \<Rightarrow> Inl err
           | None \<Rightarrow>
               Inr \<lparr>dev_Serial = serial, dev_FriendlyID = TrimSpace (hrr_FriendlyID response),
                    dev_Attributes = httpAttributes (hrr_Attributes response) []\<rparr>)"

text \<open>The request of a lookup; \<open>http.NewRequestWithContext\<close> may reject the URL.\<close>

definition lookupRequest :: "url_lib \<Rightarrow> 'w HTTPRegistry \<Rightarrow> string \<Rightarrow> http_request" where
  "lookupRequest lib r deviceID =
     (let endpoint = hg_endpoint r;
          target = endpoint\<lparr>url_RawQuery := url_SetQuery lib (url_RawQuery endpoint) ''device_id'' deviceID\<rparr>
      in Header_Set ''User-Agent'' ''postern-broker'' (Header_Set ''Accept'' ''application/json''
           \<lparr>hq_Method = ''GET'', hq_URL = url_String lib target, hq_Header = [], hq_Body = ([], None)\<rparr>))"

definition lookupResult :: "http_response \<Rightarrow> DeviceRecord result" where
  "lookupResult response =
     (if hr_StatusCode response = 404 then Inl (BrokerError 404 ''device not found'')
      else if hr_StatusCode response \<noteq> 200 then Inl (BrokerError 502 ''registry lookup failed'')
      else case Decode False HTTPRegistryResponse_fields
                  \<lparr>hrr_Serial = [], hrr_FriendlyID = [], hrr_Attributes = []\<rparr>
                  (LimitReader (64 * 1024) (hr_Body response)) of
             Inl err \<Rightarrow> Inl (Wrapped ''decode registry response: '' err)
           | Inr lookup \<Rightarrow> deviceRecordFromHTTPResponse lookup)"

definition HTTP_ResolveDevice ::
  "url_lib \<Rightarrow> (http_request \<Rightarrow> go_error option) \<Rightarrow> 'w HTTPRegistry \<Rightarrow> string \<Rightarrow> 'w \<Rightarrow> DeviceRecord result \<times> 'w" where
  "HTTP_ResolveDevice lib bad_request r deviceID0 e =
     (let deviceID = TrimSpace deviceID0 in
      if deviceID = [] then (Inl (BrokerError 400 ''device_id is required''), e)
      else let request = lookupRequest lib r deviceID in
        case bad_request request of
          Some err \<Rightarrow> (Inl (Wrapped ''registry: '' err), e)
        | None \<Rightarrow>
            (case hg_client r request e of
               (Inl err, e1) \<Rightarrow> (Inl (Wrapped ''query registry HTTP URL: '' err), e1)
             | (Inr response, e1) \<Rightarrow> (lookupResult response, e1)))"

section \<open>The contract of a registry\<close>

definition device_ok :: "DeviceRecord \<Rightarrow> bool" where
  "device_ok d \<longleftrightarrow> serialPattern (dev_Serial d) \<and> TrimSpace (dev_FriendlyID d) = dev_FriendlyID d
     \<and> attributes_ok (dev_Attributes d) \<and> distinct (map fst (dev_Attributes d))"

locale device_registry =
  fixes resolve :: "string \<Rightarrow> 'w \<Rightarrow> DeviceRecord result \<times> 'w"
  assumes resolve_blank: "TrimSpace i = [] \<Longrightarrow> resolve i e = (Inl (BrokerError 400 ''device_id is required''), e)"
    and resolve_trim: "resolve (TrimSpace i) e = resolve i e"
    and resolve_ok: "resolve i e = (Inr d, e') \<Longrightarrow> device_ok d"
begin

lemma resolved_serial:
  assumes "resolve i e = (Inr d, e')"
  shows "list_all serial_char (dev_Serial d)" "dev_Serial d \<noteq> []" "length (dev_Serial d) \<le> 64"
    "TrimSpace (dev_Serial d) = dev_Serial d"
  using resolve_ok [OF assms] serialPattern_trim by (auto simp: device_ok_def serialPattern_def)

lemma resolved_attribute:
  assumes "resolve i e = (Inr d, e')" and "map_of (dev_Attributes d) k = Some v"
  shows "attribute_value v"
  using resolve_ok [OF assms(1)] assms(2) map_of_SomeD [OF assms(2)]
  by (auto simp: device_ok_def attributes_ok_def)

lemma resolved_nonblank: "resolve i e = (Inr d, e') \<Longrightarrow> TrimSpace i \<noteq> []"
  by (auto simp: resolve_blank)

end

subsection \<open>Both registries keep it\<close>

lemma normalizeDynamoDBAttribute_value: "normalizeDynamoDBAttribute v = Some a \<Longrightarrow> attribute_value a"
  by (auto simp: normalizeDynamoDBAttribute_def attribute_value_def int64_range_def split: dynamo_value.splits if_splits dest!: ParseInt64_range)

lemma normalizeHTTPAttribute_value: "normalizeHTTPAttribute v = Some a \<Longrightarrow> attribute_value a"
  by (auto simp: normalizeHTTPAttribute_def attribute_value_def int64_range_def float_ge_floor
      split: any.splits float64.splits if_splits)

lemma dynamoAttributes_ok: "attributes_ok as \<Longrightarrow> attributes_ok (dynamoAttributes item as)"
  by (induction item as rule: dynamoAttributes.induct)
    (auto simp: attributes_ok_update normalizeDynamoDBAttribute_value split: option.splits)

lemma dynamoAttributes_distinct: "distinct (map fst as) \<Longrightarrow> distinct (map fst (dynamoAttributes item as))"
  by (induction item as rule: dynamoAttributes.induct) (auto simp: distinct_update split: option.splits)

lemma httpAttributes_ok: "attributes_ok as \<Longrightarrow> attributes_ok (httpAttributes raw as)"
  by (induction raw as rule: httpAttributes.induct)
    (auto simp: attributes_ok_update normalizeHTTPAttribute_value Let_def split: option.splits)

lemma httpAttributes_distinct: "distinct (map fst as) \<Longrightarrow> distinct (map fst (httpAttributes raw as))"
  by (induction raw as rule: httpAttributes.induct) (auto simp: distinct_update Let_def split: option.splits)

lemma validateSerial_None: "validateSerial s = None \<longleftrightarrow> serialPattern s"
  by (simp add: validateSerial_def)

lemma stringAttribute_trim [simp]: "TrimSpace (stringAttribute item k) = stringAttribute item k"
  by (simp add: stringAttribute_def stringAttributeValue_def split: option.splits dynamo_value.splits)

lemma deviceRecordFromHTTPResponse_ok: "deviceRecordFromHTTPResponse r = Inr d \<Longrightarrow> device_ok d"
  by (auto simp: deviceRecordFromHTTPResponse_def device_ok_def validateSerial_None httpAttributes_ok
      httpAttributes_distinct Let_def split: if_splits option.splits)

lemma lookupResult_ok: "lookupResult r = Inr d \<Longrightarrow> device_ok d"
  by (auto simp: lookupResult_def deviceRecordFromHTTPResponse_ok split: if_splits sum.splits)

lemma DynamoDB_ResolveDevice_ok: "DynamoDB_ResolveDevice r i e = (Inr d, e') \<Longrightarrow> device_ok d"
  by (auto simp: DynamoDB_ResolveDevice_def device_ok_def validateSerial_None dynamoAttributes_ok
      dynamoAttributes_distinct Let_def split: if_splits option.splits prod.splits sum.splits)

interpretation dynamo: device_registry "DynamoDB_ResolveDevice r" for r :: "'w DynamoDBRegistry"
  by unfold_locales (simp_all add: DynamoDB_ResolveDevice_def DynamoDB_ResolveDevice_ok)

interpretation http: device_registry "HTTP_ResolveDevice lib bad r"
  for lib :: url_lib and bad :: "http_request \<Rightarrow> go_error option" and r :: "'w HTTPRegistry"
proof unfold_locales
  fix i e d e'
  assume "HTTP_ResolveDevice lib bad r i e = (Inr d, e')"
  then show "device_ok d"
    by (auto simp: HTTP_ResolveDevice_def lookupResult_ok Let_def split: if_splits option.splits prod.splits sum.splits)
qed (simp_all add: HTTP_ResolveDevice_def)

section \<open>Properties\<close>

text \<open>
  C12: what either registry hands to the pipeline is well typed. The serial has 1 to 64 characters from
  letters, digits, underscore, dot and dash; the friendly id carries no surrounding white space; no
  attribute name occurs twice, and each attribute is a non-empty trimmed string, a boolean or an
  integer of 64 bits. This holds for every answer of the table and of the HTTP service.
\<close>

theorem registry_records_typed:
  assumes "DynamoDB_ResolveDevice r i e = (Inr d, e') \<or> HTTP_ResolveDevice lib bad h i e = (Inr d, e')"
  shows "list_all serial_char (dev_Serial d) \<and> 1 \<le> length (dev_Serial d) \<and> length (dev_Serial d) \<le> 64
    \<and> TrimSpace (dev_FriendlyID d) = dev_FriendlyID d \<and> distinct (map fst (dev_Attributes d))
    \<and> list_all (\<lambda>(k, v). attribute_value v) (dev_Attributes d)"
proof -
  from assms have "device_ok d" by (auto dest: dynamo.resolve_ok http.resolve_ok)
  then show ?thesis by (auto simp: device_ok_def serialPattern_def attributes_ok_def list_all_iff)
qed

definition sample_item :: dynamo_item where
  "sample_item = [(''device_id'', AV_S ''lab''), (''serial'', AV_S '' S1 ''), (''floor'', AV_N ''3''), (''tags'', AV_other)]"

definition sample_registry :: "nat DynamoDBRegistry" where
  "sample_registry = \<lparr>dr_client = (\<lambda>q e. (Inr (if gi_Key q = [(''device_id'', AV_S ''lab'')] then sample_item else []), e + 1)),
     dr_table = ''devices''\<rparr>"

lemma sample_TrimSpace: "TrimSpace ''lab'' = ''lab''" "TrimSpace '' S1 '' = ''S1''" "TrimSpace ''3'' = ''3''"
  by (code_simp, code_simp, code_simp)

lemma sample_resolve:
  "DynamoDB_ResolveDevice sample_registry ''lab'' 0
     = (Inr \<lparr>dev_Serial = ''S1'', dev_FriendlyID = [], dev_Attributes = [(''floor'', VInt64 3)]\<rparr>, 1)"
  by code_simp

theorem registry_records_typed_witness:
  "\<exists>d. DynamoDB_ResolveDevice sample_registry ''lab'' 0 = (Inr d, 1) \<and> list_all serial_char (dev_Serial d)
     \<and> distinct (map fst (dev_Attributes d)) \<and> list_all (\<lambda>(k, v). attribute_value v) (dev_Attributes d)"
  using sample_resolve registry_records_typed [OF disjI1 [OF sample_resolve]] by blast

lemma map_of_dynamoAttributes:
  assumes "distinct (map fst item)" and "\<And>k. k \<in> fst ` set item \<Longrightarrow> map_of as k = None"
  shows "map_of (dynamoAttributes item as) k =
    (if k \<in> {''device_id'', ''serial'', ''friendly_id''} then map_of as k
     else case map_of item k of None \<Rightarrow> map_of as k | Some v \<Rightarrow> normalizeDynamoDBAttribute v)"
  using assms
proof (induction item as rule: dynamoAttributes.induct)
  case (2 key val item as)
  have nk: "map_of as key = None" using "2.prems"(2) [of key] by simp
  have k: "key \<notin> fst ` set item" using "2.prems"(1) by simp
  show ?case
  proof (cases "key = ''device_id'' \<or> key = ''serial'' \<or> key = ''friendly_id''")
    case True
    with "2.IH"(1) "2.prems" show ?thesis by auto
  next
    case False
    have upd: "map_of (AList.update key a as) j = (if j = key then Some a else map_of as j)" for a j
      by (simp add: update_conv')
    show ?thesis
    proof (cases "normalizeDynamoDBAttribute val")
      case None
      from False None "2.prems" have "map_of (dynamoAttributes item as) k =
          (if k \<in> {''device_id'', ''serial'', ''friendly_id''} then map_of as k
           else case map_of item k of None \<Rightarrow> map_of as k | Some v \<Rightarrow> normalizeDynamoDBAttribute v)"
        by (intro "2.IH"(2)) auto
      with False None nk k show ?thesis by (auto simp: map_of_eq_None_iff [symmetric])
    next
      case (Some a)
      from False Some "2.prems" k have IH: "map_of (dynamoAttributes item (AList.update key a as)) k =
          (if k \<in> {''device_id'', ''serial'', ''friendly_id''} then map_of (AList.update key a as) k
           else case map_of item k of None \<Rightarrow> map_of (AList.update key a as) k | Some v \<Rightarrow> normalizeDynamoDBAttribute v)"
        by (intro "2.IH"(3)) (auto simp: upd)
      show ?thesis
        using False Some IH k by (auto simp: upd map_of_eq_None_iff [symmetric] split: option.split)
    qed
  qed
qed auto

text \<open>
  C13: a DynamoDB record is the item, field by field. When the lookup of a non-blank id delivers an
  item, the registry returns a record exactly when the item has a string attribute \<open>serial\<close> that is
  well formed after trimming; the record then has that serial, and an attribute \<open>k\<close> is the
  normalised attribute \<open>k\<close> of the item, absent for the three canonical keys and for values that have
  no string, boolean or integer form. A missing item is 404, a missing serial 500, a malformed one 502.
\<close>

theorem dynamo_record_exact:
  assumes "TrimSpace i \<noteq> []" and "dr_client r \<lparr>gi_TableName = dr_table r, gi_ConsistentRead = True,
      gi_Key = [(''device_id'', AV_S (TrimSpace i))]\<rparr> e = (Inr item, e')" and "distinct (map fst item)"
  shows "if item = [] then DynamoDB_ResolveDevice r i e = (Inl (BrokerError 404 ''device not found''), e')
    else case map_of item ''serial'' of
        Some (AV_S s) \<Rightarrow>
          if TrimSpace s = [] then fst (DynamoDB_ResolveDevice r i e) = Inl (BrokerError 500 ''registry item missing serial'')
          else if \<not> serialPattern (TrimSpace s)
            then fst (DynamoDB_ResolveDevice r i e) = Inl (BrokerError 502 ''registry returned malformed serial'')
          else \<exists>d. DynamoDB_ResolveDevice r i e = (Inr d, e') \<and> dev_Serial d = TrimSpace s
            \<and> dev_FriendlyID d = stringAttribute item ''friendly_id''
            \<and> (\<forall>k. map_of (dev_Attributes d) k =
                 (if k \<in> {''device_id'', ''serial'', ''friendly_id''} then None
                  else Option.bind (map_of item k) normalizeDynamoDBAttribute))
      | _ \<Rightarrow> fst (DynamoDB_ResolveDevice r i e) = Inl (BrokerError 500 ''registry item missing serial'')"
  using assms map_of_dynamoAttributes [OF assms(3), of "[]"]
  by (auto simp: DynamoDB_ResolveDevice_def stringAttribute_def stringAttributeValue_def validateSerial_def Let_def
      split: option.split dynamo_value.split)

theorem dynamo_record_exact_witness:
  "\<exists>d. DynamoDB_ResolveDevice sample_registry ''lab'' 0 = (Inr d, 1) \<and> dev_Serial d = ''S1''
     \<and> map_of (dev_Attributes d) ''floor'' = Some (VInt64 3) \<and> map_of (dev_Attributes d) ''tags'' = None"
proof -
  have "serialPattern ''S1''" by code_simp
  moreover have "normalizeDynamoDBAttribute (AV_N ''3'') = Some (VInt64 3)" by code_simp
  ultimately show ?thesis
    using dynamo_record_exact [of "''lab''" sample_registry 0 sample_item 1]
    by (auto simp: sample_TrimSpace sample_registry_def sample_item_def normalizeDynamoDBAttribute_def [of AV_other])
qed

subsection \<open>What an inventory service must send\<close>

text \<open>
  The JSON of a record as a service would print it: integers as decimal literals.
\<close>

definition any_json :: "any \<Rightarrow> json" where
  "any_json v = (case v of VString s \<Rightarrow> JString s | VBool b \<Rightarrow> JBool b | VInt64 i \<Rightarrow> JNumber (FormatInt i) | _ \<Rightarrow> JNull)"

definition device_json :: "DeviceRecord \<Rightarrow> json" where
  "device_json d = JObject [(''serial'', JString (dev_Serial d)), (''friendly_id'', JString (dev_FriendlyID d)),
     (''attributes'', JObject (map (\<lambda>(k, v). (k, any_json v)) (dev_Attributes d)))]"

text \<open>
  Records that survive the trip: names and strings are valid UTF-8, names are trimmed and
  non-empty, and integers need at most 53 bits, because they travel as \<open>float64\<close>.
\<close>

definition wire_value :: "any \<Rightarrow> bool" where
  "wire_value v = (case v of VString s \<Rightarrow> coerce_utf8 s = s | VInt64 i \<Rightarrow> \<bar>i\<bar> < 2 ^ 53 | _ \<Rightarrow> True)"

definition wire_device :: "DeviceRecord \<Rightarrow> bool" where
  "wire_device d \<longleftrightarrow> device_ok d \<and> coerce_utf8 (dev_Serial d) = dev_Serial d \<and> coerce_utf8 (dev_FriendlyID d) = dev_FriendlyID d
     \<and> (\<forall>(k, v) \<in> set (dev_Attributes d). coerce_utf8 k = k \<and> TrimSpace k = k \<and> k \<noteq> [] \<and> wire_value v)"

lemma wire_value_any:
  assumes "attribute_value v" and "wire_value v"
  shows "json_ok (any_json v)" and "json_coerce (any_json v) = any_json v"
    and "\<exists>a. json_any (any_json v) = Some a \<and> normalizeHTTPAttribute a = Some v"
proof -
  show "json_ok (any_json v)" and "json_coerce (any_json v) = any_json v"
    using assms by (auto simp: any_json_def wire_value_def number_lit_FormatInt split: any.split)
  show "\<exists>a. json_any (any_json v) = Some a \<and> normalizeHTTPAttribute a = Some v"
  proof (cases v)
    case (VInt64 i)
    with assms(2) have "\<bar>i\<bar> < 2 ^ 53" by (simp add: wire_value_def)
    from ParseFloat64_FormatInt [OF this] obtain m e where
      f: "ParseFloat64 (FormatInt i) = Some (Finite m e)" "float_integral m e" "float_floor m e = i" by blast
    have "- (2 ^ 63) \<le> i \<and> i < 2 ^ 63" using assms(1) VInt64 by (simp add: attribute_value_def int64_range_def)
    with f VInt64 show ?thesis by (simp add: any_json_def normalizeHTTPAttribute_def float_ge_floor)
  qed (use assms in \<open>simp_all add: any_json_def normalizeHTTPAttribute_def attribute_value_def\<close>)
qed

lemma update_fresh: "k \<notin> fst ` set m \<Longrightarrow> AList.update k v m = m @ [(k, v)]"
  by (induction m) auto

definition travels :: "string \<times> any \<Rightarrow> string \<times> any \<Rightarrow> bool" where
  "travels p q \<longleftrightarrow> fst q = fst p \<and> normalizeHTTPAttribute (snd q) = Some (snd p)"

lemma json_any_members_wire:
  assumes "\<forall>(k, v) \<in> set as. attribute_value v \<and> wire_value v" and "distinct (map fst as)"
    and "fst ` set as \<inter> fst ` set acc = {}"
  shows "\<exists>bs. json_any_members (map (\<lambda>(k, v). (k, any_json v)) as) acc = Some (acc @ bs) \<and> list_all2 travels as bs"
  using assms
proof (induction as arbitrary: acc)
  case (Cons p as)
  obtain k v where p: "p = (k, v)" by (cases p)
  with Cons.prems wire_value_any(3) [of v] obtain a
    where a: "json_any (any_json v) = Some a" "normalizeHTTPAttribute a = Some v" by auto
  have fresh: "k \<notin> fst ` set acc" using Cons.prems(3) p by auto
  from Cons.IH [of "acc @ [(k, a)]"] Cons.prems p obtain bs where
    "json_any_members (map (\<lambda>(k, v). (k, any_json v)) as) (acc @ [(k, a)]) = Some ((acc @ [(k, a)]) @ bs)"
    "list_all2 travels as bs" by auto
  with p a fresh show ?case by (intro exI [of _ "(k, a) # bs"]) (simp add: update_fresh travels_def [of "(k, v)"])
qed simp

lemma httpAttributes_wire:
  assumes "list_all2 travels as bs" and "\<forall>(k, v) \<in> set as. TrimSpace k = k \<and> k \<noteq> []" and "distinct (map fst as)"
    and "fst ` set as \<inter> fst ` set acc = {}"
  shows "httpAttributes bs acc = acc @ as"
  using assms
proof (induction as bs arbitrary: acc rule: list_all2_induct)
  case (Cons p as q bs)
  obtain k v where p: "p = (k, v)" by (cases p)
  with Cons.hyps(1) obtain a where q: "q = (k, a)" "normalizeHTTPAttribute a = Some v" by (cases q) (auto simp: travels_def)
  have "k \<notin> fst ` set acc" using Cons.prems(3) p by auto
  moreover have "httpAttributes bs (acc @ [(k, v)]) = (acc @ [(k, v)]) @ as"
    by (rule Cons.IH) (use Cons.prems p in auto)
  ultimately show ?case using Cons.prems(1) p q by (simp add: update_fresh Let_def)
qed simp

lemma json_coerce_device:
  assumes "wire_device d"
  shows "json_ok (device_json d)" and "json_coerce (device_json d) = device_json d"
proof -
  have v: "json_ok (any_json v)" "json_coerce (any_json v) = any_json v" "coerce_utf8 k = k"
    if "(k, v) \<in> set (dev_Attributes d)" for k v
    using that assms wire_value_any [of v] by (auto simp: wire_device_def device_ok_def attributes_ok_def)
  then show "json_ok (device_json d)" by (auto simp: device_json_def)
  have lit: "coerce_utf8 ''serial'' = ''serial''" "coerce_utf8 ''friendly_id'' = ''friendly_id''"
    "coerce_utf8 ''attributes'' = ''attributes''" by (rule coerce_utf8_ascii, simp add: is_ascii_def)+
  from v assms show "json_coerce (device_json d) = device_json d"
    by (auto simp: device_json_def lit wire_device_def intro!: map_cong)
qed

text \<open>
  C14: the HTTP registry reads back what an inventory service prints. If the service answers 200 with
  the JSON of a record that the contract allows, in at most 64 KiB, whose names and strings are valid
  UTF-8 and whose integers fit in 53 bits (they pass through \<open>float64\<close>), the lookup returns exactly
  that record: no attribute is lost, renamed or changed.
\<close>

theorem http_registry_roundtrip:
  assumes "wire_device d" and "length (json_print (device_json d)) \<le> 64 * 1024" and "TrimSpace i \<noteq> []"
    and "bad (lookupRequest lib r (TrimSpace i)) = None"
    and "hg_client r (lookupRequest lib r (TrimSpace i)) e =
      (Inr \<lparr>hr_StatusCode = 200, hr_Header = h, hr_Body = (json_print (device_json d), None)\<rparr>, e')"
  shows "HTTP_ResolveDevice lib bad r i e = (Inr d, e')"
proof -
  let ?zero = "\<lparr>hrr_Serial = [], hrr_FriendlyID = [], hrr_Attributes = []\<rparr>"
  let ?body = "json_print (device_json d)"
  have ok: "device_ok d" using assms(1) by (simp add: wire_device_def)
  have "\<forall>(k, v) \<in> set (dev_Attributes d). attribute_value v \<and> wire_value v" and dist: "distinct (map fst (dev_Attributes d))"
    using assms(1) by (auto simp: wire_device_def device_ok_def attributes_ok_def)
  from json_any_members_wire [OF this, of "[]"] obtain bs where bs:
    "json_any_members (map (\<lambda>(k, v). (k, any_json v)) (dev_Attributes d)) [] = Some bs" "list_all2 travels (dev_Attributes d) bs"
    by auto
  have "httpAttributes bs [] = dev_Attributes d"
    using httpAttributes_wire [OF bs(2) _ dist, of "[]"] assms(1) by (auto simp: wire_device_def)
  then have rec: "deviceRecordFromHTTPResponse \<lparr>hrr_Serial = dev_Serial d, hrr_FriendlyID = dev_FriendlyID d, hrr_Attributes = bs\<rparr> = Inr d"
    using ok serialPattern_trim [of "dev_Serial d"]
    by (auto simp: deviceRecordFromHTTPResponse_def device_ok_def validateSerial_def serialPattern_def Let_def)
  have "json_value ?body = Some (device_json d, [])"
    using json_value_print(1) [OF json_coerce_device(1) [OF assms(1)], of "[]"] json_coerce_device(2) [OF assms(1)]
    by (simp add: number_end_def)
  moreover have "bind_value False HTTPRegistryResponse_fields ?zero (device_json d)
      = Some \<lparr>hrr_Serial = dev_Serial d, hrr_FriendlyID = dev_FriendlyID d, hrr_Attributes = bs\<rparr>"
    using bs(1) by (simp add: bind_value_def device_json_def HTTPRegistryResponse_fields_def find_field_def set_string_def set_any_map_def)
  ultimately have "Decode False HTTPRegistryResponse_fields ?zero (LimitReader (64 * 1024) (?body, None))
      = Inr \<lparr>hrr_Serial = dev_Serial d, hrr_FriendlyID = dev_FriendlyID d, hrr_Attributes = bs\<rparr>"
    using assms(2) by (simp add: Decode_def LimitReader_def)
  with rec assms(3-5) show ?thesis
    by (simp add: HTTP_ResolveDevice_def lookupResult_def Let_def)
qed

definition sample_wire_device :: DeviceRecord where
  "sample_wire_device = \<lparr>dev_Serial = ''S1'', dev_FriendlyID = ''lab'', dev_Attributes = [(''floor'', VInt64 3)]\<rparr>"

definition sample_url_lib :: url_lib where
  "sample_url_lib = \<lparr>url_Parse = (\<lambda>s. Inl (Plain s)), url_String = url_RawQuery, url_SetQuery = (\<lambda>q k v. k @ ''='' @ v),
     url_Hostname = url_Host\<rparr>"

definition sample_http_registry :: "nat HTTPRegistry" where
  "sample_http_registry = \<lparr>hg_client = (\<lambda>q e. (Inr \<lparr>hr_StatusCode = (if hq_URL q = ''device_id=lab'' then 200 else 404), hr_Header = [],
       hr_Body = (json_print (device_json sample_wire_device), None)\<rparr>, e + 1)),
     hg_endpoint = \<lparr>url_Scheme = ''https'', url_Host = ''inv'', url_Path = [], url_RawQuery = [], url_Fragment = []\<rparr>\<rparr>"

theorem http_registry_roundtrip_witness:
  "HTTP_ResolveDevice sample_url_lib (\<lambda>_. None) sample_http_registry ''lab'' 0 = (Inr sample_wire_device, 1)"
proof (rule http_registry_roundtrip [where h = "[]"])
  show "wire_device sample_wire_device"
  proof -
    have "coerce_utf8 ''S1'' = ''S1''" "coerce_utf8 ''lab'' = ''lab''" "coerce_utf8 ''floor'' = ''floor''"
      by (rule coerce_utf8_ascii, simp add: is_ascii_def)+
    moreover have "TrimSpace ''floor'' = ''floor''" "serialPattern ''S1''" by (code_simp, code_simp)
    ultimately show ?thesis
      by (simp add: wire_device_def sample_wire_device_def device_ok_def attributes_ok_def attribute_value_def
          int64_range_def wire_value_def sample_TrimSpace)
  qed
  show "length (json_print (device_json sample_wire_device)) \<le> 64 * 1024"
  proof -
    have "FormatInt 3 = ''3''" by code_simp
    moreover have "json_escape ''S1'' = ''S1''" "json_escape ''lab'' = ''lab''" "json_escape ''floor'' = ''floor''"
      "json_escape ''serial'' = ''serial''" "json_escape ''friendly_id'' = ''friendly_id''" "json_escape ''attributes'' = ''attributes''"
      by (rule json_escape_plain, simp add: plain_char_def is_ascii_def)+
    ultimately show ?thesis by (simp add: sample_wire_device_def device_json_def any_json_def json_quote_def)
  qed
  show "hg_client sample_http_registry (lookupRequest sample_url_lib sample_http_registry (TrimSpace ''lab'')) 0 =
    (Inr \<lparr>hr_StatusCode = 200, hr_Header = [], hr_Body = (json_print (device_json sample_wire_device), None)\<rparr>, 1)"
    by (simp add: sample_TrimSpace sample_http_registry_def sample_url_lib_def lookupRequest_def Header_Set_def Let_def)
qed (simp_all add: sample_TrimSpace)

end
