(* ===== verification/Rate_Limit.thy ===== *)
theory Rate_Limit
  imports Broker_Types
begin

text \<open>
  The rate limiter (src/internal/ratelimit/dynamodb.go): one conditional \<open>UpdateItem\<close> per request on
  a counter row keyed by engineer and by mode and window. DynamoDB is a parameter; what the limiter
  relies on (the conditional update is atomic) is the hypothesis \<open>atomic_counter\<close>. The main result is
  the bound the package documents, over any sequence of requests.
\<close>

definition DefaultLimit :: int where
  "DefaultLimit = 60"

definition DefaultWindow :: duration where
  "DefaultWindow = Minute"

definition ErrTableRequired :: go_error where
  "ErrTableRequired = Plain ''rate limit DynamoDB table is required''"

text \<open>
  The input of \<open>UpdateItem\<close>: the two attributes of the key, the update and condition expressions, the
  attribute names behind \<open>#count\<close> and \<open>#expires_at\<close>, and the values of \<open>:one\<close>, \<open>:limit\<close> and
  \<open>:expires_at\<close>, which travel as decimal strings.
\<close>

record UpdateItemInput =
  ui_TableName :: string
  ui_engineer_sub :: string
  ui_window :: string
  ui_UpdateExpression :: string
  ui_ConditionExpression :: string
  ui_Names :: "(string \<times> string) list"
  ui_one :: string
  ui_limit :: string
  ui_expires_at :: string

type_synonym 'w UpdateItem = "UpdateItemInput \<Rightarrow> 'w \<Rightarrow> unit result \<times> 'w"

record 'w DynamoDBRateLimiter =
  lim_client :: "'w UpdateItem"
  lim_table :: string
  lim_limit :: int
  lim_window :: duration
  lim_clock :: "'w \<Rightarrow> time \<times> 'w"

definition NewDynamoDBRateLimiterWithOptions ::
  "('w \<Rightarrow> time \<times> 'w) \<Rightarrow> 'w UpdateItem \<Rightarrow> string \<Rightarrow> int \<Rightarrow> duration \<Rightarrow> ('w \<Rightarrow> time \<times> 'w) option
    \<Rightarrow> 'w DynamoDBRateLimiter result" where
  "NewDynamoDBRateLimiterWithOptions SystemClock client table limit window clock =
     (if table = [] then Inl ErrTableRequired
      else if limit \<le> 0 then Inl (Plain ''rate limit must be positive'')
      else if window \<le> 0 then Inl (Plain ''rate limit window must be positive'')
      else Inr \<lparr>lim_client = client, lim_table = table, lim_limit = limit, lim_window = window,
             lim_clock = (case clock of Some c \<Rightarrow> c | None \<Rightarrow> SystemClock)\<rparr>)"

definition newDynamoDBRateLimiter ::
  "('w \<Rightarrow> time \<times> 'w) \<Rightarrow> 'w UpdateItem \<Rightarrow> string \<Rightarrow> 'w DynamoDBRateLimiter result" where
  "newDynamoDBRateLimiter SystemClock client table =
     NewDynamoDBRateLimiterWithOptions SystemClock client table DefaultLimit DefaultWindow (Some SystemClock)"

text \<open>
  \<open>errors.As\<close> for \<open>*types.ConditionalCheckFailedException\<close>, and \<open>Time.Truncate\<close>, which rounds down
  to a multiple of the duration since the zero time.
\<close>

fun conditionalCheckFailed :: "go_error \<Rightarrow> bool" where
  "conditionalCheckFailed (Sdk code) \<longleftrightarrow> code = ''ConditionalCheckFailedException''"
| "conditionalCheckFailed (Wrapped _ e) \<longleftrightarrow> conditionalCheckFailed e"
| "conditionalCheckFailed (Joined es) \<longleftrightarrow> list_ex conditionalCheckFailed es"
| "conditionalCheckFailed (Classified _ e) \<longleftrightarrow> conditionalCheckFailed e"
| "conditionalCheckFailed (AssumeRole e) \<longleftrightarrow> conditionalCheckFailed e"
| "conditionalCheckFailed _ \<longleftrightarrow> False"

definition Truncate :: "time \<Rightarrow> duration \<Rightarrow> time" where
  "Truncate t d = (if d \<le> 0 then t else t - (t - zero_time) mod d)"

definition windowKey :: "string \<Rightarrow> time \<Rightarrow> duration \<Rightarrow> string" where
  "windowKey mode now window = mode @ '':'' @ FormatInt (Unix (Truncate now window))"

definition countExpression :: string where
  "countExpression = ''ADD #count :one SET #expires_at = :expires_at''"

definition limitCondition :: string where
  "limitCondition = ''attribute_not_exists(#count) OR #count < :limit''"

definition updateInput :: "'w DynamoDBRateLimiter \<Rightarrow> string \<Rightarrow> string \<Rightarrow> time \<Rightarrow> UpdateItemInput" where
  "updateInput l engineerSub mode now =
     \<lparr>ui_TableName = lim_table l, ui_engineer_sub = engineerSub,
      ui_window = windowKey mode now (lim_window l),
      ui_UpdateExpression = countExpression, ui_ConditionExpression = limitCondition,
      ui_Names = [(''#count'', ''count''), (''#expires_at'', ''expires_at'')],
      ui_one = ''1'', ui_limit = FormatInt (lim_limit l),
      ui_expires_at = FormatInt (Unix (now + int64 (2 * lim_window l)))\<rparr>"

definition RateLimiter_Allow :: "'w DynamoDBRateLimiter \<Rightarrow> RateLimitRequest \<Rightarrow> 'w \<Rightarrow> go_error option \<times> 'w" where
  "RateLimiter_Allow l request e =
     (let engineerSub = TrimSpace (cl_Subject (rl_Caller request)) in
      if engineerSub = [] then (Some (BrokerError 401 ''engineer subject is required''), e)
      else case lim_clock l e of (now, e1) \<Rightarrow>
        (case lim_client l (updateInput l engineerSub (rl_Mode request) now) e1 of
           (Inl err, e2) \<Rightarrow>
             (if conditionalCheckFailed err then Some (BrokerError 429 ''rate limit exceeded'')
              else Some (Wrapped ''ratelimit: '' err), e2)
         | (Inr _, e2) \<Rightarrow> (None, e2)))"

section \<open>Windows\<close>

lemma Truncate_bounds: "0 < d \<Longrightarrow> Truncate t d \<le> t \<and> t < Truncate t d + d"
  by (simp add: Truncate_def)

lemma Truncate_multiple: "0 < d \<Longrightarrow> (Truncate t d - zero_time) mod d = 0"
proof -
  assume "0 < d"
  then have "Truncate t d - zero_time = d * ((t - zero_time) div d)"
    by (simp add: Truncate_def minus_mod_eq_mult_div [symmetric])
  then show ?thesis by simp
qed

lemma Truncate_mono: "0 < d \<Longrightarrow> s \<le> t \<Longrightarrow> Truncate s d \<le> Truncate t d"
proof -
  assume d: "0 < d" and st: "s \<le> t"
  have "Truncate x d = zero_time + d * ((x - zero_time) div d)" for x
    using d by (simp add: Truncate_def minus_mod_eq_mult_div [symmetric])
  moreover have "(s - zero_time) div d \<le> (t - zero_time) div d" using st by (intro zdiv_mono1 d) simp
  ultimately show ?thesis using d by (simp add: mult_left_mono)
qed

lemma windowKey_same: "Truncate s d = Truncate t d \<Longrightarrow> windowKey m s d = windowKey m t d"
  by (simp add: windowKey_def)

text \<open>The colon that separates mode and window start is the last one of the key.\<close>

lemma FormatInt_no_colon: "CHR '':'' \<notin> set (FormatInt i)"
  using nat_str_digits [of "nat i"] nat_str_digits [of "nat (- i)"]
  by (auto simp: FormatInt_def list_all_iff is_digit_def)

lemma last_sep_inj:
  assumes "xs @ c # a = ys @ c # b" and "c \<notin> set a" and "c \<notin> set b"
  shows "xs = ys \<and> a = b"
proof -
  have "rev a @ c # rev xs = rev b @ c # rev ys" using arg_cong [OF assms(1), of rev] by simp
  then show ?thesis
    using assms(2,3) takeWhile_append2 [of "rev a" "\<lambda>x. x \<noteq> c" "c # rev xs"]
      takeWhile_append2 [of "rev b" "\<lambda>x. x \<noteq> c" "c # rev ys"] by fastforce
qed

lemma windowKey_inj:
  assumes "windowKey m s d = windowKey m' t d'"
  shows "m = m'" and "Unix (Truncate s d) = Unix (Truncate t d')"
proof -
  from last_sep_inj [of m "CHR '':''" "FormatInt (Unix (Truncate s d))" m' "FormatInt (Unix (Truncate t d'))"] assms
    FormatInt_no_colon
  have "m = m' \<and> FormatInt (Unix (Truncate s d)) = FormatInt (Unix (Truncate t d'))"
    by (simp add: windowKey_def)
  then show "m = m'" and "Unix (Truncate s d) = Unix (Truncate t d')" by (auto dest: FormatInt_inj)
qed

section \<open>Sequences of requests\<close>

text \<open>
  A run of the limiter: each request with the time the limiter reads for it and whether it was
  admitted. The environment may change between the requests as the functions of the limiter allow;
  in particular other brokers may use the same table.
\<close>

fun limiter_run ::
  "'w DynamoDBRateLimiter \<Rightarrow> RateLimitRequest list \<Rightarrow> 'w \<Rightarrow> (RateLimitRequest \<times> time \<times> bool) list" where
  "limiter_run l [] e = []"
| "limiter_run l (q # qs) e =
     (case RateLimiter_Allow l q e of (r, e') \<Rightarrow>
        (q, fst (lim_clock l e), r = None) # limiter_run l qs e')"

text \<open>
  What is documented of a conditional \<open>UpdateItem\<close>, for one row: \<open>n e\<close> is the value of its \<open>count\<close>
  attribute in state \<open>e\<close>. An update of the row that reports success found the count below \<open>:limit\<close>
  and left it larger; a failed update, an update of another row and a reading of the clock never
  lower it (a row expires only after its window has ended).
\<close>

definition row_of :: "UpdateItemInput \<Rightarrow> string \<times> string \<times> string" where
  "row_of q = (ui_TableName q, ui_engineer_sub q, ui_window q)"

definition atomic_row :: "'w DynamoDBRateLimiter \<Rightarrow> string \<times> string \<times> string \<Rightarrow> ('w \<Rightarrow> nat) \<Rightarrow> bool" where
  "atomic_row l row n \<longleftrightarrow>
     (\<forall>e. n e \<le> n (snd (lim_clock l e)))
     \<and> (\<forall>q e. n e \<le> n (snd (lim_client l q e)))
     \<and> (\<forall>q e lim. row_of q = row \<and> ui_UpdateExpression q = countExpression \<and> ui_ConditionExpression q = limitCondition
          \<and> map_of (ui_Names q) ''#count'' = Some ''count'' \<and> ui_one q = ''1'' \<and> ui_limit q = FormatInt lim \<and> \<not> isl (fst (lim_client l q e))
          \<longrightarrow> int (n e) < lim \<and> n e < n (snd (lim_client l q e)))"

lemma Allow_grows:
  assumes "atomic_row l row n" and "RateLimiter_Allow l q e = (r, e')"
  shows "n e \<le> n e'"
proof -
  have c: "n e \<le> n (snd (lim_clock l e))" for e using assms(1) by (auto simp: atomic_row_def)
  have u: "n e \<le> n (snd (lim_client l q e))" for q e using assms(1) by (auto simp: atomic_row_def)
  have "e' = e \<or> e' = snd (lim_client l (updateInput l (TrimSpace (cl_Subject (rl_Caller q))) (rl_Mode q)
      (fst (lim_clock l e))) (snd (lim_clock l e)))"
    using assms(2) by (auto simp: RateLimiter_Allow_def Let_def split: if_splits prod.splits sum.splits)
  with c [of e] u show ?thesis by (meson order_refl order_trans)
qed

lemma Allow_admits:
  assumes "atomic_row l (lim_table l, sub, windowKey mode t (lim_window l)) n" and "RateLimiter_Allow l q e = (None, e')"
    and "TrimSpace (cl_Subject (rl_Caller q)) = sub" and "rl_Mode q = mode"
    and "windowKey mode (fst (lim_clock l e)) (lim_window l) = windowKey mode t (lim_window l)"
  shows "int (n e) < lim_limit l \<and> n e < n e'"
proof -
  let ?q = "updateInput l sub mode (fst (lim_clock l e))" and ?e1 = "snd (lim_clock l e)"
  have c: "n e \<le> n ?e1" using assms(1) by (auto simp: atomic_row_def)
  have ok: "\<not> isl (fst (lim_client l ?q ?e1))" and e': "e' = snd (lim_client l ?q ?e1)"
    using assms(2-4) by (auto simp: RateLimiter_Allow_def Let_def split: if_splits prod.splits sum.splits)
  have "row_of ?q = (lim_table l, sub, windowKey mode t (lim_window l))" "ui_one ?q = ''1''"
    "ui_limit ?q = FormatInt (lim_limit l)" "ui_UpdateExpression ?q = countExpression"
    "ui_ConditionExpression ?q = limitCondition" "map_of (ui_Names ?q) ''#count'' = Some ''count''"
    using assms(5) by (simp_all add: row_of_def updateInput_def)
  with assms(1) ok have "int (n ?e1) < lim_limit l \<and> n ?e1 < n (snd (lim_client l ?q ?e1))"
    unfolding atomic_row_def by blast
  with c e' show ?thesis by simp
qed

definition counted :: "'w DynamoDBRateLimiter \<Rightarrow> string \<Rightarrow> string \<Rightarrow> time \<Rightarrow> RateLimitRequest \<times> time \<times> bool \<Rightarrow> bool" where
  "counted l sub mode t x \<longleftrightarrow> (case x of (q, now, ok) \<Rightarrow> ok \<and> TrimSpace (cl_Subject (rl_Caller q)) = sub \<and> rl_Mode q = mode
     \<and> windowKey mode now (lim_window l) = windowKey mode t (lim_window l))"

lemma limiter_run_bound:
  assumes "atomic_row l (lim_table l, sub, windowKey mode t (lim_window l)) n" and "a \<le> n e" and "int a \<le> lim_limit l"
  shows "int a + int (length (filter (counted l sub mode t) (limiter_run l qs e))) \<le> lim_limit l"
  using assms(2,3)
proof (induction qs arbitrary: e a)
  case (Cons q qs)
  obtain r e' where A: "RateLimiter_Allow l q e = (r, e')" by (cases "RateLimiter_Allow l q e")
  note g = Allow_grows [OF assms(1) A]
  show ?case
  proof (cases "counted l sub mode t (q, fst (lim_clock l e), r = None)")
    case True
    then have "r = None" by (auto simp: counted_def)
    with Allow_admits [OF assms(1), of q e e'] A True have "int (n e) < lim_limit l" "n e < n e'"
      by (auto simp: counted_def)
    with Cons.IH [of "Suc a" e'] Cons.prems A True show ?thesis by simp
  next
    case False
    with Cons.IH [of a e'] Cons.prems A g show ?thesis by simp
  qed
qed simp

lemma Truncate_floor: "0 < d \<Longrightarrow> Truncate x d = zero_time + d * ((x - zero_time) div d)"
  by (simp add: Truncate_def minus_mod_eq_mult_div [symmetric])

lemma Truncate_interval:
  assumes "0 < d" and "t \<le> now" and "now < t + d"
  shows "Truncate now d = Truncate t d \<or> Truncate now d = Truncate (t + d) d"
proof -
  have "(t + d - zero_time) div d = (t - zero_time) div d + 1"
    using assms(1) div_add_self2 [of d "t - zero_time"] by (simp add: algebra_simps)
  moreover have "(t - zero_time) div d \<le> (now - zero_time) div d" "(now - zero_time) div d \<le> (t + d - zero_time) div d"
    using assms by (auto intro: zdiv_mono1)
  ultimately have "(now - zero_time) div d = (t - zero_time) div d \<or> (now - zero_time) div d = (t + d - zero_time) div d"
    by linarith
  with assms(1) show ?thesis by (auto simp: Truncate_floor)
qed

text \<open>
  C15: the budget. Take any sequence of requests to a limiter the constructor accepted, on a table
  whose conditional updates are atomic. For every engineer and mode, at most \<open>limit\<close> requests are
  admitted in one tumbling window, and at most \<open>2 * limit\<close> in any interval of the length of the
  window, wherever it starts.
\<close>

theorem rate_limit_budget:
  assumes "NewDynamoDBRateLimiterWithOptions ck client table limit window clock = Inr l"
    and "\<And>row. \<exists>n. atomic_row l row n"
  shows "int (length (filter (\<lambda>(q, now, ok). ok \<and> TrimSpace (cl_Subject (rl_Caller q)) = sub \<and> rl_Mode q = mode
            \<and> Truncate now window = Truncate t window) (limiter_run l qs e))) \<le> limit
    \<and> int (length (filter (\<lambda>(q, now, ok). ok \<and> TrimSpace (cl_Subject (rl_Caller q)) = sub \<and> rl_Mode q = mode
            \<and> t \<le> now \<and> now < t + window) (limiter_run l qs e))) \<le> 2 * limit"
    (is "int (length (filter ?W _)) \<le> _ \<and> int (length (filter ?I _)) \<le> _")
proof -
  from assms(1) have l: "lim_limit l = limit" "lim_window l = window" "0 < limit" "0 < window"
    by (auto simp: NewDynamoDBRateLimiterWithOptions_def split: if_splits)
  have key: "int (length (filter (counted l sub mode s) (limiter_run l qs e))) \<le> limit" for s
    using assms(2) [of "(lim_table l, sub, windowKey mode s (lim_window l))"] limiter_run_bound [where a = 0 and e = e] l
    by fastforce
  have mono: "length (filter P xs) \<le> length (filter Q xs)" if "\<And>x. P x \<Longrightarrow> Q x" for P Q and xs :: "'b list"
    using that by (induction xs) (auto intro: le_SucI)
  have two: "length (filter P xs) \<le> length (filter Q xs) + length (filter R xs)"
    if "\<And>x. P x \<Longrightarrow> Q x \<or> R x" for P Q R and xs :: "'b list"
  proof (induction xs)
    case (Cons x xs)
    with that [of x] show ?case by auto
  qed simp
  have "length (filter ?W (limiter_run l qs e)) \<le> length (filter (counted l sub mode t) (limiter_run l qs e))"
    by (rule mono) (auto simp: counted_def l intro: windowKey_same)
  moreover have "length (filter ?I (limiter_run l qs e)) \<le> length (filter (counted l sub mode t) (limiter_run l qs e))
      + length (filter (counted l sub mode (t + window)) (limiter_run l qs e))"
    by (rule two) (use Truncate_interval [OF l(4), of t] in \<open>auto simp: counted_def l intro: windowKey_same\<close>)
  ultimately show ?thesis using key [of t] key [of "t + window"] by linarith
qed

text \<open>A table in memory: the state is the clock and the list of counted updates.\<close>

type_synonym memory_table = "time \<times> (string \<times> string \<times> string) list"

definition memory_update :: "memory_table UpdateItem" where
  "memory_update q e =
     (if ui_limit q = FormatInt 2 \<and> count_list (snd e) (row_of q) < 2 then (Inr (), (fst e, row_of q # snd e))
      else (Inl (Sdk ''ConditionalCheckFailedException''), e))"

definition memory_clock :: "memory_table \<Rightarrow> time \<times> memory_table" where
  "memory_clock e = (fst e, (fst e + 7 * Second, snd e))"

definition sample_limiter :: "memory_table DynamoDBRateLimiter" where
  "sample_limiter = \<lparr>lim_client = memory_update, lim_table = ''limits'', lim_limit = 2, lim_window = Minute,
     lim_clock = memory_clock\<rparr>"

lemma memory_atomic: "atomic_row sample_limiter row (\<lambda>e. count_list (snd e) row)"
  by (auto simp: atomic_row_def sample_limiter_def memory_clock_def memory_update_def dest: FormatInt_inj)

definition sample_limit_request :: RateLimitRequest where
  "sample_limit_request = \<lparr>rl_Caller = \<lparr>cl_Subject = ''u1'', cl_Email = [], cl_Groups = [], cl_Class = [], cl_ClientID = [], cl_Raw = []\<rparr>,
     rl_Device = \<lparr>dev_Serial = [], dev_FriendlyID = [], dev_Attributes = []\<rparr>, rl_Mode = ''operator'', rl_SourceIP = [], rl_UserAgent = [], rl_RequestID = []\<rparr>"

theorem rate_limit_budget_witness:
  "int (length (filter (\<lambda>(q, now, ok). ok \<and> TrimSpace (cl_Subject (rl_Caller q)) = ''u1'' \<and> rl_Mode q = ''operator''
     \<and> Truncate now Minute = Truncate 0 Minute) (limiter_run sample_limiter (replicate 9 sample_limit_request) (0, [])))) \<le> 2"
proof -
  have "NewDynamoDBRateLimiterWithOptions memory_clock memory_update ''limits'' 2 Minute None = Inr sample_limiter"
    by (simp add: NewDynamoDBRateLimiterWithOptions_def sample_limiter_def Minute_def Second_def)
  from rate_limit_budget [OF this] memory_atomic show ?thesis by blast
qed

end
