(* ===== verification/Policy.thy ===== *)
theory Policy
  imports Registry
begin

text \<open>
  The policy (src/internal/policy/avp.go): one call of \<open>IsAuthorizedWithToken\<close> of AWS Verified
  Permissions per request, with the action, the device entity and the Cedar context built from the
  broker's request. The service is a parameter.
\<close>

section \<open>The call\<close>

definition PolicyActionMintOperatorCert :: string where
  "PolicyActionMintOperatorCert = ''MintOperatorCert''"
definition PolicyActionMintTimefixCert :: string where
  "PolicyActionMintTimefixCert = ''MintTimefixCert''"
definition PolicyActionOpenTunnel :: string where
  "PolicyActionOpenTunnel = ''OpenTunnel''"

datatype cedar_value = Cedar_String string | Cedar_Boolean bool | Cedar_Long int | Cedar_Datetime string

type_synonym cedar_record = "(string \<times> cedar_value) list"

record IsAuthorizedInput =
  ia_PolicyStoreId :: string
  ia_AccessToken :: string
  ia_ActionType :: string
  ia_ActionId :: string
  ia_ResourceType :: string
  ia_ResourceId :: string
  ia_Context :: cedar_record
  ia_EntityType :: string
  ia_EntityId :: string
  ia_EntityAttributes :: cedar_record

text \<open>The answer is the decision, a string of the SDK: \<open>ALLOW\<close> or \<open>DENY\<close>.\<close>

type_synonym 'w IsAuthorizedWithToken = "IsAuthorizedInput \<Rightarrow> 'w \<Rightarrow> string result \<times> 'w"

definition DecisionAllow :: string where
  "DecisionAllow = ''ALLOW''"

record 'w AVPPolicy =
  avp_client :: "'w IsAuthorizedWithToken"
  avp_policyStoreID :: string

definition ErrPolicyStoreIDRequired :: go_error where
  "ErrPolicyStoreIDRequired = Plain ''AVP policy store ID is required''"

definition NewAVPPolicy :: "'w IsAuthorizedWithToken \<Rightarrow> string \<Rightarrow> 'w AVPPolicy result" where
  "NewAVPPolicy client policyStoreID =
     (if policyStoreID = [] then Inl ErrPolicyStoreIDRequired
      else Inr \<lparr>avp_client = client, avp_policyStoreID = policyStoreID\<rparr>)"

definition cedarAttributeValue :: "any \<Rightarrow> cedar_value option" where
  "cedarAttributeValue v =
     (case v of
        VString s \<Rightarrow> (if TrimSpace s = [] then None else Some (Cedar_String (TrimSpace s)))
      | VBool b \<Rightarrow> Some (Cedar_Boolean b)
      | VInt64 i \<Rightarrow> Some (Cedar_Long i)
      | _ \<Rightarrow> None)"

fun overlayContext :: "(string \<times> any) list \<Rightarrow> cedar_record \<Rightarrow> cedar_record" where
  "overlayContext [] attributes = attributes"
| "overlayContext ((key, value) # rest) attributes =
     (let trimmedKey = TrimSpace key in
      if trimmedKey = [] then overlayContext rest attributes
      else if map_of attributes trimmedKey \<noteq> None then overlayContext rest attributes
      else case cedarAttributeValue value of
             Some emitted \<Rightarrow> overlayContext rest (AList.update trimmedKey emitted attributes)
           | None \<Rightarrow> overlayContext rest attributes)"

definition reservedContext :: "PolicyRequest \<Rightarrow> cedar_record" where
  "reservedContext request =
     [(''source_ip'', Cedar_String (pol_SourceIP request)), (''user_agent'', Cedar_String (pol_UserAgent request)),
      (''request_id'', Cedar_String (pol_RequestID request)),
      (''principal_class'', Cedar_String (cl_Class (pol_Caller request)))]
     @ (if pol_Timestamp request \<noteq> zero_time
        then [(''timestamp'', Cedar_Datetime (FormatRFC3339 (pol_Timestamp request)))] else [])
     @ (if cl_ClientID (pol_Caller request) \<noteq> []
        then [(''client_id'', Cedar_String (cl_ClientID (pol_Caller request)))] else [])"

definition contextMap :: "PolicyRequest \<Rightarrow> cedar_record" where
  "contextMap request = overlayContext (pol_Context request) (reservedContext request)"

fun deviceAttributes :: "(string \<times> any) list \<Rightarrow> cedar_record \<Rightarrow> cedar_record" where
  "deviceAttributes [] attributes = attributes"
| "deviceAttributes ((rawKey, rawValue) # rest) attributes =
     (let key = TrimSpace rawKey in
      if key = [] then deviceAttributes rest attributes
      else case cedarAttributeValue rawValue of
             Some emitted \<Rightarrow> deviceAttributes rest (AList.update key emitted attributes)
           | None \<Rightarrow> deviceAttributes rest attributes)"

definition entities :: "DeviceRecord \<Rightarrow> cedar_record" where
  "entities device =
     (let attributes = AList.update ''serial'' (Cedar_String (dev_Serial device)) (deviceAttributes (dev_Attributes device) [])
      in if dev_FriendlyID device \<noteq> []
         then AList.update ''friendly_id'' (Cedar_String (dev_FriendlyID device)) attributes
         else attributes)"

definition policyAction :: "string \<Rightarrow> string option" where
  "policyAction mode =
     (if mode = ModeOperator then Some PolicyActionMintOperatorCert
      else if mode = ModeTimefix then Some PolicyActionMintTimefixCert
      else if mode = ModeTunnel then Some PolicyActionOpenTunnel
      else None)"

definition authorizationInput :: "'w AVPPolicy \<Rightarrow> PolicyRequest \<Rightarrow> string \<Rightarrow> IsAuthorizedInput" where
  "authorizationInput p request actionID =
     \<lparr>ia_PolicyStoreId = avp_policyStoreID p, ia_AccessToken = pol_AccessToken request,
      ia_ActionType = ''Postern::Action'', ia_ActionId = actionID,
      ia_ResourceType = ''Postern::Device'', ia_ResourceId = dev_Serial (pol_Device request),
      ia_Context = contextMap request, ia_EntityType = ''Postern::Device'',
      ia_EntityId = dev_Serial (pol_Device request), ia_EntityAttributes = entities (pol_Device request)\<rparr>"

definition AVP_Allow :: "'w AVPPolicy \<Rightarrow> PolicyRequest \<Rightarrow> 'w \<Rightarrow> go_error option \<times> 'w" where
  "AVP_Allow p request e =
     (case policyAction (pol_Mode request) of
        None \<Rightarrow> (Some (BrokerError 501 ''policy mode is not implemented''), e)
      | Some actionID \<Rightarrow>
          (case avp_client p (authorizationInput p request actionID) e of
             (Inl err, e1) \<Rightarrow> (Some (Wrapped ''policy: '' err), e1)
           | (Inr decision, e1) \<Rightarrow>
               (if decision \<noteq> DecisionAllow then Some (BrokerError 403 ''authorization denied'') else None, e1)))"

section \<open>What Cedar sees\<close>

text \<open>The overlay never changes a name that is already there.\<close>

lemma overlayContext_keeps: "map_of as k = Some v \<Longrightarrow> map_of (overlayContext ctx as) k = Some v"
proof (induction ctx arbitrary: as)
  case (Cons x ctx)
  obtain key val where x: "x = (key, val)" by (cases x)
  have "map_of (AList.update (TrimSpace key) c as) k = Some v" if "map_of as (TrimSpace key) = None" for c
    using Cons.prems that by (auto simp: update_conv')
  with Cons x show ?case by (auto simp: Let_def split: option.split)
qed simp

text \<open>A context entry with a reserved name is lost, every other well-typed one arrives.\<close>

lemma overlayContext_adds:
  assumes "map_of as (TrimSpace k) = None" and "TrimSpace k \<noteq> []" and "map_of ctx k = Some v" and "cedarAttributeValue v = Some c"
    and "\<And>j. j \<in> fst ` set ctx \<Longrightarrow> TrimSpace j = TrimSpace k \<Longrightarrow> j = k"
  shows "map_of (overlayContext ctx as) (TrimSpace k) = Some c"
  using assms
proof (induction ctx as rule: overlayContext.induct)
  case (2 key val rest as)
  show ?case
  proof (cases "key = k")
    case True
    with 2 show ?thesis by (simp add: Let_def overlayContext_keeps update_conv')
  next
    case False
    then have ne: "TrimSpace key \<noteq> TrimSpace k" using "2.prems"(5) [of key] by auto
    have m: "map_of rest k = Some v" using False "2.prems"(3) by simp
    show ?thesis
      using 2 False ne m by (auto simp: Let_def update_conv' split: option.splits)
  qed
qed simp

lemma deviceAttributes_exact:
  assumes "\<forall>(k, v) \<in> set das. TrimSpace k = k \<and> k \<noteq> [] \<and> attribute_value v" and "distinct (map fst das)"
  shows "map_of (deviceAttributes das acc) k = (case map_of das k of Some v \<Rightarrow> cedarAttributeValue v | None \<Rightarrow> map_of acc k)"
  using assms
proof (induction das acc rule: deviceAttributes.induct)
  case (2 key val rest acc)
  have "\<exists>c. cedarAttributeValue val = Some c"
    using "2.prems"(1) by (auto simp: attribute_value_def cedarAttributeValue_def split: any.splits)
  then obtain c where c: "cedarAttributeValue val = Some c" by blast
  moreover have "TrimSpace key = key" "key \<noteq> []" using "2.prems" by auto
  moreover have "map_of rest key = None" using "2.prems"(2) by (simp add: map_of_eq_None_iff)
  ultimately show ?case using 2 by (auto simp: Let_def update_conv' split: option.split)
qed simp

lemma entities_canonical:
  "map_of (entities d) ''serial'' = Some (Cedar_String (dev_Serial d))"
  "dev_FriendlyID d \<noteq> [] \<Longrightarrow> map_of (entities d) ''friendly_id'' = Some (Cedar_String (dev_FriendlyID d))"
  by (simp_all add: entities_def update_conv' Let_def)

lemma entities_attribute:
  assumes "device_ok d" and "\<forall>(k, v) \<in> set (dev_Attributes d). TrimSpace k = k \<and> k \<noteq> []" and "k \<notin> {''serial'', ''friendly_id''}"
  shows "map_of (entities d) k = Option.bind (map_of (dev_Attributes d) k) cedarAttributeValue"
proof -
  have "\<forall>(k, v) \<in> set (dev_Attributes d). TrimSpace k = k \<and> k \<noteq> [] \<and> attribute_value v" "distinct (map fst (dev_Attributes d))"
    using assms(1,2) by (fastforce simp: device_ok_def attributes_ok_def)+
  from deviceAttributes_exact [OF this, of "[]" k]
  have "map_of (deviceAttributes (dev_Attributes d) []) k = Option.bind (map_of (dev_Attributes d) k) cedarAttributeValue"
    by (auto split: option.split)
  with assms(3) show ?thesis by (simp add: entities_def update_conv' Let_def)
qed

lemma contextMap_reserved: "map_of (reservedContext r) k = Some v \<Longrightarrow> map_of (contextMap r) k = Some v"
  by (simp add: contextMap_def overlayContext_keeps)

text \<open>
  C16: an allow is an allow of AWS Verified Permissions on exactly this request. If the policy lets a
  request pass, the mode is one of the three known ones and the service answered \<open>ALLOW\<close> for the
  action of that mode, the caller's token and the device serial as resource and entity. The entity's
  serial and friendly id are the resolved ones whatever names the registry put among the attributes,
  and the address, user agent, request id, class, time and client id in the context are the
  broker's own, whatever the endpoint adds.
\<close>

theorem policy_allow_faithful:
  assumes "AVP_Allow p r e = (None, e')"
  shows "\<exists>q. avp_client p q e = (Inr ''ALLOW'', e') \<and> ia_AccessToken q = pol_AccessToken r
    \<and> (pol_Mode r, ia_ActionId q) \<in> {(''operator'', ''MintOperatorCert''), (''timefix'', ''MintTimefixCert''), (''tunnel'', ''OpenTunnel'')}
    \<and> ia_ResourceId q = dev_Serial (pol_Device r) \<and> ia_EntityId q = dev_Serial (pol_Device r)
    \<and> map_of (ia_EntityAttributes q) ''serial'' = Some (Cedar_String (dev_Serial (pol_Device r)))
    \<and> (dev_FriendlyID (pol_Device r) \<noteq> [] \<longrightarrow>
         map_of (ia_EntityAttributes q) ''friendly_id'' = Some (Cedar_String (dev_FriendlyID (pol_Device r))))
    \<and> map_of (ia_Context q) ''source_ip'' = Some (Cedar_String (pol_SourceIP r))
    \<and> map_of (ia_Context q) ''user_agent'' = Some (Cedar_String (pol_UserAgent r))
    \<and> map_of (ia_Context q) ''request_id'' = Some (Cedar_String (pol_RequestID r))
    \<and> map_of (ia_Context q) ''principal_class'' = Some (Cedar_String (cl_Class (pol_Caller r)))
    \<and> (pol_Timestamp r \<noteq> zero_time \<longrightarrow> map_of (ia_Context q) ''timestamp'' = Some (Cedar_Datetime (FormatRFC3339 (pol_Timestamp r))))
    \<and> (cl_ClientID (pol_Caller r) \<noteq> [] \<longrightarrow> map_of (ia_Context q) ''client_id'' = Some (Cedar_String (cl_ClientID (pol_Caller r))))"
proof -
  from assms obtain action where a: "policyAction (pol_Mode r) = Some action"
    and c: "avp_client p (authorizationInput p r action) e = (Inr DecisionAllow, e')"
    by (auto simp: AVP_Allow_def split: option.splits prod.splits sum.splits if_splits)
  have "(pol_Mode r, action) \<in> {(''operator'', ''MintOperatorCert''), (''timefix'', ''MintTimefixCert''), (''tunnel'', ''OpenTunnel'')}"
    using a by (auto simp: policyAction_def mode_defs PolicyActionMintOperatorCert_def PolicyActionMintTimefixCert_def
        PolicyActionOpenTunnel_def split: if_splits)
  moreover have "map_of (contextMap r) ''source_ip'' = Some (Cedar_String (pol_SourceIP r))"
    "map_of (contextMap r) ''user_agent'' = Some (Cedar_String (pol_UserAgent r))"
    "map_of (contextMap r) ''request_id'' = Some (Cedar_String (pol_RequestID r))"
    "map_of (contextMap r) ''principal_class'' = Some (Cedar_String (cl_Class (pol_Caller r)))"
    "pol_Timestamp r \<noteq> zero_time \<Longrightarrow> map_of (contextMap r) ''timestamp'' = Some (Cedar_Datetime (FormatRFC3339 (pol_Timestamp r)))"
    "cl_ClientID (pol_Caller r) \<noteq> [] \<Longrightarrow> map_of (contextMap r) ''client_id'' = Some (Cedar_String (cl_ClientID (pol_Caller r)))"
    by (rule contextMap_reserved, simp add: reservedContext_def)+
  ultimately show ?thesis
    using c entities_canonical [of "pol_Device r"]
    by (intro exI [of _ "authorizationInput p r action"]) (auto simp: authorizationInput_def DecisionAllow_def)
qed

definition sample_policy :: "nat AVPPolicy" where
  "sample_policy = \<lparr>avp_client = (\<lambda>q e. (Inr (if ia_ActionId q = ''OpenTunnel'' then ''ALLOW'' else ''DENY''), e + 1)), avp_policyStoreID = ''ps''\<rparr>"

definition sample_policy_request :: PolicyRequest where
  "sample_policy_request = \<lparr>pol_AccessToken = ''tok'',
     pol_Caller = \<lparr>cl_Subject = ''u1'', cl_Email = [], cl_Groups = [], cl_Class = ''user'', cl_ClientID = [], cl_Raw = []\<rparr>,
     pol_Device = \<lparr>dev_Serial = ''S1'', dev_FriendlyID = [], dev_Attributes = [(''serial'', VString ''other'')]\<rparr>,
     pol_Mode = ''tunnel'', pol_SourceIP = ''10.0.0.1'', pol_UserAgent = [], pol_RequestID = ''id-1'', pol_Timestamp = 0,
     pol_Context = [(''source_ip'', VString ''127.0.0.1'')]\<rparr>"

theorem policy_allow_faithful_witness:
  "\<exists>q. avp_client sample_policy q 0 = (Inr ''ALLOW'', 1) \<and> map_of (ia_EntityAttributes q) ''serial'' = Some (Cedar_String ''S1'')
     \<and> map_of (ia_Context q) ''source_ip'' = Some (Cedar_String ''10.0.0.1'')"
proof -
  have "AVP_Allow sample_policy sample_policy_request 0 = (None, 1)"
    by (simp add: AVP_Allow_def sample_policy_def sample_policy_request_def policyAction_def mode_defs authorizationInput_def
        PolicyActionOpenTunnel_def DecisionAllow_def)
  from policy_allow_faithful [OF this] obtain q where
    "avp_client sample_policy q 0 = (Inr ''ALLOW'', 1)"
    "map_of (ia_EntityAttributes q) ''serial'' = Some (Cedar_String (dev_Serial (pol_Device sample_policy_request)))"
    "map_of (ia_Context q) ''source_ip'' = Some (Cedar_String (pol_SourceIP sample_policy_request))" by blast
  then show ?thesis by (auto simp: sample_policy_request_def)
qed

end
