(* ===== verification/Broker_Pipeline.thy ===== *)
theory Broker_Pipeline
  imports Broker_Types
begin

text \<open>
  The shared part of the issue pipelines (src/internal/broker/preamble.go, denial.go, id.go): the
  dependencies every issuer composes, the engineer and device preambles, and the audit helpers.

  The abstraction interfaces (\<open>TokenVerifier\<close>, \<open>Registry\<close>, \<open>Policy\<close>, \<open>RateLimiter\<close>, \<open>AuditSink\<close>,
  \<open>Clock\<close>, \<open>IDGenerator\<close>) are functions on an arbitrary environment state \<open>'w\<close>, so a dependency
  may answer differently on every call. A world pairs that state with the trace of the calls the
  pipeline made, in order, each with its outcome; log lines are not part of the model.

  The second half is an abstract specification: a monitor automaton over traces that says in which
  order the gates of a request may be passed, and a locale of facts about every operation whose
  runs the monitor accepts. The issuers of the following theories are interpreted in it.
\<close>

section \<open>Worlds\<close>

datatype effect =
    Called_Verify string bool
  | Called_RateLimit RateLimitRequest bool
  | Called_Resolve string bool
  | Called_Policy PolicyRequest bool
  | Audited AuditEvent bool
  | Signed_Cert Certificate bool
  | Signed_Payload string bool
  | Opened_Tunnel TunnelOpenInternal bool

record 'w world =
  wld_ext :: 'w
  wld_trace :: "effect list"

text \<open>A call of a dependency, with and without an entry in the trace.\<close>

definition traced :: "('w \<Rightarrow> 'r \<times> 'w) \<Rightarrow> ('r \<Rightarrow> effect) \<Rightarrow> 'w world \<Rightarrow> 'r \<times> 'w world" where
  "traced f mk w =
     (case f (wld_ext w) of (r, e) \<Rightarrow> (r, \<lparr>wld_ext = e, wld_trace = wld_trace w @ [mk r]\<rparr>))"

definition untraced :: "('w \<Rightarrow> 'r \<times> 'w) \<Rightarrow> 'w world \<Rightarrow> 'r \<times> 'w world" where
  "untraced f w = (case f (wld_ext w) of (r, e) \<Rightarrow> (r, \<lparr>wld_ext = e, wld_trace = wld_trace w\<rparr>))"

lemma traced_trace [audit_simps]: "traced f mk w = (r, w') \<Longrightarrow> wld_trace w' = wld_trace w @ [mk r]"
  by (auto simp: traced_def split: prod.splits)

lemma untraced_trace [audit_simps]: "untraced f w = (r, w') \<Longrightarrow> wld_trace w' = wld_trace w"
  by (auto simp: untraced_def split: prod.splits)

section \<open>Dependencies\<close>

record 'w PipelineDeps =
  pd_TokenVerifier :: "string \<Rightarrow> 'w \<Rightarrow> CallerClaims result \<times> 'w"
  pd_Registry :: "string \<Rightarrow> 'w \<Rightarrow> DeviceRecord result \<times> 'w"
  pd_Policy :: "PolicyRequest \<Rightarrow> 'w \<Rightarrow> go_error option \<times> 'w"
  pd_RateLimiter :: "RateLimitRequest \<Rightarrow> 'w \<Rightarrow> go_error option \<times> 'w"
  pd_Audit :: "AuditEvent \<Rightarrow> 'w \<Rightarrow> go_error option \<times> 'w"
  pd_Clock :: "'w \<Rightarrow> time \<times> 'w"
  pd_IDs :: "time \<Rightarrow> 'w \<Rightarrow> ID result \<times> 'w"

text \<open>What a caller hands to a constructor: an interface value may be nil.\<close>

record 'w PipelineArgs =
  pa_TokenVerifier :: "(string \<Rightarrow> 'w \<Rightarrow> CallerClaims result \<times> 'w) option"
  pa_Registry :: "(string \<Rightarrow> 'w \<Rightarrow> DeviceRecord result \<times> 'w) option"
  pa_Policy :: "(PolicyRequest \<Rightarrow> 'w \<Rightarrow> go_error option \<times> 'w) option"
  pa_RateLimiter :: "(RateLimitRequest \<Rightarrow> 'w \<Rightarrow> go_error option \<times> 'w) option"
  pa_Audit :: "(AuditEvent \<Rightarrow> 'w \<Rightarrow> go_error option \<times> 'w) option"
  pa_Clock :: "('w \<Rightarrow> time \<times> 'w) option"
  pa_IDs :: "(time \<Rightarrow> 'w \<Rightarrow> ID result \<times> 'w) option"

definition ErrTokenVerifierRequired :: go_error where
  "ErrTokenVerifierRequired = Plain ''token verifier is required''"
definition ErrRegistryRequired :: go_error where
  "ErrRegistryRequired = Plain ''registry is required''"
definition ErrPolicyRequired :: go_error where
  "ErrPolicyRequired = Plain ''policy is required''"
definition ErrRateLimiterRequired :: go_error where
  "ErrRateLimiterRequired = Plain ''rate limiter is required''"
definition ErrSignerRequired :: go_error where
  "ErrSignerRequired = Plain ''signer is required''"
definition ErrAuditRequired :: go_error where
  "ErrAuditRequired = Plain ''audit sink is required''"
definition ErrTunnelingRequired :: go_error where
  "ErrTunnelingRequired = Plain ''tunneling backend is required''"

definition required :: "'a option \<Rightarrow> go_error \<Rightarrow> go_error option" where
  "required x e = (if x = None then Some e else None)"

definition validate :: "'w PipelineArgs \<Rightarrow> go_error option" where
  "validate d = errors_Join
     [required (pa_TokenVerifier d) ErrTokenVerifierRequired,
      required (pa_Registry d) ErrRegistryRequired,
      required (pa_Policy d) ErrPolicyRequired,
      required (pa_RateLimiter d) ErrRateLimiterRequired,
      required (pa_Audit d) ErrAuditRequired]"

text \<open>
  \<open>UUIDv7Generator.NewID\<close>: \<open>uuid_NewV7\<close> is google/uuid, \<open>readFull\<close> reads eight bytes from
  \<open>crypto/rand\<close> (or the injected reader).
\<close>

definition BigEndian_Uint64 :: "8 word list \<Rightarrow> 64 word" where
  "BigEndian_Uint64 bs = word_of_nat (foldl (\<lambda>a b. a * 256 + unat b) 0 bs)"

definition UUIDv7Generator_NewID ::
  "('w \<Rightarrow> string result \<times> 'w) \<Rightarrow> ('w \<Rightarrow> 8 word list result \<times> 'w) \<Rightarrow> time \<Rightarrow> 'w \<Rightarrow> ID result \<times> 'w" where
  "UUIDv7Generator_NewID uuid_NewV7 readFull now e =
     (case uuid_NewV7 e of
        (Inl err, e1) \<Rightarrow> (Inl err, e1)
      | (Inr v7, e1) \<Rightarrow>
          (case readFull e1 of
             (Inl err, e2) \<Rightarrow> (Inl err, e2)
           | (Inr serial, e2) \<Rightarrow> (Inr \<lparr>id_UUID = v7, id_Serial = BigEndian_Uint64 serial\<rparr>, e2)))"

text \<open>
  \<open>withDefaults\<close>: \<open>SystemClock\<close> and the UUIDv7 generator replace a nil clock and ID source. The
  result is \<open>None\<close> when a required dependency is nil, the case \<open>validate\<close> rejects.
\<close>

definition withDefaults ::
  "('w \<Rightarrow> time \<times> 'w) \<Rightarrow> (time \<Rightarrow> 'w \<Rightarrow> ID result \<times> 'w) \<Rightarrow> 'w PipelineArgs \<Rightarrow> 'w PipelineDeps option" where
  "withDefaults SystemClock UUIDv7 d = do {
     tv \<leftarrow> pa_TokenVerifier d;
     rg \<leftarrow> pa_Registry d;
     po \<leftarrow> pa_Policy d;
     rl \<leftarrow> pa_RateLimiter d;
     au \<leftarrow> pa_Audit d;
     Some \<lparr>pd_TokenVerifier = tv, pd_Registry = rg, pd_Policy = po, pd_RateLimiter = rl, pd_Audit = au,
       pd_Clock = (case pa_Clock d of Some c \<Rightarrow> c | None \<Rightarrow> SystemClock),
       pd_IDs = (case pa_IDs d of Some g \<Rightarrow> g | None \<Rightarrow> UUIDv7)\<rparr>
   }"

lemma withDefaults_validate: "withDefaults ck ids d \<noteq> None \<longleftrightarrow> validate d = None"
  by (auto simp: withDefaults_def validate_def errors_Join_None required_def split: bind_splits)

section \<open>Preambles\<close>

record engineerPreambleRequest =
  ep_AccessToken :: string
  ep_Mode :: string
  ep_SourceIP :: string
  ep_UserAgent :: string

record engineerContext =
  ec_Caller :: CallerClaims
  ec_Now :: time
  ec_ID :: ID
  ec_JTI :: string
  ec_SourceIP :: string
  ec_UserAgent :: string

record devicePreambleRequest =
  dp_Caller :: CallerClaims
  dp_AccessToken :: string
  dp_DeviceID :: string
  dp_Mode :: string
  dp_SourceIP :: string
  dp_UserAgent :: string
  dp_JTI :: string
  dp_Now :: time
  dp_PolicyContext :: "(string \<times> any) list"

record preambleDenial =
  pn_DeniedReason :: string
  pn_Event :: AuditEvent
  pn_Err :: go_error

text \<open>The result of a preamble: the Go triple \<open>(context, *preambleDenial, error)\<close> has at most one
  of its parts set.\<close>

datatype 'a preamble = Failed go_error | Denied preambleDenial | Passed 'a

definition stamp_caller :: "CallerClaims \<Rightarrow> AuditEvent \<Rightarrow> AuditEvent" where
  "stamp_caller c ev = ev\<lparr>ev_EngineerSub := cl_Subject c, ev_EngineerEmail := cl_Email c,
     ev_EngineerGroups := cl_Groups c, ev_PrincipalClass := cl_Class c, ev_ClientID := cl_ClientID c\<rparr>"

definition request_event :: "time \<Rightarrow> string \<Rightarrow> string \<Rightarrow> string \<Rightarrow> AuditEvent" where
  "request_event now jti ip ua = empty_event
     \<lparr>ev_Timestamp := now, ev_JTI := jti, ev_SourceIP := ip, ev_UserAgent := ua\<rparr>"

definition Record :: "'w PipelineDeps \<Rightarrow> AuditEvent \<Rightarrow> 'w world \<Rightarrow> go_error option \<times> 'w world" where
  "Record d ev w = traced (pd_Audit d ev) (\<lambda>r. Audited ev (r = None)) w"

text \<open>The zero value of \<open>DeviceRecord\<close>: at the rate limit the device is not known yet.\<close>

definition zero_device :: DeviceRecord where
  "zero_device = \<lparr>dev_Serial = [], dev_FriendlyID = [], dev_Attributes = []\<rparr>"

definition verifyEngineer ::
  "'w PipelineDeps \<Rightarrow> engineerPreambleRequest \<Rightarrow> 'w world \<Rightarrow> engineerContext preamble \<times> 'w world" where
  "verifyEngineer d r w0 =
     (case untraced (pd_Clock d) w0 of (now, w1) \<Rightarrow>
      case untraced (pd_IDs d now) w1 of
        (Inl err, w2) \<Rightarrow> (Failed err, w2)
      | (Inr i, w2) \<Rightarrow>
          let template = request_event now (id_UUID i) (ep_SourceIP r) (ep_UserAgent r) in
          (case traced (pd_TokenVerifier d (ep_AccessToken r))
                  (\<lambda>x. Called_Verify (ep_AccessToken r) (\<not> isl x)) w2 of
             (Inl err, w3) \<Rightarrow>
               (Denied \<lparr>pn_DeniedReason = DenyReasonInvalidAccessToken, pn_Event = template,
                  pn_Err = BrokerError 401 ''invalid access token''\<rparr>, w3)
           | (Inr caller, w3) \<Rightarrow>
               let template = stamp_caller caller template;
                   rl = \<lparr>rl_Caller = caller, rl_Device = zero_device, rl_Mode = ep_Mode r, rl_SourceIP = ep_SourceIP r,
                         rl_UserAgent = ep_UserAgent r, rl_RequestID = id_UUID i\<rparr> in
               (case traced (pd_RateLimiter d rl) (\<lambda>x. Called_RateLimit rl (x = None)) w3 of
                  (Some err, w4) \<Rightarrow>
                    (Denied \<lparr>pn_DeniedReason = DenyReasonRateLimitExceeded, pn_Event = template,
                       pn_Err = err\<rparr>, w4)
                | (None, w4) \<Rightarrow>
                    (Passed \<lparr>ec_Caller = caller, ec_Now = now, ec_ID = i, ec_JTI = id_UUID i,
                       ec_SourceIP = ep_SourceIP r, ec_UserAgent = ep_UserAgent r\<rparr>, w4))))"

definition registryDenyReason :: "go_error \<Rightarrow> string" where
  "registryDenyReason err =
     (case as_broker_error err of
        Some (code, _) \<Rightarrow> if code = 404 then DenyReasonDeviceNotFound else DenyReasonRegistryUnavailable
      | None \<Rightarrow> DenyReasonRegistryUnavailable)"

definition policyDenyReason :: "go_error \<Rightarrow> string" where
  "policyDenyReason err =
     (case as_broker_error err of
        Some (code, _) \<Rightarrow> if code = 403 then DenyReasonAuthorizationDenied else DenyReasonPolicyUnavailable
      | None \<Rightarrow> DenyReasonPolicyUnavailable)"

definition resolveDevice ::
  "'w PipelineDeps \<Rightarrow> devicePreambleRequest \<Rightarrow> 'w world \<Rightarrow> DeviceRecord preamble \<times> 'w world" where
  "resolveDevice d r w0 =
     (let template = stamp_caller (dp_Caller r)
            (request_event (dp_Now r) (dp_JTI r) (dp_SourceIP r) (dp_UserAgent r)) in
      if TrimSpace (dp_DeviceID r) = [] then
        (Denied \<lparr>pn_DeniedReason = DenyReasonMissingDeviceID, pn_Event = template,
           pn_Err = BrokerError 400 ''device_id is required''\<rparr>, w0)
      else
        (case traced (pd_Registry d (dp_DeviceID r)) (\<lambda>x. Called_Resolve (dp_DeviceID r) (\<not> isl x)) w0 of
           (Inl err, w1) \<Rightarrow>
             (Denied \<lparr>pn_DeniedReason = registryDenyReason err, pn_Event = template, pn_Err = err\<rparr>, w1)
         | (Inr device, w1) \<Rightarrow>
             if dev_Serial device = [] then
               (Denied \<lparr>pn_DeniedReason = DenyReasonRegistryUnavailable, pn_Event = template,
                  pn_Err = BrokerError 500 ''registry returned empty device serial''\<rparr>, w1)
             else
               let template = template\<lparr>ev_DeviceSerial := dev_Serial device\<rparr>;
                   pr = \<lparr>pol_AccessToken = dp_AccessToken r, pol_Caller = dp_Caller r,
                         pol_Device = device, pol_Mode = dp_Mode r, pol_SourceIP = dp_SourceIP r,
                         pol_UserAgent = dp_UserAgent r, pol_RequestID = dp_JTI r,
                         pol_Timestamp = dp_Now r, pol_Context = dp_PolicyContext r\<rparr> in
               (case traced (pd_Policy d pr) (\<lambda>x. Called_Policy pr (x = None)) w1 of
                  (Some err, w2) \<Rightarrow>
                    (Denied \<lparr>pn_DeniedReason = policyDenyReason err, pn_Event = template,
                       pn_Err = err\<rparr>, w2)
                | (None, w2) \<Rightarrow> (Passed device, w2))))"

section \<open>Audit helpers\<close>

definition denialTemplate :: "engineerContext \<Rightarrow> AuditEvent" where
  "denialTemplate ctx = stamp_caller (ec_Caller ctx)
     (request_event (ec_Now ctx) (ec_JTI ctx) (ec_SourceIP ctx) (ec_UserAgent ctx))"

definition recordAuthorized :: "'w PipelineDeps \<Rightarrow> AuditEvent \<Rightarrow> 'w world \<Rightarrow> go_error option \<times> 'w world" where
  "recordAuthorized d ev w = Record d ev w"

text \<open>A failed denial row is only logged: the world after the call is all that is left.\<close>

definition recordEndpointDenial :: "'w PipelineDeps \<Rightarrow> AuditEvent \<Rightarrow> 'w world \<Rightarrow> 'w world" where
  "recordEndpointDenial d ev w = snd (Record d ev w)"

definition recordEndpointHandlerDenial ::
  "'w PipelineDeps \<Rightarrow> HandlerDenial \<Rightarrow> string \<Rightarrow> string \<Rightarrow> 'w world \<Rightarrow> 'w world" where
  "recordEndpointHandlerDenial d denial eventName principalType w0 =
     (case untraced (pd_Clock d) w0 of (now, w1) \<Rightarrow>
      case untraced (pd_IDs d now) w1 of (r, w2) \<Rightarrow>
        let jti = (case r of Inr i \<Rightarrow> id_UUID i | Inl _ \<Rightarrow> []);
            ev = (request_event now jti (hd_SourceIP denial) (hd_UserAgent denial))
                   \<lparr>ev_Event := eventName, ev_DeniedReason := hd_DeniedReason denial,
                    ev_PrincipalType := principalType, ev_DeviceIDUsed := hd_DeviceID denial\<rparr>
        in snd (Record d ev w2))"

lemma Record_trace: "wld_trace (snd (Record d ev w)) = wld_trace w @ [Audited ev (fst (Record d ev w) = None)]"
  by (auto simp: Record_def traced_def split: prod.splits)

lemma recordEndpointDenial_trace:
  "\<exists>b. wld_trace (recordEndpointDenial d ev w) = wld_trace w @ [Audited ev b]"
  by (auto simp: recordEndpointDenial_def Record_trace)

lemma Record_eq: "Record d ev w = (r, w') \<Longrightarrow> wld_trace w' = wld_trace w @ [Audited ev (r = None)]"
  unfolding Record_def by (rule traced_trace)

section \<open>The audit protocol as a monitor\<close>

text \<open>
  Every endpoint emits an authorized, issued or denied row; the names of the three events are
  the parameters of the monitor. Its states are the stages of a request: \<open>G_Denying\<close> is a gate that
  said no, whose denial row is still owed, \<open>G_Authorized\<close> a recorded authorization, \<open>G_Acted\<close> the
  signature or the tunnel, \<open>G_Issued\<close> and \<open>G_Refused\<close> the two ends.
\<close>

record event_names =
  en_authorized :: string
  en_issued :: string
  en_denied :: string

datatype gate =
    G_Start
  | G_Verified
  | G_Rated
  | G_Resolved
  | G_Permitted PolicyRequest
  | G_Authorized PolicyRequest AuditEvent
  | G_Acted PolicyRequest AuditEvent effect
  | G_Denying
  | G_Issued
  | G_Refused

definition deny_row :: "event_names \<Rightarrow> string \<Rightarrow> AuditEvent \<Rightarrow> bool" where
  "deny_row n j ev \<longleftrightarrow> ev_Event ev = en_denied n \<and> ev_JTI ev = j \<and> ev_DeniedReason ev \<noteq> []"

text \<open>An authorization row names the caller, the device and the request that policy allowed.\<close>

definition auth_row :: "event_names \<Rightarrow> string \<Rightarrow> PolicyRequest \<Rightarrow> AuditEvent \<Rightarrow> bool" where
  "auth_row n j p ev \<longleftrightarrow>
     ev_Event ev = en_authorized n \<and> ev_JTI ev = j \<and> pol_RequestID p = j
     \<and> ev_EngineerSub ev = cl_Subject (pol_Caller p)
     \<and> ev_DeviceSerial ev = dev_Serial (pol_Device p) \<and> ev_DeviceSerial ev \<noteq> []
     \<and> ev_Timestamp ev = pol_Timestamp p"

fun is_action :: "effect \<Rightarrow> bool" where
  "is_action (Signed_Cert c b) = True"
| "is_action (Signed_Payload s b) = True"
| "is_action (Opened_Tunnel t b) = True"
| "is_action _ = False"

fun action_ok :: "effect \<Rightarrow> bool" where
  "action_ok (Signed_Cert c b) = b"
| "action_ok (Signed_Payload s b) = b"
| "action_ok (Opened_Tunnel t b) = b"
| "action_ok _ = False"

fun gate_call :: "gate \<Rightarrow> effect \<Rightarrow> gate option" where
  "gate_call G_Start (Called_Verify t ok) = Some (if ok then G_Verified else G_Denying)"
| "gate_call G_Verified (Called_RateLimit r ok) = Some (if ok then G_Rated else G_Denying)"
| "gate_call G_Rated (Called_Resolve i ok) = Some (if ok then G_Resolved else G_Denying)"
| "gate_call G_Resolved (Called_Policy p ok) = Some (if ok then G_Permitted p else G_Denying)"
| "gate_call (G_Authorized p ev) e = (if is_action e then Some (G_Acted p ev e) else None)"
| "gate_call _ _ = None"

definition gate_row :: "event_names \<Rightarrow> string \<Rightarrow> gate \<Rightarrow> AuditEvent \<Rightarrow> bool \<Rightarrow> gate option" where
  "gate_row n j g ev ok =
     (case g of
        G_Permitted p \<Rightarrow>
          if deny_row n j ev then Some G_Refused
          else if auth_row n j p ev then Some (if ok then G_Authorized p ev else G_Refused)
          else None
      | G_Authorized p a \<Rightarrow> if deny_row n j ev then Some G_Refused else None
      | G_Acted p a e \<Rightarrow>
          if deny_row n j ev then Some G_Refused
          else if action_ok e \<and> ev = a\<lparr>ev_Event := en_issued n\<rparr> then Some G_Issued
          else None
      | G_Rated \<Rightarrow> if deny_row n j ev then Some G_Refused else None
      | G_Resolved \<Rightarrow> if deny_row n j ev then Some G_Refused else None
      | G_Denying \<Rightarrow> if deny_row n j ev then Some G_Refused else None
      | _ \<Rightarrow> None)"

definition gate_next :: "event_names \<Rightarrow> string \<Rightarrow> gate \<Rightarrow> effect \<Rightarrow> gate option" where
  "gate_next n j g e = (case e of Audited ev ok \<Rightarrow> gate_row n j g ev ok | _ \<Rightarrow> gate_call g e)"

fun gate_run :: "event_names \<Rightarrow> string \<Rightarrow> gate \<Rightarrow> effect list \<Rightarrow> gate option" where
  "gate_run n j g [] = Some g"
| "gate_run n j g (e # es) = Option.bind (gate_next n j g e) (\<lambda>g'. gate_run n j g' es)"

lemma gate_run_append:
  "gate_run n j g (xs @ ys) = Option.bind (gate_run n j g xs) (\<lambda>g'. gate_run n j g' ys)"
  by (induction xs arbitrary: g) (auto split: bind_splits)

subsection \<open>What the stages of the monitor record\<close>

definition quiet :: "effect \<Rightarrow> bool" where
  "quiet e \<longleftrightarrow> \<not> is_action e \<and> (case e of Audited _ _ \<Rightarrow> False | _ \<Rightarrow> True)"

text \<open>The four gates, all passed, in their order.\<close>

definition passed_gates :: "PolicyRequest \<Rightarrow> effect list \<Rightarrow> bool" where
  "passed_gates p xs \<longleftrightarrow>
     (\<exists>t rl i. xs = [Called_Verify t True, Called_RateLimit rl True, Called_Resolve i True, Called_Policy p True])"

definition refused_shape :: "event_names \<Rightarrow> string \<Rightarrow> effect list \<Rightarrow> bool" where
  "refused_shape n j xs \<longleftrightarrow>
     (\<exists>ys ev b. xs = ys @ [Audited ev b] \<and> list_all quiet ys \<and> deny_row n j ev)
   \<or> (\<exists>p ys ev. xs = ys @ [Audited ev False] \<and> passed_gates p ys \<and> auth_row n j p ev)
   \<or> (\<exists>p ys ev ev' b. xs = ys @ [Audited ev True, Audited ev' b] \<and> passed_gates p ys
        \<and> auth_row n j p ev \<and> deny_row n j ev')
   \<or> (\<exists>p ys ev a ev' b. xs = ys @ [Audited ev True, a, Audited ev' b] \<and> passed_gates p ys
        \<and> auth_row n j p ev \<and> is_action a \<and> deny_row n j ev')"

fun gate_shape :: "event_names \<Rightarrow> string \<Rightarrow> gate \<Rightarrow> effect list \<Rightarrow> bool" where
  "gate_shape n j G_Start xs = (xs = [])"
| "gate_shape n j G_Verified xs = (\<exists>t. xs = [Called_Verify t True])"
| "gate_shape n j G_Rated xs = (\<exists>t rl. xs = [Called_Verify t True, Called_RateLimit rl True])"
| "gate_shape n j G_Resolved xs =
     (\<exists>t rl i. xs = [Called_Verify t True, Called_RateLimit rl True, Called_Resolve i True])"
| "gate_shape n j (G_Permitted p) xs = passed_gates p xs"
| "gate_shape n j (G_Authorized p ev) xs =
     (\<exists>ys. xs = ys @ [Audited ev True] \<and> passed_gates p ys \<and> auth_row n j p ev)"
| "gate_shape n j (G_Acted p ev a) xs =
     (\<exists>ys. xs = ys @ [Audited ev True, a] \<and> passed_gates p ys \<and> auth_row n j p ev \<and> is_action a)"
| "gate_shape n j G_Denying xs = list_all quiet xs"
| "gate_shape n j G_Issued xs =
     (\<exists>p ys ev a b. xs = ys @ [Audited ev True, a, Audited (ev\<lparr>ev_Event := en_issued n\<rparr>) b]
        \<and> passed_gates p ys \<and> auth_row n j p ev \<and> is_action a \<and> action_ok a)"
| "gate_shape n j G_Refused xs = refused_shape n j xs"

lemma passed_gates_quiet: "passed_gates p xs \<Longrightarrow> list_all quiet xs"
  by (auto simp: passed_gates_def quiet_def)

lemma gate_call_shape:
  assumes "gate_shape n j g xs" and "gate_call g e = Some g'"
  shows "gate_shape n j g' (xs @ [e])"
  using assms
  by (induction g e rule: gate_call.induct)
    (auto simp: quiet_def passed_gates_def split: if_splits)

lemma gate_row_shape:
  assumes "gate_shape n j g xs" and "gate_row n j g ev b = Some g'"
  shows "gate_shape n j g' (xs @ [Audited ev b])"
proof (cases g)
  case G_Rated
  with assms have "g' = G_Refused" "list_all quiet xs" "deny_row n j ev"
    by (auto simp: gate_row_def quiet_def split: if_splits)
  then show ?thesis by (auto simp: refused_shape_def)
next
  case G_Resolved
  with assms have "g' = G_Refused" "list_all quiet xs" "deny_row n j ev"
    by (auto simp: gate_row_def quiet_def split: if_splits)
  then show ?thesis by (auto simp: refused_shape_def)
next
  case G_Denying
  with assms have "g' = G_Refused" "list_all quiet xs" "deny_row n j ev"
    by (auto simp: gate_row_def split: if_splits)
  then show ?thesis by (auto simp: refused_shape_def)
next
  case (G_Permitted p)
  with assms have p: "passed_gates p xs"
    and "deny_row n j ev \<and> g' = G_Refused \<or> auth_row n j p ev \<and> g' = (if b then G_Authorized p ev else G_Refused)"
    by (auto simp: gate_row_def split: if_splits)
  with passed_gates_quiet [OF p] show ?thesis
    by (auto simp: refused_shape_def)
next
  case (G_Authorized p a)
  with assms have "g' = G_Refused" "deny_row n j ev" by (auto simp: gate_row_def split: if_splits)
  with assms(1) G_Authorized show ?thesis by (auto simp: refused_shape_def)
next
  case (G_Acted p a e)
  with assms have "deny_row n j ev \<and> g' = G_Refused
      \<or> action_ok e \<and> ev = a\<lparr>ev_Event := en_issued n\<rparr> \<and> g' = G_Issued"
    by (auto simp: gate_row_def split: if_splits)
  with assms(1) G_Acted show ?thesis by (auto simp: refused_shape_def)
qed (use assms in \<open>auto simp: gate_row_def\<close>)

lemma gate_next_shape:
  "gate_shape n j g xs \<Longrightarrow> gate_next n j g e = Some g' \<Longrightarrow> gate_shape n j g' (xs @ [e])"
  by (cases e) (auto simp: gate_next_def intro: gate_call_shape gate_row_shape)

lemma gate_run_shape_from:
  "gate_shape n j g ys \<Longrightarrow> gate_run n j g xs = Some g' \<Longrightarrow> gate_shape n j g' (ys @ xs)"
proof (induction xs arbitrary: g ys)
  case (Cons e es)
  from Cons.prems(2) obtain h where h: "gate_next n j g e = Some h" "gate_run n j h es = Some g'"
    by (auto split: bind_splits)
  from gate_next_shape [OF Cons.prems(1) h(1)] h(2)
  have "gate_shape n j g' ((ys @ [e]) @ es)" by (rule Cons.IH)
  then show ?case by simp
qed simp

lemma gate_run_shape: "gate_run n j G_Start xs = Some g \<Longrightarrow> gate_shape n j g xs"
  using gate_run_shape_from [of n j G_Start "[]" xs g] by simp

lemma gate_next_action:
  "is_action a \<Longrightarrow> gate_next n j g a = Some g' \<Longrightarrow> \<exists>p ev. g = G_Authorized p ev"
  by (cases a; cases g) (auto simp: gate_next_def)

lemma gate_action_authorized:
  assumes "gate_run n j G_Start (xs @ a # ys) = Some g" and "is_action a"
  shows "\<exists>p ev zs. xs = zs @ [Audited ev True] \<and> passed_gates p zs \<and> auth_row n j p ev"
proof -
  from assms(1) obtain g1 g2 where "gate_run n j G_Start xs = Some g1" "gate_next n j g1 a = Some g2"
    by (auto simp: gate_run_append split: bind_splits)
  with gate_next_action [OF assms(2), of n j g1 g2] gate_run_shape [of n j xs g1] show ?thesis
    by fastforce
qed

section \<open>The preambles follow the protocol\<close>

lemma reason_nonempty [simp]:
  "registryDenyReason err \<noteq> []" "policyDenyReason err \<noteq> []"
  by (auto simp: registryDenyReason_def policyDenyReason_def DenyReasonDeviceNotFound_def
      DenyReasonRegistryUnavailable_def DenyReasonAuthorizationDenied_def
      DenyReasonPolicyUnavailable_def split: option.splits)

lemma template_sel [simp]:
  "ev_JTI (request_event now j ip ua) = j" "ev_JTI (stamp_caller c ev) = ev_JTI ev"
  "ev_Timestamp (request_event now j ip ua) = now" "ev_Timestamp (stamp_caller c ev) = ev_Timestamp ev"
  "ev_DeviceSerial (stamp_caller c ev) = ev_DeviceSerial ev"
  "ev_EngineerSub (stamp_caller c ev) = cl_Subject c"
  "ev_JTI (denialTemplate ctx) = ec_JTI ctx"
  by (simp_all add: request_event_def stamp_caller_def denialTemplate_def)

lemma verifyEngineer_Failed:
  "verifyEngineer d r w = (Failed err, w') \<Longrightarrow> wld_trace w' = wld_trace w"
  by (auto simp: verifyEngineer_def Let_def untraced_def split: prod.splits sum.splits option.splits)

lemma verifyEngineer_Denied:
  assumes "verifyEngineer d r w = (Denied dn, w')"
  shows "\<exists>es. wld_trace w' = wld_trace w @ es
    \<and> gate_run n (ev_JTI (pn_Event dn)) G_Start es = Some G_Denying \<and> pn_DeniedReason dn \<noteq> []"
  using assms
  by (auto simp: verifyEngineer_def Let_def untraced_def traced_def gate_next_def
      DenyReasonInvalidAccessToken_def DenyReasonRateLimitExceeded_def
      split: prod.splits sum.splits option.splits)

lemma verifyEngineer_Passed:
  assumes "verifyEngineer d r w = (Passed ctx, w')"
  shows "\<exists>rl. wld_trace w' = wld_trace w @ [Called_Verify (ep_AccessToken r) True, Called_RateLimit rl True]
      \<and> rl_Caller rl = ec_Caller ctx \<and> rl_Mode rl = ep_Mode r \<and> rl_RequestID rl = ec_JTI ctx
    \<and> ec_JTI ctx = id_UUID (ec_ID ctx) \<and> ec_SourceIP ctx = ep_SourceIP r \<and> ec_UserAgent ctx = ep_UserAgent r"
  using assms
  by (auto simp: verifyEngineer_def Let_def untraced_def traced_def
      split: prod.splits sum.splits option.splits)

text \<open>The request id that the preamble draws first, if there is one.\<close>

definition request_id :: "'w PipelineDeps \<Rightarrow> 'w world \<Rightarrow> string option" where
  "request_id d w =
     (case pd_Clock d (wld_ext w) of (now, e) \<Rightarrow> case fst (pd_IDs d now e) of Inl err \<Rightarrow> None | Inr i \<Rightarrow> Some (id_UUID i))"

lemma verifyEngineer_id:
  "verifyEngineer d r w = (Failed err, w') \<Longrightarrow> request_id d w = None"
  "verifyEngineer d r w = (Denied dn, w') \<Longrightarrow> request_id d w = Some (ev_JTI (pn_Event dn))"
  "verifyEngineer d r w = (Passed ec, w') \<Longrightarrow> request_id d w = Some (ec_JTI ec)"
  by (auto simp: verifyEngineer_def request_id_def request_event_def stamp_caller_def Let_def untraced_def traced_def
      split: prod.splits sum.splits option.splits)

lemma verifyEngineer_quiet:
  assumes "verifyEngineer d r w = (res, w')"
  shows "\<exists>es. wld_trace w' = wld_trace w @ es \<and> list_all quiet es"
  using assms
  by (auto simp: verifyEngineer_def Let_def untraced_def traced_def quiet_def
      split: prod.splits sum.splits option.splits)

lemma resolveDevice_quiet:
  assumes "resolveDevice d r w = (res, w')"
  shows "\<exists>es. wld_trace w' = wld_trace w @ es \<and> list_all quiet es"
  using assms
  by (auto simp: resolveDevice_def Let_def traced_def quiet_def
      split: prod.splits sum.splits option.splits if_splits)

lemma resolveDevice_not_Failed: "resolveDevice d r w \<noteq> (Failed err, w')"
  by (auto simp: resolveDevice_def Let_def traced_def split: prod.splits sum.splits option.splits if_splits)

text \<open>The stages in which a denial row may follow.\<close>

definition deniable :: "gate \<Rightarrow> bool" where
  "deniable g \<longleftrightarrow> g \<in> {G_Rated, G_Resolved, G_Denying} \<or> (\<exists>p. g = G_Permitted p) \<or> (\<exists>p a. g = G_Authorized p a)
     \<or> (\<exists>p a e. g = G_Acted p a e)"

lemma deniable_simps [simp]:
  "deniable G_Rated" "deniable G_Resolved" "deniable G_Denying" "deniable (G_Permitted p)"
  "deniable (G_Authorized p a)" "deniable (G_Acted p a e)"
  by (simp_all add: deniable_def)

lemma deny_row_update [simp]:
  "deny_row n j (ev\<lparr>ev_Event := e, ev_DeniedReason := r\<rparr>) \<longleftrightarrow> e = en_denied n \<and> ev_JTI ev = j \<and> r \<noteq> []"
  by (simp add: deny_row_def)

lemma gate_row_deny:
  "deniable g \<Longrightarrow> deny_row n j ev \<Longrightarrow> gate_next n j g (Audited ev b) = Some G_Refused"
  by (auto simp: deniable_def gate_next_def gate_row_def)

lemma resolveDevice_Denied:
  assumes "resolveDevice d r w = (Denied dn, w')"
  shows "\<exists>es g. wld_trace w' = wld_trace w @ es \<and> gate_run n j G_Rated es = Some g \<and> deniable g
    \<and> ev_JTI (pn_Event dn) = dp_JTI r \<and> pn_DeniedReason dn \<noteq> []"
  using assms
  by (auto simp: resolveDevice_def Let_def traced_def gate_next_def deniable_def
      DenyReasonMissingDeviceID_def DenyReasonRegistryUnavailable_def
      split: prod.splits sum.splits option.splits if_splits)

lemma resolveDevice_Passed:
  assumes "resolveDevice d r w = (Passed device, w')"
  shows "\<exists>p. wld_trace w' = wld_trace w @ [Called_Resolve (dp_DeviceID r) True, Called_Policy p True]
    \<and> pol_Device p = device \<and> pol_Caller p = dp_Caller r \<and> pol_RequestID p = dp_JTI r
    \<and> pol_Timestamp p = dp_Now r \<and> pol_Mode p = dp_Mode r \<and> pol_Context p = dp_PolicyContext r
    \<and> dev_Serial device \<noteq> []"
  using assms
  by (auto simp: resolveDevice_def Let_def traced_def
      split: prod.splits sum.splits option.splits if_splits)

lemma gate_run_gates:
  "gate_run n j G_Start [Called_Verify t True, Called_RateLimit rl True] = Some G_Rated"
  "gate_run n j G_Rated [Called_Resolve i True, Called_Policy p True] = Some (G_Permitted p)"
  by (simp_all add: gate_next_def)

lemma gate_row_auth:
  "auth_row n j p ev \<Longrightarrow> en_authorized n \<noteq> en_denied n \<Longrightarrow>
     gate_next n j (G_Permitted p) (Audited ev b) = Some (if b then G_Authorized p ev else G_Refused)"
  by (auto simp: gate_next_def gate_row_def deny_row_def auth_row_def)

lemma gate_act: "is_action a \<Longrightarrow> gate_next n j (G_Authorized p ev) a = Some (G_Acted p ev a)"
  by (cases a) (simp_all add: gate_next_def)

lemma gate_row_issued:
  "action_ok a \<Longrightarrow> en_issued n \<noteq> en_denied n \<Longrightarrow>
     gate_next n j (G_Acted p ev a) (Audited (ev\<lparr>ev_Event := en_issued n\<rparr>) b) = Some G_Issued"
  by (simp add: gate_next_def gate_row_def deny_row_def)

text \<open>
  \<open>at_gate n j g w w'\<close>: since \<open>w\<close>, the run has added effects that take the monitor from its start
  to the stage \<open>g\<close>. The rules below move it along the operations of a pipeline.
\<close>

definition at_gate :: "event_names \<Rightarrow> string \<Rightarrow> gate \<Rightarrow> 'w world \<Rightarrow> 'w world \<Rightarrow> bool" where
  "at_gate n j g w w' \<longleftrightarrow> (\<exists>es. wld_trace w' = wld_trace w @ es \<and> gate_run n j G_Start es = Some g)"

lemma at_gate_step:
  "at_gate n j g w w1 \<Longrightarrow> wld_trace w2 = wld_trace w1 @ es \<Longrightarrow> gate_run n j g es = Some g' \<Longrightarrow> at_gate n j g' w w2"
  by (auto simp: at_gate_def gate_run_append)

lemma at_gate_verify_Denied:
  "verifyEngineer d r w = (Denied dn, w') \<Longrightarrow> at_gate n (ev_JTI (pn_Event dn)) G_Denying w w' \<and> pn_DeniedReason dn \<noteq> []"
  using verifyEngineer_Denied [of d r w dn w' n] by (auto simp: at_gate_def)

lemma at_gate_verify_Passed:
  "verifyEngineer d r w = (Passed ec, w') \<Longrightarrow> at_gate n (ec_JTI ec) G_Rated w w'"
  using verifyEngineer_Passed [of d r w ec w'] gate_run_gates(1) [of n] unfolding at_gate_def by blast

lemma at_gate_device_Denied:
  assumes "at_gate n j G_Rated w w1" and "resolveDevice d r w1 = (Denied dn, w2)" and "dp_JTI r = j"
  shows "\<exists>g. deniable g \<and> at_gate n j g w w2 \<and> ev_JTI (pn_Event dn) = j \<and> pn_DeniedReason dn \<noteq> []"
  using resolveDevice_Denied [OF assms(2), of n j] at_gate_step [OF assms(1)] assms(3) by metis

definition permits :: "PolicyRequest \<Rightarrow> engineerContext \<Rightarrow> DeviceRecord \<Rightarrow> bool" where
  "permits p ec device \<longleftrightarrow> pol_Device p = device \<and> pol_Caller p = ec_Caller ec \<and> pol_RequestID p = ec_JTI ec
     \<and> pol_Timestamp p = ec_Now ec \<and> dev_Serial device \<noteq> []"

lemma at_gate_device_Passed:
  assumes "at_gate n (ec_JTI ec) G_Rated w w1" and "resolveDevice d r w1 = (Passed device, w2)"
    and "dp_JTI r = ec_JTI ec" "dp_Caller r = ec_Caller ec" "dp_Now r = ec_Now ec"
  shows "\<exists>p. at_gate n (ec_JTI ec) (G_Permitted p) w w2 \<and> permits p ec device
    \<and> pol_Mode p = dp_Mode r \<and> pol_Context p = dp_PolicyContext r"
proof -
  from resolveDevice_Passed [OF assms(2)] obtain p
    where p: "wld_trace w2 = wld_trace w1 @ [Called_Resolve (dp_DeviceID r) True, Called_Policy p True]"
      "permits p ec device" "pol_Mode p = dp_Mode r" "pol_Context p = dp_PolicyContext r"
    using assms(3-5) by (auto simp: permits_def)
  from at_gate_step [OF assms(1) p(1) gate_run_gates(2)] p(2-) show ?thesis by blast
qed

lemma at_gate_device [consumes 2, case_names caller jti now denied passed]:
  assumes "at_gate n (ec_JTI ec) G_Rated w w1" and "resolveDevice d r w1 = (dres, w2)"
    and "dp_Caller r = ec_Caller ec" and "dp_JTI r = ec_JTI ec" and "dp_Now r = ec_Now ec"
    and "\<And>dn g. dres = Denied dn \<Longrightarrow> deniable g \<Longrightarrow> at_gate n (ec_JTI ec) g w w2
      \<Longrightarrow> ev_JTI (pn_Event dn) = ec_JTI ec \<Longrightarrow> pn_DeniedReason dn \<noteq> [] \<Longrightarrow> thesis"
    and "\<And>device p. dres = Passed device \<Longrightarrow> at_gate n (ec_JTI ec) (G_Permitted p) w w2
      \<Longrightarrow> permits p ec device \<Longrightarrow> thesis"
  shows thesis
proof (cases dres)
  case (Failed e)
  with assms(2) resolveDevice_not_Failed show ?thesis by metis
next
  case (Denied dn)
  with at_gate_device_Denied [OF assms(1), of d r dn w2] assms(2,4,6) show ?thesis by auto
next
  case (Passed device)
  with at_gate_device_Passed [OF assms(1), of d r device w2] assms(2-5,7) show ?thesis by auto
qed

lemma at_gate_deny:
  assumes "at_gate n j g w w1" and "deniable g" and "deny_row n j ev"
  shows "at_gate n j G_Refused w (recordEndpointDenial d ev w1)"
proof -
  obtain b where "wld_trace (recordEndpointDenial d ev w1) = wld_trace w1 @ [Audited ev b]"
    using recordEndpointDenial_trace by blast
  from at_gate_step [OF assms(1) this] gate_row_deny [OF assms(2,3)] show ?thesis by simp
qed

lemma at_gate_authorize:
  assumes "at_gate n j (G_Permitted p) w w1" and "recordAuthorized d ev w1 = (r, w2)"
    and "auth_row n j p ev" and "en_authorized n \<noteq> en_denied n"
  shows "at_gate n j (if r = None then G_Authorized p ev else G_Refused) w w2"
  using at_gate_step [OF assms(1) Record_eq [OF assms(2) [unfolded recordAuthorized_def]]]
    gate_row_auth [OF assms(3,4)] by simp

lemma at_gate_act:
  assumes "at_gate n j (G_Authorized p ev) w w1" and "traced f mk w1 = (r, w2)" and "is_action (mk r)"
  shows "at_gate n j (G_Acted p ev (mk r)) w w2"
  using at_gate_step [OF assms(1) traced_trace [OF assms(2)]] gate_act [OF assms(3)] by simp

lemma at_gate_issue:
  assumes "at_gate n j (G_Acted p ev a) w w1" and "action_ok a" and "en_issued n \<noteq> en_denied n"
  shows "at_gate n j G_Issued w (snd (Record d (ev\<lparr>ev_Event := en_issued n\<rparr>) w1))"
  using at_gate_step [OF assms(1) Record_trace [of d _ w1]] gate_row_issued [OF assms(2,3)] by simp

section \<open>Operations that follow the protocol\<close>

fun audit_rows :: "effect list \<Rightarrow> (AuditEvent \<times> bool) list" where
  "audit_rows [] = []"
| "audit_rows (Audited ev b # es) = (ev, b) # audit_rows es"
| "audit_rows (e # es) = audit_rows es"

lemma audit_rows_append [simp]: "audit_rows (xs @ ys) = audit_rows xs @ audit_rows ys"
  by (induction xs rule: audit_rows.induct) auto

lemma audit_rows_quiet: "list_all quiet xs \<Longrightarrow> audit_rows xs = []"
  by (induction xs rule: audit_rows.induct) (auto simp: quiet_def)

lemma audit_rows_action [simp]: "is_action a \<Longrightarrow> audit_rows (a # es) = audit_rows es"
  by (cases a) auto

text \<open>
  \<open>effects w w'\<close> is what an operation that started in \<open>w\<close> and ended in \<open>w'\<close> added to the trace.
\<close>

definition effects :: "'w world \<Rightarrow> 'w world \<Rightarrow> effect list" where
  "effects w w' = drop (length (wld_trace w)) (wld_trace w')"

lemma effects_append: "wld_trace w' = wld_trace w @ es \<Longrightarrow> effects w w' = es"
  by (simp add: effects_def)

text \<open>
  The contract of an endpoint: a request adds to the trace either nothing and fails (no request id
  could be generated), or a sequence the monitor accepts, which ends in \<open>G_Issued\<close> exactly when the
  operation returns a response.
\<close>

locale issue_pipeline =
  fixes run :: "'req \<Rightarrow> 'w world \<Rightarrow> 'resp result \<times> 'w world"
    and names :: event_names
    and drawn_id :: "'w world \<Rightarrow> string option"
  assumes run_protocol: "run req w = (res, w') \<Longrightarrow>
      (case drawn_id w of None \<Rightarrow> wld_trace w' = wld_trace w \<and> isl res
       | Some j \<Rightarrow> at_gate names j (if isl res then G_Refused else G_Issued) w w')"
    and names_distinct: "en_authorized names \<noteq> en_issued names" "en_authorized names \<noteq> en_denied names"
      "en_issued names \<noteq> en_denied names"
begin

lemma run_effects:
  assumes "run req w = (res, w')"
  shows "wld_trace w' = wld_trace w @ effects w w'"
    and "effects w w' = [] \<and> isl res
      \<or> (\<exists>j. gate_run names j G_Start (effects w w') = Some (if isl res then G_Refused else G_Issued))"
    and "drawn_id w = None \<Longrightarrow> effects w w' = [] \<and> isl res"
    and "drawn_id w = Some j \<Longrightarrow> gate_run names j G_Start (effects w w') = Some (if isl res then G_Refused else G_Issued)"
  using run_protocol [OF assms] by (auto simp: effects_def at_gate_def split: option.splits)

text \<open>With a request id, there is a row, and every row carries the id.\<close>

lemma rows_of_request:
  assumes "run req w = (res, w')" and "drawn_id w = Some j"
  shows "audit_rows (effects w w') \<noteq> []" and "r \<in> set (audit_rows (effects w w')) \<Longrightarrow> ev_JTI (fst r) = j"
  using gate_run_shape [OF run_effects(4) [OF assms]]
  by (auto simp: refused_shape_def audit_rows_quiet passed_gates_quiet auth_row_def deny_row_def split: if_splits)

lemma act_authorized:
  assumes "run req w = (res, w')" and "effects w w' = xs @ a # ys" and "is_action a"
  shows "\<exists>j p ev zs. xs = zs @ [Audited ev True] \<and> passed_gates p zs \<and> auth_row names j p ev"
proof -
  from run_effects(2) [OF assms(1)] assms(2) obtain j g
    where "gate_run names j G_Start (xs @ a # ys) = Some g" by auto
  from gate_action_authorized [OF this assms(3)] show ?thesis by blast
qed

lemma success_rows:
  assumes "run req w = (Inr resp, w')"
  shows "\<exists>p ys ev a b. effects w w' = ys @ [Audited ev True, a, Audited (ev\<lparr>ev_Event := en_issued names\<rparr>) b]
    \<and> passed_gates p ys \<and> auth_row names (ev_JTI ev) p ev \<and> is_action a \<and> action_ok a"
proof -
  from run_effects(2) [OF assms] obtain j where "gate_run names j G_Start (effects w w') = Some G_Issued"
    by auto
  from gate_run_shape [OF this] show ?thesis by (auto simp: auth_row_def)
qed

lemma success_audit_rows:
  assumes "run req w = (Inr resp, w')"
  shows "\<exists>ev b. audit_rows (effects w w') = [(ev, True), (ev\<lparr>ev_Event := en_issued names\<rparr>, b)]
    \<and> ev_Event ev = en_authorized names"
proof -
  from success_rows [OF assms] obtain p ys ev a b where
    "effects w w' = ys @ [Audited ev True, a, Audited (ev\<lparr>ev_Event := en_issued names\<rparr>) b]"
    "passed_gates p ys" "auth_row names (ev_JTI ev) p ev" "is_action a" by auto
  then show ?thesis by (auto simp: audit_rows_quiet passed_gates_quiet auth_row_def)
qed

lemma failure_rows:
  assumes "run req w = (Inl err, w')"
  shows "effects w w' = [] \<or> (\<exists>j. refused_shape names j (effects w w'))"
  using run_effects(2) [OF assms] by (auto dest!: gate_run_shape)

lemma failure_audit_rows:
  assumes "run req w = (Inl err, w')"
  shows "effects w w' = []
    \<or> (\<exists>ev b. audit_rows (effects w w') = [(ev, b)] \<and> ev_Event ev = en_denied names \<and> ev_DeniedReason ev \<noteq> [])
    \<or> (\<exists>ev. audit_rows (effects w w') = [(ev, False)] \<and> ev_Event ev = en_authorized names)
    \<or> (\<exists>ev ev' b. audit_rows (effects w w') = [(ev, True), (ev', b)] \<and> ev_Event ev = en_authorized names
         \<and> ev_Event ev' = en_denied names \<and> ev_JTI ev' = ev_JTI ev \<and> ev_DeniedReason ev' \<noteq> [])"
  using failure_rows [OF assms]
  by (elim disjE exE)
    (auto simp: refused_shape_def audit_rows_quiet passed_gates_quiet auth_row_def deny_row_def)

end

section \<open>A concrete environment\<close>

text \<open>
  Dependencies to run the pipelines on: one caller, one device, a policy that allows everything
  and an audit sink that accepts every row. The state counts the rows.
\<close>

definition sample_caller :: CallerClaims where
  "sample_caller = \<lparr>cl_Subject = ''u1'', cl_Email = ''e@x'', cl_Groups = [''eng''], cl_Class = ''human'',
     cl_ClientID = ''cli'', cl_Raw = []\<rparr>"

definition sample_device :: DeviceRecord where
  "sample_device = \<lparr>dev_Serial = ''S1'', dev_FriendlyID = ''lab'', dev_Attributes = []\<rparr>"

definition sample_deps :: "nat PipelineDeps" where
  "sample_deps =
     \<lparr>pd_TokenVerifier = (\<lambda>t e. (if t = ''tok'' then Inr sample_caller else Inl (Plain ''bad token''), e)),
      pd_Registry = (\<lambda>i e. (if i = ''lab'' then Inr sample_device else Inl (BrokerError 404 ''device not found''), e)),
      pd_Policy = (\<lambda>p e. (None, e)), pd_RateLimiter = (\<lambda>r e. (None, e)),
      pd_Audit = (\<lambda>ev e. (None, e + 1)), pd_Clock = (\<lambda>e. (1768478400000000000, e)),
      pd_IDs = (\<lambda>now e. (Inr \<lparr>id_UUID = ''id-1'', id_Serial = 7\<rparr>, e))\<rparr>"

definition sample_world :: "nat world" where
  "sample_world = \<lparr>wld_ext = 0, wld_trace = []\<rparr>"

end
