(* ===== verification/SSH_Cert.thy ===== *)
theory SSH_Cert
  imports Broker_Pipeline
begin

text \<open>
  The certificate pipeline (src/internal/broker/sshcert.go): the constructor, the validity ceiling
  of a principal class, \<open>IssueSSHCert\<close> with all its branches, and the two certificate shapes.
  golang.org/x/crypto/ssh is the parameter \<open>ssh_lib\<close>, the signing backend the record \<open>CertSigner\<close>.
  The pipeline is an instance of the audit protocol of \<open>Broker_Pipeline\<close>.
\<close>

section \<open>Definitions\<close>

record ssh_lib =
  ssh_ParseAuthorizedKey :: "string \<Rightarrow> PublicKey option"
  ssh_MarshalAuthorizedKey :: "Certificate \<Rightarrow> string"
  ssh_FingerprintSHA256 :: "string \<Rightarrow> string"

text \<open>\<open>SignCert\<close> fills the signature of the certificate it is given, or fails.\<close>

record 'w CertSigner =
  cs_PublicKey :: string
  cs_SignCert :: "Certificate \<Rightarrow> 'w \<Rightarrow> Certificate result \<times> 'w"
  cs_SignTimePayload :: "string \<Rightarrow> 'w \<Rightarrow> string result \<times> 'w"

definition OperatorClockSkewPadding :: duration where
  "OperatorClockSkewPadding = Hour"

definition DefaultOperatorCertTTL :: duration where
  "DefaultOperatorCertTTL = 12 * Hour"

definition timefixForceCommandPath :: string where
  "timefixForceCommandPath = ''/usr/sbin/timefix-apply''"

definition timefixCertValidAfter :: time where
  "timefixCertValidAfter = new_year 1970"

definition timefixCertValidBefore :: time where
  "timefixCertValidBefore = new_year 3000"

record 'w SSHCertIssuer =
  si_deps :: "'w PipelineDeps"
  si_signer :: "'w CertSigner"
  si_operatorTTL :: duration
  si_operatorTTLByClass :: "(string \<times> duration) list"

definition NewSSHCertIssuer ::
  "('w \<Rightarrow> time \<times> 'w) \<Rightarrow> (time \<Rightarrow> 'w \<Rightarrow> ID result \<times> 'w) \<Rightarrow> 'w PipelineArgs \<Rightarrow> 'w CertSigner option
   \<Rightarrow> duration \<Rightarrow> (string \<times> duration) list \<Rightarrow> 'w SSHCertIssuer result" where
  "NewSSHCertIssuer SystemClock UUIDv7 args signer operatorTTL operatorTTLByClass =
     (case (withDefaults SystemClock UUIDv7 args, signer) of
        (Some pipeline, Some sg) \<Rightarrow>
          Inr \<lparr>si_deps = pipeline, si_signer = sg,
            si_operatorTTL = (if operatorTTL \<le> 0 then DefaultOperatorCertTTL else operatorTTL),
            si_operatorTTLByClass = filter (\<lambda>(class, classTTL). 0 < classTTL) operatorTTLByClass\<rparr>
      | _ \<Rightarrow> Inl (Joined (List.map_filter (\<lambda>e. e) [validate args, required signer ErrSignerRequired])))"

definition operatorCeiling :: "'w SSHCertIssuer \<Rightarrow> string \<Rightarrow> duration" where
  "operatorCeiling i class =
     (case map_of (si_operatorTTLByClass i) class of Some ttl \<Rightarrow> ttl | None \<Rightarrow> si_operatorTTL i)"

text \<open>
  The clamp of the requested lifetime. \<open>time.Duration(minutes) * time.Minute\<close> is a 64-bit product:
  it wraps for more than 153,722,867 minutes, well within the \<open>int32\<close> the request carries.
\<close>

definition resolveOperatorTTL :: "'w SSHCertIssuer \<Rightarrow> string \<Rightarrow> int \<Rightarrow> duration" where
  "resolveOperatorTTL i class minutes =
     (let ceiling = operatorCeiling i class; requested = int64 (minutes * Minute)
      in if 0 < requested \<and> requested < ceiling then requested else ceiling)"

text \<open>Integer division of Go: the quotient is cut towards zero.\<close>

definition go_quot :: "int \<Rightarrow> int \<Rightarrow> int" where
  "go_quot a b = sgn a * sgn b * (\<bar>a\<bar> div \<bar>b\<bar>)"

definition operatorPrincipal :: "string \<Rightarrow> string" where
  "operatorPrincipal serial = ''device-'' @ serial @ ''-operator''"

definition timefixPrincipal :: "string \<Rightarrow> string" where
  "timefixPrincipal serial = ''device-'' @ serial @ ''-timefix''"

text \<open>\<open>url.PathEscape\<close>: all bytes but letters, digits and \<open>- _ . ~ $ & + = : @\<close> become \<open>%XX\<close>.\<close>

definition unreserved :: "char \<Rightarrow> bool" where
  "unreserved c \<longleftrightarrow>
     (let n = (of_char c :: nat) in
        65 \<le> n \<and> n \<le> 90 \<or> 97 \<le> n \<and> n \<le> 122 \<or> 48 \<le> n \<and> n \<le> 57)
     \<or> c \<in> set ''-_.~$&+=:@''"

definition hex_digit :: "nat \<Rightarrow> char" where
  "hex_digit n = (if n < 10 then char_of (48 + n) else char_of (55 + n))"

definition escape_char :: "char \<Rightarrow> string" where
  "escape_char c =
     (if unreserved c then [c]
      else [CHR ''%'', hex_digit (of_char c div 16), hex_digit (of_char c mod 16)])"

definition PathEscape :: "string \<Rightarrow> string" where
  "PathEscape s = concat (map escape_char s)"

definition keyID :: "CallerClaims \<Rightarrow> string \<Rightarrow> string" where
  "keyID engineer jti =
     ''engineer_sub:'' @ PathEscape (cl_Subject engineer) @
     '';engineer_email:'' @ PathEscape (cl_Email engineer) @
     '';jti:'' @ jti"

definition buildOperatorCert ::
  "engineerContext \<Rightarrow> DeviceRecord \<Rightarrow> PublicKey \<Rightarrow> time \<Rightarrow> time \<Rightarrow> Certificate" where
  "buildOperatorCert ec device publicKey validAfter validBefore =
     \<lparr>crt_Key = publicKey, crt_Serial = id_Serial (ec_ID ec), crt_CertType = UserCert, crt_KeyId = keyID (ec_Caller ec) (ec_JTI ec),
      crt_ValidPrincipals = [operatorPrincipal (dev_Serial device)],
      crt_ValidAfter = word_of_int (Unix validAfter), crt_ValidBefore = word_of_int (Unix validBefore),
      crt_CriticalOptions = [],
      crt_Extensions =
        [(''permit-X11-forwarding'', ''''), (''permit-agent-forwarding'', ''''),
         (''permit-port-forwarding'', ''''), (''permit-pty'', ''''), (''permit-user-rc'', '''')],
      crt_Signature = []\<rparr>"

definition buildTimefixCert :: "engineerContext \<Rightarrow> DeviceRecord \<Rightarrow> PublicKey \<Rightarrow> Certificate" where
  "buildTimefixCert ec device publicKey =
     \<lparr>crt_Key = publicKey, crt_Serial = id_Serial (ec_ID ec), crt_CertType = UserCert, crt_KeyId = keyID (ec_Caller ec) (ec_JTI ec),
      crt_ValidPrincipals = [timefixPrincipal (dev_Serial device)],
      crt_ValidAfter = word_of_int (Unix timefixCertValidAfter),
      crt_ValidBefore = word_of_int (Unix timefixCertValidBefore),
      crt_CriticalOptions = [(''force-command'', timefixForceCommandPath)],
      crt_Extensions = [],
      crt_Signature = []\<rparr>"

definition recordCertDenial ::
  "'w PipelineDeps \<Rightarrow> AuditEvent \<Rightarrow> string \<Rightarrow> SSHCertIssueRequest \<Rightarrow> 'w world \<Rightarrow> 'w world" where
  "recordCertDenial d ev deniedReason request w =
     recordEndpointDenial d (ev\<lparr>ev_Event := EventCertDenied, ev_DeniedReason := deniedReason,
       ev_DeviceIDUsed := scr_DeviceID request, ev_PrincipalType := scr_PrincipalType request\<rparr>) w"

definition recordCertDenialWithDevice ::
  "'w PipelineDeps \<Rightarrow> engineerContext \<Rightarrow> DeviceRecord \<Rightarrow> string \<Rightarrow> SSHCertIssueRequest \<Rightarrow> 'w world \<Rightarrow> 'w world" where
  "recordCertDenialWithDevice d ec device deniedReason request w =
     recordCertDenial d ((denialTemplate ec)\<lparr>ev_DeviceSerial := dev_Serial device\<rparr>) deniedReason request w"

definition RecordSSHCertHandlerDenial :: "'w SSHCertIssuer \<Rightarrow> HandlerDenial \<Rightarrow> 'w world \<Rightarrow> 'w world" where
  "RecordSSHCertHandlerDenial i denial w =
     recordEndpointHandlerDenial (si_deps i) denial EventCertDenied [] w"

definition certAuthorizedEvent ::
  "engineerContext \<Rightarrow> DeviceRecord \<Rightarrow> SSHCertIssueRequest \<Rightarrow> string \<Rightarrow> time \<Rightarrow> time \<Rightarrow> AuditEvent" where
  "certAuthorizedEvent ec device request mode validAfter validBefore =
     (stamp_caller (ec_Caller ec) empty_event)
       \<lparr>ev_Timestamp := ec_Now ec, ev_Event := EventCertAuthorized,
        ev_DeviceSerial := dev_Serial device, ev_DeviceIDUsed := scr_DeviceID request,
        ev_PrincipalType := mode, ev_CertSerial := nat_str (unat (id_Serial (ec_ID ec))),
        ev_JTI := ec_JTI ec, ev_ValidAfter := Unix validAfter, ev_ValidBefore := Unix validBefore,
        ev_IssuedAt := Unix (ec_Now ec), ev_SourceIP := ec_SourceIP ec, ev_UserAgent := ec_UserAgent ec\<rparr>"

text \<open>The tail of \<open>IssueSSHCert\<close>, after the device preamble: key checks, audit, signature.\<close>

definition finishSSHCert ::
  "ssh_lib \<Rightarrow> 'w SSHCertIssuer \<Rightarrow> SSHCertIssueRequest \<Rightarrow> engineerContext \<Rightarrow> DeviceRecord \<Rightarrow> string \<Rightarrow> duration
   \<Rightarrow> 'w world \<Rightarrow> SSHCertIssueResponse result \<times> 'w world" where
  "finishSSHCert lib i request ec device mode operatorTTL w2 =
     (let d = si_deps i in
      if TrimSpace (scr_PublicKey request) = [] then
        (Inl (BrokerError 400 ''public_key is required''),
         recordCertDenialWithDevice d ec device DenyReasonMissingPublicKey request w2)
      else (case ssh_ParseAuthorizedKey lib (scr_PublicKey request) of
        None \<Rightarrow>
          (Inl (BrokerError 400 ''public_key must be an authorized_keys public key''),
           recordCertDenialWithDevice d ec device DenyReasonInvalidPublicKey request w2)
      | Some (CertKey _) \<Rightarrow>
          (Inl (BrokerError 400 ''public_key must be a bare public key, not an SSH certificate''),
           recordCertDenialWithDevice d ec device DenyReasonInvalidPublicKey request w2)
      | Some (BareKey k) \<Rightarrow>
          let validAfter = (if mode = ModeOperator then ec_Now ec - OperatorClockSkewPadding
                            else timefixCertValidAfter);
              validBefore = (if mode = ModeOperator then ec_Now ec + operatorTTL
                             else timefixCertValidBefore);
              cert = (if mode = ModeOperator
                      then buildOperatorCert ec device (BareKey k) validAfter validBefore
                      else buildTimefixCert ec device (BareKey k));
              authorized = certAuthorizedEvent ec device request mode validAfter validBefore
          in (case recordAuthorized d authorized w2 of
                (Some err, w3) \<Rightarrow> (Inl (Wrapped ''record SSH cert audit event: '' err), w3)
              | (None, w3) \<Rightarrow>
                  (case traced (cs_SignCert (si_signer i) cert) (\<lambda>x. Signed_Cert cert (\<not> isl x)) w3 of
                     (Inl err, w4) \<Rightarrow>
                       (Inl (Wrapped ''sign SSH cert: '' err),
                        recordEndpointDenial d (authorized\<lparr>ev_Event := EventCertDenied,
                          ev_DeniedReason := DenyReasonSignerFailure\<rparr>) w4)
                   | (Inr cert', w4) \<Rightarrow>
                       (Inr \<lparr>scp_SSHCert = TrimSpace (ssh_MarshalAuthorizedKey lib cert'),
                             scp_CAPubkeyFingerprint = ssh_FingerprintSHA256 lib (cs_PublicKey (si_signer i))\<rparr>,
                        snd (Record d (authorized\<lparr>ev_Event := EventCertIssued\<rparr>) w4))))))"

text \<open>The device preamble and what follows it.\<close>

definition deviceSSHCert ::
  "ssh_lib \<Rightarrow> 'w SSHCertIssuer \<Rightarrow> SSHCertIssueRequest \<Rightarrow> engineerContext \<Rightarrow> string \<Rightarrow> duration
   \<Rightarrow> (string \<times> any) list \<Rightarrow> 'w world \<Rightarrow> SSHCertIssueResponse result \<times> 'w world" where
  "deviceSSHCert lib i request ec mode operatorTTL policyContext w1 =
     (case resolveDevice (si_deps i)
             \<lparr>dp_Caller = ec_Caller ec, dp_AccessToken = scr_AccessToken request,
              dp_DeviceID = scr_DeviceID request, dp_Mode = mode,
              dp_SourceIP = ec_SourceIP ec, dp_UserAgent = ec_UserAgent ec,
              dp_JTI = ec_JTI ec, dp_Now = ec_Now ec, dp_PolicyContext = policyContext\<rparr> w1 of
        (Failed err, w2) \<Rightarrow> (Inl err, w2)
      | (Denied dn, w2) \<Rightarrow>
          (Inl (pn_Err dn), recordCertDenial (si_deps i) (pn_Event dn) (pn_DeniedReason dn) request w2)
      | (Passed device, w2) \<Rightarrow> finishSSHCert lib i request ec device mode operatorTTL w2)"

definition principalMode :: "string \<Rightarrow> string option" where
  "principalMode t =
     (if t = PrincipalTypeOperator then Some ModeOperator
      else if t = PrincipalTypeTimefix then Some ModeTimefix else None)"

definition IssueSSHCert ::
  "ssh_lib \<Rightarrow> 'w SSHCertIssuer \<Rightarrow> SSHCertIssueRequest \<Rightarrow> 'w world \<Rightarrow> SSHCertIssueResponse result \<times> 'w world" where
  "IssueSSHCert lib i request w0 =
     (let d = si_deps i in
      case verifyEngineer d \<lparr>ep_AccessToken = scr_AccessToken request, ep_Mode = ModeOperator,
             ep_SourceIP = scr_RemoteAddr request, ep_UserAgent = scr_UserAgent request\<rparr> w0 of
        (Failed err, w1) \<Rightarrow> (Inl (Wrapped ''generate cert id: '' err), w1)
      | (Denied dn, w1) \<Rightarrow>
          (Inl (pn_Err dn), recordCertDenial d (pn_Event dn) (pn_DeniedReason dn) request w1)
      | (Passed ec, w1) \<Rightarrow>
          (case principalMode (scr_PrincipalType request) of
             None \<Rightarrow>
               (Inl (BrokerError 400 (''principal_type must be '' @ quoted PrincipalTypeOperator
                  @ '' or '' @ quoted PrincipalTypeTimefix)),
                recordCertDenial d (denialTemplate ec) DenyReasonInvalidPrincipalType request w1)
           | Some mode \<Rightarrow>
               if mode = ModeOperator \<and> scr_MaxLifetimeMinutes request < 0 then
                 (Inl (BrokerError 400 ''max_lifetime_minutes must be non-negative''),
                  recordCertDenial d (denialTemplate ec) DenyReasonMaxLifetimeExceedsCeiling request w1)
               else
                 let operatorTTL = (if mode = ModeOperator
                       then resolveOperatorTTL i (cl_Class (ec_Caller ec)) (scr_MaxLifetimeMinutes request)
                       else 0);
                     policyContext = (if mode = ModeOperator
                       then [(''requested_cert_ttl_minutes'', VInt64 (go_quot operatorTTL Minute))]
                       else [])
                 in deviceSSHCert lib i request ec mode operatorTTL policyContext w1))"

section \<open>The pipeline follows the audit protocol\<close>

definition cert_names :: event_names where
  "cert_names = \<lparr>en_authorized = EventCertAuthorized, en_issued = EventCertIssued, en_denied = EventCertDenied\<rparr>"

lemma cert_names_sel [simp]:
  "en_authorized cert_names = EventCertAuthorized" "en_issued cert_names = EventCertIssued"
  "en_denied cert_names = EventCertDenied"
  by (simp_all add: cert_names_def)

lemma cert_events_distinct [simp]:
  "EventCertAuthorized \<noteq> EventCertIssued" "EventCertAuthorized \<noteq> EventCertDenied"
  "EventCertIssued \<noteq> EventCertDenied" "EventCertDenied \<noteq> EventCertAuthorized"
  by (simp_all add: event_defs)

lemma at_gate_recordCertDenial:
  assumes "at_gate cert_names j g w w1" and "deniable g" and "ev_JTI ev = j" and "reason \<noteq> []"
  shows "at_gate cert_names j G_Refused w (recordCertDenial d ev reason request w1)"
  unfolding recordCertDenial_def
  by (rule at_gate_deny [OF assms(1,2)]) (use assms in \<open>simp add: deny_row_def\<close>)

lemma at_gate_recordCertDenialWithDevice:
  assumes "at_gate cert_names (ec_JTI ec) g w w1" and "deniable g" and "reason \<noteq> []"
  shows "at_gate cert_names (ec_JTI ec) G_Refused w (recordCertDenialWithDevice d ec device reason request w1)"
  unfolding recordCertDenialWithDevice_def
  by (rule at_gate_recordCertDenial [OF assms(1,2) _ assms(3)]) simp

lemma certAuthorizedEvent_row:
  "permits p ec device \<Longrightarrow> auth_row cert_names (ec_JTI ec) p (certAuthorizedEvent ec device request mode va vb)"
  by (simp add: auth_row_def certAuthorizedEvent_def stamp_caller_def permits_def)

lemma certAuthorizedEvent_JTI [simp]: "ev_JTI (certAuthorizedEvent ec device request mode va vb) = ec_JTI ec"
  by (simp add: certAuthorizedEvent_def)

lemma cert_reasons_nonempty [simp]:
  "DenyReasonMissingPublicKey \<noteq> []" "DenyReasonInvalidPublicKey \<noteq> []" "DenyReasonSignerFailure \<noteq> []"
  "DenyReasonInvalidPrincipalType \<noteq> []" "DenyReasonMaxLifetimeExceedsCeiling \<noteq> []"
  by (simp_all add: DenyReasonMissingPublicKey_def DenyReasonInvalidPublicKey_def
      DenyReasonSignerFailure_def DenyReasonInvalidPrincipalType_def DenyReasonMaxLifetimeExceedsCeiling_def)

lemma signCert_protocol:
  assumes "at_gate cert_names (ec_JTI ec) (G_Permitted p) w w2" and "permits p ec device"
    and "recordAuthorized d (certAuthorizedEvent ec device request mode va vb) w2 = (None, w3)"
    and "traced f (\<lambda>x. Signed_Cert cert (\<not> isl x)) w3 = (r, w4)"
  shows "isl r \<Longrightarrow> at_gate cert_names (ec_JTI ec) G_Refused w
      (recordEndpointDenial d' ((certAuthorizedEvent ec device request mode va vb)
        \<lparr>ev_Event := EventCertDenied, ev_DeniedReason := DenyReasonSignerFailure\<rparr>) w4)"
    and "\<not> isl r \<Longrightarrow> at_gate cert_names (ec_JTI ec) G_Issued w
      (snd (Record d' ((certAuthorizedEvent ec device request mode va vb)\<lparr>ev_Event := EventCertIssued\<rparr>) w4))"
proof -
  from at_gate_authorize [OF assms(1,3) certAuthorizedEvent_row [OF assms(2)]]
  have "at_gate cert_names (ec_JTI ec) (G_Authorized p (certAuthorizedEvent ec device request mode va vb)) w w3"
    by simp
  from at_gate_act [OF this assms(4)]
  have acted: "at_gate cert_names (ec_JTI ec)
      (G_Acted p (certAuthorizedEvent ec device request mode va vb) (Signed_Cert cert (\<not> isl r))) w w4" by simp
  show "at_gate cert_names (ec_JTI ec) G_Refused w
      (recordEndpointDenial d' ((certAuthorizedEvent ec device request mode va vb)
        \<lparr>ev_Event := EventCertDenied, ev_DeniedReason := DenyReasonSignerFailure\<rparr>) w4)"
    by (rule at_gate_deny [OF acted]) simp_all
  show "at_gate cert_names (ec_JTI ec) G_Issued w
      (snd (Record d' ((certAuthorizedEvent ec device request mode va vb)\<lparr>ev_Event := EventCertIssued\<rparr>) w4))"
    if "\<not> isl r"
    using at_gate_issue [OF acted, of d'] that by simp
qed

lemma authorize_fail_protocol:
  assumes "at_gate cert_names (ec_JTI ec) (G_Permitted p) w w2" and "permits p ec device"
    and "recordAuthorized d (certAuthorizedEvent ec device request mode va vb) w2 = (Some e, w3)"
  shows "at_gate cert_names (ec_JTI ec) G_Refused w w3"
  using at_gate_authorize [OF assms(1,3) certAuthorizedEvent_row [OF assms(2)]] by simp

lemma finishSSHCert_protocol:
  assumes "finishSSHCert lib i request ec device mode ttl w2 = (res, w')"
    and "at_gate cert_names (ec_JTI ec) (G_Permitted p) w w2" and "permits p ec device"
  shows "at_gate cert_names (ec_JTI ec) (if isl res then G_Refused else G_Issued) w w'"
  using assms(1)
  by (auto simp: finishSSHCert_def Let_def
      split: if_splits option.splits PublicKey.splits prod.splits sum.splits
      intro: at_gate_recordCertDenialWithDevice [OF assms(2)] signCert_protocol [OF assms(2,3)]
        authorize_fail_protocol [OF assms(2,3)])

lemma deviceSSHCert_protocol:
  assumes "deviceSSHCert lib i request ec mode ttl ctx w1 = (res, w')"
    and rated: "at_gate cert_names (ec_JTI ec) G_Rated w w1"
  shows "at_gate cert_names (ec_JTI ec) (if isl res then G_Refused else G_Issued) w w'"
proof -
  obtain dres w2 where dev: "resolveDevice (si_deps i)
      \<lparr>dp_Caller = ec_Caller ec, dp_AccessToken = scr_AccessToken request,
       dp_DeviceID = scr_DeviceID request, dp_Mode = mode,
       dp_SourceIP = ec_SourceIP ec, dp_UserAgent = ec_UserAgent ec,
       dp_JTI = ec_JTI ec, dp_Now = ec_Now ec, dp_PolicyContext = ctx\<rparr> w1 = (dres, w2)" by fastforce
  from rated dev show ?thesis
  proof (cases rule: at_gate_device)
    case (denied dn g)
    with assms(1) dev show ?thesis by (auto simp: deviceSSHCert_def intro: at_gate_recordCertDenial)
  next
    case (passed device p)
    with assms(1) dev show ?thesis
      by (auto simp: deviceSSHCert_def dest: finishSSHCert_protocol)
  qed simp_all
qed

lemma IssueSSHCert_protocol:
  assumes "IssueSSHCert lib i request w = (res, w')"
  shows "case request_id (si_deps i) w of None \<Rightarrow> wld_trace w' = wld_trace w \<and> isl res
    | Some j \<Rightarrow> at_gate cert_names j (if isl res then G_Refused else G_Issued) w w'"
proof -
  obtain r w1 where v: "verifyEngineer (si_deps i) \<lparr>ep_AccessToken = scr_AccessToken request,
      ep_Mode = ModeOperator, ep_SourceIP = scr_RemoteAddr request, ep_UserAgent = scr_UserAgent request\<rparr> w = (r, w1)"
    by fastforce
  show ?thesis
  proof (cases r)
    case (Failed e)
    with v have "request_id (si_deps i) w = None" "wld_trace w1 = wld_trace w" by (simp_all add: verifyEngineer_id(1) verifyEngineer_Failed)
    with v Failed assms show ?thesis by (auto simp: IssueSSHCert_def)
  next
    case (Denied dn)
    with v have "request_id (si_deps i) w = Some (ev_JTI (pn_Event dn))" by (simp add: verifyEngineer_id(2))
    with v Denied assms at_gate_verify_Denied [of _ _ w dn w1 cert_names] show ?thesis
      by (auto simp: IssueSSHCert_def intro!: at_gate_recordCertDenial)
  next
    case (Passed ec)
    with v have rated: "at_gate cert_names (ec_JTI ec) G_Rated w w1"
      by (simp add: at_gate_verify_Passed)
    have "at_gate cert_names (ec_JTI ec) (if isl res then G_Refused else G_Issued) w w'"
      using assms v Passed rated
      by (auto simp: IssueSSHCert_def Let_def split: option.splits if_splits
          intro: at_gate_recordCertDenial dest: deviceSSHCert_protocol)
    moreover from v Passed have "request_id (si_deps i) w = Some (ec_JTI ec)" by (simp add: verifyEngineer_id(3))
    ultimately show ?thesis by simp
  qed
qed

interpretation cert: issue_pipeline "IssueSSHCert lib i" cert_names "request_id (si_deps i)" for lib i
  by unfold_locales (rule IssueSSHCert_protocol, simp_all)

section \<open>What is signed\<close>

text \<open>The certificate that a request for \<open>mode\<close> makes the broker sign.\<close>

definition certWindow :: "string \<Rightarrow> time \<Rightarrow> duration \<Rightarrow> time \<times> time" where
  "certWindow mode now ttl =
     (if mode = ModeOperator then (now - OperatorClockSkewPadding, now + ttl)
      else (timefixCertValidAfter, timefixCertValidBefore))"

definition certFor :: "engineerContext \<Rightarrow> DeviceRecord \<Rightarrow> PublicKey \<Rightarrow> string \<Rightarrow> duration \<Rightarrow> Certificate" where
  "certFor ec device key mode ttl =
     (if mode = ModeOperator
      then buildOperatorCert ec device key (fst (certWindow mode (ec_Now ec) ttl)) (snd (certWindow mode (ec_Now ec) ttl))
      else buildTimefixCert ec device key)"

definition authorizedFor :: "engineerContext \<Rightarrow> DeviceRecord \<Rightarrow> SSHCertIssueRequest \<Rightarrow> string \<Rightarrow> duration \<Rightarrow> AuditEvent" where
  "authorizedFor ec device request mode ttl =
     certAuthorizedEvent ec device request mode
       (fst (certWindow mode (ec_Now ec) ttl)) (snd (certWindow mode (ec_Now ec) ttl))"

lemma finishSSHCert_trace:
  assumes "finishSSHCert lib i request ec device mode ttl w2 = (res, w')"
  shows "(\<exists>ev b. wld_trace w' = wld_trace w2 @ [Audited ev b] \<and> isl res)
    \<or> (\<exists>k b ev b'. ssh_ParseAuthorizedKey lib (scr_PublicKey request) = Some (BareKey k) \<and> b = (\<not> isl res)
         \<and> wld_trace w' = wld_trace w2 @ [Audited (authorizedFor ec device request mode ttl) True,
             Signed_Cert (certFor ec device (BareKey k) mode ttl) b, Audited ev b'])"
  using assms
  by (auto simp: finishSSHCert_def recordCertDenialWithDevice_def recordCertDenial_def Let_def
      recordEndpointDenial_def Record_trace recordAuthorized_def authorizedFor_def certWindow_def certFor_def
      dest!: Record_eq traced_trace
      split: if_splits option.splits PublicKey.splits prod.splits sum.splits)

lemma deviceSSHCert_trace:
  assumes "deviceSSHCert lib i request ec mode ttl ctx w1 = (res, w')"
  shows "(\<exists>es. wld_trace w' = wld_trace w1 @ es \<and> list_all (\<lambda>e. \<not> is_action e) es \<and> isl res)
    \<or> (\<exists>device p k b ev b'. ssh_ParseAuthorizedKey lib (scr_PublicKey request) = Some (BareKey k) \<and> b = (\<not> isl res)
         \<and> permits p ec device \<and> pol_Mode p = mode \<and> pol_Context p = ctx
         \<and> wld_trace w' = wld_trace w1 @ [Called_Resolve (scr_DeviceID request) True, Called_Policy p True,
             Audited (authorizedFor ec device request mode ttl) True,
             Signed_Cert (certFor ec device (BareKey k) mode ttl) b, Audited ev b'])"
proof -
  let ?dr = "\<lparr>dp_Caller = ec_Caller ec, dp_AccessToken = scr_AccessToken request,
       dp_DeviceID = scr_DeviceID request, dp_Mode = mode,
       dp_SourceIP = ec_SourceIP ec, dp_UserAgent = ec_UserAgent ec,
       dp_JTI = ec_JTI ec, dp_Now = ec_Now ec, dp_PolicyContext = ctx\<rparr>"
  obtain dres w2 where dev: "resolveDevice (si_deps i) ?dr w1 = (dres, w2)" by fastforce
  show ?thesis
  proof (cases dres)
    case (Failed e)
    with dev resolveDevice_not_Failed show ?thesis by metis
  next
    case (Denied dn)
    from resolveDevice_quiet [OF dev] obtain es
      where "wld_trace w2 = wld_trace w1 @ es" "list_all quiet es" by blast
    with Denied assms dev show ?thesis
      by (auto simp: deviceSSHCert_def recordCertDenial_def recordEndpointDenial_def Record_trace
          quiet_def list_all_iff)
  next
    case (Passed device)
    with assms dev have fin: "finishSSHCert lib i request ec device mode ttl w2 = (res, w')"
      by (simp add: deviceSSHCert_def)
    from resolveDevice_Passed [OF dev [unfolded Passed]] obtain p
      where "wld_trace w2 = wld_trace w1 @ [Called_Resolve (scr_DeviceID request) True, Called_Policy p True]"
        "permits p ec device" "pol_Mode p = mode" "pol_Context p = ctx"
      by (auto simp: permits_def)
    with finishSSHCert_trace [OF fin] show ?thesis by fastforce
  qed
qed

text \<open>The lifetime and the policy context of a request, by principal type.\<close>

definition certTTL :: "'w SSHCertIssuer \<Rightarrow> CallerClaims \<Rightarrow> SSHCertIssueRequest \<Rightarrow> duration" where
  "certTTL i caller request =
     (if scr_PrincipalType request = PrincipalTypeOperator
      then resolveOperatorTTL i (cl_Class caller) (scr_MaxLifetimeMinutes request) else 0)"

definition certContext :: "'w SSHCertIssuer \<Rightarrow> CallerClaims \<Rightarrow> SSHCertIssueRequest \<Rightarrow> (string \<times> any) list" where
  "certContext i caller request =
     (if scr_PrincipalType request = PrincipalTypeOperator
      then [(''requested_cert_ttl_minutes'', VInt64 (go_quot (certTTL i caller request) Minute))] else [])"

lemma principalMode_Some:
  "principalMode t = Some m \<Longrightarrow> m = t \<and> t \<in> {PrincipalTypeOperator, PrincipalTypeTimefix}"
  by (auto simp: principalMode_def mode_defs split: if_splits)

lemma principalMode_valid:
  "t \<in> {PrincipalTypeOperator, PrincipalTypeTimefix} \<Longrightarrow> principalMode t = Some t"
  by (auto simp: principalMode_def mode_defs)

lemma ModeOperator_eq: "ModeOperator = PrincipalTypeOperator"
  by (simp add: mode_defs)

text \<open>\<open>IssueSSHCert\<close> after a passed engineer preamble.\<close>

lemma IssueSSHCert_Passed:
  assumes "verifyEngineer (si_deps i) \<lparr>ep_AccessToken = scr_AccessToken request,
      ep_Mode = ModeOperator, ep_SourceIP = scr_RemoteAddr request, ep_UserAgent = scr_UserAgent request\<rparr> w = (Passed ec, w1)"
  shows "(\<exists>err ev. IssueSSHCert lib i request w = (Inl err, recordEndpointDenial (si_deps i) ev w1))
    \<or> scr_PrincipalType request \<in> {PrincipalTypeOperator, PrincipalTypeTimefix}
      \<and> IssueSSHCert lib i request w = deviceSSHCert lib i request ec (scr_PrincipalType request)
          (certTTL i (ec_Caller ec) request) (certContext i (ec_Caller ec) request) w1"
  using assms
  by (auto simp: IssueSSHCert_def Let_def recordCertDenial_def certTTL_def certContext_def ModeOperator_eq
      split: option.splits dest!: principalMode_Some)

lemma IssueSSHCert_trace:
  assumes "IssueSSHCert lib i request w = (res, w')"
  shows "list_all (\<lambda>e. \<not> is_action e) (effects w w') \<and> isl res
    \<or> (\<exists>ec device rl p k ev b'. ssh_ParseAuthorizedKey lib (scr_PublicKey request) = Some (BareKey k)
         \<and> permits p ec device \<and> rl_Caller rl = ec_Caller ec
         \<and> scr_PrincipalType request \<in> {PrincipalTypeOperator, PrincipalTypeTimefix}
         \<and> pol_Mode p = scr_PrincipalType request \<and> pol_Context p = certContext i (ec_Caller ec) request
         \<and> effects w w' = [Called_Verify (scr_AccessToken request) True, Called_RateLimit rl True,
             Called_Resolve (scr_DeviceID request) True, Called_Policy p True,
             Audited (authorizedFor ec device request (scr_PrincipalType request) (certTTL i (ec_Caller ec) request)) True,
             Signed_Cert (certFor ec device (BareKey k) (scr_PrincipalType request) (certTTL i (ec_Caller ec) request)) (\<not> isl res),
             Audited ev b'])"
proof -
  obtain r w1 where v: "verifyEngineer (si_deps i) \<lparr>ep_AccessToken = scr_AccessToken request,
      ep_Mode = ModeOperator, ep_SourceIP = scr_RemoteAddr request, ep_UserAgent = scr_UserAgent request\<rparr> w = (r, w1)"
    by fastforce
  from verifyEngineer_quiet [OF v] obtain es
    where q: "wld_trace w1 = wld_trace w @ es" "list_all (\<lambda>e. \<not> is_action e) es"
    by (auto simp: quiet_def list_all_iff)
  show ?thesis
  proof (cases "\<exists>ec. r = Passed ec")
    case False
    with v assms q show ?thesis
      by (cases r) (auto simp: IssueSSHCert_def effects_def recordCertDenial_def recordEndpointDenial_def Record_trace)
  next
    case True
    then obtain ec where ec: "r = Passed ec" by blast
    from verifyEngineer_Passed [OF v [unfolded ec]] obtain rl
      where rl: "wld_trace w1 = wld_trace w @ [Called_Verify (scr_AccessToken request) True, Called_RateLimit rl True]"
        "rl_Caller rl = ec_Caller ec" by auto
    from IssueSSHCert_Passed [OF v [unfolded ec], of lib] assms
    consider err ev where "res = Inl err" "w' = recordEndpointDenial (si_deps i) ev w1"
      | "scr_PrincipalType request \<in> {PrincipalTypeOperator, PrincipalTypeTimefix}"
        "deviceSSHCert lib i request ec (scr_PrincipalType request)
          (certTTL i (ec_Caller ec) request) (certContext i (ec_Caller ec) request) w1 = (res, w')"
      by force
    then show ?thesis
    proof cases
      case 1
      with q show ?thesis by (auto simp: effects_def recordEndpointDenial_def Record_trace)
    next
      case 2
      from deviceSSHCert_trace [OF 2(2)] 2(1) rl q show ?thesis by (fastforce simp: effects_def)
    qed
  qed
qed

section \<open>The lifetime of an operator certificate\<close>

lemma operatorCeiling_pos:
  assumes "NewSSHCertIssuer ck ids args signer ttl byClass = Inr i"
  shows "0 < operatorCeiling i class"
proof -
  from assms have "0 < si_operatorTTL i" and "\<forall>(c, t) \<in> set (si_operatorTTLByClass i). 0 < t"
    by (auto simp: NewSSHCertIssuer_def DefaultOperatorCertTTL_def Hour_def Minute_def Second_def
        split: option.splits if_splits)
  then show ?thesis
    by (auto simp: operatorCeiling_def split: option.splits dest: map_of_SomeD)
qed

lemma minutes_fit: "0 \<le> m \<Longrightarrow> m \<le> 153722867 \<Longrightarrow> int64 (m * Minute) = m * Minute"
  by (rule int64_id) (simp_all add: Minute_def Second_def)

section \<open>Identities in a certificate\<close>

lemma of_char_div: "(of_char c :: nat) div 16 < 16"
  by (rule less_mult_imp_div_less) simp

lemma hex_digit_code: "n < 16 \<Longrightarrow> of_char (hex_digit n) = (if n < 10 then 48 + n else 55 + n)"
  by (simp add: hex_digit_def take_bit_eq_mod)

lemma hex_digit_inj: "m < 16 \<Longrightarrow> n < 16 \<Longrightarrow> hex_digit m = hex_digit n \<Longrightarrow> m = n"
  by (drule arg_cong [of _ _ "of_char :: char \<Rightarrow> nat"]) (simp add: hex_digit_code split: if_splits)

lemma hex_digit_not_sep: "n < 16 \<Longrightarrow> hex_digit n \<noteq> CHR '';''"
  using hex_digit_code [of n] by (auto split: if_splits)

lemma escape_char_not_sep: "CHR '';'' \<notin> set (escape_char c)"
  using hex_digit_not_sep [of "of_char c div 16"] hex_digit_not_sep [of "of_char c mod 16"] of_char_div [of c]
  by (auto simp: escape_char_def unreserved_def Let_def)

lemma PathEscape_not_sep: "CHR '';'' \<notin> set (PathEscape s)"
  using escape_char_not_sep by (auto simp: PathEscape_def)

lemma escape_char_append_inj:
  assumes "escape_char c @ xs = escape_char d @ ys"
  shows "c = d \<and> xs = ys"
proof -
  have pct: "\<not> unreserved CHR ''%''" by (simp add: unreserved_def)
  have "c = d" if "(of_char c :: nat) div 16 = of_char d div 16" "(of_char c :: nat) mod 16 = of_char d mod 16"
    using that by (metis div_mult_mod_eq of_char_eq_iff)
  moreover have "(of_char c :: nat) div 16 < 16" "(of_char d :: nat) div 16 < 16"
    by (rule of_char_div)+
  ultimately show ?thesis
    using assms pct hex_digit_inj
    by (auto simp: escape_char_def split: if_splits)
qed

lemma PathEscape_inj: "PathEscape s = PathEscape t \<Longrightarrow> s = t"
proof (induction s arbitrary: t)
  case Nil
  then show ?case by (cases t) (auto simp: PathEscape_def escape_char_def split: if_splits)
next
  case (Cons c s)
  then obtain d t' where t: "t = d # t'"
    by (cases t) (auto simp: PathEscape_def escape_char_def split: if_splits)
  with Cons.prems have "escape_char c @ PathEscape s = escape_char d @ PathEscape t'"
    by (simp add: PathEscape_def)
  from escape_char_append_inj [OF this] Cons.IH t show ?case by blast
qed

lemma append_sep_inj:
  assumes "xs @ x # ys = xs' @ x # ys'" and "x \<notin> set xs" and "x \<notin> set xs'"
  shows "xs = xs' \<and> ys = ys'"
  using assms by (auto simp: append_eq_append_conv2 append_eq_Cons_conv Cons_eq_append_conv)

section \<open>The public key is looked at last\<close>

lemma recordCertDenial_key [simp]:
  "recordCertDenial d ev reason (request\<lparr>scr_PublicKey := pk\<rparr>) w = recordCertDenial d ev reason request w"
  by (simp add: recordCertDenial_def)

lemma deviceSSHCert_key:
  assumes "deviceSSHCert lib i request ec mode ttl ctx w1 = (res, w')"
    and "\<forall>p. Called_Policy p True \<notin> set (effects w1 w')"
  shows "deviceSSHCert lib i (request\<lparr>scr_PublicKey := pk\<rparr>) ec mode ttl ctx w1 = (res, w')"
proof -
  obtain dres w2 where dev: "resolveDevice (si_deps i)
      \<lparr>dp_Caller = ec_Caller ec, dp_AccessToken = scr_AccessToken request,
       dp_DeviceID = scr_DeviceID request, dp_Mode = mode,
       dp_SourceIP = ec_SourceIP ec, dp_UserAgent = ec_UserAgent ec,
       dp_JTI = ec_JTI ec, dp_Now = ec_Now ec, dp_PolicyContext = ctx\<rparr> w1 = (dres, w2)" by fastforce
  show ?thesis
  proof (cases dres)
    case (Passed device)
    with assms(1) dev have "finishSSHCert lib i request ec device mode ttl w2 = (res, w')"
      by (simp add: deviceSSHCert_def)
    with finishSSHCert_trace obtain es where "wld_trace w' = wld_trace w2 @ es" by fastforce
    with resolveDevice_Passed [OF dev [unfolded Passed]] assms(2) show ?thesis by (auto simp: effects_def)
  qed (use assms(1) dev in \<open>auto simp: deviceSSHCert_def\<close>)
qed

lemma effects_mono: "verifyEngineer d r w = (res, w1) \<Longrightarrow> set (effects w1 w') \<subseteq> set (effects w w')"
  using verifyEngineer_quiet [of d r w res w1] set_drop_subset_set_drop [of "length (wld_trace w)" "length (wld_trace w1)" "wld_trace w'"]
  by (auto simp: effects_def)

section \<open>A concrete run\<close>

definition sample_lib :: ssh_lib where
  "sample_lib = \<lparr>ssh_ParseAuthorizedKey = (\<lambda>s. if s = ''ssh-ed25519 K'' then Some (BareKey ''K'') else None),
     ssh_MarshalAuthorizedKey = crt_KeyId, ssh_FingerprintSHA256 = (\<lambda>s. ''SHA256:'' @ s)\<rparr>"

definition sample_signer :: "nat CertSigner" where
  "sample_signer = \<lparr>cs_PublicKey = ''CA'', cs_SignCert = (\<lambda>c e. (Inr (c\<lparr>crt_Signature := ''sig''\<rparr>), e)),
     cs_SignTimePayload = (\<lambda>s e. (Inr s, e))\<rparr>"

definition sample_issuer :: "nat SSHCertIssuer" where
  "sample_issuer = \<lparr>si_deps = sample_deps, si_signer = sample_signer, si_operatorTTL = DefaultOperatorCertTTL,
     si_operatorTTLByClass = []\<rparr>"

definition sample_request :: SSHCertIssueRequest where
  "sample_request = \<lparr>scr_AccessToken = ''tok'', scr_DeviceID = ''lab'', scr_PrincipalType = ''operator'',
     scr_PublicKey = ''ssh-ed25519 K'', scr_MaxLifetimeMinutes = 30, scr_UserAgent = ''ua'', scr_RemoteAddr = ''ip''\<rparr>"

definition sample_out :: "SSHCertIssueResponse result \<times> nat world" where
  "sample_out = IssueSSHCert sample_lib sample_issuer sample_request sample_world"

definition sample_cert :: Certificate where
  "sample_cert = buildOperatorCert
     \<lparr>ec_Caller = sample_caller, ec_Now = 1768478400000000000, ec_ID = \<lparr>id_UUID = ''id-1'', id_Serial = 7\<rparr>,
      ec_JTI = ''id-1'', ec_SourceIP = ''ip'', ec_UserAgent = ''ua''\<rparr>
     sample_device (BareKey ''K'') (1768478400000000000 - Hour) (1768478400000000000 + 30 * Minute)"

lemma sample_effects:
  "effects sample_world (snd sample_out) ! 5 = Signed_Cert sample_cert True"
  "length (effects sample_world (snd sample_out)) = 7"
  by code_simp+

lemma sample_success: "\<exists>resp. IssueSSHCert sample_lib sample_issuer sample_request sample_world = (Inr resp, snd sample_out)"
proof -
  have "\<not> isl (fst sample_out)" by code_simp
  then obtain resp where "fst sample_out = Inr resp" by (cases "fst sample_out") auto
  then show ?thesis by (metis sample_out_def prod.collapse)
qed

lemma sample_effects_split:
  "effects sample_world (snd sample_out) =
     take 5 (effects sample_world (snd sample_out)) @ Signed_Cert sample_cert True # drop 6 (effects sample_world (snd sample_out))"
  using id_take_nth_drop [of 5 "effects sample_world (snd sample_out)"] by (simp add: sample_effects)

section \<open>Properties\<close>

text \<open>
  C1: The signing key is used only behind every gate. Whenever \<open>IssueSSHCert\<close> hands a certificate to
  the signer, the calls before it are, in this order, a verified access token, an admitted rate-limit
  request of that caller, a resolved device, a policy decision that allows the requested mode on that
  device, and an authorization row that the audit sink has durably recorded. The row and the
  certificate agree with the decision: same caller, device, request id, serial number and validity
  window; the only principal is that of the resolved device in the allowed mode; the key is the bare
  public key of the request.
\<close>

theorem signed_cert_authorized:
  assumes "IssueSSHCert lib i request w = (res, w')" and "effects w w' = xs @ Signed_Cert c b # ys"
  shows "\<exists>rl p ev k.
    xs = [Called_Verify (scr_AccessToken request) True, Called_RateLimit rl True,
          Called_Resolve (scr_DeviceID request) True, Called_Policy p True, Audited ev True]
    \<and> rl_Caller rl = pol_Caller p \<and> pol_Mode p = scr_PrincipalType request
    \<and> ev_Event ev = EventCertAuthorized \<and> ev_EngineerSub ev = cl_Subject (pol_Caller p)
    \<and> ev_DeviceSerial ev = dev_Serial (pol_Device p) \<and> ev_JTI ev = pol_RequestID p
    \<and> ev_PrincipalType ev = pol_Mode p \<and> ev_CertSerial ev = nat_str (unat (crt_Serial c))
    \<and> crt_ValidAfter c = word_of_int (ev_ValidAfter ev) \<and> crt_ValidBefore c = word_of_int (ev_ValidBefore ev)
    \<and> crt_KeyId c = keyID (pol_Caller p) (pol_RequestID p)
    \<and> crt_ValidPrincipals c = [''device-'' @ dev_Serial (pol_Device p) @ ''-'' @ pol_Mode p]
    \<and> dev_Serial (pol_Device p) \<noteq> []
    \<and> ssh_ParseAuthorizedKey lib (scr_PublicKey request) = Some (BareKey k) \<and> crt_Key c = BareKey k"
proof -
  from IssueSSHCert_trace [OF assms(1)] assms(2)
  obtain ec device rl p k ev b' where
    k: "ssh_ParseAuthorizedKey lib (scr_PublicKey request) = Some (BareKey k)"
    and p: "permits p ec device" "rl_Caller rl = ec_Caller ec" "pol_Mode p = scr_PrincipalType request"
      "scr_PrincipalType request \<in> {PrincipalTypeOperator, PrincipalTypeTimefix}"
    and eff: "xs @ Signed_Cert c b # ys = [Called_Verify (scr_AccessToken request) True, Called_RateLimit rl True,
        Called_Resolve (scr_DeviceID request) True, Called_Policy p True,
        Audited (authorizedFor ec device request (scr_PrincipalType request) (certTTL i (ec_Caller ec) request)) True,
        Signed_Cert (certFor ec device (BareKey k) (scr_PrincipalType request) (certTTL i (ec_Caller ec) request)) (\<not> isl res),
        Audited ev b']"
    by (auto simp: list_all_iff)
  from eff have "xs = [Called_Verify (scr_AccessToken request) True, Called_RateLimit rl True,
        Called_Resolve (scr_DeviceID request) True, Called_Policy p True,
        Audited (authorizedFor ec device request (scr_PrincipalType request) (certTTL i (ec_Caller ec) request)) True]"
      and "c = certFor ec device (BareKey k) (scr_PrincipalType request) (certTTL i (ec_Caller ec) request)"
    by (auto simp: append_eq_Cons_conv)
  with k p show ?thesis
    by (auto simp: permits_def authorizedFor_def certFor_def certAuthorizedEvent_def stamp_caller_def
        buildOperatorCert_def buildTimefixCert_def certWindow_def operatorPrincipal_def timefixPrincipal_def mode_defs)
qed

theorem signed_cert_authorized_witness:
  "\<exists>rl p ev. effects sample_world (snd sample_out) =
      [Called_Verify ''tok'' True, Called_RateLimit rl True, Called_Resolve ''lab'' True, Called_Policy p True, Audited ev True]
      @ Signed_Cert sample_cert True # drop 6 (effects sample_world (snd sample_out))
    \<and> ev_Event ev = EventCertAuthorized \<and> crt_ValidPrincipals sample_cert = [''device-S1-operator'']"
proof -
  obtain resp where run: "IssueSSHCert sample_lib sample_issuer sample_request sample_world = (Inr resp, snd sample_out)"
    using sample_success by blast
  have req: "scr_AccessToken sample_request = ''tok''" "scr_DeviceID sample_request = ''lab''"
    by (simp_all add: sample_request_def)
  have "crt_ValidPrincipals sample_cert = [''device-S1-operator'']" by code_simp
  with signed_cert_authorized [OF run sample_effects_split] sample_effects_split show ?thesis
    unfolding req by metis
qed

text \<open>
  C7: What an issued certificate can do. It is a user certificate. An operator certificate is valid from one hour before the
  request until the resolved lifetime after it, carries the five interactive extensions and no
  critical option, and policy was asked with that lifetime in minutes. A timefix certificate is valid
  from 1970 to 3000 (the device has no clock yet), forces the command \<open>/usr/sbin/timefix-apply\<close> and
  has no extension at all, so it opens no shell, no pty and no forwarding.
\<close>

theorem issued_cert_scope:
  assumes "IssueSSHCert lib i request w = (Inr resp, w')"
  shows "\<exists>c p. Signed_Cert c True \<in> set (effects w w') \<and> Called_Policy p True \<in> set (effects w w') \<and> crt_CertType c = UserCert
    \<and> (scr_PrincipalType request = PrincipalTypeOperator \<and>
         (let ttl = resolveOperatorTTL i (cl_Class (pol_Caller p)) (scr_MaxLifetimeMinutes request) in
          crt_ValidAfter c = word_of_int (Unix (pol_Timestamp p - Hour))
          \<and> crt_ValidBefore c = word_of_int (Unix (pol_Timestamp p + ttl))
          \<and> pol_Context p = [(''requested_cert_ttl_minutes'', VInt64 (go_quot ttl Minute))])
         \<and> crt_CriticalOptions c = []
         \<and> map fst (crt_Extensions c) = [''permit-X11-forwarding'', ''permit-agent-forwarding'',
              ''permit-port-forwarding'', ''permit-pty'', ''permit-user-rc'']
       \<or> scr_PrincipalType request = PrincipalTypeTimefix
         \<and> crt_ValidAfter c = 0 \<and> crt_ValidBefore c = 32503680000
         \<and> crt_CriticalOptions c = [(''force-command'', ''/usr/sbin/timefix-apply'')]
         \<and> crt_Extensions c = [] \<and> pol_Context p = [])"
proof -
  have years: "Unix timefixCertValidAfter = 0" "Unix timefixCertValidBefore = 32503680000" by code_simp+
  from IssueSSHCert_trace [OF assms]
  obtain ec device rl p k ev b' where
    p: "permits p ec device" "pol_Context p = certContext i (ec_Caller ec) request"
      "scr_PrincipalType request \<in> {PrincipalTypeOperator, PrincipalTypeTimefix}"
    and eff: "Called_Policy p True \<in> set (effects w w')"
      "Signed_Cert (certFor ec device (BareKey k) (scr_PrincipalType request) (certTTL i (ec_Caller ec) request)) True
        \<in> set (effects w w')"
    by auto
  show ?thesis
    by (rule exI, rule exI, intro conjI, rule eff, rule eff)
      (use p in \<open>auto simp: permits_def certFor_def certTTL_def certContext_def buildOperatorCert_def
        buildTimefixCert_def certWindow_def timefixForceCommandPath_def OperatorClockSkewPadding_def years mode_defs\<close>)
qed

theorem issued_cert_scope_witness:
  "\<exists>c p. Signed_Cert c True \<in> set (effects sample_world (snd sample_out)) \<and> crt_CriticalOptions c = []
     \<and> Called_Policy p True \<in> set (effects sample_world (snd sample_out))
     \<and> pol_Context p = [(''requested_cert_ttl_minutes'', VInt64 30)]"
proof -
  obtain resp where run: "IssueSSHCert sample_lib sample_issuer sample_request sample_world = (Inr resp, snd sample_out)"
    using sample_success by blast
  have "scr_PrincipalType sample_request = PrincipalTypeOperator" "PrincipalTypeOperator \<noteq> PrincipalTypeTimefix"
    "go_quot (resolveOperatorTTL sample_issuer cls (scr_MaxLifetimeMinutes sample_request)) Minute = 30" for cls
    by (simp_all add: sample_request_def mode_defs resolveOperatorTTL_def operatorCeiling_def sample_issuer_def
        DefaultOperatorCertTTL_def Hour_def Minute_def Second_def int64_id go_quot_def)
  with issued_cert_scope [OF run] show ?thesis by (simp add: Let_def) blast
qed

text \<open>
  C5: The audit trail of a certificate request. A response is returned only after a recorded
  authorization row, a successful signature and an issued row that repeats the authorization row
  under another event name, and there are no other rows. A refused request leaves either one denial
  row with a reason, or an authorization row the sink failed to record, or a recorded authorization
  followed by a denial of the same request (the signer failed), or, when it stopped before its first
  gate, no trace at all.
\<close>

theorem cert_audit_trail:
  assumes "IssueSSHCert lib i request w = (res, w')"
  shows "case res of
      Inr resp \<Rightarrow> \<exists>ev b. audit_rows (effects w w') = [(ev, True), (ev\<lparr>ev_Event := EventCertIssued\<rparr>, b)]
        \<and> ev_Event ev = EventCertAuthorized
    | Inl err \<Rightarrow> effects w w' = []
        \<or> (\<exists>ev b. audit_rows (effects w w') = [(ev, b)] \<and> ev_Event ev = EventCertDenied \<and> ev_DeniedReason ev \<noteq> [])
        \<or> (\<exists>ev. audit_rows (effects w w') = [(ev, False)] \<and> ev_Event ev = EventCertAuthorized)
        \<or> (\<exists>ev ev' b. audit_rows (effects w w') = [(ev, True), (ev', b)] \<and> ev_Event ev = EventCertAuthorized
             \<and> ev_Event ev' = EventCertDenied \<and> ev_JTI ev' = ev_JTI ev \<and> ev_DeniedReason ev' \<noteq> [])"
proof (cases res)
  case (Inl err)
  with cert.failure_audit_rows [of lib i request w err w'] assms show ?thesis by simp
next
  case (Inr resp)
  with cert.success_audit_rows [of lib i request w resp w'] assms show ?thesis by simp
qed

theorem cert_audit_trail_witness:
  "\<exists>ev b. audit_rows (effects sample_world (snd sample_out)) = [(ev, True), (ev\<lparr>ev_Event := EventCertIssued\<rparr>, b)]
     \<and> ev_Event ev = EventCertAuthorized"
  using sample_success cert_audit_trail by fastforce

text \<open>
  C8: The lifetime of an operator certificate of an issuer built by \<open>NewSSHCertIssuer\<close> is positive
  and never above the ceiling of the caller's class, whatever the request asks for, even when the
  64-bit product of minutes and nanoseconds wraps. For requests up to 153,722,867 minutes, where it
  does not wrap, it is exactly the request clamped to the ceiling, and zero minutes ask for the ceiling.
\<close>

theorem operator_ttl_bounds:
  assumes "NewSSHCertIssuer ck ids args signer ttl byClass = Inr i"
  shows "0 < resolveOperatorTTL i class m \<and> resolveOperatorTTL i class m \<le> operatorCeiling i class
    \<and> (0 \<le> m \<and> m \<le> 153722867 \<longrightarrow>
         resolveOperatorTTL i class m =
           (if m = 0 then operatorCeiling i class else min (m * Minute) (operatorCeiling i class)))"
proof -
  have "m = 0 \<or> 0 < m * Minute" if "0 \<le> m" using that by (auto simp: Minute_def Second_def)
  with operatorCeiling_pos [OF assms, of "class"] minutes_fit [of m] show ?thesis
    by (auto simp: resolveOperatorTTL_def Let_def)
qed

definition sample_args :: "nat PipelineArgs" where
  "sample_args = \<lparr>pa_TokenVerifier = Some (pd_TokenVerifier sample_deps), pa_Registry = Some (pd_Registry sample_deps),
     pa_Policy = Some (pd_Policy sample_deps), pa_RateLimiter = Some (pd_RateLimiter sample_deps),
     pa_Audit = Some (pd_Audit sample_deps), pa_Clock = None, pa_IDs = None\<rparr>"

lemma sample_constructed:
  "NewSSHCertIssuer (pd_Clock sample_deps) (pd_IDs sample_deps) sample_args (Some sample_signer) 0 [] = Inr sample_issuer"
  by (simp add: NewSSHCertIssuer_def withDefaults_def sample_args_def sample_issuer_def sample_deps_def)

theorem operator_ttl_bounds_witness:
  "resolveOperatorTTL sample_issuer ''human'' 30 = 30 * Minute \<and> resolveOperatorTTL sample_issuer ''human'' 100000 = 12 * Hour"
  using operator_ttl_bounds [OF sample_constructed, of "''human''" 30]
    operator_ttl_bounds [OF sample_constructed, of "''human''" 100000]
  by (simp add: operatorCeiling_def sample_issuer_def DefaultOperatorCertTTL_def Hour_def Minute_def Second_def)

text \<open>
  The product of the clamp is computed in 64 bits before it is compared with the ceiling. A
  request for 307,445,735 minutes, far above the 12 hour ceiling, is not clamped to it but becomes a
  lifetime of about 26 seconds, and policy is told that 0 minutes were requested.
\<close>

theorem operator_ttl_wraps:
  "resolveOperatorTTL sample_issuer ''human'' 307445735 = 26290448384
   \<and> go_quot (resolveOperatorTTL sample_issuer ''human'' 307445735) Minute = 0
   \<and> operatorCeiling sample_issuer ''human'' = 12 * Hour"
  by code_simp

text \<open>
  The key id of a certificate names one engineer and one request: two key ids are equal only for
  the same subject, the same email and the same request id, whatever bytes the identity provider
  puts in them. No subject or email can forge another engineer's fields.
\<close>

theorem keyID_injective:
  assumes "keyID a j = keyID b k"
  shows "cl_Subject a = cl_Subject b \<and> cl_Email a = cl_Email b \<and> j = k"
proof -
  from assms have "PathEscape (cl_Subject a) @ CHR '';'' # ''engineer_email:'' @ PathEscape (cl_Email a) @ '';jti:'' @ j
      = PathEscape (cl_Subject b) @ CHR '';'' # ''engineer_email:'' @ PathEscape (cl_Email b) @ '';jti:'' @ k"
    by (simp add: keyID_def)
  from append_sep_inj [OF this PathEscape_not_sep PathEscape_not_sep]
  have sub: "PathEscape (cl_Subject a) = PathEscape (cl_Subject b)"
    and "PathEscape (cl_Email a) @ CHR '';'' # ''jti:'' @ j = PathEscape (cl_Email b) @ CHR '';'' # ''jti:'' @ k"
    by simp_all
  from append_sep_inj [OF this(2) PathEscape_not_sep PathEscape_not_sep] PathEscape_inj [OF sub] PathEscape_inj
  show ?thesis by auto
qed

theorem keyID_injective_witness:
  "keyID sample_caller ''j'' = keyID (sample_caller\<lparr>cl_Class := ''service''\<rparr>) ''j''
   \<and> cl_Subject sample_caller = cl_Subject (sample_caller\<lparr>cl_Class := ''service''\<rparr>)"
proof -
  have same: "keyID sample_caller ''j'' = keyID (sample_caller\<lparr>cl_Class := ''service''\<rparr>) ''j''"
    by (simp add: keyID_def)
  from keyID_injective [OF this] same show ?thesis by blast
qed

text \<open>
  C9: The public key is examined only after policy has allowed the request. Where policy has not, the
  response, the error and every call the broker makes are the same for all public keys, valid or not,
  so an unauthorized caller learns nothing from the key checks.
\<close>

theorem public_key_after_policy:
  assumes "IssueSSHCert lib i request w = (res, w')" and "\<forall>p. Called_Policy p True \<notin> set (effects w w')"
  shows "IssueSSHCert lib i (request\<lparr>scr_PublicKey := pk\<rparr>) w = (res, w')"
proof -
  obtain r w1 where v: "verifyEngineer (si_deps i) \<lparr>ep_AccessToken = scr_AccessToken request,
      ep_Mode = ModeOperator, ep_SourceIP = scr_RemoteAddr request, ep_UserAgent = scr_UserAgent request\<rparr> w = (r, w1)"
    by fastforce
  from effects_mono [OF v] assms(2) have "\<forall>p. Called_Policy p True \<notin> set (effects w1 w')" by blast
  with assms(1) v show ?thesis
    by (auto simp: IssueSSHCert_def Let_def deviceSSHCert_key split: preamble.splits option.splits if_splits)
qed

theorem public_key_after_policy_witness:
  "IssueSSHCert sample_lib sample_issuer (sample_request\<lparr>scr_DeviceID := ''x'', scr_PublicKey := ''garbage''\<rparr>) sample_world
   = IssueSSHCert sample_lib sample_issuer (sample_request\<lparr>scr_DeviceID := ''x''\<rparr>) sample_world"
proof -
  let ?out = "IssueSSHCert sample_lib sample_issuer (sample_request\<lparr>scr_DeviceID := ''x''\<rparr>) sample_world"
  have "list_all (\<lambda>e. case e of Called_Policy p b \<Rightarrow> \<not> b | _ \<Rightarrow> True) (effects sample_world (snd ?out))"
    by code_simp
  then have "\<forall>p. Called_Policy p True \<notin> set (effects sample_world (snd ?out))"
    by (auto simp: list_all_iff)
  from public_key_after_policy [OF _ this, of sample_lib sample_issuer _ "fst ?out" "''garbage''"] show ?thesis by simp
qed

text \<open>
  Principals are unambiguous. Two operator (or two timefix) principals are equal only for the same
  device serial, and no operator principal of any device is a timefix principal of any device.
\<close>

theorem principals_unambiguous:
  "(operatorPrincipal s = operatorPrincipal t \<longleftrightarrow> s = t) \<and> (timefixPrincipal s = timefixPrincipal t \<longleftrightarrow> s = t)
   \<and> operatorPrincipal s \<noteq> timefixPrincipal t"
proof -
  have "last (operatorPrincipal s) \<noteq> last (timefixPrincipal t)"
    by (simp add: operatorPrincipal_def timefixPrincipal_def)
  then show ?thesis by (auto simp: operatorPrincipal_def timefixPrincipal_def)
qed

end
