(* ===== verification/Audit_Log.thy ===== *)
theory Audit_Log
  imports Go_JSON SSH_Cert
begin

text \<open>
  The audit sink (src/internal/audit/cloudwatch.go) and the certificate signer
  (src/internal/signer/kms.go). CloudWatch Logs, KMS, \<open>crypto/x509\<close> and golang.org/x/crypto/ssh are
  parameters. An audit event is one JSON object; the object is shown to determine the event.
\<close>

section \<open>The audit sink\<close>

definition auditLogStreamName :: string where
  "auditLogStreamName = ''ssh-cert-issued''"

definition auditEmitTimeout :: duration where
  "auditEmitTimeout = 5 * Second"

definition ErrLogGroupRequired :: go_error where
  "ErrLogGroupRequired = Plain ''CloudWatch log group is required''"

record PutLogEventsInput =
  ple_LogGroupName :: string
  ple_LogStreamName :: string
  ple_Message :: string
  ple_Timestamp :: int

text \<open>
  \<open>PutLogEvents\<close> also gets the timeout of its context; the context is detached from the request, so
  a cancelled request does not appear in the input.
\<close>

type_synonym 'w PutLogEvents = "duration \<Rightarrow> PutLogEventsInput \<Rightarrow> 'w \<Rightarrow> unit result \<times> 'w"

record 'w CloudWatchAudit =
  cw_client :: "'w PutLogEvents"
  cw_logGroup :: string

definition NewCloudWatchAudit :: "'w PutLogEvents \<Rightarrow> string \<Rightarrow> 'w CloudWatchAudit result" where
  "NewCloudWatchAudit client logGroup =
     (if logGroup = [] then Inl ErrLogGroupRequired
      else Inr \<lparr>cw_client = client, cw_logGroup = logGroup\<rparr>)"

text \<open>
  \<open>Time.MarshalJSON\<close>: RFC 3339 with the fraction of the second, trailing zeros removed; a year
  beyond four digits is an error. The instants of the broker are in UTC.
\<close>

definition fraction_digits :: "int \<Rightarrow> string" where
  "fraction_digits t =
     (let ns = nat (t mod Second) in
      if ns = 0 then []
      else CHR ''.'' # rev (dropWhile (\<lambda>c. c = CHR ''0'') (rev (pad 9 ns))))"

definition FormatRFC3339Nano :: "time \<Rightarrow> string" where
  "FormatRFC3339Nano t = butlast (FormatRFC3339 t) @ fraction_digits t @ ''Z''"

definition time_MarshalJSON :: "time \<Rightarrow> string option" where
  "time_MarshalJSON t =
     (if fst (Date t) < 0 \<or> 9999 < fst (Date t) then None else Some (FormatRFC3339Nano t))"

definition omitempty :: "string \<Rightarrow> string \<Rightarrow> (string \<times> json) list" where
  "omitempty k s = (if s = [] then [] else [(k, JString s)])"

definition omitzero :: "string \<Rightarrow> int \<Rightarrow> (string \<times> json) list" where
  "omitzero k i = (if i = 0 then [] else [(k, JNumber (FormatInt i))])"

definition omitstrings :: "string \<Rightarrow> string list \<Rightarrow> (string \<times> json) list" where
  "omitstrings k ss = (if ss = [] then [] else [(k, JArray (map JString ss))])"

definition event_members :: "string \<Rightarrow> AuditEvent \<Rightarrow> (string \<times> json) list" where
  "event_members timestamp ev =
     [(''timestamp'', JString timestamp), (''event'', JString (ev_Event ev))]
     @ omitempty ''denied_reason'' (ev_DeniedReason ev)
     @ omitempty ''engineer_sub'' (ev_EngineerSub ev)
     @ omitempty ''engineer_email'' (ev_EngineerEmail ev)
     @ omitstrings ''engineer_groups'' (ev_EngineerGroups ev)
     @ omitempty ''principal_class'' (ev_PrincipalClass ev)
     @ omitempty ''client_id'' (ev_ClientID ev)
     @ omitempty ''device_serial'' (ev_DeviceSerial ev)
     @ omitempty ''device_id_used'' (ev_DeviceIDUsed ev)
     @ omitempty ''principal_type'' (ev_PrincipalType ev)
     @ omitempty ''cert_serial'' (ev_CertSerial ev)
     @ [(''jti'', JString (ev_JTI ev))]
     @ omitzero ''valid_after'' (ev_ValidAfter ev)
     @ omitzero ''valid_before'' (ev_ValidBefore ev)
     @ omitzero ''issued_at'' (ev_IssuedAt ev)
     @ omitempty ''source_ip'' (ev_SourceIP ev)
     @ omitempty ''user_agent'' (ev_UserAgent ev)
     @ omitempty ''tunnel_role_arn'' (ev_TunnelRoleARN ev)
     @ omitempty ''tunnel_region'' (ev_TunnelRegion ev)"

definition MarshalEvent :: "AuditEvent \<Rightarrow> string option" where
  "MarshalEvent ev =
     map_option (\<lambda>ts. json_print (JObject (event_members ts ev))) (time_MarshalJSON (ev_Timestamp ev))"

fun resourceNotFound :: "go_error \<Rightarrow> bool" where
  "resourceNotFound (Sdk code) \<longleftrightarrow> code = ''ResourceNotFoundException''"
| "resourceNotFound (Wrapped _ e) \<longleftrightarrow> resourceNotFound e"
| "resourceNotFound (Joined es) \<longleftrightarrow> list_ex resourceNotFound es"
| "resourceNotFound (Classified _ e) \<longleftrightarrow> resourceNotFound e"
| "resourceNotFound (AssumeRole e) \<longleftrightarrow> resourceNotFound e"
| "resourceNotFound _ \<longleftrightarrow> False"

text \<open>\<open>%q\<close> quotes the group name; \<open>strconv_Quote\<close> is the quoting of package \<open>strconv\<close>, a parameter of
  the message only. The clock is read when the event has no time.\<close>

definition CloudWatch_Record ::
  "(string \<Rightarrow> string) \<Rightarrow> ('w \<Rightarrow> time \<times> 'w) \<Rightarrow> 'w CloudWatchAudit \<Rightarrow> AuditEvent \<Rightarrow> 'w \<Rightarrow> go_error option \<times> 'w" where
  "CloudWatch_Record strconv_Quote time_Now a ev e0 =
     (case MarshalEvent ev of
        None \<Rightarrow> (Some (Wrapped ''audit: '' (Plain ''year outside of range [0,9999]'')), e0)
      | Some encoded \<Rightarrow>
          (case (if ev_Timestamp ev = zero_time then time_Now e0 else (ev_Timestamp ev, e0)) of (timestamp, e1) \<Rightarrow>
           case cw_client a auditEmitTimeout
                  \<lparr>ple_LogGroupName = cw_logGroup a, ple_LogStreamName = auditLogStreamName,
                   ple_Message = encoded, ple_Timestamp = timestamp div 1000000\<rparr> e1 of
             (Inl err, e2) \<Rightarrow>
               (if resourceNotFound err
                then Some (Wrapped (''audit log stream '' @ strconv_Quote auditLogStreamName @ '' in group ''
                       @ strconv_Quote (cw_logGroup a)
                       @ '' does not exist; create via Terraform/IaC before running broker: '') err)
                else Some (Wrapped ''audit: '' err), e2)
           | (Inr _, e2) \<Rightarrow> (None, e2)))"

section \<open>The signer\<close>

definition ErrKMSKeyARNRequired :: go_error where
  "ErrKMSKeyARNRequired = Plain ''KMS key ARN is required''"

record SignInput =
  sgi_KeyId :: string
  sgi_Message :: string
  sgi_MessageType :: string
  sgi_SigningAlgorithm :: string

record 'w KMSClient =
  kms_GetPublicKey :: "string \<Rightarrow> 'w \<Rightarrow> string result \<times> 'w"
  kms_Sign :: "SignInput \<Rightarrow> 'w \<Rightarrow> string result \<times> 'w"

text \<open>
  \<open>x509.ParsePKIXPublicKey\<close> yields an Ed25519 key or another one. Of x/crypto/ssh the code uses
  \<open>NewPublicKey\<close>, the \<open>Type\<close> of a key, and \<open>Certificate.SignCert\<close>, which calls the signer it is given
  on the bytes of the certificate and stores the signature.
\<close>

datatype pkix_key = PKIX_Ed25519 string | PKIX_other

record SSHSignature =
  sig_Format :: string
  sig_Blob :: string

record 'w ssh_sign_lib =
  sl_ParsePKIX :: "string \<Rightarrow> pkix_key result"
  sl_NewPublicKey :: "string \<Rightarrow> string result"
  sl_KeyType :: "string \<Rightarrow> string"
  sl_SignCert :: "string \<Rightarrow> (string \<Rightarrow> 'w \<Rightarrow> SSHSignature result \<times> 'w) \<Rightarrow> Certificate \<Rightarrow> 'w \<Rightarrow> Certificate result \<times> 'w"

record 'w KMSSigner =
  km_client :: "'w KMSClient"
  km_keyID :: string
  km_publicKey :: string

definition NewKMSSigner ::
  "'w ssh_sign_lib \<Rightarrow> 'w KMSClient \<Rightarrow> string \<Rightarrow> 'w \<Rightarrow> 'w KMSSigner result \<times> 'w" where
  "NewKMSSigner lib client keyARN e =
     (if keyARN = [] then (Inl ErrKMSKeyARNRequired, e)
      else case kms_GetPublicKey client keyARN e of
        (Inl err, e1) \<Rightarrow> (Inl (Wrapped ''signer: '' err), e1)
      | (Inr der, e1) \<Rightarrow>
          (case sl_ParsePKIX lib der of
             Inl err \<Rightarrow> Inl (Wrapped ''parse KMS public key: '' err)
           | Inr PKIX_other \<Rightarrow> Inl (Plain ''KMS key must be Ed25519'')
           | Inr (PKIX_Ed25519 k) \<Rightarrow>
               (case sl_NewPublicKey lib k of
                  Inl err \<Rightarrow> Inl (Wrapped ''convert KMS public key to SSH: '' err)
                | Inr sshPublicKey \<Rightarrow>
                    Inr \<lparr>km_client = client, km_keyID = keyARN, km_publicKey = sshPublicKey\<rparr>), e1))"

definition kmsSign :: "'w KMSSigner \<Rightarrow> string \<Rightarrow> 'w \<Rightarrow> string result \<times> 'w" where
  "kmsSign s message e =
     (case kms_Sign (km_client s)
             \<lparr>sgi_KeyId = km_keyID s, sgi_Message = message, sgi_MessageType = ''RAW'',
              sgi_SigningAlgorithm = ''ED25519_SHA_512''\<rparr> e of
        (Inl err, e1) \<Rightarrow> (Inl (Wrapped ''signer: '' err), e1)
      | (Inr signature, e1) \<Rightarrow> (Inr signature, e1))"

definition KMS_SignTimePayload :: "'w KMSSigner \<Rightarrow> string \<Rightarrow> 'w \<Rightarrow> string result \<times> 'w" where
  "KMS_SignTimePayload s signingInput e = kmsSign s signingInput e"

definition kmsSSHSigner_Sign :: "'w ssh_sign_lib \<Rightarrow> 'w KMSSigner \<Rightarrow> string \<Rightarrow> 'w \<Rightarrow> SSHSignature result \<times> 'w" where
  "kmsSSHSigner_Sign lib s data e =
     (case kmsSign s data e of
        (Inl err, e1) \<Rightarrow> (Inl err, e1)
      | (Inr signature, e1) \<Rightarrow>
          (Inr \<lparr>sig_Format = sl_KeyType lib (km_publicKey s), sig_Blob = signature\<rparr>, e1))"

definition KMS_SignCert :: "'w ssh_sign_lib \<Rightarrow> 'w KMSSigner \<Rightarrow> Certificate \<Rightarrow> 'w \<Rightarrow> Certificate result \<times> 'w" where
  "KMS_SignCert lib s cert e = sl_SignCert lib (km_publicKey s) (kmsSSHSigner_Sign lib s) cert e"

definition KMS_CertSigner :: "'w ssh_sign_lib \<Rightarrow> 'w KMSSigner \<Rightarrow> 'w CertSigner" where
  "KMS_CertSigner lib s = \<lparr>cs_PublicKey = km_publicKey s, cs_SignCert = KMS_SignCert lib s,
     cs_SignTimePayload = KMS_SignTimePayload s\<rparr>"

section \<open>The row determines the event\<close>

text \<open>What a consumer of the log reads: the members of the object.\<close>

definition read_string :: "(string \<times> json) list \<Rightarrow> string \<Rightarrow> string" where
  "read_string ms k = (case map_of ms k of Some (JString s) \<Rightarrow> s | _ \<Rightarrow> [])"

definition read_int :: "(string \<times> json) list \<Rightarrow> string \<Rightarrow> int" where
  "read_int ms k = (case map_of ms k of Some (JNumber l) \<Rightarrow> (case ParseInt64 l of Some i \<Rightarrow> i | None \<Rightarrow> 0) | _ \<Rightarrow> 0)"

definition read_strings :: "(string \<times> json) list \<Rightarrow> string \<Rightarrow> string list" where
  "read_strings ms k =
     (case map_of ms k of Some (JArray vs) \<Rightarrow> map (\<lambda>v. case v of JString s \<Rightarrow> s | _ \<Rightarrow> []) vs | _ \<Rightarrow> [])"

definition read_event :: "time \<Rightarrow> (string \<times> json) list \<Rightarrow> AuditEvent" where
  "read_event t ms =
     \<lparr>ev_Timestamp = t, ev_Event = read_string ms ''event'', ev_DeniedReason = read_string ms ''denied_reason'',
      ev_EngineerSub = read_string ms ''engineer_sub'', ev_EngineerEmail = read_string ms ''engineer_email'',
      ev_EngineerGroups = read_strings ms ''engineer_groups'', ev_PrincipalClass = read_string ms ''principal_class'',
      ev_ClientID = read_string ms ''client_id'', ev_DeviceSerial = read_string ms ''device_serial'',
      ev_DeviceIDUsed = read_string ms ''device_id_used'', ev_PrincipalType = read_string ms ''principal_type'',
      ev_CertSerial = read_string ms ''cert_serial'', ev_JTI = read_string ms ''jti'',
      ev_ValidAfter = read_int ms ''valid_after'', ev_ValidBefore = read_int ms ''valid_before'',
      ev_IssuedAt = read_int ms ''issued_at'', ev_SourceIP = read_string ms ''source_ip'',
      ev_UserAgent = read_string ms ''user_agent'', ev_TunnelRoleARN = read_string ms ''tunnel_role_arn'',
      ev_TunnelRegion = read_string ms ''tunnel_region''\<rparr>"

definition event_int64 :: "AuditEvent \<Rightarrow> bool" where
  "event_int64 ev \<longleftrightarrow> (\<forall>i \<in> {ev_ValidAfter ev, ev_ValidBefore ev, ev_IssuedAt ev}. - (2 ^ 63) \<le> i \<and> i < 2 ^ 63)"

lemma map_of_omit:
  "(m ++ map_of (omitempty k s)) j = (if j = k \<and> s \<noteq> [] then Some (JString s) else m j)"
  "(m ++ map_of (omitzero k i)) j = (if j = k \<and> i \<noteq> 0 then Some (JNumber (FormatInt i)) else m j)"
  "(m ++ map_of (omitstrings k ss)) j = (if j = k \<and> ss \<noteq> [] then Some (JArray (map JString ss)) else m j)"
  "map_of (omitempty k s) j = (if j = k \<and> s \<noteq> [] then Some (JString s) else None)"
  by (simp_all add: omitempty_def omitzero_def omitstrings_def)

lemma read_event_members:
  assumes "event_int64 ev"
  shows "read_event (ev_Timestamp ev) (event_members ts ev) = ev"
proof -
  have "ParseInt64 (FormatInt (ev_ValidAfter ev)) = Some (ev_ValidAfter ev)"
    "ParseInt64 (FormatInt (ev_ValidBefore ev)) = Some (ev_ValidBefore ev)"
    "ParseInt64 (FormatInt (ev_IssuedAt ev)) = Some (ev_IssuedAt ev)"
    using assms by (simp_all add: event_int64_def ParseInt64_FormatInt)
  then show ?thesis
    by (simp add: read_event_def event_members_def read_string_def read_int_def read_strings_def map_of_omit comp_def)
qed

text \<open>Events whose strings are valid UTF-8, which is what JSON can carry.\<close>

definition event_utf8 :: "AuditEvent \<Rightarrow> bool" where
  "event_utf8 ev \<longleftrightarrow> list_all (\<lambda>s. coerce_utf8 s = s)
     ([ev_Event ev, ev_DeniedReason ev, ev_EngineerSub ev, ev_EngineerEmail ev, ev_PrincipalClass ev, ev_ClientID ev,
       ev_DeviceSerial ev, ev_DeviceIDUsed ev, ev_PrincipalType ev, ev_CertSerial ev, ev_JTI ev, ev_SourceIP ev,
       ev_UserAgent ev, ev_TunnelRoleARN ev, ev_TunnelRegion ev] @ ev_EngineerGroups ev)"

definition utf8_member :: "string \<times> json \<Rightarrow> bool" where
  "utf8_member m \<longleftrightarrow> json_ok (snd m) \<and> (coerce_utf8 (fst m), json_coerce (snd m)) = m"

lemma utf8_omit:
  "list_all is_ascii k \<Longrightarrow> coerce_utf8 s = s \<Longrightarrow> list_all utf8_member (omitempty k s)"
  "list_all is_ascii k \<Longrightarrow> list_all utf8_member (omitzero k i)"
  by (simp_all add: omitempty_def omitzero_def utf8_member_def number_lit_FormatInt coerce_utf8_ascii)

lemma utf8_omitstrings:
  assumes "list_all is_ascii k" and "list_all (\<lambda>s. coerce_utf8 s = s) ss"
  shows "list_all utf8_member (omitstrings k ss)"
proof -
  have "map (json_coerce \<circ> JString) ss = map JString ss" using assms(2) by (simp add: list_all_iff)
  with assms(1) show ?thesis by (auto simp: omitstrings_def utf8_member_def coerce_utf8_ascii)
qed

lemma utf8_members:
  assumes "event_utf8 ev" and "coerce_utf8 ts = ts"
  shows "list_all utf8_member (event_members ts ev)"
proof -
  have keys: "list_all is_ascii k \<Longrightarrow> coerce_utf8 k = k" for k by (rule coerce_utf8_ascii)
  have fixed: "list_all utf8_member [(''timestamp'', JString ts), (''event'', JString (ev_Event ev))]"
    "list_all utf8_member [(''jti'', JString (ev_JTI ev))]"
    using assms keys [of "''timestamp''"] keys [of "''event''"] keys [of "''jti''"]
    by (simp_all add: utf8_member_def event_utf8_def is_ascii_def)
  show ?thesis
    unfolding event_members_def list_all_append
    by (intro conjI fixed utf8_omit utf8_omitstrings)
      (use assms(1) in \<open>simp_all add: event_utf8_def is_ascii_def\<close>)
qed

lemma FormatRFC3339Nano_ascii: "list_all is_ascii (FormatRFC3339Nano t)"
proof -
  have "list_all is_ascii (pad 9 n)" for n
    using nat_str_digits [of n] is_digit_graphic is_ascii_graphic by (auto simp: pad_def list_all_iff is_ascii_def)
  then have "list_all is_ascii (fraction_digits t)"
    by (auto simp: fraction_digits_def Let_def list_all_iff is_ascii_def dest!: set_dropWhileD)
  moreover have "list_all is_ascii (butlast (FormatRFC3339 t))"
    using FormatRFC3339_ascii [of t] by (auto simp: list_all_iff dest: in_set_butlastD)
  ultimately show ?thesis by (simp add: FormatRFC3339Nano_def is_ascii_def)
qed

text \<open>
  C19: an audit row is a faithful record. When the sink reports success, exactly one log event was put
  to the configured group and stream, and its message is a JSON object from which every field of the
  audit event reads back: the identity, the device, the outcome and its reason, the serial and validity
  of the credential and the target of a tunnel. Nothing is lost by the encoding, for events whose
  strings are valid UTF-8 and whose times are 64-bit integers.
\<close>

theorem audit_row_faithful:
  assumes "CloudWatch_Record q clock a ev e = (None, e')" and "event_utf8 ev" and "event_int64 ev"
  shows "\<exists>input e1 ms. cw_client a auditEmitTimeout input e1 = (Inr (), e')
    \<and> ple_LogGroupName input = cw_logGroup a \<and> ple_LogStreamName input = ''ssh-cert-issued''
    \<and> json_parse (ple_Message input) = Some (JObject ms)
    \<and> read_event (ev_Timestamp ev) ms = ev \<and> read_string ms ''timestamp'' = FormatRFC3339Nano (ev_Timestamp ev)
    \<and> (ev_Timestamp ev \<noteq> zero_time \<longrightarrow> e1 = e \<and> ple_Timestamp input = ev_Timestamp ev div 1000000)"
proof -
  let ?ts = "FormatRFC3339Nano (ev_Timestamp ev)"
  let ?ms = "event_members ?ts ev"
  from assms(1) obtain input e1 where i: "cw_client a auditEmitTimeout input e1 = (Inr (), e')"
    "ple_LogGroupName input = cw_logGroup a" "ple_LogStreamName input = ''ssh-cert-issued''"
    "ple_Message input = json_print (JObject ?ms)"
    "ev_Timestamp ev \<noteq> zero_time \<Longrightarrow> e1 = e \<and> ple_Timestamp input = ev_Timestamp ev div 1000000"
    by (fastforce simp: CloudWatch_Record_def MarshalEvent_def time_MarshalJSON_def auditLogStreamName_def
        split: option.splits prod.splits sum.splits if_splits)
  have all: "list_all utf8_member ?ms"
    by (rule utf8_members [OF assms(2)]) (rule coerce_utf8_ascii, rule FormatRFC3339Nano_ascii)
  then have ok: "json_ok (JObject ?ms)" by (simp add: list_all_iff utf8_member_def)
  from all have "map (\<lambda>m. (coerce_utf8 (fst m), json_coerce (snd m))) ?ms = ?ms"
    by (simp add: list_all_iff utf8_member_def map_idI)
  with json_parse_print [OF ok] have "json_parse (ple_Message input) = Some (JObject ?ms)"
    by (simp add: i(4) del: json_print.simps)
  moreover have "read_string ?ms ''timestamp'' = ?ts" by (simp add: read_string_def event_members_def)
  ultimately show ?thesis using i read_event_members [OF assms(3), of ?ts] by blast
qed

definition sample_sink :: "nat CloudWatchAudit" where
  "sample_sink = \<lparr>cw_client = (\<lambda>t q e. (Inr (), e + 1)), cw_logGroup = ''audit''\<rparr>"

definition sample_event :: AuditEvent where
  "sample_event = empty_event\<lparr>ev_Timestamp := 0, ev_Event := ''ssh_cert_denied'', ev_JTI := ''id-1''\<rparr>"

theorem audit_row_faithful_witness:
  "CloudWatch_Record (\<lambda>s. s) (\<lambda>e. (0, e)) sample_sink sample_event 0 = (None, 1)
   \<and> (\<exists>input e1 ms. cw_client sample_sink auditEmitTimeout input e1 = (Inr (), 1) \<and> ple_LogGroupName input = ''audit''
     \<and> json_parse (ple_Message input) = Some (JObject ms) \<and> read_event 0 ms = sample_event)"
proof -
  have d: "fst (Date 0) = 1970" by (simp add: Date_def time_days_def Unix_def epoch_days_def civil_from_days_def
      year_of_def Let_def Second_def days_before_def)
  have R: "CloudWatch_Record (\<lambda>s. s) (\<lambda>e. (0, e)) sample_sink sample_event 0 = (None, 1)"
    by (simp add: CloudWatch_Record_def MarshalEvent_def time_MarshalJSON_def sample_event_def sample_sink_def d)
  have "coerce_utf8 ''ssh_cert_denied'' = ''ssh_cert_denied''" "coerce_utf8 ''id-1'' = ''id-1''" "coerce_utf8 [] = []"
    by (rule coerce_utf8_ascii, simp add: is_ascii_def)+
  then have "event_utf8 sample_event" "event_int64 sample_event" "ev_Timestamp sample_event = 0"
    by (simp_all add: event_utf8_def sample_event_def empty_event_def event_int64_def)
  with audit_row_faithful [OF R] obtain input e1 ms where
    i: "cw_client sample_sink auditEmitTimeout input e1 = (Inr (), 1)" "ple_LogGroupName input = cw_logGroup sample_sink"
    "json_parse (ple_Message input) = Some (JObject ms)" "read_event 0 ms = sample_event" by auto
  have "cw_logGroup sample_sink = ''audit''" by (simp add: sample_sink_def)
  with R i show ?thesis by metis
qed

end
