(* ===== verification/Tunnel.thy ===== *)
theory Tunnel
  imports Broker_Pipeline Tunnel_Target
begin

text \<open>
  The tunnel pipeline (src/internal/broker/tunnel.go): constructor, \<open>OpenTunnel\<close> on every branch, and
  the classification of backend errors. The backend \<open>Tunneling\<close> is a function on the environment state.
\<close>

section \<open>Definitions\<close>

definition MaxTunnelLifetimeMinutes :: int where
  "MaxTunnelLifetimeMinutes = 12 * 60"
definition DefaultTunnelLifetimeMinutes :: int where
  "DefaultTunnelLifetimeMinutes = 8 * 60"
definition tunnelSerialPlaceholder :: string where
  "tunnelSerialPlaceholder = ''{serial}''"
definition defaultTunnelThingNameFormat :: string where
  "defaultTunnelThingNameFormat = ''device-'' @ tunnelSerialPlaceholder"

definition ErrTunnelingThingNameFormatInvalid :: go_error where
  "ErrTunnelingThingNameFormatInvalid =
     Plain ''tunneling thing-name format must contain exactly one {serial} placeholder''"

type_synonym 'w Tunneling = "TunnelOpenInternal \<Rightarrow> 'w \<Rightarrow> TunnelOpenResult result \<times> 'w"

record 'w TunnelIssuerDeps =
  nd_Pipeline :: "'w PipelineArgs"
  nd_Tunneling :: "'w Tunneling option"
  nd_DefaultMaxLifetimeMinutes :: int
  nd_ThingNameFormat :: string
  nd_TargetFromRegistry :: bool
  nd_AllowedRoleARNs :: "string list"

record 'w TunnelIssuer =
  ni_deps :: "'w PipelineDeps"
  ni_tunneling :: "'w Tunneling"
  ni_defaultMaxLifetime :: int
  ni_thingNameFormat :: string
  ni_targetFromRegistry :: bool
  ni_allowedRoleARNs :: "string list"

definition tunnelErrors :: "'w TunnelIssuerDeps \<Rightarrow> string \<Rightarrow> go_error option list" where
  "tunnelErrors deps format =
     [validate (nd_Pipeline deps), required (nd_Tunneling deps) ErrTunnelingRequired,
      (if Count format tunnelSerialPlaceholder \<noteq> 1
       then Some (Wrapped (quoted format) ErrTunnelingThingNameFormatInvalid) else None),
      (if nd_TargetFromRegistry deps then
         (if nd_AllowedRoleARNs deps = [] then Some ErrTunnelingAllowedRoleARNsRequired
          else validateAllowedRoleARNs (nd_AllowedRoleARNs deps))
       else None)]"

definition NewTunnelIssuer ::
  "('w \<Rightarrow> time \<times> 'w) \<Rightarrow> (time \<Rightarrow> 'w \<Rightarrow> ID result \<times> 'w) \<Rightarrow> 'w TunnelIssuerDeps \<Rightarrow> 'w TunnelIssuer result" where
  "NewTunnelIssuer SystemClock UUIDv7 deps =
     (let format = (if nd_ThingNameFormat deps = [] then defaultTunnelThingNameFormat else nd_ThingNameFormat deps)
      in case errors_Join (tunnelErrors deps format) of
           Some joined \<Rightarrow> Inl joined
         | None \<Rightarrow>
             (case (withDefaults SystemClock UUIDv7 (nd_Pipeline deps), nd_Tunneling deps) of
                (Some pipeline, Some tunneling) \<Rightarrow>
                  let lifetime = (if nd_DefaultMaxLifetimeMinutes deps \<le> 0 then DefaultTunnelLifetimeMinutes
                                  else nd_DefaultMaxLifetimeMinutes deps)
                  in Inr \<lparr>ni_deps = pipeline, ni_tunneling = tunneling,
                       ni_defaultMaxLifetime = (if lifetime > MaxTunnelLifetimeMinutes then MaxTunnelLifetimeMinutes else lifetime),
                       ni_thingNameFormat = format, ni_targetFromRegistry = nd_TargetFromRegistry deps,
                       ni_allowedRoleARNs = nd_AllowedRoleARNs deps\<rparr>
              | _ \<Rightarrow> Inl (Joined [])))"

definition thingName :: "'w TunnelIssuer \<Rightarrow> string \<Rightarrow> string" where
  "thingName i serial = Replace1 (ni_thingNameFormat i) tunnelSerialPlaceholder serial"

text \<open>\<open>errors.As\<close> for the classifier interface, which only \<open>tunnelingError\<close> implements.\<close>

fun classifier :: "go_error \<Rightarrow> TunnelingErrorKind option" where
  "classifier (Classified k e) = Some k"
| "classifier (Wrapped s e) = classifier e"
| "classifier (AssumeRole e) = classifier e"
| "classifier (Joined es) = (case filter (\<lambda>x. x \<noteq> None) (map classifier es) of [] \<Rightarrow> None | x # _ \<Rightarrow> x)"
| "classifier _ = None"

definition tunnelingErrorKind :: "go_error \<Rightarrow> TunnelingErrorKind" where
  "tunnelingErrorKind err = (case classifier err of Some k \<Rightarrow> k | None \<Rightarrow> TunnelingErrorUnknown)"

definition tunnelingDenyReason :: "go_error \<Rightarrow> string" where
  "tunnelingDenyReason err =
     (case tunnelingErrorKind err of
        TunnelingErrorLimitExceeded \<Rightarrow> DenyReasonTunnelLimitExceeded
      | TunnelingErrorTargetAccessDenied \<Rightarrow> DenyReasonTunnelTargetAccessDenied
      | TunnelingErrorUnknown \<Rightarrow> DenyReasonTunnelingUnavailable)"

definition mapTunnelingError :: "go_error \<Rightarrow> go_error" where
  "mapTunnelingError err =
     (case tunnelingErrorKind err of
        TunnelingErrorLimitExceeded \<Rightarrow>
          BrokerError 429 ''tunnel quota exceeded; close idle tunnels or contact your operator''
      | TunnelingErrorTargetAccessDenied \<Rightarrow>
          BrokerError 500 (''broker can'' @ [CHR 0x27] @ ''t open tunnels in the device'' @ [CHR 0x27] @ ''s account; contact your operator'')
      | TunnelingErrorUnknown \<Rightarrow> BrokerError 503 ''tunneling backend unavailable'')"

definition recordTunnelDenialFor ::
  "'w PipelineDeps \<Rightarrow> AuditEvent \<Rightarrow> string \<Rightarrow> TunnelOpenRequest \<Rightarrow> 'w world \<Rightarrow> 'w world" where
  "recordTunnelDenialFor d ev deniedReason request w =
     recordEndpointDenial d (ev\<lparr>ev_Event := EventTunnelDenied, ev_DeniedReason := deniedReason,
       ev_DeviceIDUsed := tun_DeviceID request, ev_PrincipalType := ModeTunnel\<rparr>) w"

definition RecordTunnelHandlerDenial :: "'w TunnelIssuer \<Rightarrow> HandlerDenial \<Rightarrow> 'w world \<Rightarrow> 'w world" where
  "RecordTunnelHandlerDenial i denial w =
     recordEndpointHandlerDenial (ni_deps i) denial EventTunnelDenied ModeTunnel w"

definition targetDenialEvent :: "engineerContext \<Rightarrow> DeviceRecord \<Rightarrow> tunnelTargetDenial \<Rightarrow> AuditEvent" where
  "targetDenialEvent ec device td =
     (let event = (denialTemplate ec)\<lparr>ev_DeviceSerial := dev_Serial device\<rparr>
      in case td_target td of
           None \<Rightarrow> event
         | Some t \<Rightarrow> event\<lparr>ev_TunnelRoleARN := tt_RoleARN t, ev_TunnelRegion := tt_Region t\<rparr>)"

definition tunnelAuthorizedEvent ::
  "engineerContext \<Rightarrow> DeviceRecord \<Rightarrow> TunnelOpenRequest \<Rightarrow> int \<Rightarrow> TunnelTarget option \<Rightarrow> AuditEvent" where
  "tunnelAuthorizedEvent ec device request resolvedLifetime target =
     (let authorized =
        (stamp_caller (ec_Caller ec) empty_event)
          \<lparr>ev_Timestamp := ec_Now ec, ev_Event := EventTunnelAuthorized,
           ev_DeviceSerial := dev_Serial device, ev_DeviceIDUsed := tun_DeviceID request,
           ev_PrincipalType := ModeTunnel, ev_JTI := ec_JTI ec, ev_IssuedAt := Unix (ec_Now ec),
           ev_ValidBefore := Unix (ec_Now ec + int64 (resolvedLifetime * Minute)),
           ev_SourceIP := ec_SourceIP ec, ev_UserAgent := ec_UserAgent ec\<rparr>
      in case target of
           None \<Rightarrow> authorized
         | Some t \<Rightarrow> authorized\<lparr>ev_TunnelRoleARN := tt_RoleARN t, ev_TunnelRegion := tt_Region t\<rparr>)"

text \<open>From the authorization row to the response, once the target is known.\<close>

definition openAuthorizedTunnel ::
  "'w TunnelIssuer \<Rightarrow> TunnelOpenRequest \<Rightarrow> engineerContext \<Rightarrow> DeviceRecord \<Rightarrow> int \<Rightarrow> TunnelTarget option
   \<Rightarrow> 'w world \<Rightarrow> TunnelOpenResponse result \<times> 'w world" where
  "openAuthorizedTunnel i request ec device resolvedLifetime target w2 =
     (let d = ni_deps i; authorized = tunnelAuthorizedEvent ec device request resolvedLifetime target in
      case recordAuthorized d authorized w2 of
        (Some err, w3) \<Rightarrow> (Inl (Wrapped ''record tunnel audit event: '' err), w3)
      | (None, w3) \<Rightarrow>
          let internal = \<lparr>toi_ThingName = thingName i (dev_Serial device), toi_Services = [''SSH''],
                          toi_MaxLifetimeMinutes = resolvedLifetime, toi_Target = target\<rparr> in
          (case traced (ni_tunneling i internal) (\<lambda>x. Opened_Tunnel internal (\<not> isl x)) w3 of
             (Inl err, w4) \<Rightarrow>
               (Inl (mapTunnelingError err),
                recordEndpointDenial d (authorized\<lparr>ev_Event := EventTunnelDenied,
                  ev_DeniedReason := tunnelingDenyReason err\<rparr>) w4)
           | (Inr result, w4) \<Rightarrow>
               (Inr \<lparr>tup_TunnelID = tor_TunnelID result, tup_SourceAccessToken = tor_SourceAccessToken result,
                     tup_Region = tor_Region result, tup_MaxLifetimeMinutes = resolvedLifetime\<rparr>,
                snd (Record d (authorized\<lparr>ev_Event := EventTunnelIssued\<rparr>) w4))))"

definition finishTunnel ::
  "'w TunnelIssuer \<Rightarrow> TunnelOpenRequest \<Rightarrow> engineerContext \<Rightarrow> DeviceRecord \<Rightarrow> int
   \<Rightarrow> 'w world \<Rightarrow> TunnelOpenResponse result \<times> 'w world" where
  "finishTunnel i request ec device resolvedLifetime w2 =
     (if ni_targetFromRegistry i then
        (case resolveTunnelTarget device (ni_allowedRoleARNs i) of
           Inl td \<Rightarrow>
             (Inl (td_err td),
              recordTunnelDenialFor (ni_deps i) (targetDenialEvent ec device td) (td_reason td) request w2)
         | Inr t \<Rightarrow> openAuthorizedTunnel i request ec device resolvedLifetime (Some t) w2)
      else openAuthorizedTunnel i request ec device resolvedLifetime None w2)"

definition deviceTunnel ::
  "'w TunnelIssuer \<Rightarrow> TunnelOpenRequest \<Rightarrow> engineerContext \<Rightarrow> int \<Rightarrow> 'w world \<Rightarrow> TunnelOpenResponse result \<times> 'w world" where
  "deviceTunnel i request ec resolvedLifetime w1 =
     (case resolveDevice (ni_deps i)
             \<lparr>dp_Caller = ec_Caller ec, dp_AccessToken = tun_AccessToken request,
              dp_DeviceID = tun_DeviceID request, dp_Mode = ModeTunnel,
              dp_SourceIP = ec_SourceIP ec, dp_UserAgent = ec_UserAgent ec,
              dp_JTI = ec_JTI ec, dp_Now = ec_Now ec,
              dp_PolicyContext = [(''requested_max_lifetime_minutes'', VInt64 resolvedLifetime)]\<rparr> w1 of
        (Failed err, w2) \<Rightarrow> (Inl err, w2)
      | (Denied dn, w2) \<Rightarrow>
          (Inl (pn_Err dn), recordTunnelDenialFor (ni_deps i) (pn_Event dn) (pn_DeniedReason dn) request w2)
      | (Passed device, w2) \<Rightarrow> finishTunnel i request ec device resolvedLifetime w2)"

definition OpenTunnel ::
  "'w TunnelIssuer \<Rightarrow> TunnelOpenRequest \<Rightarrow> 'w world \<Rightarrow> TunnelOpenResponse result \<times> 'w world" where
  "OpenTunnel i request w0 =
     (let d = ni_deps i in
      case verifyEngineer d \<lparr>ep_AccessToken = tun_AccessToken request, ep_Mode = ModeTunnel,
             ep_SourceIP = tun_RemoteAddr request, ep_UserAgent = tun_UserAgent request\<rparr> w0 of
        (Failed err, w1) \<Rightarrow> (Inl (Wrapped ''generate tunnel id: '' err), w1)
      | (Denied dn, w1) \<Rightarrow>
          (Inl (pn_Err dn), recordTunnelDenialFor d (pn_Event dn) (pn_DeniedReason dn) request w1)
      | (Passed ec, w1) \<Rightarrow>
          let requestedLifetime = tun_MaxLifetimeMinutes request in
          if requestedLifetime < 0 then
            (Inl (BrokerError 400 ''max_lifetime_minutes must be non-negative''),
             recordTunnelDenialFor d (denialTemplate ec) DenyReasonMaxLifetimeExceedsCeiling request w1)
          else if requestedLifetime > MaxTunnelLifetimeMinutes then
            (Inl (BrokerError 400 (''max_lifetime_minutes must be at most '' @ FormatInt MaxTunnelLifetimeMinutes
               @ '' (AWS 12-hour ceiling)'')),
             recordTunnelDenialFor d (denialTemplate ec) DenyReasonMaxLifetimeExceedsCeiling request w1)
          else
            deviceTunnel i request ec
              (if requestedLifetime = 0 then ni_defaultMaxLifetime i else requestedLifetime) w1)"

section \<open>The pipeline follows the audit protocol\<close>

definition tunnel_names :: event_names where
  "tunnel_names = \<lparr>en_authorized = EventTunnelAuthorized, en_issued = EventTunnelIssued, en_denied = EventTunnelDenied\<rparr>"

lemma tunnel_names_sel [simp]:
  "en_authorized tunnel_names = EventTunnelAuthorized" "en_issued tunnel_names = EventTunnelIssued"
  "en_denied tunnel_names = EventTunnelDenied"
  by (simp_all add: tunnel_names_def)

lemma tunnel_events_distinct [simp]:
  "EventTunnelAuthorized \<noteq> EventTunnelIssued" "EventTunnelAuthorized \<noteq> EventTunnelDenied"
  "EventTunnelIssued \<noteq> EventTunnelDenied"
  by (simp_all add: event_defs)

lemma tunnel_reasons_nonempty [simp]:
  "DenyReasonMaxLifetimeExceedsCeiling \<noteq> []" "tunnelingDenyReason err \<noteq> []"
  by (auto simp: tunnelingDenyReason_def DenyReasonMaxLifetimeExceedsCeiling_def DenyReasonTunnelLimitExceeded_def
      DenyReasonTunnelTargetAccessDenied_def DenyReasonTunnelingUnavailable_def split: TunnelingErrorKind.splits)

lemma target_reason_nonempty: "resolveTunnelTarget device allowed = Inl td \<Longrightarrow> td_reason td \<noteq> []"
  by (auto simp: resolveTunnelTarget_def Let_def DenyReasonTunnelTargetInvalid_def DenyReasonTunnelTargetMissing_def
      DenyReasonTunnelRoleNotAllowed_def split: prod.splits if_splits)

lemma targetDenialEvent_JTI [simp]: "ev_JTI (targetDenialEvent ec device td) = ec_JTI ec"
  by (simp add: targetDenialEvent_def Let_def split: option.splits)

lemma at_gate_recordTunnelDenialFor:
  assumes "at_gate tunnel_names j g w w1" and "deniable g" and "ev_JTI ev = j" and "reason \<noteq> []"
  shows "at_gate tunnel_names j G_Refused w (recordTunnelDenialFor d ev reason request w1)"
  unfolding recordTunnelDenialFor_def
  by (rule at_gate_deny [OF assms(1,2)]) (use assms in \<open>simp add: deny_row_def\<close>)

lemma tunnelAuthorizedEvent_row:
  "permits p ec device \<Longrightarrow> auth_row tunnel_names (ec_JTI ec) p (tunnelAuthorizedEvent ec device request m target)"
  by (simp add: auth_row_def tunnelAuthorizedEvent_def stamp_caller_def permits_def Let_def split: option.splits)

lemma tunnelAuthorizedEvent_JTI [simp]: "ev_JTI (tunnelAuthorizedEvent ec device request m target) = ec_JTI ec"
  by (simp add: tunnelAuthorizedEvent_def Let_def split: option.splits)

lemma openAuthorizedTunnel_protocol:
  assumes "openAuthorizedTunnel i request ec device m target w2 = (res, w')"
    and "at_gate tunnel_names (ec_JTI ec) (G_Permitted p) w w2" and "permits p ec device"
  shows "at_gate tunnel_names (ec_JTI ec) (if isl res then G_Refused else G_Issued) w w'"
proof -
  let ?ev = "tunnelAuthorizedEvent ec device request m target"
  let ?int = "\<lparr>toi_ThingName = thingName i (dev_Serial device), toi_Services = [''SSH''],
      toi_MaxLifetimeMinutes = m, toi_Target = target\<rparr>"
  obtain r w3 where rec: "recordAuthorized (ni_deps i) ?ev w2 = (r, w3)" by fastforce
  from at_gate_authorize [OF assms(2) rec tunnelAuthorizedEvent_row [OF assms(3)]]
  have auth: "at_gate tunnel_names (ec_JTI ec) (if r = None then G_Authorized p ?ev else G_Refused) w w3" by simp
  show ?thesis
  proof (cases r)
    case (Some e)
    with rec auth assms(1) show ?thesis by (auto simp: openAuthorizedTunnel_def Let_def)
  next
    case None
    obtain s w4 where act: "traced (ni_tunneling i ?int) (\<lambda>x. Opened_Tunnel ?int (\<not> isl x)) w3 = (s, w4)" by fastforce
    from None auth have "at_gate tunnel_names (ec_JTI ec) (G_Authorized p ?ev) w w3" by simp
    from at_gate_act [OF this act]
    have acted: "at_gate tunnel_names (ec_JTI ec) (G_Acted p ?ev (Opened_Tunnel ?int (\<not> isl s))) w w4" by simp
    from at_gate_issue [OF acted, of "ni_deps i"] at_gate_deny [OF acted] rec act None assms(1) show ?thesis
      by (cases s) (auto simp: openAuthorizedTunnel_def Let_def)
  qed
qed

lemma finishTunnel_protocol:
  assumes "finishTunnel i request ec device m w2 = (res, w')"
    and "at_gate tunnel_names (ec_JTI ec) (G_Permitted p) w w2" and "permits p ec device"
  shows "at_gate tunnel_names (ec_JTI ec) (if isl res then G_Refused else G_Issued) w w'"
proof (cases "ni_targetFromRegistry i \<and> isl (resolveTunnelTarget device (ni_allowedRoleARNs i))")
  case True
  then obtain td where "resolveTunnelTarget device (ni_allowedRoleARNs i) = Inl td" "ni_targetFromRegistry i"
    by (cases "resolveTunnelTarget device (ni_allowedRoleARNs i)") auto
  with assms target_reason_nonempty show ?thesis
    by (auto simp: finishTunnel_def intro!: at_gate_recordTunnelDenialFor [OF assms(2)])
next
  case False
  then have "\<exists>target. openAuthorizedTunnel i request ec device m target w2 = (res, w')"
    using assms(1) by (auto simp: finishTunnel_def split: if_splits sum.splits)
  with openAuthorizedTunnel_protocol [OF _ assms(2,3)] show ?thesis by blast
qed

lemma deviceTunnel_protocol:
  assumes "deviceTunnel i request ec m w1 = (res, w')"
    and rated: "at_gate tunnel_names (ec_JTI ec) G_Rated w w1"
  shows "at_gate tunnel_names (ec_JTI ec) (if isl res then G_Refused else G_Issued) w w'"
proof -
  obtain dres w2 where dev: "resolveDevice (ni_deps i)
      \<lparr>dp_Caller = ec_Caller ec, dp_AccessToken = tun_AccessToken request,
       dp_DeviceID = tun_DeviceID request, dp_Mode = ModeTunnel,
       dp_SourceIP = ec_SourceIP ec, dp_UserAgent = ec_UserAgent ec,
       dp_JTI = ec_JTI ec, dp_Now = ec_Now ec,
       dp_PolicyContext = [(''requested_max_lifetime_minutes'', VInt64 m)]\<rparr> w1 = (dres, w2)" by fastforce
  from rated dev show ?thesis
  proof (cases rule: at_gate_device)
    case (denied dn g)
    with assms(1) dev show ?thesis by (auto simp: deviceTunnel_def intro: at_gate_recordTunnelDenialFor)
  next
    case (passed device p)
    with assms(1) dev show ?thesis
      by (auto simp: deviceTunnel_def dest: finishTunnel_protocol)
  qed simp_all
qed

lemma OpenTunnel_protocol:
  assumes "OpenTunnel i request w = (res, w')"
  shows "case request_id (ni_deps i) w of None \<Rightarrow> wld_trace w' = wld_trace w \<and> isl res
    | Some j \<Rightarrow> at_gate tunnel_names j (if isl res then G_Refused else G_Issued) w w'"
proof -
  obtain r w1 where v: "verifyEngineer (ni_deps i) \<lparr>ep_AccessToken = tun_AccessToken request,
      ep_Mode = ModeTunnel, ep_SourceIP = tun_RemoteAddr request, ep_UserAgent = tun_UserAgent request\<rparr> w = (r, w1)"
    by fastforce
  show ?thesis
  proof (cases r)
    case (Failed e)
    with v have "request_id (ni_deps i) w = None" "wld_trace w1 = wld_trace w" by (simp_all add: verifyEngineer_id(1) verifyEngineer_Failed)
    with v Failed assms show ?thesis by (auto simp: OpenTunnel_def)
  next
    case (Denied dn)
    with v have "request_id (ni_deps i) w = Some (ev_JTI (pn_Event dn))" by (simp add: verifyEngineer_id(2))
    with v Denied assms at_gate_verify_Denied [of _ _ w dn w1 tunnel_names] show ?thesis
      by (auto simp: OpenTunnel_def intro!: at_gate_recordTunnelDenialFor)
  next
    case (Passed ec)
    with v have rated: "at_gate tunnel_names (ec_JTI ec) G_Rated w w1"
      by (simp add: at_gate_verify_Passed)
    have "at_gate tunnel_names (ec_JTI ec) (if isl res then G_Refused else G_Issued) w w'"
      using assms v Passed rated
      by (auto simp: OpenTunnel_def Let_def split: if_splits
          intro: at_gate_recordTunnelDenialFor dest: deviceTunnel_protocol)
    moreover from v Passed have "request_id (ni_deps i) w = Some (ec_JTI ec)" by (simp add: verifyEngineer_id(3))
    ultimately show ?thesis by simp
  qed
qed

interpretation tunnel: issue_pipeline "OpenTunnel i" tunnel_names "request_id (ni_deps i)" for i
  by unfold_locales (rule OpenTunnel_protocol, simp_all)

section \<open>What is opened\<close>

definition tunnelLifetime :: "'w TunnelIssuer \<Rightarrow> TunnelOpenRequest \<Rightarrow> int" where
  "tunnelLifetime i request =
     (if tun_MaxLifetimeMinutes request = 0 then ni_defaultMaxLifetime i else tun_MaxLifetimeMinutes request)"

definition targetFor :: "'w TunnelIssuer \<Rightarrow> DeviceRecord \<Rightarrow> TunnelTarget option \<Rightarrow> bool" where
  "targetFor i device target \<longleftrightarrow>
     (if ni_targetFromRegistry i
      then \<exists>t. target = Some t \<and> resolveTunnelTarget device (ni_allowedRoleARNs i) = Inr t
      else target = None)"

definition internalFor :: "'w TunnelIssuer \<Rightarrow> DeviceRecord \<Rightarrow> int \<Rightarrow> TunnelTarget option \<Rightarrow> TunnelOpenInternal" where
  "internalFor i device m target =
     \<lparr>toi_ThingName = thingName i (dev_Serial device), toi_Services = [''SSH''], toi_MaxLifetimeMinutes = m, toi_Target = target\<rparr>"

lemma openAuthorizedTunnel_trace:
  assumes "openAuthorizedTunnel i request ec device m target w2 = (res, w')"
  shows "(\<exists>ev b. wld_trace w' = wld_trace w2 @ [Audited ev b] \<and> isl res)
    \<or> (\<exists>ev b'. wld_trace w' = wld_trace w2 @ [Audited (tunnelAuthorizedEvent ec device request m target) True,
             Opened_Tunnel (internalFor i device m target) (\<not> isl res), Audited ev b'])"
  using assms
  by (auto simp: openAuthorizedTunnel_def Let_def recordEndpointDenial_def Record_trace recordAuthorized_def internalFor_def
      dest!: Record_eq traced_trace split: option.splits prod.splits sum.splits)

lemma finishTunnel_trace:
  assumes "finishTunnel i request ec device m w2 = (res, w')"
  shows "(\<exists>ev b. wld_trace w' = wld_trace w2 @ [Audited ev b] \<and> isl res)
    \<or> (\<exists>target ev b'. targetFor i device target
         \<and> wld_trace w' = wld_trace w2 @ [Audited (tunnelAuthorizedEvent ec device request m target) True,
             Opened_Tunnel (internalFor i device m target) (\<not> isl res), Audited ev b'])"
proof (cases "ni_targetFromRegistry i \<and> isl (resolveTunnelTarget device (ni_allowedRoleARNs i))")
  case True
  then obtain td where "resolveTunnelTarget device (ni_allowedRoleARNs i) = Inl td" "ni_targetFromRegistry i"
    by (cases "resolveTunnelTarget device (ni_allowedRoleARNs i)") auto
  with assms show ?thesis
    by (auto simp: finishTunnel_def recordTunnelDenialFor_def recordEndpointDenial_def Record_trace)
next
  case False
  then obtain target where "targetFor i device target" "openAuthorizedTunnel i request ec device m target w2 = (res, w')"
    using assms by (auto simp: finishTunnel_def targetFor_def split: if_splits sum.splits)
  with openAuthorizedTunnel_trace show ?thesis by blast
qed

lemma deviceTunnel_trace:
  assumes "deviceTunnel i request ec m w1 = (res, w')"
  shows "(\<exists>es. wld_trace w' = wld_trace w1 @ es \<and> list_all (\<lambda>e. \<not> is_action e) es \<and> isl res)
    \<or> (\<exists>device p target ev b'. permits p ec device \<and> pol_Mode p = ModeTunnel
         \<and> pol_Context p = [(''requested_max_lifetime_minutes'', VInt64 m)] \<and> targetFor i device target
         \<and> wld_trace w' = wld_trace w1 @ [Called_Resolve (tun_DeviceID request) True, Called_Policy p True,
             Audited (tunnelAuthorizedEvent ec device request m target) True,
             Opened_Tunnel (internalFor i device m target) (\<not> isl res), Audited ev b'])"
proof -
  let ?dr = "\<lparr>dp_Caller = ec_Caller ec, dp_AccessToken = tun_AccessToken request,
       dp_DeviceID = tun_DeviceID request, dp_Mode = ModeTunnel,
       dp_SourceIP = ec_SourceIP ec, dp_UserAgent = ec_UserAgent ec,
       dp_JTI = ec_JTI ec, dp_Now = ec_Now ec,
       dp_PolicyContext = [(''requested_max_lifetime_minutes'', VInt64 m)]\<rparr>"
  obtain dres w2 where dev: "resolveDevice (ni_deps i) ?dr w1 = (dres, w2)" by fastforce
  show ?thesis
  proof (cases dres)
    case (Failed e)
    with dev resolveDevice_not_Failed show ?thesis by metis
  next
    case (Denied dn)
    from resolveDevice_quiet [OF dev] obtain es
      where "wld_trace w2 = wld_trace w1 @ es" "list_all quiet es" by blast
    with Denied assms dev show ?thesis
      by (auto simp: deviceTunnel_def recordTunnelDenialFor_def recordEndpointDenial_def Record_trace
          quiet_def list_all_iff)
  next
    case (Passed device)
    with assms dev have fin: "finishTunnel i request ec device m w2 = (res, w')"
      by (simp add: deviceTunnel_def)
    from resolveDevice_Passed [OF dev [unfolded Passed]] obtain p
      where "wld_trace w2 = wld_trace w1 @ [Called_Resolve (tun_DeviceID request) True, Called_Policy p True]"
        "permits p ec device" "pol_Mode p = ModeTunnel"
        "pol_Context p = [(''requested_max_lifetime_minutes'', VInt64 m)]"
      by (auto simp: permits_def)
    with finishTunnel_trace [OF fin] show ?thesis by fastforce
  qed
qed

lemma OpenTunnel_trace:
  assumes "OpenTunnel i request w = (res, w')"
  shows "list_all (\<lambda>e. \<not> is_action e) (effects w w') \<and> isl res
    \<or> (\<exists>ec device rl p target ev b'. permits p ec device \<and> rl_Caller rl = ec_Caller ec \<and> pol_Mode p = ModeTunnel
         \<and> 0 \<le> tun_MaxLifetimeMinutes request \<and> tun_MaxLifetimeMinutes request \<le> MaxTunnelLifetimeMinutes
         \<and> pol_Context p = [(''requested_max_lifetime_minutes'', VInt64 (tunnelLifetime i request))]
         \<and> targetFor i device target
         \<and> effects w w' = [Called_Verify (tun_AccessToken request) True, Called_RateLimit rl True,
             Called_Resolve (tun_DeviceID request) True, Called_Policy p True,
             Audited (tunnelAuthorizedEvent ec device request (tunnelLifetime i request) target) True,
             Opened_Tunnel (internalFor i device (tunnelLifetime i request) target) (\<not> isl res), Audited ev b'])"
proof -
  obtain r w1 where v: "verifyEngineer (ni_deps i) \<lparr>ep_AccessToken = tun_AccessToken request,
      ep_Mode = ModeTunnel, ep_SourceIP = tun_RemoteAddr request, ep_UserAgent = tun_UserAgent request\<rparr> w = (r, w1)"
    by fastforce
  from verifyEngineer_quiet [OF v] obtain es
    where q: "wld_trace w1 = wld_trace w @ es" "list_all (\<lambda>e. \<not> is_action e) es"
    by (auto simp: quiet_def list_all_iff)
  show ?thesis
  proof (cases "\<exists>ec. r = Passed ec \<and> 0 \<le> tun_MaxLifetimeMinutes request
      \<and> tun_MaxLifetimeMinutes request \<le> MaxTunnelLifetimeMinutes")
    case False
    with v assms q show ?thesis
      by (cases r) (auto simp: OpenTunnel_def Let_def effects_def recordTunnelDenialFor_def recordEndpointDenial_def
          Record_trace split: if_splits)
  next
    case True
    then obtain ec where ec: "r = Passed ec" and m: "0 \<le> tun_MaxLifetimeMinutes request"
      "tun_MaxLifetimeMinutes request \<le> MaxTunnelLifetimeMinutes" by blast
    from verifyEngineer_Passed [OF v [unfolded ec]] obtain rl
      where rl: "wld_trace w1 = wld_trace w @ [Called_Verify (tun_AccessToken request) True, Called_RateLimit rl True]"
        "rl_Caller rl = ec_Caller ec" by auto
    from assms v ec m have "deviceTunnel i request ec (tunnelLifetime i request) w1 = (res, w')"
      by (auto simp: OpenTunnel_def Let_def tunnelLifetime_def)
    from deviceTunnel_trace [OF this] rl q m show ?thesis by (fastforce simp: effects_def)
  qed
qed

lemma NewTunnelIssuer_inv:
  assumes "NewTunnelIssuer ck ids deps = Inr i"
  shows "0 < ni_defaultMaxLifetime i" "ni_defaultMaxLifetime i \<le> 720"
    and "Count (ni_thingNameFormat i) ''{serial}'' = 1"
    and "ni_targetFromRegistry i \<Longrightarrow> ni_allowedRoleARNs i \<noteq> [] \<and> validateAllowedRoleARNs (ni_allowedRoleARNs i) = None"
  using assms
  by (auto simp: NewTunnelIssuer_def tunnelErrors_def errors_Join_None Let_def MaxTunnelLifetimeMinutes_def
      DefaultTunnelLifetimeMinutes_def tunnelSerialPlaceholder_def split: option.splits if_splits)

lemma Count_one_Index:
  assumes "Count s sub = 1" and "sub \<noteq> []"
  shows "\<exists>i. Index s sub = Some i"
  using assms by (auto simp: Count.simps [of s sub] split: option.splits)

lemma Replace1_inj:
  assumes "Count f sub = 1" and "sub \<noteq> []" and "Replace1 f sub a = Replace1 f sub b"
  shows "a = b"
  using Count_one_Index [OF assms(1,2)] assms(3) by (auto simp: Replace1_def)

section \<open>A concrete run\<close>

definition sample_tunnel_deps :: "nat TunnelIssuerDeps" where
  "sample_tunnel_deps =
     \<lparr>nd_Pipeline =
        \<lparr>pa_TokenVerifier = Some (pd_TokenVerifier sample_deps),
         pa_Registry = Some (\<lambda>i e. (if i = ''lab'' then Inr sample_target_device else Inl (BrokerError 404 ''device not found''), e)),
         pa_Policy = Some (pd_Policy sample_deps), pa_RateLimiter = Some (pd_RateLimiter sample_deps),
         pa_Audit = Some (pd_Audit sample_deps), pa_Clock = None, pa_IDs = None\<rparr>,
      nd_Tunneling = Some (\<lambda>t e. (Inr \<lparr>tor_TunnelID = ''tid'', tor_SourceAccessToken = ''sat'', tor_Region = ''us-east-1''\<rparr>, e)),
      nd_DefaultMaxLifetimeMinutes = 100000, nd_ThingNameFormat = [], nd_TargetFromRegistry = True,
      nd_AllowedRoleARNs = [''arn:aws:iam::123456789012:role/tun-*'']\<rparr>"

definition sample_tunnel_issuer :: "nat TunnelIssuer" where
  "sample_tunnel_issuer =
     (case NewTunnelIssuer (pd_Clock sample_deps) (pd_IDs sample_deps) sample_tunnel_deps of Inr i \<Rightarrow> i)"

definition sample_tunnel_request :: TunnelOpenRequest where
  "sample_tunnel_request = \<lparr>tun_AccessToken = ''tok'', tun_DeviceID = ''lab'', tun_MaxLifetimeMinutes = 0,
     tun_UserAgent = ''ua'', tun_RemoteAddr = ''ip''\<rparr>"

definition sample_tunnel_out :: "TunnelOpenResponse result \<times> nat world" where
  "sample_tunnel_out = OpenTunnel sample_tunnel_issuer sample_tunnel_request sample_world"

lemma sample_tunnel_constructed:
  "NewTunnelIssuer (pd_Clock sample_deps) (pd_IDs sample_deps) sample_tunnel_deps = Inr sample_tunnel_issuer"
proof -
  have "\<not> isl (NewTunnelIssuer (pd_Clock sample_deps) (pd_IDs sample_deps) sample_tunnel_deps)" by code_simp
  then show ?thesis unfolding sample_tunnel_issuer_def
    by (cases "NewTunnelIssuer (pd_Clock sample_deps) (pd_IDs sample_deps) sample_tunnel_deps") auto
qed

lemma sample_tunnel_run:
  "OpenTunnel sample_tunnel_issuer sample_tunnel_request sample_world = (fst sample_tunnel_out, snd sample_tunnel_out)"
  "\<not> isl (fst sample_tunnel_out)" "length (effects sample_world (snd sample_tunnel_out)) = 7"
  "case effects sample_world (snd sample_tunnel_out) ! 5 of Opened_Tunnel t b \<Rightarrow> b | _ \<Rightarrow> False"
proof -
  show "OpenTunnel sample_tunnel_issuer sample_tunnel_request sample_world = (fst sample_tunnel_out, snd sample_tunnel_out)"
    by (simp add: sample_tunnel_out_def)
qed (code_simp+)

lemma sample_tunnel_split:
  "\<exists>t b. effects sample_world (snd sample_tunnel_out) =
     take 5 (effects sample_world (snd sample_tunnel_out)) @ Opened_Tunnel t b # drop 6 (effects sample_world (snd sample_tunnel_out))"
proof -
  let ?e = "effects sample_world (snd sample_tunnel_out)"
  obtain t b where "?e ! 5 = Opened_Tunnel t b"
    using sample_tunnel_run(4) by (cases "?e ! 5") auto
  with id_take_nth_drop [of 5 ?e] sample_tunnel_run(3) show ?thesis by auto
qed

section \<open>Properties\<close>

text \<open>
  C2: A tunnel is opened only behind every gate and only where the operator allows. For an issuer
  built by \<open>NewTunnelIssuer\<close>, every call of the tunneling backend follows a verified token, an
  admitted rate-limit request, a resolved device, a policy decision that saw the very lifetime of the
  tunnel, and a recorded authorization row; the lifetime is between 1 and 720 minutes, also when the
  request leaves it out; the only service is SSH; and with registry targeting the target is the one of
  the device record, matches the allowlist, and is what the audit row says.
\<close>

theorem opened_tunnel_authorized:
  assumes "NewTunnelIssuer ck ids deps = Inr i" and "OpenTunnel i request w = (res, w')"
    and "effects w w' = xs @ Opened_Tunnel t b # ys"
  shows "\<exists>rl p ev.
    xs = [Called_Verify (tun_AccessToken request) True, Called_RateLimit rl True,
          Called_Resolve (tun_DeviceID request) True, Called_Policy p True, Audited ev True]
    \<and> rl_Caller rl = pol_Caller p \<and> pol_Mode p = ModeTunnel
    \<and> pol_Context p = [(''requested_max_lifetime_minutes'', VInt64 (toi_MaxLifetimeMinutes t))]
    \<and> 1 \<le> toi_MaxLifetimeMinutes t \<and> toi_MaxLifetimeMinutes t \<le> 720 \<and> toi_Services t = [''SSH'']
    \<and> toi_ThingName t = thingName i (dev_Serial (pol_Device p))
    \<and> ev_Event ev = EventTunnelAuthorized \<and> ev_EngineerSub ev = cl_Subject (pol_Caller p)
    \<and> ev_DeviceSerial ev = dev_Serial (pol_Device p) \<and> ev_JTI ev = pol_RequestID p
    \<and> (case toi_Target t of
         None \<Rightarrow> \<not> ni_targetFromRegistry i \<and> ev_TunnelRoleARN ev = [] \<and> ev_TunnelRegion ev = []
       | Some tgt \<Rightarrow> ni_targetFromRegistry i \<and> resolveTunnelTarget (pol_Device p) (ni_allowedRoleARNs i) = Inr tgt
           \<and> roleARNAllowed (tt_RoleARN tgt) (ni_allowedRoleARNs i)
           \<and> ev_TunnelRoleARN ev = tt_RoleARN tgt \<and> ev_TunnelRegion ev = tt_Region tgt)"
proof -
  from OpenTunnel_trace [OF assms(2)] assms(3)
  obtain ec device rl p target ev b' where
    p: "permits p ec device" "rl_Caller rl = ec_Caller ec" "pol_Mode p = ModeTunnel"
      "pol_Context p = [(''requested_max_lifetime_minutes'', VInt64 (tunnelLifetime i request))]"
      "0 \<le> tun_MaxLifetimeMinutes request" "tun_MaxLifetimeMinutes request \<le> MaxTunnelLifetimeMinutes"
      "targetFor i device target"
    and eff: "xs @ Opened_Tunnel t b # ys = [Called_Verify (tun_AccessToken request) True, Called_RateLimit rl True,
        Called_Resolve (tun_DeviceID request) True, Called_Policy p True,
        Audited (tunnelAuthorizedEvent ec device request (tunnelLifetime i request) target) True,
        Opened_Tunnel (internalFor i device (tunnelLifetime i request) target) (\<not> isl res), Audited ev b']"
    by (auto simp: list_all_iff)
  from eff have xs: "xs = [Called_Verify (tun_AccessToken request) True, Called_RateLimit rl True,
        Called_Resolve (tun_DeviceID request) True, Called_Policy p True,
        Audited (tunnelAuthorizedEvent ec device request (tunnelLifetime i request) target) True]"
      and t: "t = internalFor i device (tunnelLifetime i request) target"
    by (auto simp: append_eq_Cons_conv)
  have life: "1 \<le> tunnelLifetime i request \<and> tunnelLifetime i request \<le> 720"
    using NewTunnelIssuer_inv(1,2) [OF assms(1)] p(5,6) by (auto simp: tunnelLifetime_def MaxTunnelLifetimeMinutes_def)
  have allowed: "resolveTunnelTarget device (ni_allowedRoleARNs i) = Inr tgt \<Longrightarrow> roleARNAllowed (tt_RoleARN tgt) (ni_allowedRoleARNs i)"
    for tgt by (auto simp: resolveTunnelTarget_def Let_def split: prod.splits if_splits)
  show ?thesis
    using p life allowed
    by (auto simp: xs t internalFor_def permits_def tunnelAuthorizedEvent_def stamp_caller_def targetFor_def
        empty_event_def Let_def split: option.splits if_splits)
qed

theorem opened_tunnel_authorized_witness:
  "\<exists>t b rl p ev. effects sample_world (snd sample_tunnel_out) =
      [Called_Verify ''tok'' True, Called_RateLimit rl True, Called_Resolve ''lab'' True, Called_Policy p True, Audited ev True]
      @ Opened_Tunnel t b # drop 6 (effects sample_world (snd sample_tunnel_out))
    \<and> 1 \<le> toi_MaxLifetimeMinutes t \<and> toi_MaxLifetimeMinutes t \<le> 720"
proof -
  obtain t b where split: "effects sample_world (snd sample_tunnel_out) =
     take 5 (effects sample_world (snd sample_tunnel_out)) @ Opened_Tunnel t b # drop 6 (effects sample_world (snd sample_tunnel_out))"
    using sample_tunnel_split by blast
  have req: "tun_AccessToken sample_tunnel_request = ''tok''" "tun_DeviceID sample_tunnel_request = ''lab''"
    by (simp_all add: sample_tunnel_request_def)
  from opened_tunnel_authorized [OF sample_tunnel_constructed sample_tunnel_run(1) split] obtain rl p ev
    where xs: "take 5 (effects sample_world (snd sample_tunnel_out)) = [Called_Verify ''tok'' True, Called_RateLimit rl True,
        Called_Resolve ''lab'' True, Called_Policy p True, Audited ev True]"
      and t: "1 \<le> toi_MaxLifetimeMinutes t" "toi_MaxLifetimeMinutes t \<le> 720"
    unfolding req by blast
  from split [unfolded xs] t show ?thesis by blast
qed

text \<open>
  The audit trail of a tunnel request: a response only with a recorded authorization row and an
  issued row that repeats it; a refusal with one denial row, or a failed authorization row, or a
  recorded authorization followed by a denial with the same request id, or no trace at all.
\<close>

theorem tunnel_audit_trail:
  assumes "OpenTunnel i request w = (res, w')"
  shows "case res of
      Inr resp \<Rightarrow> \<exists>ev b. audit_rows (effects w w') = [(ev, True), (ev\<lparr>ev_Event := EventTunnelIssued\<rparr>, b)]
        \<and> ev_Event ev = EventTunnelAuthorized
    | Inl err \<Rightarrow> effects w w' = []
        \<or> (\<exists>ev b. audit_rows (effects w w') = [(ev, b)] \<and> ev_Event ev = EventTunnelDenied \<and> ev_DeniedReason ev \<noteq> [])
        \<or> (\<exists>ev. audit_rows (effects w w') = [(ev, False)] \<and> ev_Event ev = EventTunnelAuthorized)
        \<or> (\<exists>ev ev' b. audit_rows (effects w w') = [(ev, True), (ev', b)] \<and> ev_Event ev = EventTunnelAuthorized
             \<and> ev_Event ev' = EventTunnelDenied \<and> ev_JTI ev' = ev_JTI ev \<and> ev_DeniedReason ev' \<noteq> [])"
proof (cases res)
  case (Inl err)
  with tunnel.failure_audit_rows [of i request w err w'] assms show ?thesis by simp
next
  case (Inr resp)
  with tunnel.success_audit_rows [of i request w resp w'] assms show ?thesis by simp
qed

theorem tunnel_audit_trail_witness:
  "\<exists>ev b. audit_rows (effects sample_world (snd sample_tunnel_out)) = [(ev, True), (ev\<lparr>ev_Event := EventTunnelIssued\<rparr>, b)]
     \<and> ev_Event ev = EventTunnelAuthorized"
  using tunnel_audit_trail [OF sample_tunnel_run(1)] sample_tunnel_run(2) by (cases "fst sample_tunnel_out") auto

text \<open>
  The device is addressed unambiguously: with the one placeholder that \<open>NewTunnelIssuer\<close> insists
  on, different serials give different AWS thing names.
\<close>

theorem thingName_injective:
  assumes "NewTunnelIssuer ck ids deps = Inr i" and "thingName i s = thingName i t"
  shows "s = t"
  using Replace1_inj [OF NewTunnelIssuer_inv(3) [OF assms(1)]] assms(2)
  by (simp add: thingName_def tunnelSerialPlaceholder_def)

theorem thingName_injective_witness:
  "thingName sample_tunnel_issuer ''S1'' = ''device-S1'' \<and> (thingName sample_tunnel_issuer ''S1'' = thingName sample_tunnel_issuer ''S1'')"
proof -
  have "thingName sample_tunnel_issuer ''S1'' = ''device-S1''" by code_simp
  with thingName_injective [OF sample_tunnel_constructed, of "''S1''" "''S1''"] show ?thesis by simp
qed

text \<open>
  Backend failures are reported consistently: the HTTP status and the reason in the audit row
  come from the same classification of the error, through any wrapping: 429 with
  \<open>tunnel_limit_exceeded\<close>, 500 with \<open>tunnel_target_access_denied\<close>, 503 with \<open>tunneling_unavailable\<close>.
\<close>

theorem tunnel_error_status:
  "(StatusCode (mapTunnelingError err), tunnelingDenyReason err) \<in>
     {(429, DenyReasonTunnelLimitExceeded), (500, DenyReasonTunnelTargetAccessDenied), (503, DenyReasonTunnelingUnavailable)}
   \<and> mapTunnelingError (Wrapped s err) = mapTunnelingError err \<and> tunnelingDenyReason (Wrapped s err) = tunnelingDenyReason err"
  by (cases "tunnelingErrorKind err")
    (simp_all add: mapTunnelingError_def tunnelingDenyReason_def tunnelingErrorKind_def)

end
