(* ===== verification/Tunnel_Backend.thy ===== *)
theory Tunnel_Backend
  imports Tunnel
begin

text \<open>
  The tunneling backend (src/internal/tunneling/awsiot.go): AWS IoT Secure Tunneling on a fixed
  client, or on a client per registry target whose credentials come from assuming the target role.
  The SDK is a parameter. Clients and credentials are cached per target and per role; the cache is
  explicit state, and it is shown to be transparent.
\<close>

section \<open>Definitions\<close>

definition ErrTunnelingRegionRequired :: go_error where
  "ErrTunnelingRegionRequired = Plain ''tunneling AWS region is required''"

definition DefaultRoleSessionName :: string where
  "DefaultRoleSessionName = ''postern-broker''"

definition maxRoleSessionNameLen :: nat where
  "maxRoleSessionNameLen = 64"

text \<open>Input and output of the SDK call; the two strings of the output are pointers.\<close>

record OpenTunnelInput =
  oti_ThingName :: string
  oti_Services :: "string list"
  oti_MaxLifetimeTimeoutMinutes :: int

record OpenTunnelOutput =
  oto_TunnelId :: "string option"
  oto_SourceAccessToken :: "string option"

type_synonym 'w AWSIoTClient = "OpenTunnelInput \<Rightarrow> 'w \<Rightarrow> OpenTunnelOutput result \<times> 'w"

record ('c, 'w) targetClients =
  tc_newCredentials :: "string \<Rightarrow> 'c"
  tc_newClient :: "'c \<Rightarrow> string \<Rightarrow> 'w AWSIoTClient"
  tc_credentials :: "string \<Rightarrow> 'c option"
  tc_clients :: "TunnelTarget \<Rightarrow> 'w AWSIoTClient option"

record ('c, 'w) AWSIoTTunneling =
  aws_client :: "'w AWSIoTClient option"
  aws_region :: string
  aws_targets :: "('c, 'w) targetClients option"

definition NewAWSIoTTunneling :: "'w AWSIoTClient \<Rightarrow> string \<Rightarrow> ('c, 'w) AWSIoTTunneling result" where
  "NewAWSIoTTunneling client region =
     (if region = [] then Inl ErrTunnelingRegionRequired
      else Inr \<lparr>aws_client = Some client, aws_region = region, aws_targets = None\<rparr>)"

definition NewAWSIoTTunnelingFromConfig :: "(string \<Rightarrow> 'w AWSIoTClient) \<Rightarrow> string \<Rightarrow> ('c, 'w) AWSIoTTunneling result" where
  "NewAWSIoTTunnelingFromConfig NewFromConfig region = NewAWSIoTTunneling (NewFromConfig region) region"

definition newTargetTunneling ::
  "(string \<Rightarrow> 'c) \<Rightarrow> ('c \<Rightarrow> string \<Rightarrow> 'w AWSIoTClient) \<Rightarrow> ('c, 'w) AWSIoTTunneling" where
  "newTargetTunneling newCredentials newClient =
     \<lparr>aws_client = None, aws_region = [],
      aws_targets = Some \<lparr>tc_newCredentials = newCredentials, tc_newClient = newClient,
        tc_credentials = (\<lambda>_. None), tc_clients = (\<lambda>_. None)\<rparr>\<rparr>"

text \<open>
  \<open>roleSessionName\<close> maps each rune to itself or to a dash. The range loop yields U+FFFD for an
  invalid byte, which becomes a dash like every other foreign rune.
\<close>

definition session_rune :: "nat \<Rightarrow> bool" where
  "session_rune r \<longleftrightarrow> 97 \<le> r \<and> r \<le> 122 \<or> 65 \<le> r \<and> r \<le> 90 \<or> 48 \<le> r \<and> r \<le> 57
     \<or> r \<in> of_char ` set ''_+=,.@-''"

definition roleSessionName :: "string \<Rightarrow> string" where
  "roleSessionName name =
     (let sanitized = map (\<lambda>r. if session_rune r then char_of r else CHR ''-'') (runes (TrimSpace name));
          cut = (if maxRoleSessionNameLen < length sanitized then take maxRoleSessionNameLen sanitized else sanitized)
      in if length cut < 2 then DefaultRoleSessionName else cut)"

text \<open>
  \<open>NewAWSIoTTargetTunnelingFromConfig\<close>: \<open>assume_role\<close> builds the credentials cache of a role for a
  session name and an expiry window; \<open>assumeRoleProvider\<close> tags the failures of \<open>Retrieve\<close>.
\<close>

definition assumeRole_Retrieve :: "('w \<Rightarrow> 'k result \<times> 'w) \<Rightarrow> 'w \<Rightarrow> 'k result \<times> 'w" where
  "assumeRole_Retrieve retrieve e =
     (case retrieve e of (Inl err, e1) \<Rightarrow> (Inl (AssumeRole err), e1) | (Inr k, e1) \<Rightarrow> (Inr k, e1))"

definition NewAWSIoTTargetTunnelingFromConfig ::
  "(string \<Rightarrow> string \<Rightarrow> 'w \<Rightarrow> 'k result \<times> 'w) \<Rightarrow> (duration \<Rightarrow> ('w \<Rightarrow> 'k result \<times> 'w) \<Rightarrow> 'c)
    \<Rightarrow> ('c \<Rightarrow> string \<Rightarrow> 'w AWSIoTClient) \<Rightarrow> string \<Rightarrow> ('c, 'w) AWSIoTTunneling" where
  "NewAWSIoTTargetTunnelingFromConfig AssumeRoleProvider NewCredentialsCache NewFromConfig sessionName0 =
     (let sessionName = roleSessionName sessionName0 in
      newTargetTunneling
        (\<lambda>roleARN. NewCredentialsCache Minute (assumeRole_Retrieve (AssumeRoleProvider sessionName roleARN)))
        NewFromConfig)"

definition client_for :: "('c, 'w) targetClients \<Rightarrow> TunnelTarget \<Rightarrow> 'w AWSIoTClient \<times> ('c, 'w) targetClients" where
  "client_for c target =
     (case tc_clients c target of
        Some client \<Rightarrow> (client, c)
      | None \<Rightarrow>
          let (credentials, c1) =
                (case tc_credentials c (tt_RoleARN target) of
                   Some credentials \<Rightarrow> (credentials, c)
                 | None \<Rightarrow>
                     let credentials = tc_newCredentials c (tt_RoleARN target)
                     in (credentials, c\<lparr>tc_credentials := (tc_credentials c)(tt_RoleARN target \<mapsto> credentials)\<rparr>));
              client = tc_newClient c1 credentials (tt_Region target)
          in (client, c1\<lparr>tc_clients := (tc_clients c1)(target \<mapsto> client)\<rparr>))"

text \<open>\<open>wrap\<close>, and \<open>errors.As\<close> for an SDK error: the code of the first API error of the chain.\<close>

definition wrap :: "TunnelingErrorKind \<Rightarrow> go_error \<Rightarrow> go_error" where
  "wrap kind err = Classified kind err"

fun api_codes :: "go_error \<Rightarrow> string list" where
  "api_codes (Sdk code) = [code]"
| "api_codes (Wrapped _ e) = api_codes e"
| "api_codes (Joined es) = concat (map api_codes es)"
| "api_codes (Classified _ e) = api_codes e"
| "api_codes (AssumeRole e) = api_codes e"
| "api_codes (BrokerError _ _) = []"
| "api_codes (Plain _) = []"

fun has_assume_error :: "go_error \<Rightarrow> bool" where
  "has_assume_error (AssumeRole e) = True"
| "has_assume_error (Wrapped _ e) = has_assume_error e"
| "has_assume_error (Joined es) = list_ex has_assume_error es"
| "has_assume_error (Classified _ e) = has_assume_error e"
| "has_assume_error (Sdk _) = False"
| "has_assume_error (BrokerError _ _) = False"
| "has_assume_error (Plain _) = False"

definition accessDenied :: "go_error \<Rightarrow> bool" where
  "accessDenied err =
     (case api_codes err of
        [] \<Rightarrow> False
      | code # _ \<Rightarrow>
          if has_assume_error err then code = ''AccessDenied'' \<or> code = ''RegionDisabledException''
          else code = ''AccessDeniedException'')"

definition classifyError :: "go_error \<Rightarrow> bool \<Rightarrow> go_error" where
  "classifyError err targeted =
     (if List.member (api_codes err) ''LimitExceededException'' then wrap TunnelingErrorLimitExceeded err
      else if targeted \<and> accessDenied err then wrap TunnelingErrorTargetAccessDenied err
      else wrap TunnelingErrorUnknown err)"

definition tunnelInput :: "TunnelOpenInternal \<Rightarrow> OpenTunnelInput" where
  "tunnelInput request = \<lparr>oti_ThingName = toi_ThingName request, oti_Services = toi_Services request,
     oti_MaxLifetimeTimeoutMinutes = toi_MaxLifetimeMinutes request\<rparr>"

definition tunnelOutput :: "OpenTunnelOutput \<Rightarrow> string \<Rightarrow> TunnelOpenResult result" where
  "tunnelOutput output region =
     (case oto_TunnelId output of
        None \<Rightarrow> Inl (wrap TunnelingErrorUnknown (Plain ''AWS IoT OpenTunnel returned empty tunnel id''))
      | Some tid \<Rightarrow>
          if tid = [] then Inl (wrap TunnelingErrorUnknown (Plain ''AWS IoT OpenTunnel returned empty tunnel id''))
          else (case oto_SourceAccessToken output of
                  None \<Rightarrow> Inl (wrap TunnelingErrorUnknown (Plain ''AWS IoT OpenTunnel returned empty source access token''))
                | Some tok \<Rightarrow>
                    if tok = [] then Inl (wrap TunnelingErrorUnknown (Plain ''AWS IoT OpenTunnel returned empty source access token''))
                    else Inr \<lparr>tor_TunnelID = tid, tor_SourceAccessToken = tok, tor_Region = region\<rparr>))"

definition callOpenTunnel ::
  "'w AWSIoTClient \<Rightarrow> string \<Rightarrow> TunnelOpenInternal \<Rightarrow> 'w \<Rightarrow> TunnelOpenResult result \<times> 'w" where
  "callOpenTunnel client region request e =
     (case client (tunnelInput request) e of
        (Inl err, e1) \<Rightarrow> (Inl (classifyError err (toi_Target request \<noteq> None)), e1)
      | (Inr output, e1) \<Rightarrow> (tunnelOutput output region, e1))"

text \<open>
  The operation on a pair of the backend and the environment: the cache changes with the call. The
  last case is a fixed backend without a client, which no constructor builds.
\<close>

definition AWSIoT_OpenTunnel ::
  "TunnelOpenInternal \<Rightarrow> ('c, 'w) AWSIoTTunneling \<times> 'w \<Rightarrow> TunnelOpenResult result \<times> ('c, 'w) AWSIoTTunneling \<times> 'w" where
  "AWSIoT_OpenTunnel request s =
     (case s of (t, e) \<Rightarrow>
      case (toi_Target request, aws_targets t) of
        (Some _, None) \<Rightarrow>
          (Inl (wrap TunnelingErrorUnknown (Plain ''tunnel target given but registry targeting is not configured'')), t, e)
      | (None, Some _) \<Rightarrow>
          (Inl (wrap TunnelingErrorUnknown (Plain ''registry targeting is configured but the request has no tunnel target'')), t, e)
      | (Some target, Some c) \<Rightarrow>
          (case client_for c target of (client, c1) \<Rightarrow>
           case callOpenTunnel client (tt_Region target) request e of
             (r, e1) \<Rightarrow> (r, t\<lparr>aws_targets := Some c1\<rparr>, e1))
      | (None, None) \<Rightarrow>
          (case aws_client t of
             Some client \<Rightarrow>
               (case callOpenTunnel client (aws_region t) request e of (r, e1) \<Rightarrow> (r, t, e1))
           | None \<Rightarrow> (Inl (Plain ''nil client''), t, e)))"

section \<open>The cache is transparent\<close>

text \<open>
  What the cache holds: per role the credentials built for it, per target the client built from the
  credentials of its role.
\<close>

definition cache_ok :: "('c, 'w) targetClients \<Rightarrow> bool" where
  "cache_ok c \<longleftrightarrow>
     (\<forall>role cr. tc_credentials c role = Some cr \<longrightarrow> cr = tc_newCredentials c role)
     \<and> (\<forall>target client. tc_clients c target = Some client \<longrightarrow>
          tc_credentials c (tt_RoleARN target) \<noteq> None
          \<and> client = tc_newClient c (tc_newCredentials c (tt_RoleARN target)) (tt_Region target))"

lemma client_for_correct:
  assumes "cache_ok c" and "client_for c target = (client, c1)"
  shows "client = tc_newClient c (tc_newCredentials c (tt_RoleARN target)) (tt_Region target)"
    and "cache_ok c1" and "tc_newCredentials c1 = tc_newCredentials c" and "tc_newClient c1 = tc_newClient c"
    and "tc_clients c1 target = Some client"
    and "tc_credentials c \<subseteq>\<^sub>m tc_credentials c1" and "tc_clients c \<subseteq>\<^sub>m tc_clients c1"
  using assms by (auto simp: client_for_def cache_ok_def map_le_def Let_def split: option.splits prod.splits if_splits)

text \<open>Every state the backend can be in: the constructors and the requests.\<close>

inductive backend_reachable :: "('c, 'w) AWSIoTTunneling \<Rightarrow> ('c, 'w) AWSIoTTunneling \<Rightarrow> bool" for t0 where
  start: "backend_reachable t0 t0"
| request: "backend_reachable t0 t \<Longrightarrow> AWSIoT_OpenTunnel req (t, e) = (r, t', e') \<Longrightarrow> backend_reachable t0 t'"

lemma backend_reachable_cache:
  assumes "backend_reachable (newTargetTunneling newCredentials newClient) t"
  shows "\<exists>c. aws_targets t = Some c \<and> cache_ok c \<and> tc_newCredentials c = newCredentials \<and> tc_newClient c = newClient"
  using assms
proof (induction rule: backend_reachable.induct)
  case start
  then show ?case by (simp add: newTargetTunneling_def cache_ok_def)
next
  case (request t req e r t' e')
  then obtain c where c: "aws_targets t = Some c" "cache_ok c" "tc_newCredentials c = newCredentials" "tc_newClient c = newClient"
    by blast
  show ?case
  proof (cases "toi_Target req")
    case None
    with request.hyps(2) c show ?thesis by (auto simp: AWSIoT_OpenTunnel_def)
  next
    case (Some target)
    obtain client c1 where cf: "client_for c target = (client, c1)" by (cases "client_for c target")
    with request.hyps(2) c(1) Some have "aws_targets t' = Some c1"
      by (auto simp: AWSIoT_OpenTunnel_def split: prod.splits)
    with client_for_correct [OF c(2) cf] c show ?thesis by simp
  qed
qed

text \<open>The same request without any cache.\<close>

definition uncached_OpenTunnel ::
  "(string \<Rightarrow> 'c) \<Rightarrow> ('c \<Rightarrow> string \<Rightarrow> 'w AWSIoTClient) \<Rightarrow> TunnelOpenInternal \<Rightarrow> 'w \<Rightarrow> TunnelOpenResult result \<times> 'w" where
  "uncached_OpenTunnel newCredentials newClient request e =
     (case toi_Target request of
        None \<Rightarrow>
          (Inl (wrap TunnelingErrorUnknown (Plain ''registry targeting is configured but the request has no tunnel target'')), e)
      | Some target \<Rightarrow>
          callOpenTunnel (newClient (newCredentials (tt_RoleARN target)) (tt_Region target)) (tt_Region target) request e)"

text \<open>
  C18: the per-target client cache is invisible. In every state a registry-targeted backend can reach
  from its constructor by any sequence of requests, a request behaves exactly as if a client had been
  built from fresh credentials of its own target's role, in its own target's region: no request is
  ever sent with the credentials or in the region of another target. A request without a target
  never reaches AWS.
\<close>

theorem target_cache_transparent:
  assumes "backend_reachable (newTargetTunneling newCredentials newClient) t"
  shows "\<exists>t'. AWSIoT_OpenTunnel req (t, e) =
      (fst (uncached_OpenTunnel newCredentials newClient req e), t', snd (uncached_OpenTunnel newCredentials newClient req e))
    \<and> backend_reachable (newTargetTunneling newCredentials newClient) t'"
proof -
  obtain r t' e' where A: "AWSIoT_OpenTunnel req (t, e) = (r, t', e')" by (cases "AWSIoT_OpenTunnel req (t, e)")
  obtain c where c: "aws_targets t = Some c" "cache_ok c" "tc_newCredentials c = newCredentials" "tc_newClient c = newClient"
    using backend_reachable_cache [OF assms] by blast
  have "(r, e') = uncached_OpenTunnel newCredentials newClient req e"
  proof (cases "toi_Target req")
    case None
    with A c show ?thesis by (simp add: AWSIoT_OpenTunnel_def uncached_OpenTunnel_def)
  next
    case (Some target)
    obtain client c1 where cf: "client_for c target = (client, c1)" by (cases "client_for c target")
    with A c(1,3,4) Some client_for_correct(1) [OF c(2) cf] show ?thesis
      by (auto simp: AWSIoT_OpenTunnel_def uncached_OpenTunnel_def split: prod.splits)
  qed
  then have "r = fst (uncached_OpenTunnel newCredentials newClient req e)" "e' = snd (uncached_OpenTunnel newCredentials newClient req e)"
    by (metis fst_conv) (metis \<open>(r, e') = uncached_OpenTunnel newCredentials newClient req e\<close> snd_conv)
  with A backend_reachable.request [OF assms A] show ?thesis by blast
qed

definition sample_internal :: TunnelOpenInternal where
  "sample_internal = \<lparr>toi_ThingName = ''t'', toi_Services = [''SSH''], toi_MaxLifetimeMinutes = 5,
     toi_Target = Some \<lparr>tt_RoleARN = ''role'', tt_Region = ''eu-west-1''\<rparr>\<rparr>"

theorem target_cache_transparent_witness:
  "\<exists>t'. AWSIoT_OpenTunnel sample_internal
      (newTargetTunneling (\<lambda>role. role) (\<lambda>cr region q e. (Inl (Sdk (cr @ region)), e + 1)), 0 :: nat)
     = (Inl (Classified TunnelingErrorUnknown (Sdk ''roleeu-west-1'')), t', 1)"
  using target_cache_transparent [OF backend_reachable.start, where req = sample_internal and e = "0 :: nat"
        and newCredentials = "\<lambda>role. role" and newClient = "\<lambda>cr region q e. (Inl (Sdk (cr @ region)), e + 1)"]
  by (auto simp: uncached_OpenTunnel_def wrap_def sample_internal_def callOpenTunnel_def classifyError_def accessDenied_def)

section \<open>Session names and errors\<close>

text \<open>
  Whatever name the environment supplies, the STS session name has 2 to 64 characters, all from
  the alphabet STS accepts.
\<close>

theorem roleSessionName_valid:
  "2 \<le> length (roleSessionName name) \<and> length (roleSessionName name) \<le> 64
   \<and> list_all (\<lambda>c. session_rune (of_char c)) (roleSessionName name)"
proof -
  have dflt: "length DefaultRoleSessionName = 14" "list_all (\<lambda>c. session_rune (of_char c)) DefaultRoleSessionName"
    by (simp_all add: DefaultRoleSessionName_def session_rune_def)
  have small: "session_rune r \<Longrightarrow> r < 256" for r
    by (auto simp: session_rune_def)
  have dash: "session_rune (of_char CHR ''-'')" by (simp add: session_rune_def)
  define f where "f r = (if session_rune r then char_of r else CHR ''-'')" for r
  have "session_rune (of_char (f r))" for r
    using small [of r] dash by (simp add: f_def)
  then have all: "list_all (\<lambda>c. session_rune (of_char c)) (map f rs)" for rs
    by (induction rs) simp_all
  have part: "list_all (\<lambda>c. session_rune (of_char c)) (take n (map f rs))" for rs n
    unfolding take_map by (rule all)
  have eq: "roleSessionName name = (let cut = take 64 (map f (runes (TrimSpace name))) in if length cut < 2 then DefaultRoleSessionName else cut)"
    by (simp add: roleSessionName_def maxRoleSessionNameLen_def f_def [abs_def] Let_def)
  show ?thesis
    using dflt part [of 64 "runes (TrimSpace name)"] by (auto simp: eq Let_def min_def split: if_splits)
qed

end
