(* ===== verification/Go_Base64.thy ===== *)
theory Go_Base64
  imports Go_Strings
begin

text \<open>
  Go's \<open>base64.RawURLEncoding\<close>: the URL alphabet without padding. The decoder skips carriage returns
  and newlines and ignores the unused bits of the last character, as the standard library does.
\<close>

section \<open>Definitions\<close>

definition b64_char :: "nat \<Rightarrow> char" where
  "b64_char v =
     (if v < 26 then char_of (65 + v) else if v < 52 then char_of (71 + v)
      else if v < 62 then char_of (v - 4) else if v = 62 then CHR ''-'' else CHR ''_'')"

definition b64_val :: "char \<Rightarrow> nat option" where
  "b64_val c =
     (let n = of_char c in
      if 65 \<le> n \<and> n \<le> 90 then Some (n - 65)
      else if 97 \<le> n \<and> n \<le> 122 then Some (n - 71)
      else if 48 \<le> n \<and> n \<le> 57 then Some (n + 4)
      else if c = CHR ''-'' then Some 62
      else if c = CHR ''_'' then Some 63
      else None)"

fun b64_sextets :: "nat list \<Rightarrow> nat list" where
  "b64_sextets (a # b # c # rest) =
     [a div 4, a mod 4 * 16 + b div 16, b mod 16 * 4 + c div 64, c mod 64] @ b64_sextets rest"
| "b64_sextets [a, b] = [a div 4, a mod 4 * 16 + b div 16, b mod 16 * 4]"
| "b64_sextets [a] = [a div 4, a mod 4 * 16]"
| "b64_sextets [] = []"

fun b64_octets :: "nat list \<Rightarrow> nat list option" where
  "b64_octets (w # x # y # z # rest) =
     map_option (append [w * 4 + x div 16, x mod 16 * 16 + y div 4, y mod 4 * 64 + z]) (b64_octets rest)"
| "b64_octets [w, x, y] = Some [w * 4 + x div 16, x mod 16 * 16 + y div 4]"
| "b64_octets [w, x] = Some [w * 4 + x div 16]"
| "b64_octets [w] = None"
| "b64_octets [] = Some []"

definition RawURL_EncodeToString :: "string \<Rightarrow> string" where
  "RawURL_EncodeToString bs = map b64_char (b64_sextets (map of_char bs))"

definition RawURL_DecodeString :: "string \<Rightarrow> string option" where
  "RawURL_DecodeString s =
     (let vs = map b64_val (filter (\<lambda>c. c \<noteq> CHR 0x0A \<and> c \<noteq> CHR 0x0D) s)
      in if None \<in> set vs then None
         else map_option (map char_of) (b64_octets (map the vs)))"

section \<open>Round trip\<close>

lemma b64_char_code:
  "v < 64 \<Longrightarrow> (of_char (b64_char v) :: nat) =
     (if v < 26 then 65 + v else if v < 52 then 71 + v else if v < 62 then v - 4 else if v = 62 then 45 else 95)"
  by (auto simp: b64_char_def take_bit_eq_mod)

lemma b64_val_char: "v < 64 \<Longrightarrow> b64_val (b64_char v) = Some v"
proof -
  assume v: "v < 64"
  consider "v < 62" | "v = 62" | "v = 63" using v by linarith
  then show ?thesis
    by cases (use b64_char_code [OF v] in \<open>auto simp: b64_val_def Let_def b64_char_def\<close>)
qed

lemma b64_char_graphic: "v < 64 \<Longrightarrow> ascii_graphic (b64_char v)"
  using b64_char_code [of v] by (auto simp: ascii_graphic_def)

lemma b64_sextets_less: "list_all (\<lambda>b. b < 256) bs \<Longrightarrow> list_all (\<lambda>v. v < 64) (b64_sextets bs)"
proof (induction bs rule: b64_sextets.induct)
  case (1 a b c rest)
  then have "a div 4 < 64" "b div 16 < 16" "c div 64 < 4" by (auto simp: less_mult_imp_div_less)
  moreover have "a mod 4 < 4" "b mod 16 < 16" by simp_all
  ultimately have "a mod 4 * 16 + b div 16 < 64" "b mod 16 * 4 + c div 64 < 64" by linarith+
  with 1 \<open>a div 4 < 64\<close> show ?case by simp
next
  case (2 a b)
  then have "a div 4 < 64" "b div 16 < 16" by (auto simp: less_mult_imp_div_less)
  moreover have "a mod 4 < 4" "b mod 16 < 16" by simp_all
  ultimately have "a mod 4 * 16 + b div 16 < 64" "b mod 16 * 4 < 64" by linarith+
  with \<open>a div 4 < 64\<close> show ?case by simp
next
  case (3 a)
  then have "a div 4 < 64" by (auto simp: less_mult_imp_div_less)
  moreover have "a mod 4 < 4" by simp
  ultimately show ?case by simp
qed simp

lemma b64_octets_sextets: "list_all (\<lambda>b. b < 256) bs \<Longrightarrow> b64_octets (b64_sextets bs) = Some bs"
proof (induction bs rule: b64_sextets.induct)
  case (1 a b c rest)
  then have "b div 16 < 16" "c div 64 < 4" by (auto simp: less_mult_imp_div_less)
  moreover have "a div 4 * 4 + a mod 4 = a" "b div 16 * 16 + b mod 16 = b" "c div 64 * 64 + c mod 64 = c" by simp_all
  moreover have "(a mod 4 * 16 + b div 16) div 16 = a mod 4" "(b mod 16 * 4 + c div 64) div 4 = b mod 16"
    using calculation(1,2) by simp_all
  moreover have "(a mod 4 * 16 + b div 16) mod 16 = b div 16" "(b mod 16 * 4 + c div 64) mod 4 = c div 64"
    using calculation(1,2) by simp_all
  ultimately show ?case using 1 by simp
next
  case (2 a b)
  then have "b div 16 < 16" by (auto simp: less_mult_imp_div_less)
  then show ?case by simp
qed simp_all

lemma RawURL_Encode_graphic: "list_all ascii_graphic (RawURL_EncodeToString bs)"
  using b64_sextets_less [of "map of_char bs"] b64_char_graphic
  by (auto simp: RawURL_EncodeToString_def list_all_iff)

lemma RawURL_Decode_Encode: "RawURL_DecodeString (RawURL_EncodeToString bs) = Some bs"
proof -
  let ?vs = "b64_sextets (map of_char bs)"
  have vs: "list_all (\<lambda>v. v < 64) ?vs" by (rule b64_sextets_less) (simp add: list_all_iff)
  have "filter (\<lambda>c. c \<noteq> CHR 0x0A \<and> c \<noteq> CHR 0x0D) (map b64_char ?vs) = map b64_char ?vs"
    using RawURL_Encode_graphic [of bs]
    by (auto simp: filter_id_conv RawURL_EncodeToString_def list_all_iff ascii_graphic_def)
  moreover have "map (b64_val \<circ> b64_char) ?vs = map Some ?vs"
    using vs by (auto simp: list_all_iff b64_val_char)
  moreover have "b64_octets ?vs = Some (map of_char bs)"
    by (rule b64_octets_sextets) (simp add: list_all_iff)
  moreover have "map (\<lambda>x. the (b64_val (b64_char x))) ?vs = ?vs"
    using vs by (intro map_idI) (auto simp: list_all_iff b64_val_char)
  ultimately show ?thesis
    by (auto simp: RawURL_DecodeString_def RawURL_EncodeToString_def Let_def comp_def)
qed

end
