(* ===== verification/Time_Payload.thy ===== *)
theory Time_Payload
  imports SSH_Cert Go_JSON Go_Base64
begin

text \<open>
  The time payload pipeline (src/internal/broker/issuetimepayload.go). go-jose is the parameter
  \<open>jose_lib\<close>: its \<open>Sign\<close> builds a signing input from the header type and the payload, hands it to the
  opaque signer once and keeps the signature; \<open>CompactSerialize\<close> writes the result. The claims are
  marshalled by the model of \<open>encoding/json\<close>, which cannot fail on strings and integers.
\<close>

section \<open>Definitions\<close>

record jose_lib =
  jose_NewSigner :: "string \<Rightarrow> go_error option"
  jose_SigningInput :: "string \<Rightarrow> string \<Rightarrow> string result"
  jose_CompactSerialize :: "string \<Rightarrow> string \<Rightarrow> string \<Rightarrow> string result"

definition timePayloadIssuer :: string where
  "timePayloadIssuer = ''postern.broker''"
definition timePayloadAudPrefix :: string where
  "timePayloadAudPrefix = ''device-''"
definition timePayloadAudSuffix :: string where
  "timePayloadAudSuffix = ''-timefix''"
definition timePayloadJWSType :: string where
  "timePayloadJWSType = ''postern-timefix+jwt''"
definition nonceDecodedBytes :: nat where
  "nonceDecodedBytes = 32"

record TimePayloadIssueRequest =
  tpr_AccessToken :: string
  tpr_DeviceID :: string
  tpr_Nonce :: string
  tpr_UserAgent :: string
  tpr_RemoteAddr :: string

record TimePayloadIssueResponse =
  tpp_TimePayload :: string
  tpp_JTI :: string

record 'w TimePayloadIssuer =
  ti_deps :: "'w PipelineDeps"
  ti_signer :: "'w CertSigner"

definition NewTimePayloadIssuer ::
  "('w \<Rightarrow> time \<times> 'w) \<Rightarrow> (time \<Rightarrow> 'w \<Rightarrow> ID result \<times> 'w) \<Rightarrow> 'w PipelineArgs \<Rightarrow> 'w CertSigner option
   \<Rightarrow> 'w TimePayloadIssuer result" where
  "NewTimePayloadIssuer SystemClock UUIDv7 args signer =
     (case (withDefaults SystemClock UUIDv7 args, signer) of
        (Some pipeline, Some sg) \<Rightarrow> Inr \<lparr>ti_deps = pipeline, ti_signer = sg\<rparr>
      | _ \<Rightarrow> Inl (Joined (List.map_filter (\<lambda>e. e) [validate args, required signer ErrSignerRequired])))"

record timePayloadClaims =
  tc_Aud :: string
  tc_DeviceSerial :: string
  tc_IAT :: int
  tc_Iss :: string
  tc_IssuedTo :: string
  tc_JTI :: string
  tc_Nonce :: string
  tc_Now :: string

text \<open>\<open>json.Marshal(claims)\<close>: the fields in the order of the struct.\<close>

definition claims_json :: "timePayloadClaims \<Rightarrow> json" where
  "claims_json c = JObject
     [(''aud'', JString (tc_Aud c)), (''device_serial'', JString (tc_DeviceSerial c)),
      (''iat'', JNumber (FormatInt (tc_IAT c))), (''iss'', JString (tc_Iss c)),
      (''issued_to'', JString (tc_IssuedTo c)), (''jti'', JString (tc_JTI c)),
      (''nonce'', JString (tc_Nonce c)), (''now'', JString (tc_Now c))]"

definition marshalClaims :: "timePayloadClaims \<Rightarrow> string" where
  "marshalClaims c = json_print (claims_json c)"

definition timePayloadClaimsFor :: "engineerContext \<Rightarrow> DeviceRecord \<Rightarrow> string \<Rightarrow> timePayloadClaims" where
  "timePayloadClaimsFor ec device trimmedNonce =
     \<lparr>tc_Aud = timePayloadAudPrefix @ dev_Serial device @ timePayloadAudSuffix,
      tc_DeviceSerial = dev_Serial device, tc_IAT = Unix (ec_Now ec), tc_Iss = timePayloadIssuer,
      tc_IssuedTo = cl_Subject (ec_Caller ec), tc_JTI = ec_JTI ec, tc_Nonce = trimmedNonce,
      tc_Now = FormatRFC3339 (ec_Now ec)\<rparr>"

definition recordTimePayloadDenialFor ::
  "'w PipelineDeps \<Rightarrow> AuditEvent \<Rightarrow> string \<Rightarrow> TimePayloadIssueRequest \<Rightarrow> 'w world \<Rightarrow> 'w world" where
  "recordTimePayloadDenialFor d ev deniedReason request w =
     recordEndpointDenial d (ev\<lparr>ev_Event := EventTimePayloadDenied, ev_DeniedReason := deniedReason,
       ev_DeviceIDUsed := tpr_DeviceID request, ev_PrincipalType := ModeTimefix\<rparr>) w"

definition RecordTimePayloadHandlerDenial :: "'w TimePayloadIssuer \<Rightarrow> HandlerDenial \<Rightarrow> 'w world \<Rightarrow> 'w world" where
  "RecordTimePayloadHandlerDenial i denial w =
     recordEndpointHandlerDenial (ti_deps i) denial EventTimePayloadDenied ModeTimefix w"

definition timePayloadAuthorizedEvent :: "engineerContext \<Rightarrow> DeviceRecord \<Rightarrow> TimePayloadIssueRequest \<Rightarrow> AuditEvent" where
  "timePayloadAuthorizedEvent ec device request =
     (stamp_caller (ec_Caller ec) empty_event)
       \<lparr>ev_Timestamp := ec_Now ec, ev_Event := EventTimePayloadAuthorized,
        ev_DeviceSerial := dev_Serial device, ev_DeviceIDUsed := tpr_DeviceID request,
        ev_PrincipalType := ModeTimefix, ev_JTI := ec_JTI ec, ev_IssuedAt := Unix (ec_Now ec),
        ev_SourceIP := ec_SourceIP ec, ev_UserAgent := ec_UserAgent ec\<rparr>"

text \<open>The denial after a failure of the signing library or of the signer.\<close>

definition signerDenial ::
  "'w PipelineDeps \<Rightarrow> engineerContext \<Rightarrow> DeviceRecord \<Rightarrow> TimePayloadIssueRequest \<Rightarrow> 'w world \<Rightarrow> 'w world" where
  "signerDenial d ec device request w =
     recordTimePayloadDenialFor d ((denialTemplate ec)\<lparr>ev_DeviceSerial := dev_Serial device\<rparr>)
       DenyReasonSignerFailure request w"

text \<open>\<open>jose.NewSigner\<close>, \<open>Sign\<close> through \<open>timePayloadOpaqueSigner\<close>, and \<open>CompactSerialize\<close>.\<close>

definition signTimePayload ::
  "jose_lib \<Rightarrow> 'w CertSigner \<Rightarrow> string \<Rightarrow> 'w world \<Rightarrow> string result \<times> 'w world" where
  "signTimePayload jose sg payloadJSON w =
     (case jose_NewSigner jose timePayloadJWSType of
        Some err \<Rightarrow> (Inl (Wrapped ''new time payload signer: '' err), w)
      | None \<Rightarrow>
          (case jose_SigningInput jose timePayloadJWSType payloadJSON of
             Inl err \<Rightarrow> (Inl (Wrapped ''sign time payload: '' err), w)
           | Inr input \<Rightarrow>
               (case traced (cs_SignTimePayload sg input) (\<lambda>x. Signed_Payload input (\<not> isl x)) w of
                  (Inl err, w1) \<Rightarrow> (Inl (Wrapped ''sign time payload: '' err), w1)
                | (Inr signature, w1) \<Rightarrow>
                    (case jose_CompactSerialize jose timePayloadJWSType payloadJSON signature of
                       Inl err \<Rightarrow> (Inl (Wrapped ''serialize time payload: '' err), w1)
                     | Inr compact \<Rightarrow> (Inr compact, w1)))))"

definition finishTimePayload ::
  "jose_lib \<Rightarrow> 'w TimePayloadIssuer \<Rightarrow> TimePayloadIssueRequest \<Rightarrow> engineerContext \<Rightarrow> DeviceRecord \<Rightarrow> string
   \<Rightarrow> 'w world \<Rightarrow> TimePayloadIssueResponse result \<times> 'w world" where
  "finishTimePayload jose i request ec device trimmedNonce w2 =
     (let d = ti_deps i;
          payloadJSON = marshalClaims (timePayloadClaimsFor ec device trimmedNonce);
          authorized = timePayloadAuthorizedEvent ec device request
      in case recordAuthorized d authorized w2 of
           (Some err, w3) \<Rightarrow> (Inl (Wrapped ''record time payload audit event: '' err), w3)
         | (None, w3) \<Rightarrow>
             (case signTimePayload jose (ti_signer i) payloadJSON w3 of
                (Inl err, w4) \<Rightarrow> (Inl err, signerDenial d ec device request w4)
              | (Inr compact, w4) \<Rightarrow>
                  (Inr \<lparr>tpp_TimePayload = compact, tpp_JTI = ec_JTI ec\<rparr>,
                   snd (Record d (authorized\<lparr>ev_Event := EventTimePayloadIssued\<rparr>) w4))))"

definition deviceTimePayload ::
  "jose_lib \<Rightarrow> 'w TimePayloadIssuer \<Rightarrow> TimePayloadIssueRequest \<Rightarrow> engineerContext \<Rightarrow> string
   \<Rightarrow> 'w world \<Rightarrow> TimePayloadIssueResponse result \<times> 'w world" where
  "deviceTimePayload jose i request ec trimmedNonce w1 =
     (case resolveDevice (ti_deps i)
             \<lparr>dp_Caller = ec_Caller ec, dp_AccessToken = tpr_AccessToken request,
              dp_DeviceID = tpr_DeviceID request, dp_Mode = ModeTimefix,
              dp_SourceIP = ec_SourceIP ec, dp_UserAgent = ec_UserAgent ec,
              dp_JTI = ec_JTI ec, dp_Now = ec_Now ec, dp_PolicyContext = []\<rparr> w1 of
        (Failed err, w2) \<Rightarrow> (Inl err, w2)
      | (Denied dn, w2) \<Rightarrow>
          (Inl (pn_Err dn), recordTimePayloadDenialFor (ti_deps i) (pn_Event dn) (pn_DeniedReason dn) request w2)
      | (Passed device, w2) \<Rightarrow> finishTimePayload jose i request ec device trimmedNonce w2)"

definition nonceBytes :: "string \<Rightarrow> string option" where
  "nonceBytes trimmedNonce =
     (case RawURL_DecodeString trimmedNonce of
        Some b \<Rightarrow> if length b = nonceDecodedBytes then Some b else None
      | None \<Rightarrow> None)"

definition IssueTimePayload ::
  "jose_lib \<Rightarrow> 'w TimePayloadIssuer \<Rightarrow> TimePayloadIssueRequest \<Rightarrow> 'w world
   \<Rightarrow> TimePayloadIssueResponse result \<times> 'w world" where
  "IssueTimePayload jose i request w0 =
     (let d = ti_deps i in
      case verifyEngineer d \<lparr>ep_AccessToken = tpr_AccessToken request, ep_Mode = ModeTimefix,
             ep_SourceIP = tpr_RemoteAddr request, ep_UserAgent = tpr_UserAgent request\<rparr> w0 of
        (Failed err, w1) \<Rightarrow> (Inl (Wrapped ''generate time payload id: '' err), w1)
      | (Denied dn, w1) \<Rightarrow>
          (Inl (pn_Err dn), recordTimePayloadDenialFor d (pn_Event dn) (pn_DeniedReason dn) request w1)
      | (Passed ec, w1) \<Rightarrow>
          let trimmedNonce = TrimSpace (tpr_Nonce request) in
          if trimmedNonce = [] then
            (Inl (BrokerError 400 ''nonce is required''),
             recordTimePayloadDenialFor d (denialTemplate ec) DenyReasonMissingNonce request w1)
          else if nonceBytes trimmedNonce = None then
            (Inl (BrokerError 400 (''nonce must be '' @ FormatInt (int nonceDecodedBytes) @ '' base64url-decoded bytes'')),
             recordTimePayloadDenialFor d (denialTemplate ec) DenyReasonInvalidNonce request w1)
          else deviceTimePayload jose i request ec trimmedNonce w1)"

section \<open>The pipeline follows the audit protocol\<close>

definition payload_names :: event_names where
  "payload_names = \<lparr>en_authorized = EventTimePayloadAuthorized, en_issued = EventTimePayloadIssued,
     en_denied = EventTimePayloadDenied\<rparr>"

lemma payload_names_sel [simp]:
  "en_authorized payload_names = EventTimePayloadAuthorized" "en_issued payload_names = EventTimePayloadIssued"
  "en_denied payload_names = EventTimePayloadDenied"
  by (simp_all add: payload_names_def)

lemma payload_events_distinct [simp]:
  "EventTimePayloadAuthorized \<noteq> EventTimePayloadIssued" "EventTimePayloadAuthorized \<noteq> EventTimePayloadDenied"
  "EventTimePayloadIssued \<noteq> EventTimePayloadDenied"
  by (simp_all add: event_defs)

lemma payload_reasons_nonempty [simp]: "DenyReasonMissingNonce \<noteq> []" "DenyReasonInvalidNonce \<noteq> []"
  by (simp_all add: DenyReasonMissingNonce_def DenyReasonInvalidNonce_def)

lemma at_gate_recordTimePayloadDenialFor:
  assumes "at_gate payload_names j g w w1" and "deniable g" and "ev_JTI ev = j" and "reason \<noteq> []"
  shows "at_gate payload_names j G_Refused w (recordTimePayloadDenialFor d ev reason request w1)"
  unfolding recordTimePayloadDenialFor_def
  by (rule at_gate_deny [OF assms(1,2)]) (use assms in \<open>simp add: deny_row_def\<close>)

lemma at_gate_signerDenial:
  assumes "at_gate payload_names (ec_JTI ec) g w w1" and "deniable g"
  shows "at_gate payload_names (ec_JTI ec) G_Refused w (signerDenial d ec device request w1)"
  unfolding signerDenial_def
  by (rule at_gate_recordTimePayloadDenialFor [OF assms]) simp_all

lemma timePayloadAuthorizedEvent_row:
  "permits p ec device \<Longrightarrow> auth_row payload_names (ec_JTI ec) p (timePayloadAuthorizedEvent ec device request)"
  by (simp add: auth_row_def timePayloadAuthorizedEvent_def stamp_caller_def permits_def)

lemma signTimePayload_gate:
  assumes "at_gate n j (G_Authorized p ev) w w3" and "signTimePayload jose sg payload w3 = (r, w4)"
  shows "\<exists>g. at_gate n j g w w4 \<and> deniable g"
    and "\<not> isl r \<Longrightarrow> \<exists>a. at_gate n j (G_Acted p ev a) w w4 \<and> action_ok a"
  using assms(2) at_gate_act [OF assms(1)] assms(1)
  by (fastforce simp: signTimePayload_def split: option.splits sum.splits prod.splits)+

lemma finishTimePayload_protocol:
  assumes "finishTimePayload jose i request ec device nonce w2 = (res, w')"
    and "at_gate payload_names (ec_JTI ec) (G_Permitted p) w w2" and "permits p ec device"
  shows "at_gate payload_names (ec_JTI ec) (if isl res then G_Refused else G_Issued) w w'"
proof -
  let ?ev = "timePayloadAuthorizedEvent ec device request"
  let ?payload = "marshalClaims (timePayloadClaimsFor ec device nonce)"
  obtain r w3 where rec: "recordAuthorized (ti_deps i) ?ev w2 = (r, w3)" by fastforce
  from at_gate_authorize [OF assms(2) rec timePayloadAuthorizedEvent_row [OF assms(3)]]
  have auth: "at_gate payload_names (ec_JTI ec) (if r = None then G_Authorized p ?ev else G_Refused) w w3" by simp
  show ?thesis
  proof (cases r)
    case (Some e)
    with rec auth assms(1) show ?thesis by (auto simp: finishTimePayload_def)
  next
    case None
    obtain s w4 where sig: "signTimePayload jose (ti_signer i) ?payload w3 = (s, w4)" by fastforce
    from None auth have "at_gate payload_names (ec_JTI ec) (G_Authorized p ?ev) w w3" by simp
    note signed = signTimePayload_gate [OF this sig]
    show ?thesis
    proof (cases s)
      case (Inl e)
      with rec sig None assms(1) signed(1) show ?thesis
        by (auto simp: finishTimePayload_def Let_def intro: at_gate_signerDenial)
    next
      case (Inr compact)
      with signed(2) obtain a where "at_gate payload_names (ec_JTI ec) (G_Acted p ?ev a) w w4" "action_ok a" by auto
      from at_gate_issue [OF this, of "ti_deps i"] rec sig None Inr assms(1) show ?thesis
        by (auto simp: finishTimePayload_def Let_def)
    qed
  qed
qed

lemma deviceTimePayload_protocol:
  assumes "deviceTimePayload jose i request ec nonce w1 = (res, w')"
    and rated: "at_gate payload_names (ec_JTI ec) G_Rated w w1"
  shows "at_gate payload_names (ec_JTI ec) (if isl res then G_Refused else G_Issued) w w'"
proof -
  obtain dres w2 where dev: "resolveDevice (ti_deps i)
      \<lparr>dp_Caller = ec_Caller ec, dp_AccessToken = tpr_AccessToken request,
       dp_DeviceID = tpr_DeviceID request, dp_Mode = ModeTimefix,
       dp_SourceIP = ec_SourceIP ec, dp_UserAgent = ec_UserAgent ec,
       dp_JTI = ec_JTI ec, dp_Now = ec_Now ec, dp_PolicyContext = []\<rparr> w1 = (dres, w2)" by fastforce
  from rated dev show ?thesis
  proof (cases rule: at_gate_device)
    case (denied dn g)
    with assms(1) dev show ?thesis by (auto simp: deviceTimePayload_def intro: at_gate_recordTimePayloadDenialFor)
  next
    case (passed device p)
    with assms(1) dev show ?thesis
      by (auto simp: deviceTimePayload_def dest: finishTimePayload_protocol)
  qed simp_all
qed

lemma IssueTimePayload_protocol:
  assumes "IssueTimePayload jose i request w = (res, w')"
  shows "case request_id (ti_deps i) w of None \<Rightarrow> wld_trace w' = wld_trace w \<and> isl res
    | Some j \<Rightarrow> at_gate payload_names j (if isl res then G_Refused else G_Issued) w w'"
proof -
  obtain r w1 where v: "verifyEngineer (ti_deps i) \<lparr>ep_AccessToken = tpr_AccessToken request,
      ep_Mode = ModeTimefix, ep_SourceIP = tpr_RemoteAddr request, ep_UserAgent = tpr_UserAgent request\<rparr> w = (r, w1)"
    by fastforce
  show ?thesis
  proof (cases r)
    case (Failed e)
    with v have "request_id (ti_deps i) w = None" "wld_trace w1 = wld_trace w" by (simp_all add: verifyEngineer_id(1) verifyEngineer_Failed)
    with v Failed assms show ?thesis by (auto simp: IssueTimePayload_def)
  next
    case (Denied dn)
    with v have "request_id (ti_deps i) w = Some (ev_JTI (pn_Event dn))" by (simp add: verifyEngineer_id(2))
    with v Denied assms at_gate_verify_Denied [of _ _ w dn w1 payload_names] show ?thesis
      by (auto simp: IssueTimePayload_def intro!: at_gate_recordTimePayloadDenialFor)
  next
    case (Passed ec)
    with v have rated: "at_gate payload_names (ec_JTI ec) G_Rated w w1"
      by (simp add: at_gate_verify_Passed)
    have "at_gate payload_names (ec_JTI ec) (if isl res then G_Refused else G_Issued) w w'"
      using assms v Passed rated
      by (auto simp: IssueTimePayload_def Let_def split: if_splits
          intro: at_gate_recordTimePayloadDenialFor dest: deviceTimePayload_protocol)
    moreover from v Passed have "request_id (ti_deps i) w = Some (ec_JTI ec)" by (simp add: verifyEngineer_id(3))
    ultimately show ?thesis by simp
  qed
qed

interpretation payload: issue_pipeline "IssueTimePayload jose i" payload_names "request_id (ti_deps i)" for jose i
  by unfold_locales (rule IssueTimePayload_protocol, simp_all)

section \<open>What is signed\<close>

lemma signTimePayload_success:
  assumes "signTimePayload jose sg payload w = (Inr compact, w')"
  shows "\<exists>input sig e e'. jose_SigningInput jose timePayloadJWSType payload = Inr input
    \<and> cs_SignTimePayload sg input e = (Inr sig, e')
    \<and> jose_CompactSerialize jose timePayloadJWSType payload sig = Inr compact
    \<and> wld_trace w' = wld_trace w @ [Signed_Payload input True]"
  using assms
  by (auto simp: signTimePayload_def traced_def split: option.splits sum.splits prod.splits) blast

lemma finishTimePayload_success:
  assumes "finishTimePayload jose i request ec device nonce w = (Inr resp, w')"
  shows "\<exists>input sig e e' b. jose_SigningInput jose timePayloadJWSType (marshalClaims (timePayloadClaimsFor ec device nonce)) = Inr input
    \<and> cs_SignTimePayload (ti_signer i) input e = (Inr sig, e')
    \<and> jose_CompactSerialize jose timePayloadJWSType (marshalClaims (timePayloadClaimsFor ec device nonce)) sig
        = Inr (tpp_TimePayload resp)
    \<and> tpp_JTI resp = ec_JTI ec
    \<and> wld_trace w' = wld_trace w @ [Audited (timePayloadAuthorizedEvent ec device request) True,
        Signed_Payload input True, Audited ((timePayloadAuthorizedEvent ec device request)\<lparr>ev_Event := EventTimePayloadIssued\<rparr>) b]"
  using assms
  by (auto simp: finishTimePayload_def Let_def recordAuthorized_def Record_trace
      split: option.splits sum.splits prod.splits dest!: signTimePayload_success Record_eq) blast

lemma IssueTimePayload_success:
  assumes "IssueTimePayload jose i request w = (Inr resp, w')"
  shows "\<exists>ec device rl p ev input b sig e e'. permits p ec device
    \<and> effects w w' = [Called_Verify (tpr_AccessToken request) True, Called_RateLimit rl True,
        Called_Resolve (tpr_DeviceID request) True, Called_Policy p True,
        Audited (timePayloadAuthorizedEvent ec device request) True, Signed_Payload input True, Audited ev b]
    \<and> pol_Mode p = ModeTimefix \<and> nonceBytes (TrimSpace (tpr_Nonce request)) \<noteq> None
    \<and> jose_SigningInput jose timePayloadJWSType
        (marshalClaims (timePayloadClaimsFor ec device (TrimSpace (tpr_Nonce request)))) = Inr input
    \<and> cs_SignTimePayload (ti_signer i) input e = (Inr sig, e')
    \<and> jose_CompactSerialize jose timePayloadJWSType
        (marshalClaims (timePayloadClaimsFor ec device (TrimSpace (tpr_Nonce request)))) sig = Inr (tpp_TimePayload resp)"
proof -
  let ?nonce = "TrimSpace (tpr_Nonce request)"
  obtain r w1 where v: "verifyEngineer (ti_deps i) \<lparr>ep_AccessToken = tpr_AccessToken request,
      ep_Mode = ModeTimefix, ep_SourceIP = tpr_RemoteAddr request, ep_UserAgent = tpr_UserAgent request\<rparr> w = (r, w1)"
    by fastforce
  with assms obtain ec where ec: "r = Passed ec" and n: "nonceBytes ?nonce \<noteq> None"
    and dev: "deviceTimePayload jose i request ec ?nonce w1 = (Inr resp, w')"
    by (cases r) (auto simp: IssueTimePayload_def Let_def split: if_splits)
  from verifyEngineer_Passed [OF v [unfolded ec]] obtain rl where
    w1: "wld_trace w1 = wld_trace w @ [Called_Verify (tpr_AccessToken request) True, Called_RateLimit rl True]" by auto
  let ?dr = "\<lparr>dp_Caller = ec_Caller ec, dp_AccessToken = tpr_AccessToken request,
       dp_DeviceID = tpr_DeviceID request, dp_Mode = ModeTimefix,
       dp_SourceIP = ec_SourceIP ec, dp_UserAgent = ec_UserAgent ec,
       dp_JTI = ec_JTI ec, dp_Now = ec_Now ec, dp_PolicyContext = []\<rparr>"
  obtain dres w2 where rd: "resolveDevice (ti_deps i) ?dr w1 = (dres, w2)" by fastforce
  with dev obtain device where device: "dres = Passed device"
    and fin: "finishTimePayload jose i request ec device ?nonce w2 = (Inr resp, w')"
    by (cases dres) (auto simp: deviceTimePayload_def)
  from resolveDevice_Passed [OF rd [unfolded device]] obtain p where
    p: "wld_trace w2 = wld_trace w1 @ [Called_Resolve (tpr_DeviceID request) True, Called_Policy p True]"
      "permits p ec device" "pol_Mode p = ModeTimefix" by (auto simp: permits_def)
  from finishTimePayload_success [OF fin] p w1 n show ?thesis by (fastforce simp: effects_def)
qed

section \<open>A concrete run\<close>

definition sample_jose :: jose_lib where
  "sample_jose = \<lparr>jose_NewSigner = (\<lambda>t. None), jose_SigningInput = (\<lambda>t p. Inr (t @ ''.'' @ p)),
     jose_CompactSerialize = (\<lambda>t p s. Inr p)\<rparr>"

definition sample_time_issuer :: "nat TimePayloadIssuer" where
  "sample_time_issuer = \<lparr>ti_deps = sample_deps, ti_signer = sample_signer\<rparr>"

definition sample_nonce :: string where
  "sample_nonce = RawURL_EncodeToString (replicate 32 CHR ''x'')"

definition sample_time_request :: TimePayloadIssueRequest where
  "sample_time_request = \<lparr>tpr_AccessToken = ''tok'', tpr_DeviceID = ''lab'', tpr_Nonce = sample_nonce,
     tpr_UserAgent = ''ua'', tpr_RemoteAddr = ''ip''\<rparr>"

definition sample_time_out :: "TimePayloadIssueResponse result \<times> nat world" where
  "sample_time_out = IssueTimePayload sample_jose sample_time_issuer sample_time_request sample_world"

lemma sample_nonce_ok:
  "TrimSpace sample_nonce = sample_nonce" "nonceBytes sample_nonce = Some (replicate 32 CHR ''x'')" "sample_nonce \<noteq> []"
proof -
  show "TrimSpace sample_nonce = sample_nonce"
    unfolding sample_nonce_def by (rule TrimSpace_graphic) (rule RawURL_Encode_graphic)
  show ok: "nonceBytes sample_nonce = Some (replicate 32 CHR ''x'')"
    by (simp add: sample_nonce_def nonceBytes_def RawURL_Decode_Encode nonceDecodedBytes_def)
  then show "sample_nonce \<noteq> []"
    by (auto simp: nonceBytes_def RawURL_DecodeString_def nonceDecodedBytes_def)
qed

lemma TrimSpace_lab: "TrimSpace ''lab'' = ''lab''"
  by (rule TrimSpace_graphic) (simp add: ascii_graphic_def)

lemmas sample_time_defs = sample_time_out_def sample_time_request_def sample_time_issuer_def sample_deps_def
  sample_signer_def sample_jose_def sample_world_def IssueTimePayload_def deviceTimePayload_def finishTimePayload_def
  signTimePayload_def verifyEngineer_def resolveDevice_def recordAuthorized_def Record_def traced_def untraced_def

lemma sample_time_success:
  "\<exists>resp. IssueTimePayload sample_jose sample_time_issuer sample_time_request sample_world = (Inr resp, snd sample_time_out)"
  unfolding sample_time_out_def
  by (simp add: sample_time_defs Let_def sample_nonce_ok TrimSpace_lab sample_device_def)

lemma sample_time_effects: "length (effects sample_world (snd sample_time_out)) = 7"
  "is_action (effects sample_world (snd sample_time_out) ! 5)"
  by (simp_all add: sample_time_defs Let_def sample_nonce_ok TrimSpace_lab sample_device_def effects_def)

section \<open>Properties\<close>

text \<open>
  C6: No time payload is signed that is not authorized on record: whatever \<open>IssueTimePayload\<close> lets the
  signer sign comes directly after the four passed gates and an authorization row that the sink has
  accepted, for the caller, device and request id that policy allowed.
\<close>

theorem signed_payload_authorized:
  assumes "IssueTimePayload jose i request w = (res, w')" and "effects w w' = xs @ a # ys" and "is_action a"
  shows "\<exists>p ev zs. xs = zs @ [Audited ev True] \<and> passed_gates p zs
    \<and> ev_Event ev = EventTimePayloadAuthorized \<and> ev_JTI ev = pol_RequestID p
    \<and> ev_EngineerSub ev = cl_Subject (pol_Caller p) \<and> ev_DeviceSerial ev = dev_Serial (pol_Device p)"
  using payload.act_authorized [OF assms] by (auto simp: auth_row_def) metis

theorem signed_payload_authorized_witness:
  "\<exists>p ev zs. take 5 (effects sample_world (snd sample_time_out)) = zs @ [Audited ev True] \<and> passed_gates p zs
     \<and> ev_Event ev = EventTimePayloadAuthorized"
proof -
  let ?e = "effects sample_world (snd sample_time_out)"
  obtain resp where run: "IssueTimePayload sample_jose sample_time_issuer sample_time_request sample_world
      = (Inr resp, snd sample_time_out)" using sample_time_success by blast
  have "?e = take 5 ?e @ ?e ! 5 # drop 6 ?e"
    using id_take_nth_drop [of 5 ?e] sample_time_effects(1) by simp
  from signed_payload_authorized [OF run this sample_time_effects(2)] show ?thesis by blast
qed

text \<open>
  The audit trail of a time payload request: a response only with a recorded authorization row
  and an issued row that repeats it; a refusal with one denial row, or a failed authorization row, or
  a recorded authorization followed by a denial with the same request id, or no trace at all.
\<close>

theorem payload_audit_trail:
  assumes "IssueTimePayload jose i request w = (res, w')"
  shows "case res of
      Inr resp \<Rightarrow> \<exists>ev b. audit_rows (effects w w') = [(ev, True), (ev\<lparr>ev_Event := EventTimePayloadIssued\<rparr>, b)]
        \<and> ev_Event ev = EventTimePayloadAuthorized
    | Inl err \<Rightarrow> effects w w' = []
        \<or> (\<exists>ev b. audit_rows (effects w w') = [(ev, b)] \<and> ev_Event ev = EventTimePayloadDenied \<and> ev_DeniedReason ev \<noteq> [])
        \<or> (\<exists>ev. audit_rows (effects w w') = [(ev, False)] \<and> ev_Event ev = EventTimePayloadAuthorized)
        \<or> (\<exists>ev ev' b. audit_rows (effects w w') = [(ev, True), (ev', b)] \<and> ev_Event ev = EventTimePayloadAuthorized
             \<and> ev_Event ev' = EventTimePayloadDenied \<and> ev_JTI ev' = ev_JTI ev \<and> ev_DeniedReason ev' \<noteq> [])"
proof (cases res)
  case (Inl err)
  with payload.failure_audit_rows [of jose i request w err w'] assms show ?thesis by simp
next
  case (Inr resp)
  with payload.success_audit_rows [of jose i request w resp w'] assms show ?thesis by simp
qed

theorem payload_audit_trail_witness:
  "\<exists>ev b. audit_rows (effects sample_world (snd sample_time_out)) = [(ev, True), (ev\<lparr>ev_Event := EventTimePayloadIssued\<rparr>, b)]
     \<and> ev_Event ev = EventTimePayloadAuthorized"
  using sample_time_success payload_audit_trail by fastforce

end
