(* ===== verification/Handlers.thy ===== *)
theory Handlers
  imports Go_Value SSH_Cert Time_Payload Tunnel
begin

text \<open>
  The HTTP surface of the broker (src/pkg/brokerhandlers/handlers.go): routing, the shared handler of
  the three issue endpoints, and the mapping of errors to responses. The issuers are those of the
  pipeline theories; \<open>realclientip\<close> is a parameter. The locale \<open>http_endpoint\<close> extends the pipeline
  contract by what the handler adds, and is interpreted on the three endpoints.
\<close>

section \<open>Requests and responses\<close>

definition MaxRequestBodyBytes :: nat where "MaxRequestBodyBytes = 64 * 1024"
definition maxUserAgentRunes :: nat where "maxUserAgentRunes = 512"
definition maxDeviceIDRunes :: nat where "maxDeviceIDRunes = 256"
definition maxNonceRunes :: nat where "maxNonceRunes = 256"

record server_request =
  sr_Method :: string
  sr_Path :: string
  sr_Header :: "(string \<times> string) list"
  sr_RemoteAddr :: string
  sr_Body :: body

record server_response =
  rw_Status :: int
  rw_ContentType :: string
  rw_Body :: string

type_synonym client_ip = "(string \<times> string) list \<Rightarrow> string \<Rightarrow> string"

text \<open>\<open>http.MaxBytesReader\<close>: reading past the limit is an error.\<close>

definition MaxBytesReader :: "nat \<Rightarrow> body \<Rightarrow> body" where
  "MaxBytesReader n b =
     (if n < length (fst b) then (take n (fst b), Some (Plain ''http: request body too large'')) else b)"

definition writeJSON :: "int \<Rightarrow> json \<Rightarrow> server_response" where
  "writeJSON status body =
     \<lparr>rw_Status = status, rw_ContentType = ''application/json'', rw_Body = json_print body @ [CHR 0x0A]\<rparr>"

definition writeError :: "int \<Rightarrow> string \<Rightarrow> server_response" where
  "writeError status message = writeJSON status (JObject [(''error'', JString message)])"

definition writeIssueError :: "string \<Rightarrow> go_error \<Rightarrow> server_response" where
  "writeIssueError routeLabel err =
     (case as_broker_error err of
        Some (code, message) \<Rightarrow>
          if 400 \<le> code then writeError code message else writeError 500 (routeLabel @ '' failed'')
      | None \<Rightarrow> writeError 500 (routeLabel @ '' failed''))"

text \<open>
  \<open>bearerToken\<close>. \<open>strings.EqualFold\<close> with the scheme \<open>bearer\<close>, none of whose letters has a case
  partner outside ASCII, is equality of the lower-case forms.
\<close>

definition ascii_lower :: "char \<Rightarrow> char" where
  "ascii_lower c = (if is_upper c then char_of (of_char c + 32 :: nat) else c)"

definition bearerToken :: "string \<Rightarrow> string result" where
  "bearerToken header =
     (if length header < 7 \<or> map ascii_lower (take 7 header) \<noteq> ''bearer ''
        then Inl (Plain ''authorization bearer token is required'')
      else let token = TrimSpace (drop 7 header) in
        if token = [] then Inl (Plain ''authorization bearer token is required'') else Inr token)"

section \<open>The shared handler\<close>

definition handleIssueEndpoint ::
  "(HandlerDenial \<Rightarrow> 'w world \<Rightarrow> 'w world) \<Rightarrow> client_ip \<Rightarrow> string \<Rightarrow> 'req json_field list \<Rightarrow> 'req
    \<Rightarrow> (string \<Rightarrow> string \<Rightarrow> string \<Rightarrow> 'req \<Rightarrow> 'req) \<Rightarrow> ('req \<Rightarrow> 'w world \<Rightarrow> 'resp result \<times> 'w world)
    \<Rightarrow> ('resp \<Rightarrow> string option) \<Rightarrow> ('resp \<Rightarrow> json) \<Rightarrow> server_request \<Rightarrow> 'w world \<Rightarrow> server_response \<times> 'w world" where
  "handleIssueEndpoint emit clientIP label flds zero prepare dispatch emptyCheck encode request w =
     (let userAgent = TruncateRunes (Header_Get ''User-Agent'' (sr_Header request)) maxUserAgentRunes;
          sourceIP = clientIP (sr_Header request) (sr_RemoteAddr request);
          denial = (\<lambda>reason. \<lparr>hd_DeniedReason = reason, hd_DeviceID = [], hd_SourceIP = sourceIP, hd_UserAgent = userAgent\<rparr>)
      in case bearerToken (Header_Get ''Authorization'' (sr_Header request)) of
           Inl err \<Rightarrow>
             (writeError 401 ''authorization bearer token is required'', emit (denial DenyReasonMissingBearerToken) w)
         | Inr accessToken \<Rightarrow>
             (case Decode True flds zero (sr_Body request) of
                Inl err \<Rightarrow>
                  (writeError 400 ''invalid JSON request body'', emit (denial DenyReasonMalformedRequestBody) w)
              | Inr body \<Rightarrow>
                  (case dispatch (prepare accessToken userAgent sourceIP body) w of
                     (Inl err, w1) \<Rightarrow> (writeIssueError (label @ '' issuer'') err, w1)
                   | (Inr issued, w1) \<Rightarrow>
                       (case emptyCheck issued of
                          Some message \<Rightarrow> (writeError 500 message, w1)
                        | None \<Rightarrow> (writeJSON 200 (encode issued), w1)))))"

definition notConfiguredHandler :: "string \<Rightarrow> server_request \<Rightarrow> 'w world \<Rightarrow> server_response \<times> 'w world" where
  "notConfiguredHandler label request w = (writeError 501 (label @ '' issuer is not configured''), w)"

definition set_int32 :: "(int \<Rightarrow> 's \<Rightarrow> 's) \<Rightarrow> json \<Rightarrow> 's \<Rightarrow> 's option" where
  "set_int32 upd v st =
     (case v of
        JNumber l \<Rightarrow>
          (case ParseInt64 l of
             Some i \<Rightarrow> if - (2 ^ 31) \<le> i \<and> i < 2 ^ 31 then Some (upd i st) else None
           | None \<Rightarrow> None)
      | JNull \<Rightarrow> Some st
      | _ \<Rightarrow> None)"

subsection \<open>/ssh/cert\<close>

definition cert_fields :: "SSHCertIssueRequest json_field list" where
  "cert_fields =
     [(''device_id'', set_string (\<lambda>s r. r\<lparr>scr_DeviceID := s\<rparr>)),
      (''principal_type'', set_string (\<lambda>s r. r\<lparr>scr_PrincipalType := s\<rparr>)),
      (''public_key'', set_string (\<lambda>s r. r\<lparr>scr_PublicKey := s\<rparr>)),
      (''max_lifetime_minutes'', set_int32 (\<lambda>i r. r\<lparr>scr_MaxLifetimeMinutes := i\<rparr>))]"

definition zero_cert_request :: SSHCertIssueRequest where
  "zero_cert_request = \<lparr>scr_AccessToken = [], scr_DeviceID = [], scr_PrincipalType = [], scr_PublicKey = [],
     scr_MaxLifetimeMinutes = 0, scr_UserAgent = [], scr_RemoteAddr = []\<rparr>"

definition normalize_cert :: "string \<Rightarrow> string \<Rightarrow> string \<Rightarrow> SSHCertIssueRequest \<Rightarrow> SSHCertIssueRequest" where
  "normalize_cert accessToken userAgent sourceIP body =
     body\<lparr>scr_DeviceID := TruncateRunes (TrimSpace (scr_DeviceID body)) maxDeviceIDRunes,
       scr_PublicKey := TrimSpace (scr_PublicKey body), scr_AccessToken := accessToken,
       scr_UserAgent := userAgent, scr_RemoteAddr := sourceIP\<rparr>"

definition cert_json :: "SSHCertIssueResponse \<Rightarrow> json" where
  "cert_json r = JObject [(''ssh_cert'', JString (scp_SSHCert r)), (''ca_pubkey_fingerprint'', JString (scp_CAPubkeyFingerprint r))]"

definition handleSSHCert ::
  "ssh_lib \<Rightarrow> 'w SSHCertIssuer option \<Rightarrow> client_ip \<Rightarrow> server_request \<Rightarrow> 'w world \<Rightarrow> server_response \<times> 'w world" where
  "handleSSHCert lib issuer clientIP =
     (case issuer of
        None \<Rightarrow> notConfiguredHandler ''ssh cert''
      | Some i \<Rightarrow>
          handleIssueEndpoint (RecordSSHCertHandlerDenial i) clientIP ''ssh cert'' cert_fields zero_cert_request
            normalize_cert (IssueSSHCert lib i)
            (\<lambda>r. if TrimSpace (scp_SSHCert r) = [] then Some ''ssh cert issuer returned empty certificate'' else None)
            cert_json)"

subsection \<open>/ssh/time-payload\<close>

definition payload_fields :: "TimePayloadIssueRequest json_field list" where
  "payload_fields =
     [(''device_id'', set_string (\<lambda>s r. r\<lparr>tpr_DeviceID := s\<rparr>)), (''nonce'', set_string (\<lambda>s r. r\<lparr>tpr_Nonce := s\<rparr>))]"

definition zero_payload_request :: TimePayloadIssueRequest where
  "zero_payload_request = \<lparr>tpr_AccessToken = [], tpr_DeviceID = [], tpr_Nonce = [], tpr_UserAgent = [], tpr_RemoteAddr = []\<rparr>"

definition normalize_payload :: "string \<Rightarrow> string \<Rightarrow> string \<Rightarrow> TimePayloadIssueRequest \<Rightarrow> TimePayloadIssueRequest" where
  "normalize_payload accessToken userAgent sourceIP body =
     body\<lparr>tpr_DeviceID := TruncateRunes (TrimSpace (tpr_DeviceID body)) maxDeviceIDRunes,
       tpr_Nonce := TruncateRunes (TrimSpace (tpr_Nonce body)) maxNonceRunes, tpr_AccessToken := accessToken,
       tpr_UserAgent := userAgent, tpr_RemoteAddr := sourceIP\<rparr>"

definition payload_json :: "TimePayloadIssueResponse \<Rightarrow> json" where
  "payload_json r = JObject [(''time_payload'', JString (tpp_TimePayload r)), (''jti'', JString (tpp_JTI r))]"

definition handleTimePayload ::
  "jose_lib \<Rightarrow> 'w TimePayloadIssuer option \<Rightarrow> client_ip \<Rightarrow> server_request \<Rightarrow> 'w world \<Rightarrow> server_response \<times> 'w world" where
  "handleTimePayload jose issuer clientIP =
     (case issuer of
        None \<Rightarrow> notConfiguredHandler ''time-payload''
      | Some i \<Rightarrow>
          handleIssueEndpoint (RecordTimePayloadHandlerDenial i) clientIP ''time-payload'' payload_fields zero_payload_request
            normalize_payload (IssueTimePayload jose i)
            (\<lambda>r. if TrimSpace (tpp_TimePayload r) = [] then Some ''time payload issuer returned empty payload'' else None)
            payload_json)"

subsection \<open>/ssh/tunnel\<close>

definition tunnel_fields :: "TunnelOpenRequest json_field list" where
  "tunnel_fields =
     [(''device_id'', set_string (\<lambda>s r. r\<lparr>tun_DeviceID := s\<rparr>)),
      (''max_lifetime_minutes'', set_int32 (\<lambda>i r. r\<lparr>tun_MaxLifetimeMinutes := i\<rparr>))]"

definition zero_tunnel_request :: TunnelOpenRequest where
  "zero_tunnel_request = \<lparr>tun_AccessToken = [], tun_DeviceID = [], tun_MaxLifetimeMinutes = 0, tun_UserAgent = [], tun_RemoteAddr = []\<rparr>"

definition normalize_tunnel :: "string \<Rightarrow> string \<Rightarrow> string \<Rightarrow> TunnelOpenRequest \<Rightarrow> TunnelOpenRequest" where
  "normalize_tunnel accessToken userAgent sourceIP body =
     body\<lparr>tun_DeviceID := TruncateRunes (TrimSpace (tun_DeviceID body)) maxDeviceIDRunes,
       tun_AccessToken := accessToken, tun_UserAgent := userAgent, tun_RemoteAddr := sourceIP\<rparr>"

definition tunnel_json :: "TunnelOpenResponse \<Rightarrow> json" where
  "tunnel_json r = JObject [(''tunnel_id'', JString (tup_TunnelID r)), (''source_access_token'', JString (tup_SourceAccessToken r)),
     (''region'', JString (tup_Region r)), (''max_lifetime_minutes'', JNumber (FormatInt (tup_MaxLifetimeMinutes r)))]"

definition handleTunnel ::
  "'w TunnelIssuer option \<Rightarrow> client_ip \<Rightarrow> server_request \<Rightarrow> 'w world \<Rightarrow> server_response \<times> 'w world" where
  "handleTunnel issuer clientIP =
     (case issuer of
        None \<Rightarrow> notConfiguredHandler ''tunnel''
      | Some i \<Rightarrow>
          handleIssueEndpoint (RecordTunnelHandlerDenial i) clientIP ''tunnel'' tunnel_fields zero_tunnel_request
            normalize_tunnel (OpenTunnel i)
            (\<lambda>r. if TrimSpace (tup_SourceAccessToken r) = [] then Some ''tunnel issuer returned empty source access token'' else None)
            tunnel_json)"

section \<open>The router\<close>

record 'w Deps =
  dp_HealthChecker :: "('w world \<Rightarrow> go_error option \<times> 'w world) option"
  dp_SSHCertIssuer :: "'w SSHCertIssuer option"
  dp_TimePayloadIssuer :: "'w TimePayloadIssuer option"
  dp_TunnelIssuer :: "'w TunnelIssuer option"
  dp_ClientIPStrategy :: "client_ip option"

definition handleHealthz ::
  "('w world \<Rightarrow> go_error option \<times> 'w world) option \<Rightarrow> 'w SSHCertIssuer option \<Rightarrow> server_request \<Rightarrow> 'w world
    \<Rightarrow> server_response \<times> 'w world" where
  "handleHealthz checker issuer request w =
     (if issuer = None then (writeError 503 ''ssh cert issuer is not configured'', w)
      else case (case checker of None \<Rightarrow> (None, w) | Some check \<Rightarrow> check w) of
             (Some err, w1) \<Rightarrow> (writeError 503 ''unhealthy'', w1)
           | (None, w1) \<Rightarrow> (\<lparr>rw_Status = 200, rw_ContentType = [], rw_Body = ''ok'' @ [CHR 0x0A]\<rparr>, w1))"

text \<open>
  \<open>http.ServeMux\<close> on the four patterns, for a cleaned path: an unknown path is 404, a known path with
  another method 405, and the pattern \<open>GET\<close> also serves \<open>HEAD\<close>. \<open>RemoteAddrStrategy\<close> replaces a nil
  client-IP strategy.
\<close>

definition withBodyLimit ::
  "(server_request \<Rightarrow> 'w world \<Rightarrow> server_response \<times> 'w world) \<Rightarrow> server_request \<Rightarrow> 'w world \<Rightarrow> server_response \<times> 'w world" where
  "withBodyLimit next request w = next (request\<lparr>sr_Body := MaxBytesReader MaxRequestBodyBytes (sr_Body request)\<rparr>) w"

definition plain_response :: "int \<Rightarrow> string \<Rightarrow> server_response" where
  "plain_response status text = \<lparr>rw_Status = status, rw_ContentType = ''text/plain; charset=utf-8'', rw_Body = text @ [CHR 0x0A]\<rparr>"

definition New ::
  "client_ip \<Rightarrow> ssh_lib \<Rightarrow> jose_lib \<Rightarrow> 'w Deps \<Rightarrow> server_request \<Rightarrow> 'w world \<Rightarrow> server_response \<times> 'w world" where
  "New RemoteAddrStrategy lib jose deps =
     (let clientIP = (case dp_ClientIPStrategy deps of Some s \<Rightarrow> s | None \<Rightarrow> RemoteAddrStrategy) in
      withBodyLimit (\<lambda>request w.
        if sr_Path request = ''/healthz'' then
          (if sr_Method request = ''GET'' \<or> sr_Method request = ''HEAD''
           then handleHealthz (dp_HealthChecker deps) (dp_SSHCertIssuer deps) request w
           else (plain_response 405 ''Method Not Allowed'', w))
        else if sr_Path request \<notin> {''/ssh/cert'', ''/ssh/time-payload'', ''/ssh/tunnel''} then (plain_response 404 ''404 page not found'', w)
        else if sr_Method request \<noteq> ''POST'' then (plain_response 405 ''Method Not Allowed'', w)
        else if sr_Path request = ''/ssh/cert'' then handleSSHCert lib (dp_SSHCertIssuer deps) clientIP request w
        else if sr_Path request = ''/ssh/time-payload'' then handleTimePayload jose (dp_TimePayloadIssuer deps) clientIP request w
        else handleTunnel (dp_TunnelIssuer deps) clientIP request w))"

section \<open>The contract of an endpoint\<close>

lemma writeError_status [simp]: "rw_Status (writeError c m) = c"
  by (simp add: writeError_def writeJSON_def)

lemma writeIssueError_status: "400 \<le> rw_Status (writeIssueError l err)"
  by (auto simp: writeIssueError_def split: option.split)

text \<open>
  \<open>emit\<close> records one denial row with the reason it is given and does nothing else.
\<close>

definition denied_once :: "event_names \<Rightarrow> string option \<Rightarrow> string \<Rightarrow> string \<Rightarrow> 'w world \<Rightarrow> 'w world \<Rightarrow> bool" where
  "denied_once names jti reason sourceIP w w' \<longleftrightarrow>
     (\<exists>ev b. effects w w' = [Audited ev b] \<and> ev_Event ev = en_denied names \<and> ev_DeniedReason ev = reason
        \<and> ev_SourceIP ev = sourceIP \<and> ev_EngineerSub ev = [] \<and> ev_JTI ev = (case jti of None \<Rightarrow> [] | Some j \<Rightarrow> j))"

locale http_endpoint = issue_pipeline run names drawn_id
  for run :: "'req \<Rightarrow> 'w world \<Rightarrow> 'resp result \<times> 'w world" and names :: event_names and drawn_id :: "'w world \<Rightarrow> string option" +
  fixes emit :: "HandlerDenial \<Rightarrow> 'w world \<Rightarrow> 'w world"
  assumes emit_row: "denied_once names (drawn_id w) (hd_DeniedReason dn) (hd_SourceIP dn) w (emit dn w)"
begin

text \<open>The three ways a request can go.\<close>

lemma handle_cases:
  assumes "handleIssueEndpoint emit clientIP label flds zero prepare run emptyCheck encode request w = (resp, w')"
  obtains (no_token) "isl (bearerToken (Header_Get ''Authorization'' (sr_Header request)))" "rw_Status resp = 401"
      "denied_once names (drawn_id w) DenyReasonMissingBearerToken (clientIP (sr_Header request) (sr_RemoteAddr request)) w w'"
  | (bad_body) "\<not> isl (bearerToken (Header_Get ''Authorization'' (sr_Header request)))" "isl (Decode True flds zero (sr_Body request))"
      "rw_Status resp = 400"
      "denied_once names (drawn_id w) DenyReasonMalformedRequestBody (clientIP (sr_Header request) (sr_RemoteAddr request)) w w'"
  | (refused) err req where "\<not> isl (bearerToken (Header_Get ''Authorization'' (sr_Header request)))" "\<not> isl (Decode True flds zero (sr_Body request))"
      "400 \<le> rw_Status resp" "run req w = (Inl err, w')"
  | (empty) r req m where "\<not> isl (bearerToken (Header_Get ''Authorization'' (sr_Header request)))" "\<not> isl (Decode True flds zero (sr_Body request))"
      "rw_Status resp = 500" "run req w = (Inr r, w')" "emptyCheck r = Some m"
  | (issued) r req where "\<not> isl (bearerToken (Header_Get ''Authorization'' (sr_Header request)))" "\<not> isl (Decode True flds zero (sr_Body request))"
      "resp = writeJSON 200 (encode r)" "run req w = (Inr r, w')" "emptyCheck r = None"
proof (cases "bearerToken (Header_Get ''Authorization'' (sr_Header request))")
  case (Inl e)
  with assms obtain dn where "w' = emit dn w" "hd_DeniedReason dn = DenyReasonMissingBearerToken"
    "hd_SourceIP dn = clientIP (sr_Header request) (sr_RemoteAddr request)" "rw_Status resp = 401"
    by (auto simp: handleIssueEndpoint_def Let_def)
  with Inl emit_row [of w dn] no_token show thesis by simp
next
  case tok: (Inr token)
  show thesis
  proof (cases "Decode True flds zero (sr_Body request)")
    case (Inl e)
    with tok assms obtain dn where "w' = emit dn w" "hd_DeniedReason dn = DenyReasonMalformedRequestBody"
      "hd_SourceIP dn = clientIP (sr_Header request) (sr_RemoteAddr request)" "rw_Status resp = 400"
      by (auto simp: handleIssueEndpoint_def Let_def)
    with tok Inl emit_row [of w dn] bad_body show thesis by simp
  next
    case (Inr body)
    with tok assms show thesis
      by (auto simp: handleIssueEndpoint_def Let_def writeIssueError_status split: sum.splits prod.splits option.splits
          intro: refused empty issued)
  qed
qed

text \<open>A 200 response is the answer of the pipeline behind a recorded authorization.\<close>

lemma ok_authorized:
  assumes "handleIssueEndpoint emit clientIP label flds zero prepare run emptyCheck encode request w = (resp, w')"
    and "rw_Status resp = 200"
  shows "\<exists>r p ys ev a b. resp = writeJSON 200 (encode r) \<and> emptyCheck r = None
    \<and> effects w w' = ys @ [Audited ev True, a, Audited (ev\<lparr>ev_Event := en_issued names\<rparr>) b]
    \<and> passed_gates p ys \<and> auth_row names (ev_JTI ev) p ev \<and> is_action a \<and> action_ok a"
  using assms(1)
proof (cases rule: handle_cases)
  case (issued r req)
  with success_rows [OF issued(4)] show ?thesis by blast
qed (use assms(2) in auto)

end

text \<open>
  Every request is accounted for. Without a token or with a malformed body the handler writes the row itself. Any other
  request has rows under its id; only when no id could be drawn there is none, and nothing happens.
\<close>

definition accounted :: "event_names \<Rightarrow> string option \<Rightarrow> bool \<Rightarrow> server_request \<Rightarrow> string \<Rightarrow> server_response \<Rightarrow> 'w world \<Rightarrow> 'w world \<Rightarrow> bool" where
  "accounted n jti well_formed request sourceIP resp w w' \<longleftrightarrow>
     (if isl (bearerToken (Header_Get ''Authorization'' (sr_Header request)))
      then rw_Status resp = 401 \<and> denied_once n jti DenyReasonMissingBearerToken sourceIP w w'
      else if \<not> well_formed then rw_Status resp = 400 \<and> denied_once n jti DenyReasonMalformedRequestBody sourceIP w w'
      else case jti of
        None \<Rightarrow> effects w w' = [] \<and> 400 \<le> rw_Status resp
      | Some j \<Rightarrow> audit_rows (effects w w') \<noteq> [] \<and> (\<forall>r \<in> set (audit_rows (effects w w')). ev_JTI (fst r) = j))"

context http_endpoint
begin

lemma row_written:
  assumes "handleIssueEndpoint emit clientIP label flds zero prepare run emptyCheck encode request w = (resp, w')"
  shows "accounted names (drawn_id w) (\<not> isl (Decode True flds zero (sr_Body request))) request
    (clientIP (sr_Header request) (sr_RemoteAddr request)) resp w w'"
  using assms
proof (cases rule: handle_cases)
  case (refused err req)
  with run_effects(3) [OF refused(4)] rows_of_request [OF refused(4)] show ?thesis by (auto simp: accounted_def split: option.split)
next
  case (empty r req m)
  with run_effects(3) [OF empty(4)] rows_of_request [OF empty(4)] show ?thesis by (auto simp: accounted_def split: option.split)
next
  case (issued r req)
  with run_effects(3) [OF issued(4)] rows_of_request [OF issued(4)] show ?thesis by (auto simp: accounted_def split: option.split)
qed (simp_all add: accounted_def)

end

lemma handler_denial_row:
  assumes "en_denied n = name"
  shows "denied_once n (request_id d w) (hd_DeniedReason dn) (hd_SourceIP dn) w (recordEndpointHandlerDenial d dn name pt w)"
  using assms
  by (auto simp: denied_once_def recordEndpointHandlerDenial_def request_id_def Let_def Record_trace untraced_def request_event_def empty_event_def
      effects_def split: prod.splits sum.splits)

interpretation cert_http: http_endpoint "IssueSSHCert lib i" cert_names "request_id (si_deps i)" "RecordSSHCertHandlerDenial i" for lib i
  by unfold_locales (simp add: RecordSSHCertHandlerDenial_def cert_names_def handler_denial_row)

interpretation payload_http: http_endpoint "IssueTimePayload jose i" payload_names "request_id (ti_deps i)" "RecordTimePayloadHandlerDenial i" for jose i
  by unfold_locales (simp add: RecordTimePayloadHandlerDenial_def payload_names_def handler_denial_row)

interpretation tunnel_http: http_endpoint "OpenTunnel i" tunnel_names "request_id (ni_deps i)" "RecordTunnelHandlerDenial i" for i
  by unfold_locales (simp add: RecordTunnelHandlerDenial_def tunnel_names_def handler_denial_row)

section \<open>Properties of the router\<close>

definition endpoint_names :: "string \<Rightarrow> event_names" where
  "endpoint_names path =
     (if path = ''/ssh/cert'' then cert_names else if path = ''/ssh/time-payload'' then payload_names else tunnel_names)"

definition issue_paths :: "string list" where
  "issue_paths = [''/ssh/cert'', ''/ssh/time-payload'', ''/ssh/tunnel'']"

definition configured :: "'w Deps \<Rightarrow> string \<Rightarrow> bool" where
  "configured deps path \<longleftrightarrow>
     (path = ''/ssh/cert'' \<and> dp_SSHCertIssuer deps \<noteq> None
      \<or> path = ''/ssh/time-payload'' \<and> dp_TimePayloadIssuer deps \<noteq> None
      \<or> path = ''/ssh/tunnel'' \<and> dp_TunnelIssuer deps \<noteq> None)"

text \<open>The id that the issuer of a path draws first, and whether a body has the form the path asks for.\<close>

definition endpoint_id :: "'w Deps \<Rightarrow> string \<Rightarrow> 'w world \<Rightarrow> string option" where
  "endpoint_id deps path w =
     (if path = ''/ssh/cert'' then (case dp_SSHCertIssuer deps of Some i \<Rightarrow> request_id (si_deps i) w | None \<Rightarrow> None)
      else if path = ''/ssh/time-payload'' then (case dp_TimePayloadIssuer deps of Some i \<Rightarrow> request_id (ti_deps i) w | None \<Rightarrow> None)
      else (case dp_TunnelIssuer deps of Some i \<Rightarrow> request_id (ni_deps i) w | None \<Rightarrow> None))"

definition well_formed_body :: "string \<Rightarrow> body \<Rightarrow> bool" where
  "well_formed_body path b \<longleftrightarrow>
     (let limited = MaxBytesReader MaxRequestBodyBytes b in
      if path = ''/ssh/cert'' then \<not> isl (Decode True cert_fields zero_cert_request limited)
      else if path = ''/ssh/time-payload'' then \<not> isl (Decode True payload_fields zero_payload_request limited)
      else \<not> isl (Decode True tunnel_fields zero_tunnel_request limited))"

lemma New_issue_path:
  assumes "New remote lib jose deps request w = (resp, w')" and "sr_Path request \<in> set issue_paths"
  obtains (bad_method) "rw_Status resp = 405" "sr_Method request \<noteq> ''POST''" "w' = w"
  | (missing) "rw_Status resp = 501" "\<not> configured deps (sr_Path request)" "w' = w"
  | (cert) i where "sr_Path request = ''/ssh/cert''" "dp_SSHCertIssuer deps = Some i" "sr_Method request = ''POST''"
      "handleSSHCert lib (Some i) (case dp_ClientIPStrategy deps of Some s \<Rightarrow> s | None \<Rightarrow> remote) (request\<lparr>sr_Body := MaxBytesReader MaxRequestBodyBytes (sr_Body request)\<rparr>) w = (resp, w')"
  | (payload) i where "sr_Path request = ''/ssh/time-payload''" "dp_TimePayloadIssuer deps = Some i" "sr_Method request = ''POST''"
      "handleTimePayload jose (Some i) (case dp_ClientIPStrategy deps of Some s \<Rightarrow> s | None \<Rightarrow> remote) (request\<lparr>sr_Body := MaxBytesReader MaxRequestBodyBytes (sr_Body request)\<rparr>) w = (resp, w')"
  | (tunnel) i where "sr_Path request = ''/ssh/tunnel''" "dp_TunnelIssuer deps = Some i" "sr_Method request = ''POST''"
      "handleTunnel (Some i) (case dp_ClientIPStrategy deps of Some s \<Rightarrow> s | None \<Rightarrow> remote) (request\<lparr>sr_Body := MaxBytesReader MaxRequestBodyBytes (sr_Body request)\<rparr>) w = (resp, w')"
proof (cases "sr_Method request = ''POST''")
  case False
  with assms bad_method show thesis by (auto simp: New_def withBodyLimit_def issue_paths_def plain_response_def Let_def)
next
  case True
  from assms(2) consider "sr_Path request = ''/ssh/cert''" | "sr_Path request = ''/ssh/time-payload''" | "sr_Path request = ''/ssh/tunnel''"
    by (auto simp: issue_paths_def)
  then show thesis
  proof cases
    case 1
    with True assms(1) cert missing show thesis
      by (cases "dp_SSHCertIssuer deps") (auto simp: New_def withBodyLimit_def handleSSHCert_def notConfiguredHandler_def configured_def Let_def)
  next
    case 2
    with True assms(1) payload missing show thesis
      by (cases "dp_TimePayloadIssuer deps") (auto simp: New_def withBodyLimit_def handleTimePayload_def notConfiguredHandler_def configured_def Let_def)
  next
    case 3
    with True assms(1) tunnel missing show thesis
      by (cases "dp_TunnelIssuer deps") (auto simp: New_def withBodyLimit_def handleTunnel_def notConfiguredHandler_def configured_def Let_def)
  qed
qed

text \<open>
  C20: no credential leaves the broker unauthorized. If the HTTP handler answers 200 on one of the three
  issue paths, the calls made for that request end with a durably recorded authorization row, the
  signature or tunnel it authorizes, and the issued row; before them the token, rate limit, registry and
  policy gates were passed, for the caller and the device the row names.
\<close>

theorem http_credential_authorized:
  assumes "New remote lib jose deps request w = (resp, w')" and "sr_Path request \<in> set issue_paths" and "rw_Status resp = 200"
  shows "\<exists>p ys ev a b. effects w w' = ys @ [Audited ev True, a, Audited (ev\<lparr>ev_Event := en_issued (endpoint_names (sr_Path request))\<rparr>) b]
    \<and> passed_gates p ys \<and> auth_row (endpoint_names (sr_Path request)) (ev_JTI ev) p ev \<and> is_action a \<and> action_ok a"
  using assms(1,2)
proof (cases rule: New_issue_path)
  case (cert i)
  from cert_http.ok_authorized [OF cert(4) [unfolded handleSSHCert_def option.case] assms(3)] cert(1)
  show ?thesis by (fastforce simp: endpoint_names_def)
next
  case (payload i)
  from payload_http.ok_authorized [OF payload(4) [unfolded handleTimePayload_def option.case] assms(3)] payload(1)
  show ?thesis by (fastforce simp: endpoint_names_def)
next
  case (tunnel i)
  from tunnel_http.ok_authorized [OF tunnel(4) [unfolded handleTunnel_def option.case] assms(3)] tunnel(1)
  show ?thesis by (fastforce simp: endpoint_names_def)
qed (use assms(3) in auto)

text \<open>
  C21: every POST to a configured issue endpoint is accounted for. Without a bearer token it is answered 401, with a body
  that is not the JSON of the request 400, and the handler leaves exactly one denial row with that reason, the address
  of the client and the request id. Any other request leaves at least one row, and all its rows carry the id that
  was drawn for it; it leaves none only if that draw failed, and then nothing at all was called and the answer is an error.
\<close>

theorem http_request_audited:
  assumes "New remote lib jose deps request w = (resp, w')" and "sr_Path request \<in> set issue_paths"
    and "sr_Method request = ''POST''" and "configured deps (sr_Path request)"
  shows "accounted (endpoint_names (sr_Path request)) (endpoint_id deps (sr_Path request) w) (well_formed_body (sr_Path request) (sr_Body request)) request
    ((case dp_ClientIPStrategy deps of Some s \<Rightarrow> s | None \<Rightarrow> remote) (sr_Header request) (sr_RemoteAddr request)) resp w w'"
  using assms(1,2)
proof (cases rule: New_issue_path)
  case (cert i)
  from cert_http.row_written [OF cert(4) [unfolded handleSSHCert_def option.case]] cert(1,2)
  show ?thesis by (simp add: accounted_def endpoint_names_def endpoint_id_def well_formed_body_def)
next
  case (payload i)
  from payload_http.row_written [OF payload(4) [unfolded handleTimePayload_def option.case]] payload(1,2)
  show ?thesis by (simp add: accounted_def endpoint_names_def endpoint_id_def well_formed_body_def)
next
  case (tunnel i)
  from tunnel_http.row_written [OF tunnel(4) [unfolded handleTunnel_def option.case]] tunnel(1,2)
  show ?thesis by (simp add: accounted_def endpoint_names_def endpoint_id_def well_formed_body_def)
qed (use assms(3,4) in auto)

definition sample_http_deps :: "nat Deps" where
  "sample_http_deps = \<lparr>dp_HealthChecker = None, dp_SSHCertIssuer = Some sample_issuer, dp_TimePayloadIssuer = None,
     dp_TunnelIssuer = None, dp_ClientIPStrategy = None\<rparr>"

definition sample_http_request :: server_request where
  "sample_http_request = \<lparr>sr_Method = ''POST'', sr_Path = ''/ssh/cert'', sr_Header = [], sr_RemoteAddr = ''10.0.0.1'', sr_Body = ([], None)\<rparr>"

theorem http_request_audited_witness:
  "\<exists>resp w' ev b. New (\<lambda>h a. a) sample_lib sample_jose sample_http_deps sample_http_request sample_world = (resp, w')
     \<and> rw_Status resp = 401 \<and> effects sample_world w' = [Audited ev b] \<and> ev_Event ev = ''ssh_cert_denied''
     \<and> ev_DeniedReason ev = DenyReasonMissingBearerToken \<and> ev_SourceIP ev = ''10.0.0.1''"
proof -
  obtain resp w' where N: "New (\<lambda>h a. a) sample_lib sample_jose sample_http_deps sample_http_request sample_world = (resp, w')" by fastforce
  have "isl (bearerToken (Header_Get ''Authorization'' (sr_Header sample_http_request)))"
    by (simp add: sample_http_request_def Header_Get_def bearerToken_def)
  moreover have "accounted (endpoint_names (sr_Path sample_http_request)) (endpoint_id sample_http_deps (sr_Path sample_http_request) sample_world)
      (well_formed_body (sr_Path sample_http_request) (sr_Body sample_http_request)) sample_http_request
      ((case dp_ClientIPStrategy sample_http_deps of Some s \<Rightarrow> s | None \<Rightarrow> (\<lambda>h a. a)) (sr_Header sample_http_request) (sr_RemoteAddr sample_http_request))
      resp sample_world w'"
    by (rule http_request_audited [OF N]) (simp_all add: sample_http_request_def issue_paths_def configured_def sample_http_deps_def)
  moreover have "endpoint_names (sr_Path sample_http_request) = cert_names" "dp_ClientIPStrategy sample_http_deps = None"
    "sr_RemoteAddr sample_http_request = ''10.0.0.1''" by (simp_all add: sample_http_request_def endpoint_names_def sample_http_deps_def)
  ultimately show ?thesis using N
    by (auto simp: accounted_def denied_once_def EventCertDenied_def)
qed

text \<open>A well-formed request for the sample certificate.\<close>

definition sample_body :: json where
  "sample_body = JObject [(''device_id'', JString ''lab''), (''principal_type'', JString ''operator''),
     (''public_key'', JString ''ssh-ed25519 K''), (''max_lifetime_minutes'', JNumber ''30'')]"

definition sample_post :: server_request where
  "sample_post = \<lparr>sr_Method = ''POST'', sr_Path = ''/ssh/cert'', sr_Header = [(''Authorization'', ''Bearer tok''), (''User-Agent'', ''ua'')],
     sr_RemoteAddr = ''ip'', sr_Body = (json_print sample_body, None)\<rparr>"

lemma sample_body_print:
  "length (json_print sample_body) \<le> 200" "json_value (json_print sample_body) = Some (sample_body, [])"
proof -
  have p: "json_escape ''device_id'' = ''device_id''" "json_escape ''lab'' = ''lab''" "json_escape ''principal_type'' = ''principal_type''"
    "json_escape ''operator'' = ''operator''" "json_escape ''public_key'' = ''public_key''" "json_escape ''ssh-ed25519 K'' = ''ssh-ed25519 K''"
    "json_escape ''max_lifetime_minutes'' = ''max_lifetime_minutes''"
    by (rule json_escape_plain, simp add: plain_char_def is_ascii_def)+
  then show "length (json_print sample_body) \<le> 200" by (simp add: sample_body_def json_quote_def)
  have c: "coerce_utf8 ''device_id'' = ''device_id''" "coerce_utf8 ''lab'' = ''lab''" "coerce_utf8 ''principal_type'' = ''principal_type''"
    "coerce_utf8 ''operator'' = ''operator''" "coerce_utf8 ''public_key'' = ''public_key''" "coerce_utf8 ''ssh-ed25519 K'' = ''ssh-ed25519 K''"
    "coerce_utf8 ''max_lifetime_minutes'' = ''max_lifetime_minutes''"
    by (rule coerce_utf8_ascii, simp add: is_ascii_def)+
  have "FormatInt 30 = ''30''" by code_simp
  with number_lit_FormatInt [of 30] have "number_lit ''30''" by simp
  then have "json_ok sample_body" by (simp add: sample_body_def)
  from json_value_print(1) [OF this, of "[]"] c show "json_value (json_print sample_body) = Some (sample_body, [])"
    by (simp add: sample_body_def number_end_def del: json_print.simps)
qed

lemma sample_post_run:
  "\<exists>resp. New (\<lambda>h a. a) sample_lib sample_jose sample_http_deps sample_post sample_world = (resp, snd sample_out) \<and> rw_Status resp = 200"
proof -
  obtain r where r: "IssueSSHCert sample_lib sample_issuer sample_request sample_world = (Inr r, snd sample_out)"
    using sample_success by blast
  have cert: "TrimSpace (scp_SSHCert r) \<noteq> []"
  proof -
    have "(case fst sample_out of Inr x \<Rightarrow> TrimSpace (scp_SSHCert x) \<noteq> [] | _ \<Rightarrow> False)" by code_simp
    moreover have "fst sample_out = Inr r" by (metis r sample_out_def fst_conv)
    ultimately show ?thesis by simp
  qed
  have tok: "bearerToken ''Bearer tok'' = Inr ''tok''" by code_simp
  have "RuneCountInString ''ua'' = 2" "RuneCountInString ''lab'' = 3" by (code_simp, code_simp)
  then have ua: "TruncateRunes ''ua'' maxUserAgentRunes = ''ua''" "TruncateRunes ''lab'' maxDeviceIDRunes = ''lab''"
    by (simp_all add: TruncateRunes_def maxUserAgentRunes_def maxDeviceIDRunes_def)
  have trim: "TrimSpace ''lab'' = ''lab''" "TrimSpace ''ssh-ed25519 K'' = ''ssh-ed25519 K''" by (code_simp, code_simp)
  have thirty: "ParseInt64 ''30'' = Some 30" by code_simp
  have "MaxBytesReader MaxRequestBodyBytes (json_print sample_body, None) = (json_print sample_body, None)"
    using sample_body_print(1) by (simp add: MaxBytesReader_def MaxRequestBodyBytes_def)
  moreover have "Decode True cert_fields zero_cert_request (json_print sample_body, None)
      = Inr (zero_cert_request\<lparr>scr_DeviceID := ''lab'', scr_PrincipalType := ''operator'', scr_PublicKey := ''ssh-ed25519 K'',
          scr_MaxLifetimeMinutes := 30\<rparr>)"
    unfolding Decode_def fst_conv snd_conv sample_body_print(2)
    by (simp add: bind_value_def sample_body_def cert_fields_def find_field_def set_string_def set_int32_def thirty)
  ultimately have "New (\<lambda>h a. a) sample_lib sample_jose sample_http_deps sample_post sample_world
      = (writeJSON 200 (cert_json r), snd sample_out)"
    using r cert
    by (simp add: New_def withBodyLimit_def sample_http_deps_def sample_post_def handleSSHCert_def handleIssueEndpoint_def
        Header_Get_def tok normalize_cert_def zero_cert_request_def ua trim sample_request_def Let_def)
  then show ?thesis by (simp add: writeJSON_def)
qed

theorem http_credential_authorized_witness:
  "\<exists>p ys ev a b. effects sample_world (snd sample_out) = ys @ [Audited ev True, a, Audited (ev\<lparr>ev_Event := ''ssh_cert_issued''\<rparr>) b]
     \<and> passed_gates p ys \<and> is_action a"
proof -
  obtain resp where "New (\<lambda>h a. a) sample_lib sample_jose sample_http_deps sample_post sample_world = (resp, snd sample_out)"
    "rw_Status resp = 200" using sample_post_run by blast
  from http_credential_authorized [OF this(1) _ this(2)] show ?thesis
    by (fastforce simp: sample_post_def issue_paths_def endpoint_names_def cert_names_def EventCertIssued_def)
qed

end
