(* ===== verification/Grounded.thy ===== *)
theory Grounded
  imports SSH_Cert Time_Payload Tunnel
begin

text \<open>
  What stands behind a trace. The traces of \<open>Broker_Pipeline\<close> record the calls of a request with their
  outcome; here every entry is shown to come from a call of the dependency it names, with the answer it
  records: the caller of a rate-limit entry was returned by the token verifier, the device of a policy
  entry by the registry, and an entry marked as successful is a call that succeeded. The contract is
  stated once as a locale and interpreted for the three issuers (src/internal/broker/sshcert.go,
  issuetimepayload.go, tunnel.go).
\<close>

section \<open>Backed entries\<close>

definition verified :: "'w PipelineDeps \<Rightarrow> string \<Rightarrow> CallerClaims \<Rightarrow> bool" where
  "verified d tok caller \<longleftrightarrow> (\<exists>e e'. pd_TokenVerifier d tok e = (Inr caller, e'))"

text \<open>\<open>tok\<close> and \<open>dev\<close> are the access token and the device id of the request.\<close>

definition backed :: "'w PipelineDeps \<Rightarrow> string \<Rightarrow> string \<Rightarrow> effect \<Rightarrow> bool" where
  "backed d tok dev x =
     (case x of
        Called_Verify t b \<Rightarrow> t = tok \<and> (b \<longrightarrow> (\<exists>c. verified d tok c))
      | Called_RateLimit rl b \<Rightarrow>
          verified d tok (rl_Caller rl) \<and> (b \<longrightarrow> (\<exists>e e'. pd_RateLimiter d rl e = (None, e')))
      | Called_Resolve i b \<Rightarrow> i = dev \<and> (b \<longrightarrow> (\<exists>e r e'. pd_Registry d dev e = (Inr r, e')))
      | Called_Policy p b \<Rightarrow>
          pol_AccessToken p = tok \<and> verified d tok (pol_Caller p)
          \<and> (\<exists>e e'. pd_Registry d dev e = (Inr (pol_Device p), e')) \<and> (b \<longrightarrow> (\<exists>e e'. pd_Policy d p e = (None, e')))
      | Audited ev b \<Rightarrow> b \<longrightarrow> (\<exists>e e'. pd_Audit d ev e = (None, e'))
      | _ \<Rightarrow> True)"

definition grows :: "'w PipelineDeps \<Rightarrow> string \<Rightarrow> string \<Rightarrow> 'w world \<Rightarrow> 'w world \<Rightarrow> bool" where
  "grows d tok dev w w' \<longleftrightarrow> (\<exists>es. wld_trace w' = wld_trace w @ es \<and> list_all (backed d tok dev) es)"

lemma grows_refl [simp]: "grows d tok dev w w"
  by (simp add: grows_def)

lemma grows_trans [trans]: "grows d tok dev w1 w2 \<Longrightarrow> grows d tok dev w2 w3 \<Longrightarrow> grows d tok dev w1 w3"
  by (force simp: grows_def)

lemma grows_untraced: "untraced f w = (r, w') \<Longrightarrow> grows d tok dev w w'"
  by (auto simp: grows_def dest: untraced_trace)

lemma grows_traced: "traced f mk w = (r, w') \<Longrightarrow> (f (wld_ext w) = (r, wld_ext w') \<Longrightarrow> backed d tok dev (mk r)) \<Longrightarrow> grows d tok dev w w'"
  by (auto simp: grows_def traced_def split: prod.splits)

lemma grows_Record: "Record d ev w = (r, w') \<Longrightarrow> grows d tok dev w w'"
  unfolding Record_def by (erule grows_traced) (auto simp: backed_def)

lemma grows_snd_Record: "grows d tok dev w (snd (Record d ev w))"
  using grows_Record [of d ev w] by (cases "Record d ev w") simp

lemma grows_recordEndpointDenial: "grows d tok dev w (recordEndpointDenial d ev w)"
  by (simp add: recordEndpointDenial_def grows_snd_Record)

lemma grows_verifyEngineer:
  assumes "verifyEngineer d r w = (x, w')"
  shows "grows d (ep_AccessToken r) dev w w'"
    and "x = Passed ec \<Longrightarrow> verified d (ep_AccessToken r) (ec_Caller ec)"
proof -
  obtain now w1 where clock: "untraced (pd_Clock d) w = (now, w1)" by fastforce
  obtain i w2 where ids: "untraced (pd_IDs d now) w1 = (i, w2)" by fastforce
  note g2 = grows_trans [OF grows_untraced [OF clock] grows_untraced [OF ids]]
  have "grows d (ep_AccessToken r) dev w w' \<and> (x = Passed ec \<longrightarrow> verified d (ep_AccessToken r) (ec_Caller ec))"
  proof (cases i)
    case (Inl err)
    with assms clock ids g2 show ?thesis by (auto simp: verifyEngineer_def)
  next
    case (Inr j)
    obtain c w3 where tok: "traced (pd_TokenVerifier d (ep_AccessToken r)) (\<lambda>x. Called_Verify (ep_AccessToken r) (\<not> isl x)) w2 = (c, w3)"
      by fastforce
    have g3: "grows d (ep_AccessToken r) dev w2 w3"
      using tok by (rule grows_traced) (cases c; auto simp: backed_def verified_def [abs_def])
    show ?thesis
    proof (cases c)
      case (Inl err)
      with assms clock ids \<open>i = Inr j\<close> tok grows_trans [OF g2 g3] show ?thesis by (auto simp: verifyEngineer_def Let_def)
    next
      case (Inr caller)
      have call: "verified d (ep_AccessToken r) caller"
        using tok Inr by (auto simp: traced_def verified_def split: prod.splits)
      let ?rl = "\<lparr>rl_Caller = caller, rl_Device = zero_device, rl_Mode = ep_Mode r, rl_SourceIP = ep_SourceIP r, rl_UserAgent = ep_UserAgent r, rl_RequestID = id_UUID j\<rparr>"
      obtain l w4 where lim: "traced (pd_RateLimiter d ?rl) (\<lambda>x. Called_RateLimit ?rl (x = None)) w3 = (l, w4)" by fastforce
      have g4: "grows d (ep_AccessToken r) dev w3 w4"
        using lim by (rule grows_traced) (use call in \<open>auto simp: backed_def\<close>)
      from assms clock ids \<open>i = Inr j\<close> tok Inr lim
      have "w' = w4" "x = Passed ec \<longrightarrow> ec_Caller ec = caller" by (auto simp: verifyEngineer_def Let_def split: option.splits)
      with call grows_trans [OF grows_trans [OF g2 g3] g4] show ?thesis by blast
    qed
  qed
  then show "grows d (ep_AccessToken r) dev w w'" "x = Passed ec \<Longrightarrow> verified d (ep_AccessToken r) (ec_Caller ec)" by blast+
qed

lemma grows_resolveDevice:
  assumes "resolveDevice d r w = (x, w')" and ver: "verified d (dp_AccessToken r) (dp_Caller r)"
  shows "grows d (dp_AccessToken r) (dp_DeviceID r) w w'"
proof -
  obtain c w1 where res: "traced (pd_Registry d (dp_DeviceID r)) (\<lambda>x. Called_Resolve (dp_DeviceID r) (\<not> isl x)) w = (c, w1)"
    by fastforce
  have g1: "grows d (dp_AccessToken r) (dp_DeviceID r) w w1"
    using res by (rule grows_traced) (cases c; auto simp: backed_def)
  show ?thesis
  proof (cases "TrimSpace (dp_DeviceID r) = []")
    case True
    with assms(1) show ?thesis by (auto simp: resolveDevice_def Let_def)
  next
    case False
    show ?thesis
    proof (cases c)
      case (Inl err)
      with assms(1) False res g1 show ?thesis by (auto simp: resolveDevice_def Let_def)
    next
      case (Inr device)
      have call: "pd_Registry d (dp_DeviceID r) (wld_ext w) = (Inr device, wld_ext w1)"
        using res Inr by (auto simp: traced_def split: prod.splits)
      let ?p = "\<lparr>pol_AccessToken = dp_AccessToken r, pol_Caller = dp_Caller r, pol_Device = device, pol_Mode = dp_Mode r,
        pol_SourceIP = dp_SourceIP r, pol_UserAgent = dp_UserAgent r, pol_RequestID = dp_JTI r, pol_Timestamp = dp_Now r,
        pol_Context = dp_PolicyContext r\<rparr>"
      obtain l w2 where pol: "traced (pd_Policy d ?p) (\<lambda>x. Called_Policy ?p (x = None)) w1 = (l, w2)" by fastforce
      have g2: "grows d (dp_AccessToken r) (dp_DeviceID r) w1 w2"
        using pol by (rule grows_traced) (use call ver in \<open>auto simp: backed_def\<close>)
      from assms(1) False res Inr pol have "w' = w1 \<or> w' = w2"
        by (auto simp: resolveDevice_def Let_def split: option.splits if_splits)
      with g1 grows_trans [OF g1 g2] show ?thesis by blast
    qed
  qed
qed

section \<open>The contract\<close>

locale grounded_pipeline =
  fixes run :: "'req \<Rightarrow> 'w world \<Rightarrow> 'resp result \<times> 'w world"
    and deps :: "'w PipelineDeps"
    and token device_id :: "'req \<Rightarrow> string"
  assumes run_grows: "run req w = (res, w') \<Longrightarrow> grows deps (token req) (device_id req) w w'"
begin

lemma run_backed: "run req w = (res, w') \<Longrightarrow> x \<in> set (effects w w') \<Longrightarrow> backed deps (token req) (device_id req) x"
  using run_grows by (fastforce simp: grows_def effects_def list_all_iff)

lemma policy_entry:
  assumes "run req w = (res, w')" and "Called_Policy p True \<in> set (effects w w')"
  obtains e1 e1' e2 e2' where "pol_AccessToken p = token req"
    "verified deps (token req) (pol_Caller p)"
    "pd_Registry deps (device_id req) e1 = (Inr (pol_Device p), e1')" "pd_Policy deps p e2 = (None, e2')"
  using run_backed [OF assms] by (auto simp: backed_def)

lemma limit_entry:
  assumes "run req w = (res, w')" and "Called_RateLimit rl True \<in> set (effects w w')"
  obtains e e' where "pd_RateLimiter deps rl e = (None, e')"
  using run_backed [OF assms] by (auto simp: backed_def)

lemma audit_entry:
  assumes "run req w = (res, w')" and "Audited ev True \<in> set (effects w w')"
  obtains e e' where "pd_Audit deps ev e = (None, e')"
  using run_backed [OF assms] by (auto simp: backed_def)

end

section \<open>The issuers keep it\<close>

lemma grows_recordCertDenial: "grows d tok dev w (recordCertDenial d ev reason request w)"
  by (simp add: recordCertDenial_def grows_recordEndpointDenial)

lemma grows_recordTimePayloadDenialFor: "grows d tok dev w (recordTimePayloadDenialFor d ev reason request w)"
  by (simp add: recordTimePayloadDenialFor_def grows_recordEndpointDenial)

lemma grows_recordTunnelDenialFor: "grows d tok dev w (recordTunnelDenialFor d ev reason request w)"
  by (simp add: recordTunnelDenialFor_def grows_recordEndpointDenial)

lemmas grows_intros = grows_recordCertDenial grows_recordTimePayloadDenialFor grows_recordTunnelDenialFor
  grows_recordEndpointDenial grows_snd_Record

text \<open>A credential is an entry without an obligation.\<close>

lemma grows_action:
  "traced f (\<lambda>x. Signed_Cert c (b x)) w = (r, w') \<Longrightarrow> grows d tok dev w w'"
  "traced f (\<lambda>x. Signed_Payload c' (b x)) w = (r, w') \<Longrightarrow> grows d tok dev w w'"
  "traced f (\<lambda>x. Opened_Tunnel c'' (b x)) w = (r, w') \<Longrightarrow> grows d tok dev w w'"
  by (auto elim!: grows_traced simp: backed_def)

lemma grows_finishSSHCert: "finishSSHCert lib i request ec device mode ttl w = (res, w') \<Longrightarrow> grows (si_deps i) tok dev w w'"
  unfolding finishSSHCert_def Let_def recordAuthorized_def recordCertDenialWithDevice_def
  by (auto split: if_splits option.splits PublicKey.splits prod.splits sum.splits intro: grows_intros
      dest!: grows_Record [where tok = tok and dev = dev] grows_action(1) [where d = "si_deps i" and tok = tok and dev = dev])
    (blast intro: grows_trans grows_intros)+

text \<open>What the three device steps have in common: the preamble, and then a tail that grows.\<close>

lemma grows_device:
  assumes res: "resolveDevice d r w = (x, w1)" and ver: "verified d tok caller"
    and r: "dp_Caller r = caller" "dp_AccessToken r = tok" "dp_DeviceID r = dev" and tail: "grows d tok dev w1 w'"
  shows "grows d tok dev w w'"
  using grows_trans [OF grows_resolveDevice [OF res], of w'] ver tail r by simp

lemma grows_deviceSSHCert:
  assumes run: "deviceSSHCert lib i request ec mode ttl ctx w = (res, w')"
    and ver: "verified (si_deps i) (scr_AccessToken request) (ec_Caller ec)"
  shows "grows (si_deps i) (scr_AccessToken request) (scr_DeviceID request) w w'"
  using run unfolding deviceSSHCert_def
  by (auto split: prod.splits preamble.splits intro: grows_intros grows_finishSSHCert elim!: grows_device [OF _ ver])

interpretation cert_ground: grounded_pipeline "IssueSSHCert lib i" "si_deps i" scr_AccessToken scr_DeviceID for lib i
proof
  fix req w res w'
  assume run: "IssueSSHCert lib i req w = (res, w')"
  obtain r w1 where v: "verifyEngineer (si_deps i) \<lparr>ep_AccessToken = scr_AccessToken req,
      ep_Mode = ModeOperator, ep_SourceIP = scr_RemoteAddr req, ep_UserAgent = scr_UserAgent req\<rparr> w = (r, w1)"
    by fastforce
  note g = grows_verifyEngineer [OF v, simplified]
  from run v have "grows (si_deps i) (scr_AccessToken req) (scr_DeviceID req) w1 w'"
    by (auto simp: IssueSSHCert_def Let_def split: preamble.splits option.splits if_splits intro: grows_intros g(2)
        elim!: grows_deviceSSHCert)
  with g(1) show "grows (si_deps i) (scr_AccessToken req) (scr_DeviceID req) w w'" by (rule grows_trans)
qed

lemma grows_signTimePayload: "signTimePayload jose sg x w = (res, w') \<Longrightarrow> grows d tok dev w w'"
  unfolding signTimePayload_def
  by (auto split: option.splits prod.splits sum.splits dest!: grows_action(2) [where d = d and tok = tok and dev = dev])

lemma grows_finishTimePayload: "finishTimePayload jose i request ec device nonce w = (res, w') \<Longrightarrow> grows (ti_deps i) tok dev w w'"
  unfolding finishTimePayload_def Let_def recordAuthorized_def signerDenial_def
  by (auto split: option.splits prod.splits sum.splits dest!: grows_Record [where tok = tok and dev = dev]
      grows_signTimePayload [where d = "ti_deps i" and tok = tok and dev = dev])
    (blast intro: grows_trans grows_intros)+

lemma grows_deviceTimePayload:
  assumes run: "deviceTimePayload jose i request ec nonce w = (res, w')"
    and ver: "verified (ti_deps i) (tpr_AccessToken request) (ec_Caller ec)"
  shows "grows (ti_deps i) (tpr_AccessToken request) (tpr_DeviceID request) w w'"
  using run unfolding deviceTimePayload_def
  by (auto split: prod.splits preamble.splits intro: grows_intros grows_finishTimePayload elim!: grows_device [OF _ ver])

interpretation payload_ground: grounded_pipeline "IssueTimePayload jose i" "ti_deps i" tpr_AccessToken tpr_DeviceID for jose i
proof
  fix req w res w'
  assume run: "IssueTimePayload jose i req w = (res, w')"
  obtain r w1 where v: "verifyEngineer (ti_deps i) \<lparr>ep_AccessToken = tpr_AccessToken req,
      ep_Mode = ModeTimefix, ep_SourceIP = tpr_RemoteAddr req, ep_UserAgent = tpr_UserAgent req\<rparr> w = (r, w1)"
    by fastforce
  note g = grows_verifyEngineer [OF v, simplified]
  from run v have "grows (ti_deps i) (tpr_AccessToken req) (tpr_DeviceID req) w1 w'"
    by (auto simp: IssueTimePayload_def Let_def split: preamble.splits if_splits intro: grows_intros g(2)
        elim!: grows_deviceTimePayload)
  with g(1) show "grows (ti_deps i) (tpr_AccessToken req) (tpr_DeviceID req) w w'" by (rule grows_trans)
qed

lemma grows_openAuthorizedTunnel: "openAuthorizedTunnel i request ec device l target w = (res, w') \<Longrightarrow> grows (ni_deps i) tok dev w w'"
  unfolding openAuthorizedTunnel_def Let_def recordAuthorized_def
  by (auto split: option.splits prod.splits sum.splits dest!: grows_Record [where tok = tok and dev = dev]
      grows_action(3) [where d = "ni_deps i" and tok = tok and dev = dev])
    (blast intro: grows_trans grows_intros)+

lemma grows_finishTunnel: "finishTunnel i request ec device l w = (res, w') \<Longrightarrow> grows (ni_deps i) tok dev w w'"
  unfolding finishTunnel_def
  by (auto split: if_splits sum.splits intro: grows_intros elim!: grows_openAuthorizedTunnel)

lemma grows_deviceTunnel:
  assumes run: "deviceTunnel i request ec l w = (res, w')"
    and ver: "verified (ni_deps i) (tun_AccessToken request) (ec_Caller ec)"
  shows "grows (ni_deps i) (tun_AccessToken request) (tun_DeviceID request) w w'"
  using run unfolding deviceTunnel_def
  by (auto split: prod.splits preamble.splits intro: grows_intros grows_finishTunnel elim!: grows_device [OF _ ver])

interpretation tunnel_ground: grounded_pipeline "OpenTunnel i" "ni_deps i" tun_AccessToken tun_DeviceID for i
proof
  fix req w res w'
  assume run: "OpenTunnel i req w = (res, w')"
  obtain r w1 where v: "verifyEngineer (ni_deps i) \<lparr>ep_AccessToken = tun_AccessToken req,
      ep_Mode = ModeTunnel, ep_SourceIP = tun_RemoteAddr req, ep_UserAgent = tun_UserAgent req\<rparr> w = (r, w1)"
    by fastforce
  note g = grows_verifyEngineer [OF v, simplified]
  from run v have "grows (ni_deps i) (tun_AccessToken req) (tun_DeviceID req) w1 w'"
    by (auto simp: OpenTunnel_def Let_def split: preamble.splits if_splits intro: grows_intros g(2)
        elim!: grows_deviceTunnel)
  with g(1) show "grows (ni_deps i) (tun_AccessToken req) (tun_DeviceID req) w w'" by (rule grows_trans)
qed

end
