(* ===== verification/Wire.thy ===== *)
theory Wire
  imports Config IDP Registry Rate_Limit Policy Audit_Log Tunnel_Backend Handlers Grounded
begin

text \<open>
  The wiring of the broker (src/internal/brokerwire/wire.go): the concrete implementations of the
  interfaces are built from the configuration and composed into the handler's dependencies. What the
  AWS SDK, the HTTP transport, go-oidc and realclientip provide is one record of parameters. The
  tunneling backend carries a cache, so the state of the running broker is a pair of the backend and
  the environment; every other dependency works on the environment and is lifted.
\<close>

section \<open>Parameters\<close>

record ('n, 'c, 'k, 'v) platform =
  pf_config :: "'n config_lib"
  pf_NewProvider :: "string \<Rightarrow> 'v \<Rightarrow> (bool \<Rightarrow> string list \<Rightarrow> string \<Rightarrow> 'v \<Rightarrow> IDToken result \<times> 'v) result \<times> 'v"
  pf_Now :: "'v \<Rightarrow> time \<times> 'v"
  pf_UUIDv7 :: "time \<Rightarrow> 'v \<Rightarrow> ID result \<times> 'v"
  pf_ssh :: "'v ssh_sign_lib"
  pf_KMS :: "'v KMSClient"
  pf_GetItem :: "'v GetItem"
  pf_UpdateItem :: "'v UpdateItem"
  pf_IsAuthorized :: "'v IsAuthorizedWithToken"
  pf_PutLogEvents :: "'v PutLogEvents"
  pf_Quote :: "string \<Rightarrow> string"
  pf_HTTPClient :: "duration \<Rightarrow> 'v http_client"
  pf_BadRequest :: "http_request \<Rightarrow> go_error option"
  pf_SignHTTP :: "'k \<Rightarrow> http_request \<Rightarrow> string \<Rightarrow> string \<Rightarrow> string \<Rightarrow> time \<Rightarrow> http_request result"
  pf_Credentials :: "('v \<Rightarrow> 'k result \<times> 'v) option"
  pf_Region :: string
  pf_LambdaName :: string
  pf_AssumeRole :: "string \<Rightarrow> string \<Rightarrow> 'v \<Rightarrow> 'k result \<times> 'v"
  pf_CredentialsCache :: "duration \<Rightarrow> ('v \<Rightarrow> 'k result \<times> 'v) \<Rightarrow> 'c"
  pf_IoTClient :: "string \<Rightarrow> 'v AWSIoTClient"
  pf_IoTTargetClient :: "'c \<Rightarrow> string \<Rightarrow> 'v AWSIoTClient"
  pf_RemoteAddr :: client_ip
  pf_Rightmost :: "string \<Rightarrow> 'n list \<Rightarrow> client_ip result"
  pf_Chain :: "client_ip \<Rightarrow> client_ip \<Rightarrow> client_ip"

section \<open>Builders\<close>

definition principalClassRule :: "ClassRuleConfig \<Rightarrow> PrincipalClassRule" where
  "principalClassRule rule =
     (let out = \<lparr>rule_Class = TrimSpace (rc_Class rule), rule_Predicate = PredicateClaimPresent, rule_Claim = [], rule_Value = []\<rparr> in
      if TrimSpace (rc_ClaimPresent rule) \<noteq> [] then
        out\<lparr>rule_Predicate := PredicateClaimPresent, rule_Claim := TrimSpace (rc_ClaimPresent rule)\<rparr>
      else if TrimSpace (rc_ClaimAbsent rule) \<noteq> [] then
        out\<lparr>rule_Predicate := PredicateClaimAbsent, rule_Claim := TrimSpace (rc_ClaimAbsent rule)\<rparr>
      else if TrimSpace (rc_Claim rule) \<noteq> [] then
        out\<lparr>rule_Predicate := PredicateClaimEquals, rule_Claim := TrimSpace (rc_Claim rule), rule_Value := rc_Equals rule\<rparr>
      else if TrimSpace (rc_ScopeContains rule) \<noteq> [] then
        out\<lparr>rule_Predicate := PredicateScopeContains, rule_Value := TrimSpace (rc_ScopeContains rule)\<rparr>
      else out)"

definition principalClassConfig :: "PrincipalClassesConfig option \<Rightarrow> string \<times> PrincipalClassRule list" where
  "principalClassConfig classes =
     (case classes of None \<Rightarrow> ([], []) | Some c \<Rightarrow> (pc_Default c, map principalClassRule (pc_Rules c)))"

definition registryHTTPTimeout :: "RegistryConfig \<Rightarrow> duration" where
  "registryHTTPTimeout config = (if 0 < rg_HTTPTimeout config then rg_HTTPTimeout config else DefaultHTTPRegistryTimeout)"

definition buildRegistryHTTPClient ::
  "('n, 'c, 'k, 'v) platform \<Rightarrow> RegistryConfig \<Rightarrow> 'v http_client \<Rightarrow> 'v http_client option result" where
  "buildRegistryHTTPClient p config inner =
     (if rg_HTTPAuthMode config = [] \<or> rg_HTTPAuthMode config = RegistryHTTPAuthModeNone then Inr None
      else if rg_HTTPAuthMode config = RegistryHTTPAuthModeBearer
        then Inr (Some (NewBearerAuthClient (pf_HTTPClient p) (Some inner) (rg_HTTPBearerToken config)))
      else if rg_HTTPAuthMode config = RegistryHTTPAuthModeSigV4 then
        (let region = (if rg_HTTPAWSRegion config = [] then pf_Region p else rg_HTTPAWSRegion config) in
         if region = [] then
           Inl (Plain ''registry.http_aws_region empty and AWS SDK could not resolve a region for SigV4 signing'')
         else Inr (Some (NewSigV4AuthClient (pf_HTTPClient p) (pf_SignHTTP p) (pf_Now p) (Some inner) (pf_Credentials p) region)))
      else Inl (Plain (''unknown registry.http_auth_mode '' @ quoted (rg_HTTPAuthMode config))))"

definition buildRegistry ::
  "('n, 'c, 'k, 'v) platform \<Rightarrow> RegistryConfig \<Rightarrow> (string \<Rightarrow> 'v \<Rightarrow> DeviceRecord result \<times> 'v) result" where
  "buildRegistry p config =
     (if rg_HTTPURL config = [] then
        and_then (NewDynamoDBRegistry (pf_GetItem p) (rg_DynamoDBTable config)) (\<lambda>r. Inr (DynamoDB_ResolveDevice r))
      else
        let httpClient = pf_HTTPClient p (registryHTTPTimeout config); url = cl_url (pf_config p) in
        and_then (buildRegistryHTTPClient p config httpClient) (\<lambda>authClient.
        and_then (NewHTTPRegistryWithClient url (pf_HTTPClient p)
                    (case authClient of None \<Rightarrow> Some httpClient | Some c \<Rightarrow> Some c) (rg_HTTPURL config))
          (\<lambda>r. Inr (HTTP_ResolveDevice url (pf_BadRequest p) r))))"

definition operatorTTLByClass :: "(string \<times> duration) list \<Rightarrow> (string \<times> duration) list" where
  "operatorTTLByClass byClass = byClass"

definition buildClientIPStrategy :: "('n, 'c, 'k, 'v) platform \<Rightarrow> Config \<Rightarrow> client_ip result" where
  "buildClientIPStrategy p config =
     (case ParsedTrustedProxies (pf_config p) config of
        Inl err \<Rightarrow> Inl (Wrapped ''parse trusted proxies: '' err)
      | Inr ranges \<Rightarrow>
          if ranges = [] then Inr (pf_RemoteAddr p)
          else (case pf_Rightmost p ''X-Forwarded-For'' ranges of
                  Inl err \<Rightarrow> Inl (Wrapped ''build client-ip strategy: '' err)
                | Inr rightmost \<Rightarrow> Inr (pf_Chain p rightmost (pf_RemoteAddr p))))"

text \<open>The state of the broker, and a dependency that does not touch the tunneling backend.\<close>

type_synonym ('c, 'v) broker_state = "('c, 'v) AWSIoTTunneling \<times> 'v"

definition lift :: "('v \<Rightarrow> 'r \<times> 'v) \<Rightarrow> 't \<times> 'v \<Rightarrow> 'r \<times> 't \<times> 'v" where
  "lift f s = (case f (snd s) of (r, v) \<Rightarrow> (r, fst s, v))"

text \<open>\<open>buildTunnelIssuer\<close>: no issuer without a tunneling section; otherwise the issuer and its backend.\<close>

definition buildTunnelIssuer ::
  "('n, 'c, 'k, 'v) platform \<Rightarrow> TunnelingConfig option \<Rightarrow> ('c, 'v) broker_state PipelineArgs
    \<Rightarrow> (('c, 'v) broker_state TunnelIssuer \<times> ('c, 'v) AWSIoTTunneling) option result" where
  "buildTunnelIssuer p config pipelineDeps =
     (case config of
        None \<Rightarrow> Inr None
      | Some t \<Rightarrow>
          if tg_IOTRegion t = [] \<and> \<not> tg_TargetFromRegistry t then Inr None
          else and_then
            (if tg_TargetFromRegistry t
             then Inr (NewAWSIoTTargetTunnelingFromConfig (pf_AssumeRole p) (pf_CredentialsCache p) (pf_IoTTargetClient p) (pf_LambdaName p))
             else (case NewAWSIoTTunnelingFromConfig (pf_IoTClient p) (tg_IOTRegion t) of
                     Inl err \<Rightarrow> Inl (Wrapped ''build AWS IoT tunneling: '' err)
                   | Inr fixed \<Rightarrow> Inr fixed))
            (\<lambda>backend.
               and_then (NewTunnelIssuer (lift (pf_Now p)) (\<lambda>now. lift (pf_UUIDv7 p now))
                  \<lparr>nd_Pipeline = pipelineDeps, nd_Tunneling = Some AWSIoT_OpenTunnel,
                   nd_DefaultMaxLifetimeMinutes = tg_DefaultMaxLifetimeMinutes t, nd_ThingNameFormat = tg_ThingNameFormat t,
                   nd_TargetFromRegistry = tg_TargetFromRegistry t, nd_AllowedRoleARNs = tg_AllowedRoleARNs t\<rparr>)
                 (\<lambda>issuer. Inr (Some (issuer, backend)))))"

definition nil_backend :: "('c, 'v) AWSIoTTunneling" where
  "nil_backend = \<lparr>aws_client = None, aws_region = [], aws_targets = None\<rparr>"

text \<open>\<open>fmt.Errorf("build X: %w", err)\<close> around the constructor of X.\<close>

definition building :: "string \<Rightarrow> 'a result \<Rightarrow> 'a result" where
  "building what r = (case r of Inl err \<Rightarrow> Inl (Wrapped (''build '' @ what @ '': '') err) | Inr x \<Rightarrow> Inr x)"

definition verifierConfig :: "Config \<Rightarrow> OIDCVerifierConfig" where
  "verifierConfig config =
     (case principalClassConfig (ic_PrincipalClasses (cf_IDP config)) of (defaultClass, classRules) \<Rightarrow>
       \<lparr>oc_Issuer = ic_Issuer (cf_IDP config), oc_Audience = ic_Audience (cf_IDP config),
        oc_RequiredScope = ic_RequiredScope (cf_IDP config), oc_DefaultPrincipalClass = defaultClass,
        oc_PrincipalClassRules = classRules\<rparr>)"

text \<open>The part of \<open>BuildDeps\<close> after discovery and the public key of the CA, which makes no call.\<close>

definition lift_signer :: "'v CertSigner \<Rightarrow> ('c, 'v) broker_state CertSigner" where
  "lift_signer s = \<lparr>cs_PublicKey = cs_PublicKey s, cs_SignCert = (\<lambda>c. lift (cs_SignCert s c)),
     cs_SignTimePayload = (\<lambda>x. lift (cs_SignTimePayload s x))\<rparr>"

definition pipelineArgs ::
  "('n, 'c, 'k, 'v) platform \<Rightarrow> 'v OIDCVerifier \<Rightarrow> (string \<Rightarrow> 'v \<Rightarrow> DeviceRecord result \<times> 'v) \<Rightarrow> 'v AVPPolicy
    \<Rightarrow> 'v DynamoDBRateLimiter \<Rightarrow> 'v CloudWatchAudit \<Rightarrow> ('c, 'v) broker_state PipelineArgs" where
  "pipelineArgs p tokenVerifier deviceRegistry authorizer rateLimiter auditSink =
     \<lparr>pa_TokenVerifier = Some (\<lambda>t. lift (VerifyAccessToken tokenVerifier t)),
      pa_Registry = Some (\<lambda>i. lift (deviceRegistry i)),
      pa_Policy = Some (\<lambda>r. lift (AVP_Allow authorizer r)),
      pa_RateLimiter = Some (\<lambda>r. lift (RateLimiter_Allow rateLimiter r)),
      pa_Audit = Some (\<lambda>ev. lift (CloudWatch_Record (pf_Quote p) (pf_Now p) auditSink ev)),
      pa_Clock = None, pa_IDs = None\<rparr>"

definition assembleDeps ::
  "('n, 'c, 'k, 'v) platform \<Rightarrow> Config \<Rightarrow> 'v OIDCVerifier \<Rightarrow> 'v KMSSigner
    \<Rightarrow> (('c, 'v) broker_state Deps \<times> ('c, 'v) AWSIoTTunneling) result" where
  "assembleDeps p config tokenVerifier kms =
     and_then (building ''device registry'' (buildRegistry p (cf_Registry config))) (\<lambda>deviceRegistry.
     and_then (building ''rate limiter'' (NewDynamoDBRateLimiterWithOptions (pf_Now p) (pf_UpdateItem p)
         (rt_DynamoDBTable (cf_RateLimit config)) (rt_Limit (cf_RateLimit config)) (rt_Window (cf_RateLimit config)) (Some (pf_Now p)))) (\<lambda>rateLimiter.
     and_then (building ''AVP policy'' (NewAVPPolicy (pf_IsAuthorized p) (pl_AVPPolicyStoreID (cf_Policy config)))) (\<lambda>authorizer.
     and_then (building ''CloudWatch audit'' (NewCloudWatchAudit (pf_PutLogEvents p) (ac_CloudWatchLogGroup (cf_Audit config)))) (\<lambda>auditSink.
       let args = pipelineArgs p tokenVerifier deviceRegistry authorizer rateLimiter auditSink;
           certSigner = Some (lift_signer (KMS_CertSigner (pf_ssh p) kms)) in
     and_then (building ''SSH cert issuer'' (NewSSHCertIssuer (lift (pf_Now p)) (\<lambda>now. lift (pf_UUIDv7 p now)) args certSigner
         (ct_Operator (cf_CertTTL config)) (operatorTTLByClass (ct_ByClass (cf_CertTTL config))))) (\<lambda>sshCertIssuer.
     and_then (building ''time payload issuer'' (NewTimePayloadIssuer (lift (pf_Now p)) (\<lambda>now. lift (pf_UUIDv7 p now)) args certSigner)) (\<lambda>timePayloadIssuer.
     and_then (building ''tunnel issuer'' (buildTunnelIssuer p (cf_Tunneling config) args)) (\<lambda>tunnelIssuer.
     and_then (building ''client-IP strategy'' (buildClientIPStrategy p config)) (\<lambda>clientIPStrategy.
       Inr (\<lparr>dp_HealthChecker = None, dp_SSHCertIssuer = Some sshCertIssuer, dp_TimePayloadIssuer = Some timePayloadIssuer,
             dp_TunnelIssuer = map_option fst tunnelIssuer, dp_ClientIPStrategy = Some clientIPStrategy\<rparr>,
            case tunnelIssuer of Some (_, backend) \<Rightarrow> backend | None \<Rightarrow> nil_backend)))))))))"

definition BuildDeps ::
  "('n, 'c, 'k, 'v) platform \<Rightarrow> Config \<Rightarrow> 'v \<Rightarrow> (('c, 'v) broker_state Deps \<times> ('c, 'v) AWSIoTTunneling) result \<times> 'v" where
  "BuildDeps p config e0 =
     (case NewOIDCVerifier (pf_NewProvider p) (pf_Now p) (verifierConfig config) e0 of
        (Inl err, e1) \<Rightarrow> (Inl (Wrapped ''build OIDC verifier: '' err), e1)
      | (Inr tokenVerifier, e1) \<Rightarrow>
          (case NewKMSSigner (pf_ssh p) (pf_KMS p) (sc_KMSKeyARN (cf_Signer config)) e1 of
             (Inl err, e2) \<Rightarrow> (Inl (Wrapped ''build KMS signer: '' err), e2)
           | (Inr kms, e2) \<Rightarrow> (assembleDeps p config tokenVerifier kms, e2)))"

section \<open>Loaded configurations are trimmed where the verifier trims\<close>

lemma lookupTrimmedEnv_trim: "lookupTrimmedEnv n env = Some v \<Longrightarrow> TrimSpace v = v"
  by (auto simp: lookupTrimmedEnv_def split: option.splits if_splits)

definition idp_trimmed :: "Config \<Rightarrow> bool" where
  "idp_trimmed c \<longleftrightarrow> TrimSpace (ic_Audience (cf_IDP c)) = ic_Audience (cf_IDP c)
     \<and> TrimSpace (ic_RequiredScope (cf_IDP c)) = ic_RequiredScope (cf_IDP c)"

lemma setStringFromEnv_inv:
  "(\<And>v c. TrimSpace v = v \<Longrightarrow> P c \<Longrightarrow> P (target v c)) \<Longrightarrow> P (fst cs) \<Longrightarrow> P (fst (setStringFromEnv target n env f cs))"
  by (auto simp: setStringFromEnv_def lookupTrimmedEnv_trim split: option.splits)

lemma setStringSliceFromEnv_inv:
  "(\<And>v c. P c \<Longrightarrow> P (target v c)) \<Longrightarrow> P (fst cs) \<Longrightarrow> P (fst (setStringSliceFromEnv target n env f cs))"
  by (auto simp: setStringSliceFromEnv_def split: option.splits)

lemma setDurationFromEnv_inv:
  "setDurationFromEnv target n env f cs = Inr cs' \<Longrightarrow> (\<And>v c. P c \<Longrightarrow> P (target v c)) \<Longrightarrow> P (fst cs) \<Longrightarrow> P (fst cs')"
  by (auto simp: setDurationFromEnv_def split: option.splits)

lemma setIntFromEnv_inv:
  "setIntFromEnv target n env f cs = Inr cs' \<Longrightarrow> (\<And>v c. P c \<Longrightarrow> P (target v c)) \<Longrightarrow> P (fst cs) \<Longrightarrow> P (fst cs')"
  by (auto simp: setIntFromEnv_def split: option.splits)

lemma and_then_Inr: "and_then r f = Inr y \<longleftrightarrow> (\<exists>x. r = Inr x \<and> f x = Inr y)"
  by (cases r) (simp_all add: and_then_def)

lemma idp_trimmed_update [simp]:
  "idp_trimmed (update_tunneling f c) = idp_trimmed c" "idp_trimmed (update_registry g c) = idp_trimmed c"
  "idp_trimmed (update_ratelimit h c) = idp_trimmed c" "idp_trimmed (c\<lparr>cf_Listen := a\<rparr>) = idp_trimmed c"
  "idp_trimmed (c\<lparr>cf_Signer := b\<rparr>) = idp_trimmed c" "idp_trimmed (c\<lparr>cf_Audit := x\<rparr>) = idp_trimmed c"
  "idp_trimmed (c\<lparr>cf_Policy := y\<rparr>) = idp_trimmed c" "idp_trimmed (c\<lparr>cf_CertTTL := z\<rparr>) = idp_trimmed c"
  "idp_trimmed (c\<lparr>cf_TrustedProxies := u\<rparr>) = idp_trimmed c" "idp_trimmed (c\<lparr>cf_Tunneling := t\<rparr>) = idp_trimmed c"
  "idp_trimmed (c\<lparr>cf_RateLimit := rt\<rparr>) = idp_trimmed c" "idp_trimmed (c\<lparr>cf_Registry := rg\<rparr>) = idp_trimmed c"
  "idp_trimmed (c\<lparr>cf_IDP := (cf_IDP c)\<lparr>ic_PrincipalClasses := p\<rparr>\<rparr>) = idp_trimmed c"
  by (simp_all add: idp_trimmed_def update_tunneling_def update_registry_def update_ratelimit_def)

lemma overrideIdentity_trimmed:
  assumes "overrideIdentity ycl env cs = Inr cs'" and "idp_trimmed (fst cs)"
  shows "idp_trimmed (fst cs')"
proof -
  have classes: "setPrincipalClassesFromEnv ycl env a = Inr b \<Longrightarrow> idp_trimmed (fst a) \<Longrightarrow> idp_trimmed (fst b)" for a b
    by (auto simp: setPrincipalClassesFromEnv_def split: option.splits if_splits sum.splits)
  have idp: "idp_trimmed (update_idp (\<lambda>i. i\<lparr>ic_Issuer := v\<rparr>) c) = idp_trimmed c"
    "TrimSpace v = v \<Longrightarrow> idp_trimmed c \<Longrightarrow> idp_trimmed (update_idp (\<lambda>i. i\<lparr>ic_Audience := v\<rparr>) c)"
    "TrimSpace v = v \<Longrightarrow> idp_trimmed c \<Longrightarrow> idp_trimmed (update_idp (\<lambda>i. i\<lparr>ic_RequiredScope := v\<rparr>) c)" for v c
    by (simp_all add: idp_trimmed_def update_idp_def)
  from assms show ?thesis
    unfolding overrideIdentity_def Let_def and_then_Inr setPrincipalClassDefaultFromEnv_def
    by (elim exE conjE, hypsubst?) (auto intro!: setStringFromEnv_inv [where P = idp_trimmed] elim!: classes simp: idp)
qed

lemma overrideBackends_trimmed:
  assumes "overrideBackends lib env cs = Inr cs'" and "idp_trimmed (fst cs)"
  shows "idp_trimmed (fst cs')"
proof -
  have reg: "idp_trimmed (fst (setRegistryFromEnv env a)) = idp_trimmed (fst a)" for a
    by (cases a) (auto simp: setRegistryFromEnv_def Let_def split: option.splits)
  have ap: "fst (apfst f a) = f (fst a)" for f and a :: loading by (cases a) simp
  from assms show ?thesis
    unfolding overrideBackends_def Let_def and_then_Inr
    by (auto intro!: setStringFromEnv_inv [where P = idp_trimmed] dest!: setDurationFromEnv_inv [where P = idp_trimmed] setIntFromEnv_inv [where P = idp_trimmed] simp: reg ap)
qed

lemma overrideTunneling_trimmed:
  assumes "overrideTunneling env cs = Inr cs'" and "idp_trimmed (fst cs)"
  shows "idp_trimmed (fst cs')"
proof -
  have target: "setTunnelingTargetFromRegistryFromEnv env a = Inr (b, a') \<Longrightarrow> idp_trimmed (fst a) \<Longrightarrow> idp_trimmed (fst a')" for a b a'
    by (auto simp: setTunnelingTargetFromRegistryFromEnv_def Let_def split: option.splits if_splits)
  have strings: "idp_trimmed (fst a) \<Longrightarrow> idp_trimmed (fst (setTunnelingRegionFromEnv env a))"
    "idp_trimmed (fst a) \<Longrightarrow> idp_trimmed (fst (setTunnelingThingNameFormatFromEnv env a))"
    "idp_trimmed (fst a) \<Longrightarrow> idp_trimmed (fst (setTunnelingAllowedRoleARNsFromEnv env a))" for a
    by (auto simp: setTunnelingRegionFromEnv_def setTunnelingThingNameFormatFromEnv_def setTunnelingAllowedRoleARNsFromEnv_def
        intro!: setStringFromEnv_inv [where P = idp_trimmed] setStringSliceFromEnv_inv [where P = idp_trimmed])
  have lifetime: "setTunnelingMaxLifetimeFromEnv env a = Inr a' \<Longrightarrow> idp_trimmed (fst a) \<Longrightarrow> idp_trimmed (fst a')" for a a'
    unfolding setTunnelingMaxLifetimeFromEnv_def by (erule setIntFromEnv_inv) simp_all
  from assms show ?thesis
    unfolding overrideTunneling_def and_then_Inr
    by (auto intro!: strings elim!: target lifetime split: prod.splits if_splits)
qed

lemma overrideRest_trimmed: "overrideRest env cs = Inr cs' \<Longrightarrow> idp_trimmed (fst cs) \<Longrightarrow> idp_trimmed (fst cs')"
  unfolding overrideRest_def Let_def and_then_Inr
  by (auto intro!: setStringFromEnv_inv [where P = idp_trimmed] setStringSliceFromEnv_inv [where P = idp_trimmed]
      dest!: setDurationFromEnv_inv [where P = idp_trimmed])

lemma WithDefaults_trimmed: "idp_trimmed c \<Longrightarrow> idp_trimmed (fst (WithDefaults c s))"
  by (auto simp: WithDefaults_def Let_def idp_trimmed_def split: option.splits prod.splits if_splits)

lemma LoadResolvedConfig_trimmed:
  assumes "LoadResolvedConfig lib yc ycl fs options env = Inr r"
  shows "idp_trimmed (rs_Config r)"
proof -
  have zero: "idp_trimmed zero_config" by (simp add: idp_trimmed_def zero_config_def)
  have loaded: "idp_trimmed c" if "loadSelected lib yc fs sel = Inr (c, s)" for sel c s
    using that zero
    by (auto simp: loadSelected_def LoadConfigFile_def LoadConfig_def and_then_def trimConfig_def idp_trimmed_def Let_def
        split: option.splits sum.splits if_splits)
  from assms obtain sel c s s' where "loadSelected lib yc fs sel = Inr (c, s)"
    "applyEnvOverrides lib ycl env (WithDefaults c s) = Inr (rs_Config r, s')"
    by (auto simp: LoadResolvedConfig_def and_then_Inr split: sum.splits prod.splits if_splits)
  with loaded WithDefaults_trimmed show ?thesis
    unfolding applyEnvOverrides_def and_then_Inr
    by (metis overrideIdentity_trimmed overrideBackends_trimmed overrideTunneling_trimmed overrideRest_trimmed fst_conv)
qed

section \<open>What is built\<close>

lemma building_Inr [simp]: "building what (Inr x) = Inr x" "building what r = Inr y \<longleftrightarrow> r = Inr y"
  by (cases r; simp add: building_def)+

lemma and_then_simps [simp]: "and_then (Inr x) f = f x" "and_then (Inl err) f = Inl err"
  by (simp_all add: and_then_def)

lemma lift_result: "lift f s = (r, s') \<Longrightarrow> f (snd s) = (r, snd s')"
  by (auto simp: lift_def split: prod.splits)

lemma buildRegistry_ok:
  assumes "validateAuthMode lib config = []" and "rg_DynamoDBTable config \<noteq> [] \<or> rg_HTTPURL config \<noteq> []"
    and "rg_HTTPURL config = [] \<or> (\<exists>u. url_Parse (cl_url (pf_config p)) (rg_HTTPURL config) = Inr u
           \<and> url_Scheme u \<in> {''http'', ''https''} \<and> url_Host u \<noteq> [])"
    and "rg_HTTPAuthMode config \<noteq> ''aws_sigv4'' \<or> rg_HTTPAWSRegion config \<noteq> [] \<or> pf_Region p \<noteq> []"
  shows "\<exists>r. buildRegistry p config = Inr r"
  using assms validateAuthMode_Nil(3) [OF assms(1)]
  by (auto simp: buildRegistry_def NewDynamoDBRegistry_def buildRegistryHTTPClient_def NewHTTPRegistryWithClient_def Let_def
      RegistryHTTPAuthModeNone_def RegistryHTTPAuthModeBearer_def RegistryHTTPAuthModeSigV4_def split: option.splits)

lemma buildRegistry_typed:
  assumes "buildRegistry p config = Inr r" and "r i e = (Inr d, e')"
  shows "device_ok d"
  using assms
  by (auto simp: buildRegistry_def and_then_Inr Let_def split: if_splits dest: dynamo.resolve_ok http.resolve_ok)

lemma ParsedTrustedProxies_ok:
  "\<forall>entry \<in> set entries. \<not> isl (cl_ParseCIDR lib (TrimSpace entry)) \<Longrightarrow> \<exists>ranges. ParsedTrustedProxies_loop lib entries = Inr ranges"
proof (induction entries)
  case (Cons entry rest)
  then show ?case by (cases "cl_ParseCIDR lib (TrimSpace entry)") auto
qed simp

lemma buildClientIPStrategy_ok:
  assumes "Validate (pf_config p) config = []" and "\<And>ranges. ranges \<noteq> [] \<Longrightarrow> \<not> isl (pf_Rightmost p ''X-Forwarded-For'' ranges)"
  shows "\<exists>s. buildClientIPStrategy p config = Inr s"
  using ParsedTrustedProxies_ok [OF Validate_Nil(16) [OF assms(1)]]
  by (auto simp: buildClientIPStrategy_def ParsedTrustedProxies_def split: sum.splits dest: assms(2))

definition wired_pipeline ::
  "('n, 'c, 'k, 'v) platform \<Rightarrow> 'v OIDCVerifier \<Rightarrow> (string \<Rightarrow> 'v \<Rightarrow> DeviceRecord result \<times> 'v) \<Rightarrow> 'v AVPPolicy
    \<Rightarrow> 'v DynamoDBRateLimiter \<Rightarrow> 'v CloudWatchAudit \<Rightarrow> ('c, 'v) broker_state PipelineDeps" where
  "wired_pipeline p tokenVerifier deviceRegistry authorizer rateLimiter auditSink =
     \<lparr>pd_TokenVerifier = (\<lambda>t. lift (VerifyAccessToken tokenVerifier t)), pd_Registry = (\<lambda>i. lift (deviceRegistry i)),
      pd_Policy = (\<lambda>r. lift (AVP_Allow authorizer r)), pd_RateLimiter = (\<lambda>r. lift (RateLimiter_Allow rateLimiter r)),
      pd_Audit = (\<lambda>ev. lift (CloudWatch_Record (pf_Quote p) (pf_Now p) auditSink ev)),
      pd_Clock = lift (pf_Now p), pd_IDs = (\<lambda>now. lift (pf_UUIDv7 p now))\<rparr>"

lemma withDefaults_wired [simp]:
  "withDefaults (lift (pf_Now p)) (\<lambda>now. lift (pf_UUIDv7 p now)) (pipelineArgs p tv rg po rl au)
     = Some (wired_pipeline p tv rg po rl au)"
  by (simp add: withDefaults_def pipelineArgs_def wired_pipeline_def)

definition wants_tunnels :: "Config \<Rightarrow> bool" where
  "wants_tunnels c \<longleftrightarrow> (case cf_Tunneling c of None \<Rightarrow> False | Some t \<Rightarrow> tg_IOTRegion t \<noteq> [] \<or> tg_TargetFromRegistry t)"

lemma buildTunnelIssuer_ok:
  assumes "Validate lib config = []" and "validate args = None"
  shows "\<exists>o'. buildTunnelIssuer p (cf_Tunneling config) args = Inr o' \<and> (o' \<noteq> None) = wants_tunnels config"
proof (cases "cf_Tunneling config")
  case None
  then show ?thesis by (simp add: buildTunnelIssuer_def wants_tunnels_def)
next
  case (Some t)
  have count: "Count defaultTunnelThingNameFormat tunnelSerialPlaceholder = 1" by code_simp
  have fmt: "tg_ThingNameFormat t = [] \<or> Count (tg_ThingNameFormat t) tunnelSerialPlaceholder = 1"
    using Validate_Nil(17) [OF assms(1) Some]
    by (simp add: TunnelingThingNameSerialPlaceholder_def tunnelSerialPlaceholder_def)
  have arns: "tg_TargetFromRegistry t \<Longrightarrow> tg_AllowedRoleARNs t \<noteq> [] \<and> validateAllowedRoleARNs (tg_AllowedRoleARNs t) = None"
    using Validate_Nil(18) [OF assms(1) Some]
    by (auto simp: validateTunnelingTarget_Nil validateAllowedRoleARNs_def errors_Join_None list_all_iff split: if_splits)
  obtain pl where pl: "withDefaults (lift (pf_Now p)) (\<lambda>now. lift (pf_UUIDv7 p now)) args = Some pl"
    using withDefaults_validate [of _ _ args] assms(2) by auto
  let ?deps = "\<lparr>nd_Pipeline = args, nd_Tunneling = Some AWSIoT_OpenTunnel,
       nd_DefaultMaxLifetimeMinutes = tg_DefaultMaxLifetimeMinutes t, nd_ThingNameFormat = tg_ThingNameFormat t,
       nd_TargetFromRegistry = tg_TargetFromRegistry t, nd_AllowedRoleARNs = tg_AllowedRoleARNs t\<rparr>"
  have "errors_Join (tunnelErrors ?deps (if tg_ThingNameFormat t = [] then defaultTunnelThingNameFormat else tg_ThingNameFormat t)) = None"
    using fmt arns assms(2) count by (auto simp: errors_Join_None tunnelErrors_def required_def)
  with pl obtain i where i: "NewTunnelIssuer (lift (pf_Now p)) (\<lambda>now. lift (pf_UUIDv7 p now)) ?deps = Inr i"
    by (simp add: NewTunnelIssuer_def Let_def cong: if_cong)
  show ?thesis
    using i Some
    by (auto simp: buildTunnelIssuer_def wants_tunnels_def NewAWSIoTTunnelingFromConfig_def NewAWSIoTTunneling_def)
qed

text \<open>The issuers that \<open>assembleDeps\<close> returns, whatever the rest of the configuration.\<close>

lemma assembleDeps_cert:
  assumes "assembleDeps p config tv kms = Inr (deps, backend)" and "dp_SSHCertIssuer deps = Some i"
  obtains rg rl where "buildRegistry p (cf_Registry config) = Inr rg"
    "si_operatorTTL i = (if ct_Operator (cf_CertTTL config) \<le> 0 then DefaultOperatorCertTTL else ct_Operator (cf_CertTTL config))"
    "si_operatorTTLByClass i = filter (\<lambda>(class, d). 0 < d) (ct_ByClass (cf_CertTTL config))"
    "\<And>class. 0 < operatorCeiling i class"
    "si_deps i = wired_pipeline p tv rg
       \<lparr>avp_client = pf_IsAuthorized p, avp_policyStoreID = pl_AVPPolicyStoreID (cf_Policy config)\<rparr> rl
       \<lparr>cw_client = pf_PutLogEvents p, cw_logGroup = ac_CloudWatchLogGroup (cf_Audit config)\<rparr>"
proof -
  from assms obtain rg rl where rg: "buildRegistry p (cf_Registry config) = Inr rg"
    and new: "NewSSHCertIssuer (lift (pf_Now p)) (\<lambda>now. lift (pf_UUIDv7 p now)) (pipelineArgs p tv rg
       \<lparr>avp_client = pf_IsAuthorized p, avp_policyStoreID = pl_AVPPolicyStoreID (cf_Policy config)\<rparr> rl
       \<lparr>cw_client = pf_PutLogEvents p, cw_logGroup = ac_CloudWatchLogGroup (cf_Audit config)\<rparr>)
       (Some (lift_signer (KMS_CertSigner (pf_ssh p) kms))) (ct_Operator (cf_CertTTL config)) (ct_ByClass (cf_CertTTL config)) = Inr i"
    by (auto simp: assembleDeps_def and_then_Inr Let_def NewAVPPolicy_def NewCloudWatchAudit_def operatorTTLByClass_def split: if_splits)
  from new show thesis
    by (intro that [OF rg _ _ operatorCeiling_pos [OF new]]) (auto simp: NewSSHCertIssuer_def)
qed

lemma NewSSHCertIssuer_wired:
  "\<exists>i. NewSSHCertIssuer (lift (pf_Now p)) (\<lambda>now. lift (pf_UUIDv7 p now)) (pipelineArgs p tv rg po rl au) (Some sg) ttl byClass = Inr i
     \<and> si_operatorTTL i = (if ttl \<le> 0 then DefaultOperatorCertTTL else ttl)
     \<and> si_operatorTTLByClass i = filter (\<lambda>(class, d). 0 < d) byClass"
  by (simp add: NewSSHCertIssuer_def)

lemma validate_wired [simp]: "validate (pipelineArgs p tv rg po rl au) = None"
  by (simp add: validate_def pipelineArgs_def required_def errors_Join_None)

definition configuredCeiling :: "Config \<Rightarrow> string \<Rightarrow> duration" where
  "configuredCeiling c class =
     (case map_of (ct_ByClass (cf_CertTTL c)) class of Some d \<Rightarrow> d | None \<Rightarrow> ct_Operator (cf_CertTTL c))"

lemma filter_positive: "\<forall>(class, d) \<in> set l. 0 < d \<Longrightarrow> filter (\<lambda>(class, d). 0 < (d :: duration)) l = l"
  by (induction l) auto

lemma operatorCeiling_configured:
  assumes "Validate lib config = []" and "si_operatorTTL i = (if ct_Operator (cf_CertTTL config) \<le> 0 then DefaultOperatorCertTTL else ct_Operator (cf_CertTTL config))"
    and "si_operatorTTLByClass i = filter (\<lambda>(class, d). 0 < d) (ct_ByClass (cf_CertTTL config))"
  shows "operatorCeiling i class = configuredCeiling config class"
proof -
  have "si_operatorTTL i = ct_Operator (cf_CertTTL config)" using assms(2) Validate_Nil(14) [OF assms(1)] by simp
  moreover have "si_operatorTTLByClass i = ct_ByClass (cf_CertTTL config)"
    using assms(3) filter_positive [OF Validate_Nil(15) [OF assms(1)]] by simp
  ultimately show ?thesis by (simp add: operatorCeiling_def configuredCeiling_def split: option.split)
qed

section \<open>Properties\<close>

text \<open>
  C25: a broker whose configuration loads starts. Once discovery of the identity provider succeeds and the
  KMS key is an Ed25519 key, \<open>BuildDeps\<close> can only fail on what \<open>Validate\<close> does not look at: the shape of
  the registry URL, the region for signed registry requests, and realclientip's own refusal of ranges.
  Both signing endpoints are then configured, the tunnel endpoint exactly when the configuration asks for
  it, and the certificate ceiling of each class is the configured one.
\<close>

theorem broker_starts:
  assumes "LoadResolvedConfig (pf_config p) yaml_config yaml_classes fs options env = Inr r" and "rs_Config r = config"
    and "pf_NewProvider p (TrimSpace (ic_Issuer (cf_IDP config))) e0 = (Inr provider, e1)"
    and "kms_GetPublicKey (pf_KMS p) (sc_KMSKeyARN (cf_Signer config)) e1 = (Inr der, e2)"
    and "sl_ParsePKIX (pf_ssh p) der = Inr (PKIX_Ed25519 k)" and "sl_NewPublicKey (pf_ssh p) k = Inr pub"
    and "rg_HTTPURL (cf_Registry config) = [] \<or> (\<exists>u. url_Parse (cl_url (pf_config p)) (rg_HTTPURL (cf_Registry config)) = Inr u
           \<and> url_Scheme u \<in> {''http'', ''https''} \<and> url_Host u \<noteq> [])"
    and "rg_HTTPAuthMode (cf_Registry config) \<noteq> ''aws_sigv4'' \<or> rg_HTTPAWSRegion (cf_Registry config) \<noteq> [] \<or> pf_Region p \<noteq> []"
    and "\<And>ranges. ranges \<noteq> [] \<Longrightarrow> \<not> isl (pf_Rightmost p ''X-Forwarded-For'' ranges)"
  shows "\<exists>deps backend i. BuildDeps p config e0 = (Inr (deps, backend), e2)
    \<and> dp_SSHCertIssuer deps = Some i \<and> dp_TimePayloadIssuer deps \<noteq> None
    \<and> (dp_TunnelIssuer deps \<noteq> None) = wants_tunnels config
    \<and> (\<forall>class. operatorCeiling i class = configuredCeiling config class)"
proof -
  have v: "Validate (pf_config p) config = []" using LoadResolvedConfig_valid [OF assms(1)] assms(2) by simp
  note n = Validate_Nil [OF v]
  have "idp_trimmed config" using LoadResolvedConfig_trimmed [OF assms(1)] assms(2) by simp
  with n(4) have "oc_Audience (verifierConfig config) = ic_Audience (cf_IDP config)"
    "TrimSpace (ic_Audience (cf_IDP config)) \<noteq> [] \<or> TrimSpace (ic_RequiredScope (cf_IDP config)) \<noteq> []"
    by (auto simp: idp_trimmed_def verifierConfig_def split: prod.splits)
  with assms(3) obtain tv where tv: "NewOIDCVerifier (pf_NewProvider p) (pf_Now p) (verifierConfig config) e0 = (Inr tv, e1)"
    by (fastforce simp: NewOIDCVerifier_def verifierConfig_def Let_def split: prod.splits)
  from assms(4-6) n(6) obtain kms where kms: "NewKMSSigner (pf_ssh p) (pf_KMS p) (sc_KMSKeyARN (cf_Signer config)) e1 = (Inr kms, e2)"
    by (simp add: NewKMSSigner_def)
  obtain rg where rg: "buildRegistry p (cf_Registry config) = Inr rg"
    using buildRegistry_ok [OF n(8) _ assms(7,8)] n(7) by blast
  obtain s where s: "buildClientIPStrategy p config = Inr s" using buildClientIPStrategy_ok [OF v assms(9)] by blast
  let ?po = "\<lparr>avp_client = pf_IsAuthorized p, avp_policyStoreID = pl_AVPPolicyStoreID (cf_Policy config)\<rparr>"
  let ?rl = "\<lparr>lim_client = pf_UpdateItem p, lim_table = rt_DynamoDBTable (cf_RateLimit config),
       lim_limit = rt_Limit (cf_RateLimit config), lim_window = rt_Window (cf_RateLimit config), lim_clock = pf_Now p\<rparr>"
  let ?au = "\<lparr>cw_client = pf_PutLogEvents p, cw_logGroup = ac_CloudWatchLogGroup (cf_Audit config)\<rparr>"
  let ?args = "pipelineArgs p tv rg ?po ?rl ?au"
  have parts: "NewDynamoDBRateLimiterWithOptions (pf_Now p) (pf_UpdateItem p) (rt_DynamoDBTable (cf_RateLimit config))
      (rt_Limit (cf_RateLimit config)) (rt_Window (cf_RateLimit config)) (Some (pf_Now p)) = Inr ?rl"
    "NewAVPPolicy (pf_IsAuthorized p) (pl_AVPPolicyStoreID (cf_Policy config)) = Inr ?po"
    "NewCloudWatchAudit (pf_PutLogEvents p) (ac_CloudWatchLogGroup (cf_Audit config)) = Inr ?au"
    using n(9-13) by (simp_all add: NewDynamoDBRateLimiterWithOptions_def NewAVPPolicy_def NewCloudWatchAudit_def)
  let ?sg = "Some (lift_signer (KMS_CertSigner (pf_ssh p) kms))"
  from NewSSHCertIssuer_wired obtain i where i: "NewSSHCertIssuer (lift (pf_Now p)) (\<lambda>now. lift (pf_UUIDv7 p now)) ?args ?sg
      (ct_Operator (cf_CertTTL config)) (operatorTTLByClass (ct_ByClass (cf_CertTTL config))) = Inr i"
    and ttl: "si_operatorTTL i = (if ct_Operator (cf_CertTTL config) \<le> 0 then DefaultOperatorCertTTL else ct_Operator (cf_CertTTL config))"
      "si_operatorTTLByClass i = filter (\<lambda>(class, d). 0 < d) (ct_ByClass (cf_CertTTL config))"
    unfolding operatorTTLByClass_def by blast
  obtain ti where ti: "NewTimePayloadIssuer (lift (pf_Now p)) (\<lambda>now. lift (pf_UUIDv7 p now)) ?args ?sg = Inr ti"
    by (simp add: NewTimePayloadIssuer_def)
  obtain t where t: "buildTunnelIssuer p (cf_Tunneling config) ?args = Inr t" "(t \<noteq> None) = wants_tunnels config"
    using buildTunnelIssuer_ok [OF v validate_wired, of p p tv rg ?po ?rl ?au] by blast
  have "\<exists>deps backend. assembleDeps p config tv kms = Inr (deps, backend) \<and> dp_SSHCertIssuer deps = Some i
      \<and> dp_TimePayloadIssuer deps \<noteq> None \<and> (dp_TunnelIssuer deps \<noteq> None) = wants_tunnels config"
    unfolding assembleDeps_def rg building_Inr(1) and_then_simps parts Let_def i ti t(1) s using t(2) by auto
  with tv kms operatorCeiling_configured [OF v ttl] show ?thesis unfolding BuildDeps_def by auto
qed

text \<open>What the calls of the wired pipeline are.\<close>

lemma wired_policy:
  assumes "pd_Policy (wired_pipeline p tv rg \<lparr>avp_client = client, avp_policyStoreID = store\<rparr> rl au) pr e = (None, e')"
  shows "\<exists>q f f'. client q f = (Inr DecisionAllow, f') \<and> ia_PolicyStoreId q = store \<and> ia_AccessToken q = pol_AccessToken pr
    \<and> ia_ResourceId q = dev_Serial (pol_Device pr) \<and> Some (ia_ActionId q) = policyAction (pol_Mode pr)
    \<and> ia_Context q = contextMap pr"
proof -
  from assms have "AVP_Allow \<lparr>avp_client = client, avp_policyStoreID = store\<rparr> pr (snd e) = (None, snd e')"
    by (auto simp: wired_pipeline_def dest: lift_result)
  then obtain a where "policyAction (pol_Mode pr) = Some a"
    "client (authorizationInput \<lparr>avp_client = client, avp_policyStoreID = store\<rparr> pr a) (snd e) = (Inr DecisionAllow, snd e')"
    by (auto simp: AVP_Allow_def split: option.splits prod.splits sum.splits if_splits)
  then show ?thesis
    by (intro exI [of _ "authorizationInput \<lparr>avp_client = client, avp_policyStoreID = store\<rparr> pr a"])
      (auto simp: authorizationInput_def)
qed

lemma wired_audit:
  assumes "pd_Audit (wired_pipeline p tv rg po rl \<lparr>cw_client = client, cw_logGroup = grp\<rparr>) ev e = (None, e')"
  shows "\<exists>(q :: PutLogEventsInput) f f'. client auditEmitTimeout q f = (Inr (), f') \<and> ple_LogGroupName q = grp
    \<and> MarshalEvent ev = Some (ple_Message q)"
proof -
  from assms have "CloudWatch_Record (pf_Quote p) (pf_Now p) \<lparr>cw_client = client, cw_logGroup = grp\<rparr> ev (snd e) = (None, snd e')"
    by (auto simp: wired_pipeline_def dest: lift_result)
  then show ?thesis
    by (auto simp: CloudWatch_Record_def split: option.splits prod.splits sum.splits if_splits) force+
qed

lemma cert_content:
  assumes "permits pr ec device" and "scr_PrincipalType request \<in> {PrincipalTypeOperator, PrincipalTypeTimefix}"
    and crt: "crt = certFor ec device key (scr_PrincipalType request) (certTTL i (ec_Caller ec) request)"
    and pos: "\<And>class. 0 < operatorCeiling i class"
  shows "ev_Event (authorizedFor ec device request (scr_PrincipalType request) ttl) = EventCertAuthorized"
    and "ev_CertSerial (authorizedFor ec device request (scr_PrincipalType request) ttl) = nat_str (unat (crt_Serial crt))"
    and "ev_EngineerSub (authorizedFor ec device request (scr_PrincipalType request) ttl) = cl_Subject (pol_Caller pr)"
    and "crt_ValidPrincipals crt = [''device-'' @ dev_Serial (pol_Device pr) @ ''-'' @ scr_PrincipalType request]"
    and "scr_PrincipalType request = PrincipalTypeOperator \<Longrightarrow>
      \<exists>t. 0 < t \<and> t \<le> operatorCeiling i (cl_Class (pol_Caller pr)) \<and> crt_ValidBefore crt = word_of_int (Unix (pol_Timestamp pr + t))"
proof -
  show "scr_PrincipalType request = PrincipalTypeOperator \<Longrightarrow>
      \<exists>t. 0 < t \<and> t \<le> operatorCeiling i (cl_Class (pol_Caller pr)) \<and> crt_ValidBefore crt = word_of_int (Unix (pol_Timestamp pr + t))"
    using assms(1) pos
    by (intro exI [of _ "certTTL i (ec_Caller ec) request"])
      (auto simp: certTTL_def resolveOperatorTTL_def Let_def permits_def crt certFor_def certWindow_def buildOperatorCert_def mode_defs)
qed (use assms(1,2) in \<open>auto simp: crt permits_def authorizedFor_def certFor_def certAuthorizedEvent_def stamp_caller_def
        buildOperatorCert_def buildTimefixCert_def operatorPrincipal_def timefixPrincipal_def mode_defs\<close>)

text \<open>
  C24: a certificate of the wired broker is grounded in what the backing services answered for this very
  request. Whenever the issuer that \<open>BuildDeps\<close> makes from a valid configuration uses the CA key, the
  verifier built from the configured issuer accepted the access token of the request for the caller; the
  configured registry returned the device for the requested id, with a safe serial, which is the one in
  the certificate's only principal; Verified Permissions answered ALLOW for that token, serial, action
  and context in the configured store; the configured log group accepted the authorization row; and an
  operator certificate expires within the configured ceiling of the caller's class.
\<close>

theorem wired_cert_grounded:
  assumes "BuildDeps p config e0 = (Inr (deps, backend), e1)" and "Validate (pf_config p) config = []"
    and "dp_SSHCertIssuer deps = Some i" and "IssueSSHCert lib i request w = (res, w')"
    and "Signed_Cert crt b \<in> set (effects w w')"
  shows "\<exists>tv rg pr ev (q :: IsAuthorizedInput) (l :: PutLogEventsInput) f1 f1' f2 f2' f3 f3' f4 f4'.
      fst (NewOIDCVerifier (pf_NewProvider p) (pf_Now p) (verifierConfig config) e0) = Inr tv
    \<and> VerifyAccessToken tv (scr_AccessToken request) f1 = (Inr (pol_Caller pr), f1')
    \<and> buildRegistry p (cf_Registry config) = Inr rg \<and> rg (scr_DeviceID request) f2 = (Inr (pol_Device pr), f2')
    \<and> serialPattern (dev_Serial (pol_Device pr))
    \<and> crt_ValidPrincipals crt = [''device-'' @ dev_Serial (pol_Device pr) @ ''-'' @ scr_PrincipalType request]
    \<and> pf_IsAuthorized p q f3 = (Inr DecisionAllow, f3') \<and> ia_PolicyStoreId q = pl_AVPPolicyStoreID (cf_Policy config)
    \<and> ia_AccessToken q = scr_AccessToken request \<and> ia_ResourceId q = dev_Serial (pol_Device pr)
    \<and> Some (ia_ActionId q) = policyAction (scr_PrincipalType request) \<and> ia_Context q = contextMap pr
    \<and> pf_PutLogEvents p auditEmitTimeout l f4 = (Inr (), f4') \<and> ple_LogGroupName l = ac_CloudWatchLogGroup (cf_Audit config)
    \<and> MarshalEvent ev = Some (ple_Message l) \<and> ev_Event ev = EventCertAuthorized
    \<and> ev_CertSerial ev = nat_str (unat (crt_Serial crt)) \<and> ev_EngineerSub ev = cl_Subject (pol_Caller pr)
    \<and> (scr_PrincipalType request = PrincipalTypeOperator \<longrightarrow>
         (\<exists>ttl. 0 < ttl \<and> ttl \<le> configuredCeiling config (cl_Class (pol_Caller pr))
            \<and> crt_ValidBefore crt = word_of_int (Unix (pol_Timestamp pr + ttl))))"
proof -
  from assms(1) obtain tv kms e' where tv: "fst (NewOIDCVerifier (pf_NewProvider p) (pf_Now p) (verifierConfig config) e0) = Inr tv"
    and asm: "assembleDeps p config tv kms = Inr (deps, backend)"
    by (auto simp: BuildDeps_def split: prod.splits sum.splits)
  from assembleDeps_cert [OF asm assms(3)] obtain rg rl
    where rg: "buildRegistry p (cf_Registry config) = Inr rg"
      and new: "si_operatorTTL i = (if ct_Operator (cf_CertTTL config) \<le> 0 then DefaultOperatorCertTTL else ct_Operator (cf_CertTTL config))"
        "si_operatorTTLByClass i = filter (\<lambda>(class, d). 0 < d) (ct_ByClass (cf_CertTTL config))"
      and pos: "\<And>class. 0 < operatorCeiling i class"
      and deps: "si_deps i = wired_pipeline p tv rg \<lparr>avp_client = pf_IsAuthorized p, avp_policyStoreID = pl_AVPPolicyStoreID (cf_Policy config)\<rparr> rl
        \<lparr>cw_client = pf_PutLogEvents p, cw_logGroup = ac_CloudWatchLogGroup (cf_Audit config)\<rparr>"
    by blast
  note ceil = operatorCeiling_configured [OF assms(2) new]
  from IssueSSHCert_trace [OF assms(4)] assms(5) obtain ec device rl' pr k ev b' where
    pr: "permits pr ec device" "pol_Mode pr = scr_PrincipalType request" "scr_PrincipalType request \<in> {PrincipalTypeOperator, PrincipalTypeTimefix}"
    and eff: "effects w w' = [Called_Verify (scr_AccessToken request) True, Called_RateLimit rl' True,
        Called_Resolve (scr_DeviceID request) True, Called_Policy pr True,
        Audited (authorizedFor ec device request (scr_PrincipalType request) (certTTL i (ec_Caller ec) request)) True,
        Signed_Cert (certFor ec device (BareKey k) (scr_PrincipalType request) (certTTL i (ec_Caller ec) request)) (\<not> isl res),
        Audited ev b']"
    by (auto simp: list_all_iff)
  let ?ev = "authorizedFor ec device request (scr_PrincipalType request) (certTTL i (ec_Caller ec) request)"
  from eff assms(5) have crt: "crt = certFor ec device (BareKey k) (scr_PrincipalType request) (certTTL i (ec_Caller ec) request)"
    by auto
  from eff have mem: "Called_Policy pr True \<in> set (effects w w')" "Audited ?ev True \<in> set (effects w w')" by simp_all
  from cert_ground.policy_entry [OF assms(4) mem(1)] obtain e2 e2' e3 e3' where pol: "pol_AccessToken pr = scr_AccessToken request"
    "verified (si_deps i) (scr_AccessToken request) (pol_Caller pr)"
    "pd_Registry (si_deps i) (scr_DeviceID request) e2 = (Inr (pol_Device pr), e2')" "pd_Policy (si_deps i) pr e3 = (None, e3')"
    by blast
  from cert_ground.audit_entry [OF assms(4) mem(2)] obtain e4 e4' where aud: "pd_Audit (si_deps i) ?ev e4 = (None, e4')"
    by blast
  from pol(2) obtain f1 f1' where t: "VerifyAccessToken tv (scr_AccessToken request) f1 = (Inr (pol_Caller pr), f1')"
    by (auto simp: verified_def deps wired_pipeline_def dest!: lift_result)
  from pol(3) obtain f2 f2' where r: "rg (scr_DeviceID request) f2 = (Inr (pol_Device pr), f2')"
    by (auto simp: deps wired_pipeline_def dest!: lift_result)
  note content = cert_content [OF pr(1,3) crt pos]
  have "serialPattern (dev_Serial (pol_Device pr))" using buildRegistry_typed [OF rg r] by (simp add: device_ok_def)
  with tv t rg r content ceil wired_policy [OF pol(4) [unfolded deps]] wired_audit [OF aud [unfolded deps]] pol(1) pr(2)
  show ?thesis by metis
qed

section \<open>A concrete broker\<close>

definition sample_platform :: "(unit, unit, unit, unit) platform" where
  "sample_platform =
     \<lparr>pf_config = sample_config_lib, pf_NewProvider = sample_provider, pf_Now = (\<lambda>e. (0, e)),
      pf_UUIDv7 = (\<lambda>t e. (Inr \<lparr>id_UUID = ''id-1'', id_Serial = 7\<rparr>, e)),
      pf_ssh = \<lparr>sl_ParsePKIX = (\<lambda>s. Inr (PKIX_Ed25519 s)), sl_NewPublicKey = (\<lambda>s. Inr s), sl_KeyType = (\<lambda>s. ''ssh-ed25519''),
        sl_SignCert = (\<lambda>k f c e. (Inr (c\<lparr>crt_Signature := ''sig''\<rparr>), e))\<rparr>,
      pf_KMS = \<lparr>kms_GetPublicKey = (\<lambda>s e. (Inr ''CA'', e)), kms_Sign = (\<lambda>s e. (Inr ''sig'', e))\<rparr>,
      pf_GetItem = (\<lambda>q e. (Inr [(''device_id'', AV_S ''lab''), (''serial'', AV_S ''S1'')], e)),
      pf_UpdateItem = (\<lambda>q e. (Inr (), e)), pf_IsAuthorized = (\<lambda>q e. (Inr ''ALLOW'', e)),
      pf_PutLogEvents = (\<lambda>t q e. (Inr (), e)), pf_Quote = (\<lambda>s. s),
      pf_HTTPClient = (\<lambda>d r e. (Inl (Plain ''no network''), e)), pf_BadRequest = (\<lambda>r. None),
      pf_SignHTTP = (\<lambda>k r a b c t. Inr r), pf_Credentials = None, pf_Region = [], pf_LambdaName = [],
      pf_AssumeRole = (\<lambda>a b e. (Inr (), e)), pf_CredentialsCache = (\<lambda>d f. ()),
      pf_IoTClient = (\<lambda>r q e. (Inl (Plain ''no tunnel''), e)), pf_IoTTargetClient = (\<lambda>c r q e. (Inl (Plain ''no tunnel''), e)),
      pf_RemoteAddr = (\<lambda>h a. a), pf_Rightmost = (\<lambda>h r. Inr (\<lambda>h a. a)), pf_Chain = (\<lambda>a b. a)\<rparr>"

definition sample_resolved :: Config where
  "sample_resolved = rs_Config (projr sample_loaded)"

theorem broker_starts_witness:
  "\<exists>deps backend i. BuildDeps sample_platform sample_resolved () = (Inr (deps, backend), ())
     \<and> dp_SSHCertIssuer deps = Some i \<and> dp_TunnelIssuer deps = None"
proof -
  have "\<not> isl sample_loaded" by code_simp
  then have r: "LoadResolvedConfig (pf_config sample_platform) (\<lambda>_. Inr sample_config) (\<lambda>_. Inl (Plain ''none'')) sample_fs sample_options
     (\<lambda>k. if k = ''POSTERN_RATELIMIT_LIMIT'' then Some '' 7 '' else None) = Inr (projr sample_loaded)"
    by (simp add: sample_loaded_def sample_platform_def)
  have url: "rg_HTTPURL (cf_Registry sample_resolved) = []" by code_simp
  have mode: "rg_HTTPAuthMode (cf_Registry sample_resolved) \<noteq> ''aws_sigv4''" by code_simp
  have "\<not> wants_tunnels sample_resolved" by code_simp
  moreover have "\<exists>deps backend i. BuildDeps sample_platform sample_resolved () = (Inr (deps, backend), ())
    \<and> dp_SSHCertIssuer deps = Some i \<and> dp_TimePayloadIssuer deps \<noteq> None
    \<and> (dp_TunnelIssuer deps \<noteq> None) = wants_tunnels sample_resolved
    \<and> (\<forall>class. operatorCeiling i class = configuredCeiling sample_resolved class)"
    by (rule broker_starts [OF r sample_resolved_def [symmetric], where der = "''CA''" and provider = "projr (fst (sample_provider [] ()))"])
      (use url mode in \<open>auto simp: sample_platform_def sample_provider_def\<close>)
  ultimately show ?thesis by auto
qed

lemma sample_resolved_fields: "ic_Audience (cf_IDP sample_resolved) = ''postern''" "ic_PrincipalClasses (cf_IDP sample_resolved) = None"
  "ic_RequiredScope (cf_IDP sample_resolved) = []" "cf_Tunneling sample_resolved = None" "cf_TrustedProxies sample_resolved = []"
  "sc_KMSKeyARN (cf_Signer sample_resolved) = ''arn:key''"
  "rg_DynamoDBTable (cf_Registry sample_resolved) = ''devices''" "rg_HTTPURL (cf_Registry sample_resolved) = []"
  "rt_DynamoDBTable (cf_RateLimit sample_resolved) = ''limits''" "rt_Limit (cf_RateLimit sample_resolved) = 7"
  "rt_Window (cf_RateLimit sample_resolved) = Minute" "pl_AVPPolicyStoreID (cf_Policy sample_resolved) = ''ps''"
  "ac_CloudWatchLogGroup (cf_Audit sample_resolved) = ''audit''"
  by code_simp+

definition sample_start :: "(unit, unit) broker_state world" where
  "sample_start = \<lparr>wld_ext = (nil_backend, ()), wld_trace = []\<rparr>"

definition sample_verifier :: "unit OIDCVerifier" where
  "sample_verifier = \<lparr>ov_verifier = (\<lambda>t e1. (if t = ''tok'' then Inr \<lparr>idt_Audience = [''postern''], idt_Claims = sample_payload\<rparr>
     else Inl (Plain ''bad token''), e1)), ov_audience = ''postern'', ov_requiredScope = [], ov_defaultClass = ''user'',
     ov_classRules = [], ov_now = (\<lambda>e. (0, e))\<rparr>"

lemma sample_trims: "TrimSpace ''tok'' = ''tok''" "TrimSpace ''postern'' = ''postern''" "TrimSpace ''u1'' = ''u1''"
  "TrimSpace ''lab'' = ''lab''" "TrimSpace ''S1'' = ''S1''" "TrimSpace ''ssh-ed25519 K'' = ''ssh-ed25519 K''"
  by code_simp+

lemma sample_verifies: "\<exists>c. VerifyAccessToken sample_verifier ''tok'' () = (Inr c, ()) \<and> cl_Subject c = ''u1''"
proof -
  have claims: "json_Unmarshal accessTokenClaims_fields zero_token_claims sample_payload = Some (zero_token_claims\<lparr>at_Subject := ''u1''\<rparr>)"
    by (simp add: json_Unmarshal_def sample_payload_parse bind_value_def accessTokenClaims_fields_def find_field_def set_string_def)
  have raw: "rawClaims sample_payload = Some [(''sub'', VString ''u1'')]"
    by (simp add: rawClaims_def sample_payload_parse)
  from claims raw sample_trims(1-3) sample_runes show ?thesis
    by (auto simp: VerifyAccessToken_def sample_verifier_def checkClaims_def zero_token_claims_def maxSubjectRunes_def maxEmailRunes_def Let_def)
qed

lemma sample_resolves: "DynamoDB_ResolveDevice \<lparr>dr_client = pf_GetItem sample_platform, dr_table = ''devices''\<rparr> ''lab'' () =
    (Inr \<lparr>dev_Serial = ''S1'', dev_FriendlyID = [], dev_Attributes = []\<rparr>, ())"
  by code_simp

lemma sample_records:
  "ev_Timestamp ev = 0 \<Longrightarrow> CloudWatch_Record (\<lambda>s. s) clock \<lparr>cw_client = (\<lambda>t q e. (Inr (), e)), cw_logGroup = g\<rparr> ev () = (None, ())"
proof -
  have d: "fst (Date 0) = 1970" by (simp add: Date_def time_days_def Unix_def epoch_days_def civil_from_days_def
      year_of_def Let_def Second_def days_before_def)
  assume "ev_Timestamp ev = 0"
  with d show ?thesis by (simp add: CloudWatch_Record_def MarshalEvent_def time_MarshalJSON_def zero_time_def Let_def split: prod.split)
qed

definition sample_pipeline :: "(unit, unit) broker_state PipelineDeps" where
  "sample_pipeline = wired_pipeline sample_platform sample_verifier
     (DynamoDB_ResolveDevice \<lparr>dr_client = pf_GetItem sample_platform, dr_table = ''devices''\<rparr>)
     \<lparr>avp_client = pf_IsAuthorized sample_platform, avp_policyStoreID = ''ps''\<rparr>
     \<lparr>lim_client = pf_UpdateItem sample_platform, lim_table = ''limits'', lim_limit = 7, lim_window = Minute, lim_clock = pf_Now sample_platform\<rparr>
     \<lparr>cw_client = pf_PutLogEvents sample_platform, cw_logGroup = ''audit''\<rparr>"

lemma sample_built:
  "\<exists>deps backend i. BuildDeps sample_platform sample_resolved () = (Inr (deps, backend), ()) \<and> dp_SSHCertIssuer deps = Some i
     \<and> si_deps i = sample_pipeline \<and> (\<forall>c e. \<exists>c'. cs_SignCert (si_signer i) c e = (Inr c', e))"
proof -
  have v: "NewOIDCVerifier (pf_NewProvider sample_platform) (pf_Now sample_platform) (verifierConfig sample_resolved) () = (Inr sample_verifier, ())"
    by (simp add: NewOIDCVerifier_def verifierConfig_def principalClassConfig_def sample_resolved_fields sample_trims sample_platform_def
        sample_provider_def sample_verifier_def DefaultPrincipalClass_def Let_def)
  obtain kms where kms: "NewKMSSigner (pf_ssh sample_platform) (pf_KMS sample_platform) (sc_KMSKeyARN (cf_Signer sample_resolved)) () = (Inr kms, ())"
    by (simp add: NewKMSSigner_def sample_resolved_fields sample_platform_def)
  have sg: "\<exists>c'. cs_SignCert (lift_signer (KMS_CertSigner (pf_ssh sample_platform) kms)) c e = (Inr c', e)"
    for c and e :: "(unit, unit) broker_state"
    by (cases e) (simp add: lift_signer_def lift_def KMS_CertSigner_def KMS_SignCert_def sample_platform_def)
  have ip: "buildClientIPStrategy sample_platform sample_resolved = Inr (pf_RemoteAddr sample_platform)"
    by (simp add: buildClientIPStrategy_def ParsedTrustedProxies_def sample_resolved_fields)
  show ?thesis
    using v kms sg ip
    by (simp add: BuildDeps_def assembleDeps_def buildRegistry_def NewDynamoDBRegistry_def NewDynamoDBRateLimiterWithOptions_def
        NewAVPPolicy_def NewCloudWatchAudit_def NewSSHCertIssuer_def NewTimePayloadIssuer_def buildTunnelIssuer_def
        sample_resolved_fields sample_pipeline_def Let_def Minute_def Second_def)
qed

lemma sample_dependencies:
  "pd_Clock sample_pipeline s = (0, s)" "pd_IDs sample_pipeline t s = (Inr \<lparr>id_UUID = ''id-1'', id_Serial = 7\<rparr>, s)"
  "VerifyAccessToken sample_verifier ''tok'' () = (Inr c, ()) \<Longrightarrow> pd_TokenVerifier sample_pipeline ''tok'' s = (Inr c, s)"
  "cl_Subject (rl_Caller rl) = ''u1'' \<Longrightarrow> pd_RateLimiter sample_pipeline rl s = (None, s)"
  "pd_Registry sample_pipeline ''lab'' s = (Inr \<lparr>dev_Serial = ''S1'', dev_FriendlyID = [], dev_Attributes = []\<rparr>, s)"
  "pol_Mode pr = ModeOperator \<Longrightarrow> pd_Policy sample_pipeline pr s = (None, s)"
  "ev_Timestamp ev = 0 \<Longrightarrow> pd_Audit sample_pipeline ev s = (None, s)"
  using sample_resolves sample_trims sample_records [of ev "pf_Now sample_platform" "''audit''"]
  by (cases s; simp add: sample_pipeline_def wired_pipeline_def lift_def sample_platform_def RateLimiter_Allow_def AVP_Allow_def
      policyAction_def DecisionAllow_def)+

lemma sample_signs:
  assumes "si_deps i = sample_pipeline" and "\<forall>c e. \<exists>c'. cs_SignCert (si_signer i) c e = (Inr c', e)"
  shows "\<exists>crt b. Signed_Cert crt b \<in> set (effects sample_start (snd (IssueSSHCert sample_lib i sample_request sample_start)))"
proof -
  obtain c where c: "VerifyAccessToken sample_verifier ''tok'' () = (Inr c, ())" "cl_Subject c = ''u1''" using sample_verifies by blast
  show ?thesis
    using assms(1) c sample_trims
    by (auto simp: IssueSSHCert_def sample_request_def sample_start_def verifyEngineer_def untraced_def traced_def
      sample_dependencies principalMode_def mode_defs deviceSSHCert_def resolveDevice_def finishSSHCert_def sample_lib_def
      recordAuthorized_def Record_def certAuthorizedEvent_def recordEndpointDenial_def effects_def Let_def split: prod.splits sum.splits)
qed

theorem wired_cert_grounded_witness:
  "\<exists>deps backend i res w' crt s (q :: IsAuthorizedInput) (l :: PutLogEventsInput).
     BuildDeps sample_platform sample_resolved () = (Inr (deps, backend), ()) \<and> dp_SSHCertIssuer deps = Some i
     \<and> IssueSSHCert sample_lib i sample_request sample_start = (res, w') \<and> Signed_Cert crt s \<in> set (effects sample_start w')
     \<and> ia_PolicyStoreId q = ''ps'' \<and> ia_AccessToken q = ''tok'' \<and> ple_LogGroupName l = ''audit''"
proof -
  obtain deps backend i where b: "BuildDeps sample_platform sample_resolved () = (Inr (deps, backend), ())" "dp_SSHCertIssuer deps = Some i"
    "si_deps i = sample_pipeline" "\<forall>c e. \<exists>c'. cs_SignCert (si_signer i) c e = (Inr c', e)" using sample_built by blast
  obtain res w' where run: "IssueSSHCert sample_lib i sample_request sample_start = (res, w')" by fastforce
  from sample_signs [OF b(3,4)] run obtain crt s where s: "Signed_Cert crt s \<in> set (effects sample_start w')" by auto
  have v: "Validate (pf_config sample_platform) sample_resolved = []" by code_simp
  from wired_cert_grounded [OF b(1) v b(2) run s] obtain q :: IsAuthorizedInput and l :: PutLogEventsInput where
    "ia_PolicyStoreId q = ''ps''" "ia_AccessToken q = ''tok''" "ple_LogGroupName l = ''audit''"
    unfolding sample_resolved_fields by (auto simp: sample_request_def)
  with b(1,2) run s show ?thesis by blast
qed

end
