(* ===== verification/Timefix.thy ===== *)
theory Timefix
  imports Time_Payload
begin

text \<open>
  The two programs on the device: the unprivileged verifier timefix-apply
  (src/cmd/timefix-apply/main.go, verify.go) and the privileged clock setter timefix-set-clock
  (src/cmd/timefix-set-clock/main.go, rtc_linux.go). Files, standard streams, \<open>exec\<close> and the system
  calls are functions on an arbitrary environment state; go-jose and the SSH key parser are
  parameters. Diagnostics on standard error are left out. The last section connects them with the
  broker's time payload.
\<close>

section \<open>The verifier\<close>

definition exitSuccess :: int where "exitSuccess = 0"
definition exitBadInput :: int where "exitBadInput = 2"
definition exitAlgTypMismatch :: int where "exitAlgTypMismatch = 3"
definition exitSignatureFailure :: int where "exitSignatureFailure = 4"
definition exitClaimFailure :: int where "exitClaimFailure = 5"
definition exitSetterExecFailure :: int where "exitSetterExecFailure = 6"

lemmas exit_defs = exitSuccess_def exitBadInput_def exitAlgTypMismatch_def exitSignatureFailure_def
  exitClaimFailure_def exitSetterExecFailure_def

definition expectedTyp :: string where
  "expectedTyp = ''postern-timefix+jwt''"

definition nowMinBound :: time where "nowMinBound = new_year 2024"
definition nowMaxBound :: time where "nowMaxBound = new_year 2099"

definition MaxJWSBytes :: nat where
  "MaxJWSBytes = 4096"

text \<open>What \<open>jose.ParseSigned\<close> returns: the \<open>typ\<close> entry of the extra headers of each signature, and a
  handle for \<open>Verify\<close>. An error says whether it is an \<open>ErrUnexpectedSignatureAlgorithm\<close>.\<close>

record ParsedJWS =
  pj_Typ :: "any option list"
  pj_Raw :: string

record jose_verifier =
  jv_ParseSigned :: "string \<Rightarrow> (bool \<times> go_error) + ParsedJWS"
  jv_Verify :: "string \<Rightarrow> ParsedJWS \<Rightarrow> string result"

record verifyParams =
  vp_JWS :: string
  vp_ExpectedSerial :: string
  vp_ExpectedNonce :: string
  vp_CAPublicKey :: string

datatype verify_error =
    EmptyJWS
  | OversizedJWS
  | WrongKeySize nat
  | AlgPin go_error
  | ParseJWS go_error
  | SignatureCount nat
  | HeaderTyp string
  | VerifySignature go_error
  | ParsePayload
  | AudMismatch string string
  | SerialMismatch string string
  | NonceMismatch
  | ParseNow
  | NowOutOfBound string

record verifyResult =
  vr_Timestamp :: int
  vr_ExitCode :: int
  vr_Err :: "verify_error option"

definition rejected :: "int \<Rightarrow> verify_error \<Rightarrow> verifyResult" where
  "rejected code e = \<lparr>vr_Timestamp = 0, vr_ExitCode = code, vr_Err = Some e\<rparr>"

definition zero_claims :: timePayloadClaims where
  "zero_claims = \<lparr>tc_Aud = [], tc_DeviceSerial = [], tc_IAT = 0, tc_Iss = [], tc_IssuedTo = [], tc_JTI = [],
     tc_Nonce = [], tc_Now = []\<rparr>"

definition claims_fields :: "timePayloadClaims json_field list" where
  "claims_fields =
     [(''aud'', set_string (\<lambda>s. tc_Aud_update (\<lambda>_. s))),
      (''device_serial'', set_string (\<lambda>s. tc_DeviceSerial_update (\<lambda>_. s))),
      (''iat'', set_int64 (\<lambda>i. tc_IAT_update (\<lambda>_. i))),
      (''iss'', set_string (\<lambda>s. tc_Iss_update (\<lambda>_. s))),
      (''issued_to'', set_string (\<lambda>s. tc_IssuedTo_update (\<lambda>_. s))),
      (''jti'', set_string (\<lambda>s. tc_JTI_update (\<lambda>_. s))),
      (''nonce'', set_string (\<lambda>s. tc_Nonce_update (\<lambda>_. s))),
      (''now'', set_string (\<lambda>s. tc_Now_update (\<lambda>_. s)))]"

definition unmarshalClaims :: "string \<Rightarrow> timePayloadClaims option" where
  "unmarshalClaims payload = json_Unmarshal claims_fields zero_claims payload"

text \<open>The claim checks, after the signature has been verified.\<close>

definition verifyClaims :: "verifyParams \<Rightarrow> string \<Rightarrow> verifyResult" where
  "verifyClaims params payload =
     (case unmarshalClaims payload of
        None \<Rightarrow> rejected exitClaimFailure ParsePayload
      | Some claims \<Rightarrow>
          let expectedAud = ''device-'' @ vp_ExpectedSerial params @ ''-timefix'' in
          if tc_Aud claims \<noteq> expectedAud then rejected exitClaimFailure (AudMismatch (tc_Aud claims) expectedAud)
          else if tc_DeviceSerial claims \<noteq> vp_ExpectedSerial params then
            rejected exitClaimFailure (SerialMismatch (tc_DeviceSerial claims) (vp_ExpectedSerial params))
          else if tc_Nonce claims \<noteq> vp_ExpectedNonce params then rejected exitClaimFailure NonceMismatch
          else (case ParseRFC3339 (tc_Now claims) of
                  None \<Rightarrow> rejected exitClaimFailure ParseNow
                | Some parsedNow \<Rightarrow>
                    if parsedNow < nowMinBound \<or> \<not> parsedNow < nowMaxBound then
                      rejected exitClaimFailure (NowOutOfBound (tc_Now claims))
                    else \<lparr>vr_Timestamp = Unix parsedNow, vr_ExitCode = exitSuccess, vr_Err = None\<rparr>))"

definition typ_string :: "any option \<Rightarrow> string" where
  "typ_string v = (case v of Some (VString s) \<Rightarrow> s | _ \<Rightarrow> [])"

definition verify :: "jose_verifier \<Rightarrow> verifyParams \<Rightarrow> verifyResult" where
  "verify jose params =
     (if vp_JWS params = [] then rejected exitBadInput EmptyJWS
      else if MaxJWSBytes < length (vp_JWS params) then rejected exitBadInput OversizedJWS
      else if length (vp_CAPublicKey params) \<noteq> 32 then
        rejected exitSignatureFailure (WrongKeySize (length (vp_CAPublicKey params)))
      else (case jv_ParseSigned jose (vp_JWS params) of
              Inl (algErr, err) \<Rightarrow>
                if algErr then rejected exitAlgTypMismatch (AlgPin err) else rejected exitBadInput (ParseJWS err)
            | Inr parsed \<Rightarrow>
                (case pj_Typ parsed of
                   [t] \<Rightarrow>
                     if typ_string t \<noteq> expectedTyp then rejected exitAlgTypMismatch (HeaderTyp (typ_string t))
                     else (case jv_Verify jose (vp_CAPublicKey params) parsed of
                             Inl err \<Rightarrow> rejected exitSignatureFailure (VerifySignature err)
                           | Inr payloadBytes \<Rightarrow> verifyClaims params payloadBytes)
                 | ts \<Rightarrow> rejected exitBadInput (SignatureCount (length ts)))))"

text \<open>
  \<open>readJWS\<close>: standard input is its bytes and the error, if any, that follows them. At most one byte
  more than the cap is read.
\<close>

definition TrimRight_newlines :: "string \<Rightarrow> string" where
  "TrimRight_newlines s = rev (dropWhile (\<lambda>c. c = CHR 0x0D \<or> c = CHR 0x0A) (rev s))"

definition readJWS :: "string \<times> go_error option \<Rightarrow> string result" where
  "readJWS r =
     (case r of (content, err) \<Rightarrow>
      let buf = take (MaxJWSBytes + 1) content in
      case (if length content < MaxJWSBytes + 1 then err else None) of
        Some e \<Rightarrow> Inl (Wrapped ''read stdin: '' e)
      | None \<Rightarrow>
          if MaxJWSBytes < length buf then Inl (Plain ''input exceeds 4096 byte cap'')
          else Inr (TrimRight_newlines buf))"

datatype ca_key = NoCryptoKey | OtherKey | Ed25519Key string

definition loadCAPubKey :: "(string \<Rightarrow> ca_key result) \<Rightarrow> string result \<Rightarrow> string result" where
  "loadCAPubKey ParseAuthorizedKey file =
     (case file of
        Inl err \<Rightarrow> Inl (Wrapped ''read: '' err)
      | Inr contents \<Rightarrow>
          (case ParseAuthorizedKey contents of
             Inl err \<Rightarrow> Inl (Wrapped ''parse CA pubkey: '' err)
           | Inr NoCryptoKey \<Rightarrow> Inl (Plain ''CA pubkey does not expose underlying crypto key'')
           | Inr OtherKey \<Rightarrow> Inl (Plain ''CA pubkey type is not ed25519'')
           | Inr (Ed25519Key k) \<Rightarrow> Inr k))"

fun principal_of_lines :: "string list \<Rightarrow> string result" where
  "principal_of_lines [] = Inl (Plain ''no `device-<serial>-timefix` principal found'')"
| "principal_of_lines (l # ls) =
     (let line = TrimSpace l in
      if line = [] \<or> prefix ''#'' line then principal_of_lines ls
      else (case CutPrefix line ''device-'' of
              None \<Rightarrow> Inl (Plain ''principal does not match `device-<serial>-timefix`'')
            | Some serial \<Rightarrow>
                (case CutSuffix serial ''-timefix'' of
                   None \<Rightarrow> Inl (Plain ''principal does not match `device-<serial>-timefix`'')
                 | Some serial \<Rightarrow>
                     if serial = [] then Inl (Plain ''empty serial in principal'') else Inr serial)))"

definition readPrincipalSerial :: "string result \<Rightarrow> string result" where
  "readPrincipalSerial file =
     (case file of
        Inl err \<Rightarrow> Inl (Wrapped ''read: '' err)
      | Inr contents \<Rightarrow> principal_of_lines (Split CHR 0x0A contents))"

record 'w apply_deps =
  ta_Stdin :: "'w \<Rightarrow> (string \<times> go_error option) \<times> 'w"
  ta_Stdout :: "string \<Rightarrow> 'w \<Rightarrow> go_error option \<times> 'w"
  ta_Random :: "'w \<Rightarrow> string result \<times> 'w"
  ta_Now :: "'w \<Rightarrow> time \<times> 'w"
  ta_ReadFile :: "string \<Rightarrow> 'w \<Rightarrow> string result \<times> 'w"
  ta_PrincipalsPath :: string
  ta_CAPubPath :: string
  ta_ExecSetter :: "string list \<Rightarrow> 'w \<Rightarrow> go_error option \<times> 'w"

text \<open>The last part of \<open>run\<close>: read the JWS, verify it, hand the timestamp to the setter.\<close>

definition apply_jws ::
  "jose_verifier \<Rightarrow> 'w apply_deps \<Rightarrow> string \<Rightarrow> string \<Rightarrow> string \<Rightarrow> 'w \<Rightarrow> int \<times> 'w" where
  "apply_jws jose d caPubKey serial nonce e5 =
     (case ta_Stdin d e5 of (stdin, e6) \<Rightarrow>
      case readJWS stdin of
        Inl err \<Rightarrow> (exitBadInput, e6)
      | Inr jws \<Rightarrow>
          let result = verify jose \<lparr>vp_JWS = jws, vp_ExpectedSerial = serial, vp_ExpectedNonce = nonce,
                vp_CAPublicKey = caPubKey\<rparr> in
          if vr_ExitCode result \<noteq> exitSuccess then (vr_ExitCode result, e6)
          else (case ta_ExecSetter d [''timefix-set-clock'', FormatInt (vr_Timestamp result)] e6 of
                  (Some err, e7) \<Rightarrow> (exitSetterExecFailure, e7)
                | (None, e7) \<Rightarrow> (exitSuccess, e7)))"

definition apply_run ::
  "jose_verifier \<Rightarrow> (string \<Rightarrow> ca_key result) \<Rightarrow> 'w apply_deps \<Rightarrow> 'w \<Rightarrow> int \<times> 'w" where
  "apply_run jose ParseAuthorizedKey d e0 =
     (case ta_ReadFile d (ta_CAPubPath d) e0 of (caFile, e1) \<Rightarrow>
      case loadCAPubKey ParseAuthorizedKey caFile of
        Inl err \<Rightarrow> (exitBadInput, e1)
      | Inr caPubKey \<Rightarrow>
          (case ta_ReadFile d (ta_PrincipalsPath d) e1 of (principals, e2) \<Rightarrow>
           case readPrincipalSerial principals of
             Inl err \<Rightarrow> (exitBadInput, e2)
           | Inr serial \<Rightarrow>
               (case ta_Random d e2 of
                  (Inl err, e3) \<Rightarrow> (exitBadInput, e3)
                | (Inr random, e3) \<Rightarrow>
                    let nonce = RawURL_EncodeToString random in
                    (case ta_Stdout d (nonce @ [CHR 0x0A]) e3 of
                       (Some err, e4) \<Rightarrow> (exitBadInput, e4)
                     | (None, e4) \<Rightarrow>
                         (case ta_Now d e4 of (now, e4') \<Rightarrow>
                          case ta_Stdout d (''device-clock: '' @ FormatRFC3339 now @ [CHR 0x0A]) e4' of
                            (Some err, e5) \<Rightarrow> (exitBadInput, e5)
                          | (None, e5) \<Rightarrow> apply_jws jose d caPubKey serial nonce e5)))))"

section \<open>The clock setter\<close>

definition exitWrongArgCount :: int where "exitWrongArgCount = 1"
definition exitBadTimestamp :: int where "exitBadTimestamp = 2"
definition exitClockSettimeFail :: int where "exitClockSettimeFail = 3"

definition tsMinBound :: time where "tsMinBound = new_year 2024"
definition tsMaxBound :: time where "tsMaxBound = new_year 2099"

record 'w setter_deps =
  sd_Args :: "string list"
  sd_SetKernelClock :: "int \<Rightarrow> 'w \<Rightarrow> go_error option \<times> 'w"
  sd_SetRTC :: "time \<Rightarrow> 'w \<Rightarrow> go_error option \<times> 'w"

definition setter_run :: "'w setter_deps \<Rightarrow> 'w \<Rightarrow> int \<times> 'w" where
  "setter_run d e0 =
     (case sd_Args d of
        [_, arg] \<Rightarrow>
          (case ParseInt64 arg of
             None \<Rightarrow> (exitBadTimestamp, e0)
           | Some ts \<Rightarrow>
               let target = time_Unix64 ts in
               if target < tsMinBound \<or> \<not> target < tsMaxBound then (exitBadTimestamp, e0)
               else (case sd_SetKernelClock d ts e0 of
                       (Some err, e1) \<Rightarrow> (exitClockSettimeFail, e1)
                     | (None, e1) \<Rightarrow> (exitSuccess, snd (sd_SetRTC d target e1))))
      | _ \<Rightarrow> (exitWrongArgCount, e0))"

record RTCTime =
  rtc_Sec :: int
  rtc_Min :: int
  rtc_Hour :: int
  rtc_Mday :: int
  rtc_Mon :: int
  rtc_Year :: int
  rtc_Wday :: int
  rtc_Yday :: int
  rtc_Isdst :: int

definition Weekday :: "time \<Rightarrow> int" where
  "Weekday t = (time_days t + 4) mod 7"

definition YearDay :: "time \<Rightarrow> int" where
  "YearDay t = time_days t + epoch_days - days_before (fst (Date t)) + 1"

definition rtcTime :: "time \<Rightarrow> RTCTime" where
  "rtcTime t =
     (case Date t of (y, m, d) \<Rightarrow> case Clock t of (hh, mm, ss) \<Rightarrow>
      \<lparr>rtc_Sec = int32 ss, rtc_Min = int32 mm, rtc_Hour = int32 hh, rtc_Mday = int32 d,
       rtc_Mon = int32 (int m - 1), rtc_Year = int32 (y - 1900), rtc_Wday = int32 (Weekday t),
       rtc_Yday = int32 (YearDay t - 1), rtc_Isdst = 0\<rparr>)"

text \<open>\<open>setRTC\<close>: the device node is opened, the fields are handed to the ioctl.\<close>

definition setRTC ::
  "('w \<Rightarrow> go_error option \<times> 'w) \<Rightarrow> (RTCTime \<Rightarrow> 'w \<Rightarrow> go_error option \<times> 'w) \<Rightarrow> time \<Rightarrow> 'w \<Rightarrow> go_error option \<times> 'w" where
  "setRTC openRTC ioctlSetRTCTime t e0 =
     (case openRTC e0 of
        (Some err, e1) \<Rightarrow> (Some (Wrapped ''open /dev/rtc0: '' err), e1)
      | (None, e1) \<Rightarrow>
          (case ioctlSetRTCTime (rtcTime t) e1 of
             (Some err, e2) \<Rightarrow> (Some (Wrapped ''ioctl RTC_SET_TIME on /dev/rtc0: '' err), e2)
           | (None, e2) \<Rightarrow> (None, e2)))"

section \<open>Reading back the claims\<close>

definition coerce_claims :: "timePayloadClaims \<Rightarrow> timePayloadClaims" where
  "coerce_claims c = c\<lparr>tc_Aud := coerce_utf8 (tc_Aud c), tc_DeviceSerial := coerce_utf8 (tc_DeviceSerial c),
     tc_Iss := coerce_utf8 (tc_Iss c), tc_IssuedTo := coerce_utf8 (tc_IssuedTo c),
     tc_JTI := coerce_utf8 (tc_JTI c), tc_Nonce := coerce_utf8 (tc_Nonce c), tc_Now := coerce_utf8 (tc_Now c)\<rparr>"

lemma claim_keys:
  "coerce_utf8 ''aud'' = ''aud''" "coerce_utf8 ''device_serial'' = ''device_serial''"
  "coerce_utf8 ''iat'' = ''iat''" "coerce_utf8 ''iss'' = ''iss''" "coerce_utf8 ''issued_to'' = ''issued_to''"
  "coerce_utf8 ''jti'' = ''jti''" "coerce_utf8 ''nonce'' = ''nonce''" "coerce_utf8 ''now'' = ''now''"
  by (rule coerce_utf8_ascii, simp add: is_ascii_def)+

lemma unmarshal_marshal:
  assumes "- (2 ^ 63) \<le> tc_IAT c" and "tc_IAT c < 2 ^ 63"
  shows "unmarshalClaims (marshalClaims c) = Some (coerce_claims c)"
proof -
  have "json_ok (claims_json c)" by (simp add: claims_json_def number_lit_FormatInt)
  then have "json_parse (marshalClaims c) = Some (json_coerce (claims_json c))"
    by (simp add: marshalClaims_def json_parse_print)
  moreover have "bind_value False claims_fields zero_claims (json_coerce (claims_json c)) = Some (coerce_claims c)"
    by (simp add: claims_json_def bind_value_def claim_keys find_field_def claims_fields_def set_string_def
        set_int64_def ParseInt64_FormatInt [OF assms] coerce_claims_def zero_claims_def)
  ultimately show ?thesis by (simp add: unmarshalClaims_def json_Unmarshal_def)
qed

section \<open>Time bounds\<close>

lemma bound_seconds:
  "nowMinBound = time_Unix 1704067200" "nowMaxBound = time_Unix 4070908800"
  "tsMinBound = time_Unix 1704067200" "tsMaxBound = time_Unix 4070908800"
  by code_simp+

lemma Unix_bounds: "time_Unix a \<le> t \<Longrightarrow> t < time_Unix b \<Longrightarrow> a \<le> Unix t \<and> Unix t < b"
  by (auto simp: time_Unix_def Unix_def Second_def)

lemma time_Unix_less: "time_Unix a < time_Unix b \<longleftrightarrow> a < b"
  by (simp add: time_Unix_def Second_def)

lemma int64_mod: "int64 x = (x + 2 ^ 63) mod 2 ^ 64 - 2 ^ 63"
  by (simp add: int64_def signed_take_bit_eq_take_bit_shift take_bit_eq_mod)

lemma time_Unix64_exact: "- (2 ^ 63) \<le> s \<Longrightarrow> s < 2 ^ 63 - 62135596800 \<Longrightarrow> time_Unix64 s = time_Unix s"
  by (simp add: time_Unix64_def int64_id)

text \<open>The wrap-around of \<open>time.Unix\<close> never makes an out-of-range value acceptable to the setter.\<close>

lemma time_Unix64_wrap:
  assumes "2 ^ 63 - 62135596800 \<le> s" and "s < 2 ^ 63"
  shows "time_Unix64 s < tsMinBound"
proof -
  have "(s + 62135596800 + 2 ^ 63) mod 2 ^ 64 = (s + 62135596800 + 2 ^ 63 - 2 ^ 64) mod 2 ^ 64"
    by (simp only: minus_mod_self2)
  also have "\<dots> = s + 62135596800 + 2 ^ 63 - 2 ^ 64"
    using assms by (intro mod_pos_pos_trivial) simp_all
  finally have "int64 (s + 62135596800) = s + 62135596800 - 2 ^ 64"
    unfolding int64_mod by simp
  with assms show ?thesis by (simp add: time_Unix64_def bound_seconds time_Unix_less)
qed

lemma setter_accepts:
  assumes "- (2 ^ 63) \<le> ts" "ts < 2 ^ 63"
  shows "\<not> (time_Unix64 ts < tsMinBound \<or> \<not> time_Unix64 ts < tsMaxBound) \<longleftrightarrow> 1704067200 \<le> ts \<and> ts < 4070908800"
proof (cases "ts < 2 ^ 63 - 62135596800")
  case True
  with assms show ?thesis by (auto simp: time_Unix64_exact bound_seconds time_Unix_less)
next
  case False
  with assms time_Unix64_wrap [of ts] show ?thesis by auto
qed

section \<open>The broker's payload at the device\<close>

text \<open>
  What is assumed of go-jose and of the signing key: a JWS that the broker's library serialized with
  an acceptable signature is parsed by the device's library into one signature with the header type
  of the broker, and verifies against the CA key with the payload that was signed.
\<close>

definition jws_agree :: "jose_lib \<Rightarrow> jose_verifier \<Rightarrow> string \<Rightarrow> (string \<Rightarrow> string \<Rightarrow> bool) \<Rightarrow> bool" where
  "jws_agree jose V key sig_ok \<longleftrightarrow>
     (\<forall>payload input sig compact.
        jose_SigningInput jose timePayloadJWSType payload = Inr input \<and> sig_ok input sig
        \<and> jose_CompactSerialize jose timePayloadJWSType payload sig = Inr compact \<longrightarrow>
        (\<exists>parsed. jv_ParseSigned V compact = Inr parsed \<and> pj_Typ parsed = [Some (VString timePayloadJWSType)]
           \<and> jv_Verify V key parsed = Inr payload))"

definition signs_with :: "'w CertSigner \<Rightarrow> (string \<Rightarrow> string \<Rightarrow> bool) \<Rightarrow> bool" where
  "signs_with sg sig_ok \<longleftrightarrow> (\<forall>input e sig e'. cs_SignTimePayload sg input e = (Inr sig, e') \<longrightarrow> sig_ok input sig)"

lemma b64_val_ascii: "b64_val c \<noteq> None \<Longrightarrow> is_ascii c"
  by (auto simp: b64_val_def is_ascii_def Let_def split: if_splits)

lemma nonce_ascii:
  assumes "nonceBytes nonce \<noteq> None"
  shows "list_all is_ascii nonce"
proof -
  from assms have "None \<notin> b64_val ` {c \<in> set nonce. c \<noteq> CHR 0x0A \<and> c \<noteq> CHR 0x0D}"
    by (auto simp: nonceBytes_def RawURL_DecodeString_def Let_def split: option.splits if_splits)
  then have "is_ascii c" if "c \<in> set nonce" "c \<noteq> CHR 0x0A" "c \<noteq> CHR 0x0D" for c
    using that b64_val_ascii [of c] by force
  moreover have "is_ascii CHR 0x0A" "is_ascii CHR 0x0D" by (simp_all add: is_ascii_def)
  ultimately show ?thesis unfolding list_all_iff by metis
qed

lemma ascii_runes: "list_all is_ascii s \<Longrightarrow> string_of_runes (map of_char s) = s"
  by (induction s) (simp_all add: string_of_runes_def EncodeRune_ascii)

lemma coerce_utf8_context:
  assumes "coerce_utf8 s = s" and "list_all is_ascii p" and "list_all is_ascii q"
  shows "coerce_utf8 (p @ s @ q) = p @ s @ q"
proof -
  let ?rs = "map of_char p @ runes s @ map of_char q"
  have "string_of_runes ?rs = p @ s @ q"
    using assms ascii_runes [of p] ascii_runes [of q] by (simp add: string_of_runes_def coerce_utf8_def)
  moreover have "runes (string_of_runes ?rs) = ?rs"
    by (rule runes_string_of_runes)
      (use assms(2,3) runes_valid [of _ s] in \<open>auto simp: list_all_iff is_ascii_def valid_rune_def\<close>)
  ultimately show ?thesis by (simp add: coerce_utf8_def)
qed

lemma year_range:
  assumes "nowMinBound \<le> t" and "t < nowMaxBound"
  shows "2024 \<le> fst (Date t)" and "fst (Date t) \<le> 2098"
proof -
  have u: "1704067200 \<le> Unix t" "Unix t < 4070908800"
    using Unix_bounds [of 1704067200 t 4070908800] assms by (simp_all add: bound_seconds)
  obtain y m d where D: "Date t = (y, m, d)" by (cases "Date t") auto
  from u have days: "19723 \<le> time_days t" "time_days t < 47117" by (auto simp: time_days_def)
  have y: "days_before y \<le> time_days t + epoch_days" "time_days t + epoch_days < days_before (y + 1)"
    using year_of_bounds [of "time_days t + epoch_days"] D
    by (auto simp: Date_def civil_from_days_def Let_def)
  have b: "days_before 2024 = 739251" "days_before 2099 = 766645"
    by (simp_all add: days_before_def)
  show "2024 \<le> fst (Date t)"
  proof (rule ccontr)
    assume "\<not> 2024 \<le> fst (Date t)"
    with D have "days_before (y + 1) \<le> days_before 2024" by (intro days_before_mono) simp
    with y days b show False by (simp add: epoch_days_def)
  qed
  show "fst (Date t) \<le> 2098"
  proof (rule ccontr)
    assume "\<not> fst (Date t) \<le> 2098"
    with D have "days_before 2099 \<le> days_before y" by (intro days_before_mono) simp
    with y days b show False by (simp add: epoch_days_def)
  qed
qed

lemma verifyClaims_accepts:
  assumes "unmarshalClaims payload = Some c" and "tc_Aud c = ''device-'' @ vp_ExpectedSerial params @ ''-timefix''"
    and "tc_DeviceSerial c = vp_ExpectedSerial params" and "tc_Nonce c = vp_ExpectedNonce params"
    and "tc_Now c = FormatRFC3339 t" and t: "nowMinBound \<le> t" "t < nowMaxBound"
  shows "verifyClaims params payload = \<lparr>vr_Timestamp = Unix t, vr_ExitCode = exitSuccess, vr_Err = None\<rparr>"
proof -
  have "ParseRFC3339 (FormatRFC3339 t) = Some (time_Unix (Unix t))"
    by (rule ParseRFC3339_FormatRFC3339) (use year_range [OF t] in simp_all)
  moreover have "1704067200 \<le> Unix t" "Unix t < 4070908800"
    using Unix_bounds [of 1704067200 t 4070908800] t by (simp_all add: bound_seconds)
  ultimately show ?thesis
    using assms(1-5) by (simp add: verifyClaims_def Let_def bound_seconds time_Unix_less)
qed

lemma setter_sets:
  assumes "1704067200 \<le> ts" and "ts < 4070908800"
  shows "setter_run \<lparr>sd_Args = [name, FormatInt ts], sd_SetKernelClock = setclock, sd_SetRTC = setrtc\<rparr> e
    = (case setclock ts e of
         (Some err, e1) \<Rightarrow> (exitClockSettimeFail, e1)
       | (None, e1) \<Rightarrow> (exitSuccess, snd (setrtc (time_Unix ts) e1)))"
  using assms setter_accepts [of ts] time_Unix64_exact [of ts]
  by (simp add: setter_run_def ParseInt64_FormatInt Let_def split: prod.split option.split)

section \<open>Properties\<close>

text \<open>
  C4: The verifier accepts only what the CA signed for this device and this session. Exit code 0
  implies that the JWS parsed with one signature of the pinned type, that it verified against the CA
  key, and that the signed claims name the expected audience, serial and nonce; the timestamp it
  passes on is the claimed time, which lies in 2024 to 2098 whatever the device clock says.
\<close>

theorem verify_sound:
  assumes "verify V params = r" and "vr_ExitCode r = exitSuccess"
  shows "\<exists>parsed payload claims t. jv_ParseSigned V (vp_JWS params) = Inr parsed
    \<and> map typ_string (pj_Typ parsed) = [''postern-timefix+jwt'']
    \<and> jv_Verify V (vp_CAPublicKey params) parsed = Inr payload \<and> length (vp_CAPublicKey params) = 32
    \<and> unmarshalClaims payload = Some claims
    \<and> tc_Aud claims = timefixPrincipal (vp_ExpectedSerial params)
    \<and> tc_DeviceSerial claims = vp_ExpectedSerial params \<and> tc_Nonce claims = vp_ExpectedNonce params
    \<and> ParseRFC3339 (tc_Now claims) = Some t \<and> vr_Timestamp r = Unix t
    \<and> new_year 2024 \<le> t \<and> t < new_year 2099 \<and> vr_Err r = None"
  using assms
  by (auto simp: verify_def rejected_def exit_defs verifyClaims_def Let_def timefixPrincipal_def expectedTyp_def
      nowMinBound_def nowMaxBound_def split: if_splits sum.splits list.splits option.splits)

definition sample_verifier :: jose_verifier where
  "sample_verifier = \<lparr>jv_ParseSigned = (\<lambda>s. Inr \<lparr>pj_Typ = [Some (VString expectedTyp)], pj_Raw = s\<rparr>),
     jv_Verify = (\<lambda>k p. Inr (pj_Raw p))\<rparr>"

definition sample_claims :: timePayloadClaims where
  "sample_claims = \<lparr>tc_Aud = ''device-S1-timefix'', tc_DeviceSerial = ''S1'', tc_IAT = 1768478400,
     tc_Iss = timePayloadIssuer, tc_IssuedTo = ''u1'', tc_JTI = ''id-1'', tc_Nonce = sample_nonce,
     tc_Now = FormatRFC3339 1768478400000000000\<rparr>"

definition sample_params :: verifyParams where
  "sample_params = \<lparr>vp_JWS = marshalClaims sample_claims, vp_ExpectedSerial = ''S1'', vp_ExpectedNonce = sample_nonce,
     vp_CAPublicKey = replicate 32 CHR ''k''\<rparr>"

lemma length_escape_rune: "length (escape_rune r n) \<le> 6"
  using enc_valid_length(1) [of "if valid_rune r then r else RuneError"] by (simp add: escape_rune_def hex4_def EncodeRune_def)

lemma length_json_escape: "length (json_escape s) \<le> 6 * length s"
proof (induction s rule: json_escape.induct)
  case (1 s)
  show ?case
  proof (cases "s = []")
    case True
    then show ?thesis by (simp add: json_escape.simps)
  next
    case False
    with 1 have "length (json_escape (drop (snd (DecodeRune s)) s)) \<le> 6 * (length s - snd (DecodeRune s))" by simp
    with False DecodeRune_pos [OF False] length_escape_rune [of "fst (DecodeRune s)" "snd (DecodeRune s)"] show ?thesis
      by (subst json_escape.simps) (cases s; simp)
  qed
qed

lemma length_b64: "length (b64_sextets bs) \<le> 2 * length bs"
  by (induction bs rule: b64_sextets.induct) simp_all

lemma sample_jws_length: "length (marshalClaims sample_claims) \<le> MaxJWSBytes"
proof -
  have now: "FormatRFC3339 1768478400000000000 = ''2026-01-15T12:00:00Z''" by code_simp
  have iat: "length (FormatInt 1768478400) \<le> 10"
    using length_nat_str [of 1768478400 10] by (simp add: FormatInt_def)
  have nonce: "length sample_nonce \<le> 64"
    using length_b64 [of "map of_char (replicate 32 CHR ''x'')"] by (simp add: sample_nonce_def RawURL_EncodeToString_def)
  have q: "length (json_quote s) \<le> 6 * length s + 2" for s
    using length_json_escape [of s] by (simp add: json_quote_def)
  show ?thesis
    using nonce iat q [of "''aud''"] q [of "''device_serial''"] q [of "''iat''"] q [of "''iss''"] q [of "''issued_to''"]
      q [of "''jti''"] q [of "''nonce''"] q [of "''now''"] q [of "''device-S1-timefix''"] q [of "''S1''"]
      q [of timePayloadIssuer] q [of "''u1''"] q [of "''id-1''"] q [of sample_nonce] q [of "''2026-01-15T12:00:00Z''"]
    by (simp add: marshalClaims_def claims_json_def sample_claims_def now MaxJWSBytes_def timePayloadIssuer_def)
qed

lemma sample_verify: "verify sample_verifier sample_params = \<lparr>vr_Timestamp = 1768478400, vr_ExitCode = exitSuccess, vr_Err = None\<rparr>"
proof -
  have "unmarshalClaims (marshalClaims sample_claims) = Some (coerce_claims sample_claims)"
    by (rule unmarshal_marshal) (simp_all add: sample_claims_def)
  moreover have "coerce_utf8 ''device-S1-timefix'' = ''device-S1-timefix''" "coerce_utf8 ''S1'' = ''S1''"
    "coerce_utf8 sample_nonce = sample_nonce"
    by (rule coerce_utf8_graphic, simp add: ascii_graphic_def sample_nonce_def RawURL_Encode_graphic)+
  moreover have "coerce_utf8 (FormatRFC3339 t) = FormatRFC3339 t" for t
    by (rule coerce_utf8_ascii) (rule FormatRFC3339_ascii)
  moreover have "nowMinBound \<le> 1768478400000000000" "1768478400000000000 < nowMaxBound"
    by (simp_all add: bound_seconds time_Unix_def Second_def)
  ultimately have "verifyClaims sample_params (marshalClaims sample_claims)
      = \<lparr>vr_Timestamp = Unix 1768478400000000000, vr_ExitCode = exitSuccess, vr_Err = None\<rparr>"
    by (intro verifyClaims_accepts [where c = "coerce_claims sample_claims"])
      (simp_all add: coerce_claims_def sample_claims_def sample_params_def)
  moreover have "marshalClaims sample_claims \<noteq> []" by (simp add: marshalClaims_def claims_json_def)
  ultimately show ?thesis
    using sample_jws_length
    by (simp add: verify_def sample_verifier_def sample_params_def typ_string_def Unix_def Second_def)
qed

theorem verify_sound_witness:
  "\<exists>claims. unmarshalClaims (vp_JWS sample_params) = Some claims \<and> tc_Aud claims = ''device-S1-timefix''
     \<and> tc_Nonce claims = sample_nonce \<and> vr_Timestamp (verify sample_verifier sample_params) = 1768478400"
proof -
  have "vr_ExitCode (verify sample_verifier sample_params) = exitSuccess" by (simp add: sample_verify)
  from verify_sound [OF refl this] obtain parsed payload claims where
    "jv_ParseSigned sample_verifier (vp_JWS sample_params) = Inr parsed"
    "jv_Verify sample_verifier (vp_CAPublicKey sample_params) parsed = Inr payload"
    "unmarshalClaims payload = Some claims" "tc_Aud claims = timefixPrincipal (vp_ExpectedSerial sample_params)"
    "tc_Nonce claims = vp_ExpectedNonce sample_params" by blast
  moreover from this have "payload = vp_JWS sample_params" by (auto simp: sample_verifier_def)
  moreover have "vp_ExpectedSerial sample_params = ''S1''" "vp_ExpectedNonce sample_params = sample_nonce"
    by (simp_all add: sample_params_def)
  ultimately show ?thesis by (simp add: sample_verify timefixPrincipal_def)
qed

text \<open>
  C11: The privileged setter, on any arguments. It sets the kernel clock only with exactly one argument
  that is a decimal \<open>int64\<close> in 2024 to 2098, and then to that very second; the wrap-around of
  \<open>time.Unix\<close> admits nothing else. On every other input the machine is left untouched with exit code 1
  or 2. A failed \<open>clock_settime\<close> is exit code 3 with no RTC write; an RTC failure does not change the
  exit code 0.
\<close>

theorem setter_safe:
  "(\<exists>name arg ts. sd_Args d = [name, arg] \<and> ParseInt64 arg = Some ts \<and> 1704067200 \<le> ts \<and> ts < 4070908800
      \<and> setter_run d e = (case sd_SetKernelClock d ts e of
            (Some err, e1) \<Rightarrow> (exitClockSettimeFail, e1)
          | (None, e1) \<Rightarrow> (exitSuccess, snd (sd_SetRTC d (time_Unix ts) e1))))
   \<or> (\<nexists>name arg ts. sd_Args d = [name, arg] \<and> ParseInt64 arg = Some ts \<and> 1704067200 \<le> ts \<and> ts < 4070908800)
      \<and> setter_run d e = (if length (sd_Args d) = 2 then exitBadTimestamp else exitWrongArgCount, e)"
proof (cases "\<exists>name arg. sd_Args d = [name, arg]")
  case False
  then have "length (sd_Args d) \<noteq> 2" by (auto simp: numeral_2_eq_2 length_Suc_conv)
  moreover from False have "setter_run d e = (exitWrongArgCount, e)"
    by (auto simp: setter_run_def split: list.splits)
  ultimately show ?thesis using False by auto
next
  case True
  then obtain name arg where args: "sd_Args d = [name, arg]" by blast
  show ?thesis
  proof (cases "ParseInt64 arg")
    case None
    with args show ?thesis by (simp add: setter_run_def)
  next
    case (Some ts)
    note rng = ParseInt64_range [OF Some]
    show ?thesis
    proof (cases "1704067200 \<le> ts \<and> ts < 4070908800")
      case True
      with args Some setter_accepts [of ts] rng time_Unix64_exact [of ts] show ?thesis
        by (simp add: setter_run_def Let_def)
    next
      case False
      with args Some setter_accepts [of ts] rng show ?thesis by (auto simp: setter_run_def Let_def)
    qed
  qed
qed

text \<open>
  C3: From the broker's clock to the device's clock. If the broker issues a time payload for a device
  with a serial of valid UTF-8 and a nonce, then the verifier of that device, holding the same nonce,
  its serial and the CA key, accepts the payload; the setter, started with the argument the verifier
  writes, sets the kernel clock to exactly the second at which policy allowed the request. The signing
  library and key are assumed to agree between the two sides, and the JWS to fit the 4096 byte cap.
\<close>

theorem timefix_end_to_end:
  assumes "IssueTimePayload jose i request w = (Inr resp, w')" and "Called_Policy p True \<in> set (effects w w')"
    and "jws_agree jose V key sig_ok" and "signs_with (ti_signer i) sig_ok" and "length key = 32"
    and "coerce_utf8 (dev_Serial (pol_Device p)) = dev_Serial (pol_Device p)"
    and "new_year 2024 \<le> pol_Timestamp p" and "pol_Timestamp p < new_year 2099"
    and "tpp_TimePayload resp \<noteq> []" and "length (tpp_TimePayload resp) \<le> MaxJWSBytes"
  shows "verify V \<lparr>vp_JWS = tpp_TimePayload resp, vp_ExpectedSerial = dev_Serial (pol_Device p),
           vp_ExpectedNonce = TrimSpace (tpr_Nonce request), vp_CAPublicKey = key\<rparr>
         = \<lparr>vr_Timestamp = Unix (pol_Timestamp p), vr_ExitCode = exitSuccess, vr_Err = None\<rparr>
    \<and> setter_run \<lparr>sd_Args = [''timefix-set-clock'', FormatInt (Unix (pol_Timestamp p))],
           sd_SetKernelClock = setclock, sd_SetRTC = setrtc\<rparr> e
         = (case setclock (Unix (pol_Timestamp p)) e of
              (Some err, e1) \<Rightarrow> (exitClockSettimeFail, e1)
            | (None, e1) \<Rightarrow> (exitSuccess, snd (setrtc (time_Unix (Unix (pol_Timestamp p))) e1)))"
proof -
  let ?nonce = "TrimSpace (tpr_Nonce request)" and ?t = "pol_Timestamp p"
  obtain ec device rl q ev input b sig f f' where
    q: "permits q ec device" and eff: "Called_Policy p True \<in> set [Called_Verify (tpr_AccessToken request) True,
        Called_RateLimit rl True, Called_Resolve (tpr_DeviceID request) True, Called_Policy q True,
        Audited (timePayloadAuthorizedEvent ec device request) True, Signed_Payload input True, Audited ev b]"
    and n: "nonceBytes ?nonce \<noteq> None"
    and lib: "jose_SigningInput jose timePayloadJWSType (marshalClaims (timePayloadClaimsFor ec device ?nonce)) = Inr input"
      "cs_SignTimePayload (ti_signer i) input f = (Inr sig, f')"
      "jose_CompactSerialize jose timePayloadJWSType (marshalClaims (timePayloadClaimsFor ec device ?nonce)) sig
        = Inr (tpp_TimePayload resp)"
    using IssueTimePayload_success [OF assms(1)] assms(2) by fastforce
  from q eff have p: "pol_Device p = device" "?t = ec_Now ec" by (auto simp: permits_def)
  have bounds: "nowMinBound \<le> ?t" "?t < nowMaxBound" using assms(7,8) by (simp_all add: nowMinBound_def nowMaxBound_def)
  then have unix: "1704067200 \<le> Unix ?t" "Unix ?t < 4070908800"
    using Unix_bounds [of 1704067200 ?t 4070908800] by (simp_all add: bound_seconds)
  let ?c = "timePayloadClaimsFor ec device ?nonce"
  have um: "unmarshalClaims (marshalClaims ?c) = Some (coerce_claims ?c)"
    by (rule unmarshal_marshal) (use unix p in \<open>simp_all add: timePayloadClaimsFor_def\<close>)
  have aud: "coerce_utf8 (''device-'' @ dev_Serial device @ ''-timefix'') = ''device-'' @ dev_Serial device @ ''-timefix''"
    by (rule coerce_utf8_context) (use assms(6) p in \<open>simp_all add: is_ascii_def\<close>)
  from lib assms(3,4) obtain parsed where "jv_ParseSigned V (tpp_TimePayload resp) = Inr parsed"
    "pj_Typ parsed = [Some (VString timePayloadJWSType)]" "jv_Verify V key parsed = Inr (marshalClaims ?c)"
    unfolding jws_agree_def signs_with_def by meson
  moreover have "verifyClaims \<lparr>vp_JWS = tpp_TimePayload resp, vp_ExpectedSerial = dev_Serial (pol_Device p),
      vp_ExpectedNonce = ?nonce, vp_CAPublicKey = key\<rparr> (marshalClaims ?c)
      = \<lparr>vr_Timestamp = Unix ?t, vr_ExitCode = exitSuccess, vr_Err = None\<rparr>"
    by (rule verifyClaims_accepts [OF um _ _ _ _ bounds])
      (use assms(6) p aud coerce_utf8_ascii [OF nonce_ascii [OF n]] coerce_utf8_ascii [OF FormatRFC3339_ascii] in
        \<open>simp_all add: coerce_claims_def timePayloadClaimsFor_def timePayloadAudPrefix_def timePayloadAudSuffix_def\<close>)
  moreover note setter_sets [OF unix, of "''timefix-set-clock''" setclock setrtc e]
  ultimately show ?thesis
    using assms(5,9,10)
    by (simp add: verify_def typ_string_def expectedTyp_def timePayloadJWSType_def)
qed

lemma sample_agree:
  "jws_agree sample_jose sample_verifier key (\<lambda>_ _. True)" "signs_with sample_signer (\<lambda>_ _. True)"
  by (auto simp: jws_agree_def signs_with_def sample_jose_def sample_verifier_def expectedTyp_def timePayloadJWSType_def)

lemma sample_issue:
  "IssueTimePayload sample_jose sample_time_issuer sample_time_request sample_world
     = (Inr \<lparr>tpp_TimePayload = marshalClaims sample_claims, tpp_JTI = ''id-1''\<rparr>, snd sample_time_out)"
  "\<exists>p. Called_Policy p True \<in> set (effects sample_world (snd sample_time_out)) \<and> pol_Device p = sample_device
     \<and> pol_Timestamp p = 1768478400000000000"
  unfolding sample_time_out_def
  by (simp_all add: sample_time_defs Let_def sample_nonce_ok TrimSpace_lab sample_device_def effects_def
      timePayloadClaimsFor_def sample_claims_def sample_caller_def Unix_def Second_def timePayloadAudPrefix_def
      timePayloadAudSuffix_def)

theorem timefix_end_to_end_witness:
  "verify sample_verifier \<lparr>vp_JWS = marshalClaims sample_claims, vp_ExpectedSerial = ''S1'',
     vp_ExpectedNonce = sample_nonce, vp_CAPublicKey = replicate 32 CHR ''k''\<rparr>
   = \<lparr>vr_Timestamp = 1768478400, vr_ExitCode = exitSuccess, vr_Err = None\<rparr>"
proof -
  obtain p where p: "Called_Policy p True \<in> set (effects sample_world (snd sample_time_out))"
    "pol_Device p = sample_device" "pol_Timestamp p = 1768478400000000000" using sample_issue(2) by blast
  have "new_year 2024 \<le> 1768478400000000000" "1768478400000000000 < new_year 2099" by code_simp+
  moreover have "coerce_utf8 ''S1'' = ''S1''" by (rule coerce_utf8_ascii) (simp add: is_ascii_def)
  moreover have "marshalClaims sample_claims \<noteq> []" by (simp add: marshalClaims_def claims_json_def)
  moreover have "ti_signer sample_time_issuer = sample_signer" "tpr_Nonce sample_time_request = sample_nonce"
    by (simp_all add: sample_time_issuer_def sample_time_request_def)
  ultimately show ?thesis
    using timefix_end_to_end [OF sample_issue(1) p(1) sample_agree(1), of "replicate 32 CHR ''k''"
        "\<lambda>_ e :: nat. (None, e)" "\<lambda>_ e. (None :: go_error option, e)" 0]
      sample_agree(2) sample_jws_length sample_nonce_ok(1) p(2,3)
    by (simp add: sample_device_def Unix_def Second_def)
qed

text \<open>
  The principals file and the certificate principal agree. For a serial of printable characters,
  the verifier reads from a file whose first entry is the timefix principal of that serial (as the
  broker writes it into certificates) exactly that serial, whatever comments and blank lines precede
  it and whatever follows.
\<close>

theorem readPrincipalSerial_correct:
  assumes "serial \<noteq> []" and "list_all ascii_graphic serial"
    and "\<forall>l \<in> set ls. TrimSpace l = [] \<or> prefix ''#'' (TrimSpace l)"
  shows "principal_of_lines (ls @ timefixPrincipal serial # rest) = Inr serial"
  using assms(3)
proof (induction ls)
  case Nil
  have "TrimSpace (timefixPrincipal serial) = timefixPrincipal serial"
    by (rule TrimSpace_graphic) (use assms(2) in \<open>auto simp: timefixPrincipal_def ascii_graphic_def\<close>)
  moreover have "CutPrefix (timefixPrincipal serial) ''device-'' = Some (serial @ ''-timefix'')"
    by (simp add: CutPrefix_Some timefixPrincipal_def)
  moreover have "timefixPrincipal serial \<noteq> []" "\<not> prefix ''#'' (timefixPrincipal serial)"
    by (simp_all add: timefixPrincipal_def)
  ultimately show ?case using assms(1) by (simp del: CutPrefix_append)
next
  case (Cons l ls)
  then show ?case by auto
qed

theorem readPrincipalSerial_correct_witness:
  "principal_of_lines ([[], ''# written at boot''] @ timefixPrincipal ''S1'' # [[]]) = Inr ''S1''"
proof (rule readPrincipalSerial_correct)
  show "list_all ascii_graphic ''S1''" by (simp add: ascii_graphic_def)
  have "TrimSpace ''# written at boot'' = ''# written at boot''"
    by (rule TrimSpace_graphic_ends) (simp_all add: ascii_graphic_def)
  then show "\<forall>l\<in>set [[], ''# written at boot'']. TrimSpace l = [] \<or> prefix ''#'' (TrimSpace l)" by simp
qed simp

text \<open>
  The fields written to the real-time clock are in the ranges of \<open>struct rtc_time\<close> and denote the
  target second: for every time the setter accepts, the calendar date and time of day built from the
  fields is that second again.
\<close>

theorem rtc_fields_correct:
  assumes "tsMinBound \<le> t" and "t < tsMaxBound"
  shows "let r = rtcTime t in
      0 \<le> rtc_Sec r \<and> rtc_Sec r < 60 \<and> 0 \<le> rtc_Min r \<and> rtc_Min r < 60 \<and> 0 \<le> rtc_Hour r \<and> rtc_Hour r < 24
      \<and> 1 \<le> rtc_Mday r \<and> rtc_Mday r \<le> 31 \<and> 0 \<le> rtc_Mon r \<and> rtc_Mon r \<le> 11
      \<and> 124 \<le> rtc_Year r \<and> rtc_Year r \<le> 198 \<and> 0 \<le> rtc_Wday r \<and> rtc_Wday r \<le> 6
      \<and> 0 \<le> rtc_Yday r \<and> rtc_Yday r \<le> 365
      \<and> time_Date (rtc_Year r + 1900) (nat (rtc_Mon r + 1)) (rtc_Mday r) (rtc_Hour r) (rtc_Min r) (rtc_Sec r) 0
          = time_Unix (Unix t)"
proof -
  obtain y m d where D: "Date t = (y, m, d)" by (cases "Date t") auto
  obtain hh mm ss where C: "Clock t = (hh, mm, ss)" by (cases "Clock t") auto
  note v = Date_valid [OF D] and c = Clock_bounds [OF C]
  have y: "2024 \<le> y" "y \<le> 2098"
    using year_range [of t] assms D by (simp_all add: bound_seconds)
  have m: "1 \<le> m" "m \<le> 12" "1 \<le> d" "d \<le> 31"
    using v(1) by (auto simp: valid_date_def month_len_def split: if_splits)
  have i32: "int32 x = x" if "- 1000 \<le> x" "x \<le> 1000" for x
    unfolding int32_def by (rule signed_take_bit_int_eq_self) (use that in simp_all)
  have yd: "0 \<le> YearDay t - 1" "YearDay t - 1 \<le> 365"
    using year_of_bounds [of "time_days t + epoch_days"] days_before_Suc [of y] D
    by (auto simp: YearDay_def Date_def civil_from_days_def Let_def year_len_def split: if_splits)
  have wd: "0 \<le> Weekday t" "Weekday t \<le> 6" by (simp_all add: Weekday_def)
  have "Unix t div 86400 * 86400 + (hh * 3600 + mm * 60 + ss) = Unix t"
    unfolding c(7) sec_of_day_def by (rule div_mult_mod_eq)
  then have day: "(days_from_civil y m d - epoch_days) * 86400 + hh * 3600 + mm * 60 + ss = Unix t"
    by (simp only: v(2) time_days_def add_diff_cancel_right' add.assoc)
  have r: "rtcTime t = \<lparr>rtc_Sec = ss, rtc_Min = mm, rtc_Hour = hh, rtc_Mday = d, rtc_Mon = int m - 1,
      rtc_Year = y - 1900, rtc_Wday = Weekday t, rtc_Yday = YearDay t - 1, rtc_Isdst = 0\<rparr>"
    using c m y yd wd by (simp add: rtcTime_def D C i32)
  show ?thesis
    unfolding r using c m y yd wd day by (simp add: time_Date_def time_Unix_def)
qed

theorem rtc_fields_correct_witness:
  "time_Date (rtc_Year (rtcTime 1768478400000000000) + 1900) (nat (rtc_Mon (rtcTime 1768478400000000000) + 1))
     (rtc_Mday (rtcTime 1768478400000000000)) (rtc_Hour (rtcTime 1768478400000000000))
     (rtc_Min (rtcTime 1768478400000000000)) (rtc_Sec (rtcTime 1768478400000000000)) 0 = 1768478400000000000"
  using rtc_fields_correct [of 1768478400000000000]
  by (simp add: bound_seconds time_Unix_def Unix_def Second_def Let_def)

end
