(* ===== verification/Tunnel_Frames.thy ===== *)
theory Tunnel_Frames
  imports Prelude
begin

text \<open>
  The framing of the secure tunnel (src/internal/securetunnel/frame.go): envelopes with a two-byte
  length in front of a protobuf message, written as one WebSocket frame each and read from a byte
  stream whose WebSocket boundaries carry no meaning. Protobuf (\<open>proto.Marshal\<close>, \<open>proto.Unmarshal\<close>) and the
  WebSocket library (\<open>Read\<close>, \<open>Write\<close>, \<open>CloseStatus\<close>) are parameters. Reading may wait for ever, so \<open>next\<close> is a
  partial function whose value is \<open>None\<close> when it does not return.
\<close>

section \<open>Messages\<close>

datatype frame_type =
    T_UNKNOWN | T_DATA | T_STREAM_START | T_STREAM_RESET | T_SESSION_RESET | T_SERVICE_IDS
  | T_CONNECTION_START | T_CONNECTION_RESET | T_other int

record TunnelMessage =
  tm_Type :: frame_type
  tm_StreamId :: int
  tm_Ignorable :: bool
  tm_Payload :: string
  tm_ServiceId :: string
  tm_AvailableServiceIds :: "string list"
  tm_ConnectionId :: int

definition zero_message :: TunnelMessage where
  "zero_message = \<lparr>tm_Type = T_UNKNOWN, tm_StreamId = 0, tm_Ignorable = False, tm_Payload = [], tm_ServiceId = [],
     tm_AvailableServiceIds = [], tm_ConnectionId = 0\<rparr>"

definition maxFramePayload :: nat where "maxFramePayload = 131076"
definition maxDataChunk :: nat where "maxDataChunk = 16 * 1024"

definition ErrFrameTooLarge :: go_error where
  "ErrFrameTooLarge = Plain ''securetunnel: incoming frame exceeds protocol maximum''"
definition io_EOF :: go_error where "io_EOF = Plain ''EOF''"
definition context_Canceled :: go_error where "context_Canceled = Plain ''context canceled''"

record wire_lib =
  wl_Marshal :: "TunnelMessage \<Rightarrow> string result"
  wl_Unmarshal :: "string \<Rightarrow> TunnelMessage result"
  wl_CloseStatus :: "go_error \<Rightarrow> int"

text \<open>\<open>isNormalClosure\<close>: 1000 and 1001 are StatusNormalClosure and StatusGoingAway.\<close>

definition isNormalClosure :: "wire_lib \<Rightarrow> go_error option \<Rightarrow> bool" where
  "isNormalClosure lib err =
     (case err of
        None \<Rightarrow> False
      | Some e \<Rightarrow> wl_CloseStatus lib e \<in> {1000, 1001} \<or> errors_Is e io_EOF \<or> errors_Is e context_Canceled)"

section \<open>Writing\<close>

text \<open>\<open>PutUint16\<close> of \<open>uint16(len(body))\<close>: the conversion keeps the low sixteen bits.\<close>

definition PutUint16 :: "nat \<Rightarrow> string" where
  "PutUint16 n = [char_of (n mod 65536 div 256), char_of (n mod 65536 mod 256)]"

definition envelope :: "string \<Rightarrow> string" where
  "envelope body = PutUint16 (length body) @ body"

definition writeMessage ::
  "wire_lib \<Rightarrow> (string \<Rightarrow> 'w \<Rightarrow> go_error option \<times> 'w) \<Rightarrow> TunnelMessage \<Rightarrow> 'w \<Rightarrow> go_error option \<times> 'w" where
  "writeMessage lib conn_Write message e =
     (case wl_Marshal lib message of
        Inl err \<Rightarrow> (Some (Wrapped ''securetunnel: marshal message: '' err), e)
      | Inr body \<Rightarrow>
          if length body > maxFramePayload
          then (Some (Plain ''securetunnel: outgoing message exceeds max''), e)
          else conn_Write (envelope body) e)"

section \<open>Reading\<close>

definition Uint16 :: "string \<Rightarrow> nat" where
  "Uint16 s = of_char (s ! 0) * 256 + of_char (s ! 1)"

text \<open>The part of \<open>next\<close> before the read: a complete envelope at the head of the buffer, if there is one.\<close>

definition buffered :: "wire_lib \<Rightarrow> string \<Rightarrow> (TunnelMessage result \<times> string) option" where
  "buffered lib buf =
     (if 2 \<le> length buf then
        let len = Uint16 (take 2 buf) in
        if len > maxFramePayload then Some (Inl ErrFrameTooLarge, buf)
        else if 2 + len \<le> length buf then
          (case wl_Unmarshal lib (take len (drop 2 buf)) of
             Inl err \<Rightarrow> Some (Inl (Wrapped ''securetunnel: decode message: '' err), buf)
           | Inr message \<Rightarrow> Some (Inr message, drop (2 + len) buf))
        else None
      else None)"

datatype ws_read = WS_Binary string | WS_Text string | WS_Error go_error

partial_function (option) frame_next ::
  "wire_lib \<Rightarrow> ('w \<Rightarrow> ws_read \<times> 'w) \<Rightarrow> string \<Rightarrow> 'w \<Rightarrow> (TunnelMessage result \<times> string \<times> 'w) option" where
  "frame_next lib conn_Read buf e =
     (case buffered lib buf of
        Some (r, buf') \<Rightarrow> Some (r, buf', e)
      | None \<Rightarrow>
          (case conn_Read e of (x, e1) \<Rightarrow>
           case x of
             WS_Error err \<Rightarrow> Some (Inl (if isNormalClosure lib (Some err) then io_EOF else err), buf, e1)
           | WS_Text _ \<Rightarrow> Some (Inl (Plain ''securetunnel: unexpected websocket message type''), buf, e1)
           | WS_Binary chunk \<Rightarrow> frame_next lib conn_Read (buf @ chunk) e1))"

text \<open>
  \<open>conn.SetReadLimit(n)\<close>: a WebSocket message of more than \<open>n\<close> bytes is not delivered, its read fails.
\<close>

definition ws_too_big :: go_error where "ws_too_big = Sdk ''read limited''"

definition SetReadLimit :: "nat \<Rightarrow> ('w \<Rightarrow> ws_read \<times> 'w) \<Rightarrow> 'w \<Rightarrow> ws_read \<times> 'w" where
  "SetReadLimit n conn_Read e =
     (case conn_Read e of (x, e1) \<Rightarrow>
        (case x of
           WS_Binary chunk \<Rightarrow> if n < length chunk then WS_Error ws_too_big else x
         | WS_Text chunk \<Rightarrow> if n < length chunk then WS_Error ws_too_big else x
         | WS_Error err \<Rightarrow> x, e1))"

section \<open>Round trip\<close>

text \<open>A peer that sends the chunks of a list and then closes the connection with status 1000.\<close>

definition ws_closed :: go_error where "ws_closed = Sdk ''StatusNormalClosure''"

fun ws_pop :: "string list \<Rightarrow> ws_read \<times> string list" where
  "ws_pop [] = (WS_Error ws_closed, [])"
| "ws_pop (chunk # rest) = (WS_Binary chunk, rest)"

text \<open>Reading \<open>n\<close> messages one after the other.\<close>

fun receive_from :: "wire_lib \<Rightarrow> ('w \<Rightarrow> ws_read \<times> 'w) \<Rightarrow> nat \<Rightarrow> string \<Rightarrow> 'w \<Rightarrow> (TunnelMessage list \<times> string \<times> 'w) option" where
  "receive_from lib conn_Read 0 buf e = Some ([], buf, e)"
| "receive_from lib conn_Read (Suc n) buf e =
     (case frame_next lib conn_Read buf e of
        Some (Inr m, buf', e') \<Rightarrow> map_option (\<lambda>(ms, r). (m # ms, r)) (receive_from lib conn_Read n buf' e')
      | _ \<Rightarrow> None)"

abbreviation receive :: "wire_lib \<Rightarrow> nat \<Rightarrow> string \<Rightarrow> string list \<Rightarrow> (TunnelMessage list \<times> string \<times> string list) option" where
  "receive lib \<equiv> receive_from lib ws_pop"

lemma PutUint16_length [simp]: "length (PutUint16 n) = 2"
  by (simp add: PutUint16_def)

lemma Uint16_PutUint16: "Uint16 (take 2 (PutUint16 n @ s)) = n mod 65536"
proof -
  have "n mod 65536 div 256 < 256" by (simp add: div_less_iff_less_mult)
  then show ?thesis by (simp add: Uint16_def PutUint16_def)
qed

text \<open>The check against the maximum is never reached: two bytes cannot express such a length.\<close>

lemma Uint16_bound: "Uint16 s < maxFramePayload"
proof -
  have "(of_char (s ! 0) :: nat) < 256" "(of_char (s ! 1) :: nat) < 256" by (rule nat_of_char_less_256)+
  then show ?thesis unfolding Uint16_def maxFramePayload_def by linarith
qed

definition frame_ok :: "wire_lib \<Rightarrow> TunnelMessage \<times> string \<Rightarrow> bool" where
  "frame_ok lib mb \<longleftrightarrow> wl_Marshal lib (fst mb) = Inr (snd mb) \<and> wl_Unmarshal lib (snd mb) = Inr (fst mb) \<and> length (snd mb) < 65536"

lemma buffered_envelope:
  assumes "frame_ok lib (m, body)"
  shows "buffered lib (envelope body @ tail) = Some (Inr m, tail)"
proof -
  have "Uint16 (take 2 (envelope body @ tail)) = length body"
    using assms by (simp add: envelope_def Uint16_PutUint16 frame_ok_def del: take_append)
  moreover have "take (length body) (drop 2 (envelope body @ tail)) = body" "drop (2 + length body) (envelope body @ tail) = tail"
    "2 + length body \<le> length (envelope body @ tail)"
    by (simp_all add: envelope_def)
  ultimately show ?thesis
    using assms by (simp add: buffered_def frame_ok_def maxFramePayload_def Let_def)
qed

lemma buffered_prefix:
  assumes "frame_ok lib (m, body)" and "buf @ rest = envelope body @ tail" and "length buf < length (envelope body)"
  shows "buffered lib buf = None"
proof (cases "2 \<le> length buf")
  case True
  have "take 2 buf = take 2 (buf @ rest)" using True by simp
  also have "\<dots> = take 2 (PutUint16 (length body) @ (body @ tail))" by (simp add: assms(2) envelope_def)
  finally have "Uint16 (take 2 buf) = length body" using assms(1) by (simp add: Uint16_PutUint16 frame_ok_def del: take_append)
  with assms(3) show ?thesis using Uint16_bound [of "take 2 buf"] by (simp add: buffered_def envelope_def Let_def)
qed (simp add: buffered_def)

lemma frame_next_envelope:
  assumes "frame_ok lib (m, body)" and "buf @ concat chunks = envelope body @ tail"
  shows "\<exists>buf' chunks'. frame_next lib ws_pop buf chunks = Some (Inr m, buf', chunks') \<and> buf' @ concat chunks' = tail"
  using assms(2)
proof (induction chunks arbitrary: buf)
  case Nil
  with buffered_envelope [OF assms(1), of tail] show ?case by (subst frame_next.simps) simp
next
  case (Cons chunk rest)
  show ?case
  proof (cases "length buf < length (envelope body)")
    case True
    then have "buffered lib buf = None" using buffered_prefix [OF assms(1) Cons.prems] by blast
    moreover obtain buf' chunks' where "frame_next lib ws_pop (buf @ chunk) rest = Some (Inr m, buf', chunks')" "buf' @ concat chunks' = tail"
      using Cons.IH [of "buf @ chunk"] Cons.prems by auto
    ultimately show ?thesis by (subst frame_next.simps) simp
  next
    case False
    then have "take (length (envelope body)) buf = take (length (envelope body)) (buf @ concat (chunk # rest))" by simp
    also have "\<dots> = envelope body" unfolding Cons.prems by simp
    finally obtain x where x: "buf = envelope body @ x" by (metis append_take_drop_id)
    with Cons.prems have "x @ concat (chunk # rest) = tail" by simp
    with x buffered_envelope [OF assms(1), of x] show ?thesis by (subst frame_next.simps) simp
  qed
qed

lemma frame_next_eof:
  assumes "concat chunks = []" and "wl_CloseStatus lib ws_closed = 1000"
  shows "frame_next lib ws_pop [] chunks = Some (Inl io_EOF, [], [])"
  using assms(1)
proof (induction chunks)
  case Nil
  with assms(2) show ?case by (subst frame_next.simps) (simp add: buffered_def isNormalClosure_def)
next
  case (Cons chunk rest)
  then show ?case by (subst frame_next.simps) (simp add: buffered_def)
qed

lemma receive_frames:
  assumes "list_all (frame_ok lib) frames" and "buf @ concat chunks = concat (map (\<lambda>f. envelope (snd f)) frames) @ tail"
  shows "\<exists>buf' chunks'. receive lib (length frames) buf chunks = Some (map fst frames, buf', chunks') \<and> buf' @ concat chunks' = tail"
  using assms
proof (induction frames arbitrary: buf chunks)
  case (Cons f frames)
  from Cons.prems frame_next_envelope [of lib "fst f" "snd f" buf chunks "concat (map (\<lambda>f. envelope (snd f)) frames) @ tail"]
  obtain b c where "frame_next lib ws_pop buf chunks = Some (Inr (fst f), b, c)" "b @ concat c = concat (map (\<lambda>f. envelope (snd f)) frames) @ tail"
    by auto
  with Cons.IH [of b c] Cons.prems(1) show ?case by auto
qed simp

text \<open>A limit that no WebSocket message exceeds changes nothing.\<close>

lemma SetReadLimit_pop [simp]:
  "SetReadLimit n ws_pop [] = (WS_Error ws_closed, [])"
  "SetReadLimit n ws_pop (chunk # rest) = (if n < length chunk then WS_Error ws_too_big else WS_Binary chunk, rest)"
  by (simp_all add: SetReadLimit_def)

lemma frame_next_steps:
  "frame_next lib ws_pop buf [] = (case buffered lib buf of Some (r, buf') \<Rightarrow> Some (r, buf', [])
     | None \<Rightarrow> Some (Inl (if isNormalClosure lib (Some ws_closed) then io_EOF else ws_closed), buf, []))"
  "frame_next lib ws_pop buf (chunk # rest) = (case buffered lib buf of Some (r, buf') \<Rightarrow> Some (r, buf', chunk # rest)
     | None \<Rightarrow> frame_next lib ws_pop (buf @ chunk) rest)"
  "frame_next lib (SetReadLimit n ws_pop) buf [] = (case buffered lib buf of Some (r, buf') \<Rightarrow> Some (r, buf', [])
     | None \<Rightarrow> Some (Inl (if isNormalClosure lib (Some ws_closed) then io_EOF else ws_closed), buf, []))"
  "frame_next lib (SetReadLimit n ws_pop) buf (chunk # rest) = (case buffered lib buf of Some (r, buf') \<Rightarrow> Some (r, buf', chunk # rest)
     | None \<Rightarrow> if n < length chunk then Some (Inl (if isNormalClosure lib (Some ws_too_big) then io_EOF else ws_too_big), buf, rest)
       else frame_next lib (SetReadLimit n ws_pop) (buf @ chunk) rest)"
  by (subst frame_next.simps, simp split: option.split)+

lemma frame_next_rest: "frame_next lib ws_pop buf chunks = Some (r, buf', chunks') \<Longrightarrow> set chunks' \<subseteq> set chunks"
proof (induction chunks arbitrary: buf)
  case (Cons chunk rest)
  then show ?case by (auto simp: frame_next_steps split: option.splits)
qed (auto simp: frame_next_steps split: option.splits)

lemma frame_next_limited:
  "list_all (\<lambda>c. length c \<le> n) chunks \<Longrightarrow> frame_next lib (SetReadLimit n ws_pop) buf chunks = frame_next lib ws_pop buf chunks"
  by (induction chunks arbitrary: buf) (auto simp: frame_next_steps split: option.split)

lemma receive_limited:
  "list_all (\<lambda>c. length c \<le> n) chunks \<Longrightarrow> receive_from lib (SetReadLimit n ws_pop) k buf chunks = receive lib k buf chunks"
proof (induction k arbitrary: buf chunks)
  case (Suc k)
  have "receive_from lib (SetReadLimit n ws_pop) k buf' chunks' = receive lib k buf' chunks'"
    if "frame_next lib ws_pop buf chunks = Some (r, buf', chunks')" for r buf' chunks'
    using frame_next_rest [OF that] Suc.prems by (intro Suc.IH) (auto simp: list_all_iff)
  then show ?case by (auto simp: frame_next_limited [OF Suc.prems] split: option.split sum.split)
qed simp

text \<open>An incomplete envelope ends with the stream, and a message beyond the limit ends the read.\<close>

lemma incomplete:
  assumes "frame_ok lib (m, body)" and "buf @ y = envelope body" and "y \<noteq> []"
  shows "buffered lib buf = None"
proof -
  have "length buf < length (envelope body)" using assms(3) unfolding assms(2) [symmetric] by simp
  with assms(2) buffered_prefix [OF assms(1), of buf y "[]"] show ?thesis by simp
qed

lemma frame_next_short:
  assumes "frame_ok lib (m, body)" and "wl_CloseStatus lib ws_closed = 1000" and "buf @ concat chunks @ x = envelope body" and "x \<noteq> []"
  shows "frame_next lib ws_pop buf chunks = Some (Inl io_EOF, buf @ concat chunks, [])"
  using assms(3)
proof (induction chunks arbitrary: buf)
  case Nil
  with incomplete [OF assms(1), of buf x] assms(2,4) show ?case by (simp add: frame_next_steps isNormalClosure_def)
next
  case (Cons chunk rest)
  with incomplete [OF assms(1), of buf "concat (chunk # rest) @ x"] assms(4) show ?case by (simp add: frame_next_steps)
qed

lemma frame_next_too_big:
  assumes "frame_ok lib (m, body)" and "\<not> isNormalClosure lib (Some ws_too_big)" and "buf @ concat early @ x = envelope body" and "x \<noteq> []"
    and "list_all (\<lambda>c. length c \<le> n) early" and "n < length big"
  shows "frame_next lib (SetReadLimit n ws_pop) buf (early @ big # later) = Some (Inl ws_too_big, buf @ concat early, later)"
  using assms(3,5)
proof (induction early arbitrary: buf)
  case Nil
  with incomplete [OF assms(1), of buf x] assms(2,4,6) show ?case by (simp add: frame_next_steps)
next
  case (Cons chunk rest)
  with incomplete [OF assms(1), of buf "concat (chunk # rest) @ x"] assms(4) show ?case by (simp add: frame_next_steps)
qed

text \<open>
  C29: framing loses nothing. Whatever messages the sender writes, as long as each encodes to less than
  64 KiB, and however the byte stream is cut into WebSocket frames (empty ones and cuts inside a length
  included), the reader returns exactly these messages in order, and the end of the stream after them.
\<close>

theorem framing_roundtrip:
  assumes "list_all (frame_ok lib) frames" and "concat chunks = concat (map (\<lambda>f. envelope (snd f)) frames)"
    and "wl_CloseStatus lib ws_closed = 1000"
  shows "\<exists>buf rest. receive lib (length frames) [] chunks = Some (map fst frames, buf, rest)
    \<and> frame_next lib ws_pop buf rest = Some (Inl io_EOF, [], [])
    \<and> list_all (\<lambda>(m, body). \<forall>conn_Write (e :: 'w). writeMessage lib conn_Write m e = conn_Write (envelope body) e) frames"
proof -
  from receive_frames [of lib frames "[]" chunks "[]"] assms(1,2) obtain buf rest
    where r: "receive lib (length frames) [] chunks = Some (map fst frames, buf, rest)" "buf = []" "concat rest = []" by auto
  moreover have "list_all (\<lambda>(m, body). \<forall>conn_Write (e :: 'w). writeMessage lib conn_Write m e = conn_Write (envelope body) e) frames"
    using assms(1) by (auto simp: list_all_iff frame_ok_def writeMessage_def maxFramePayload_def)
  ultimately show ?thesis using frame_next_eof [OF r(3) assms(3)] by blast
qed

definition sample_wire_lib :: wire_lib where
  "sample_wire_lib = \<lparr>wl_Marshal = (\<lambda>m. Inr (tm_Payload m)), wl_Unmarshal = (\<lambda>s. Inr (zero_message\<lparr>tm_Type := T_DATA, tm_Payload := s\<rparr>)),
     wl_CloseStatus = (\<lambda>e. 1000)\<rparr>"

definition sample_frames :: "(TunnelMessage \<times> string) list" where
  "sample_frames = map (\<lambda>s. (zero_message\<lparr>tm_Type := T_DATA, tm_Payload := s\<rparr>, s)) [''abc'', []]"

theorem framing_roundtrip_witness:
  "\<exists>buf rest. receive sample_wire_lib 2 [] [[CHR 0x00], [], [CHR 0x03, CHR ''a''], ''bc'' @ [CHR 0x00], [CHR 0x00]]
     = Some (map fst sample_frames, buf, rest)"
proof -
  have ok: "list_all (frame_ok sample_wire_lib) sample_frames"
    by (simp add: frame_ok_def sample_wire_lib_def sample_frames_def)
  have chunks: "concat [[CHR 0x00], [], [CHR 0x03, CHR ''a''], ''bc'' @ [CHR 0x00], [CHR 0x00]] = concat (map (\<lambda>f. envelope (snd f)) sample_frames)"
    by (simp add: sample_frames_def envelope_def PutUint16_def char_of_def bit_0)
  have closed: "wl_CloseStatus sample_wire_lib ws_closed = 1000" by (simp add: sample_wire_lib_def)
  have "length sample_frames = 2" by (simp add: sample_frames_def)
  with framing_roundtrip [OF ok chunks closed] show ?thesis by auto
qed

text \<open>
  Between 64 KiB and the announced maximum the writer does not refuse a message but truncates its
  length, so that the reader sees another envelope.
\<close>

lemma oversized_envelope:
  assumes "wl_Marshal lib m = Inr body" and "65536 \<le> length body" and "length body \<le> maxFramePayload"
  shows "writeMessage lib conn_Write m e = conn_Write (envelope body) e"
    and "Uint16 (take 2 (envelope body)) = length body mod 65536"
  using assms Uint16_PutUint16 [of "length body" body] by (simp_all add: writeMessage_def envelope_def)

end
