(* ===== verification/Tunnel_Proxy.thy ===== *)
theory Tunnel_Proxy
  imports Tunnel_Frames Broker_Types "HOL-Library.AList"
begin

text \<open>
  The source proxy of a secure tunnel (src/internal/securetunnel/proxy.go, loops.go): one goroutine reads
  the WebSocket, one accepts local TCP connections, one per stream pumps local bytes to the tunnel, and
  the owner may call \<open>Close\<close> at any time. Each goroutine is a program counter; a step of it is what happens
  between two synchronisation points (one critical section of \<open>streamsMu\<close>, one frame under \<open>writeMu\<close>, one
  transition of a \<open>sync.Once\<close>), and a run is any interleaving of such steps. Blocking (a \<open>Do\<close> that another
  goroutine executes) is a step that is not enabled.

  Streams are kept in a heap, because goroutines hold pointers to them after the table has dropped them.
  The environment chooses what is read, and whether a write or an accept succeeds; a write after the root
  context is cancelled fails. Go iterates over a map in any order, here over the table in its order; the
  invariant says that there is never more than one entry.
\<close>

section \<open>State\<close>

datatype thread = Th_Accept | Th_Read | Th_User | Th_Pump nat

text \<open>\<open>closeOnce\<close> of a stream, with the statements of the body of \<open>Do\<close> that have been executed.\<close>

datatype once = Once_Open | Once_Deleted thread bool | Once_Emitted thread | Once_Done

datatype pump_pc = P_None | P_Read | P_Emit string bool | P_Close | P_Exit

record tunnel_stream =
  st_id :: int
  st_once :: once
  st_conn_open :: bool
  st_written :: string
  st_pump :: pump_pc

datatype accept_pc = A_Accept | A_Snapshot | A_Evict "nat list" | A_Emit nat | A_Fail nat | A_Exit

datatype read_pc = R_Next | R_Write nat string | R_Close nat bool | R_Term "go_error option" bool | R_Exit

datatype user_pc = U_Idle | U_Snapshot | U_Close "nat list" | U_Term

datatype term_phase =
    T_Running | T_Claimed thread | T_Cancelled thread | T_Unlistened thread | T_Closing thread "nat list" | T_Done

record SourceProxy =
  sp_serviceID :: string
  sp_object :: "nat \<Rightarrow> tunnel_stream"
  sp_count :: nat
  sp_streams :: "(int \<times> nat) list"
  sp_nextStreamID :: int
  sp_wire :: "TunnelMessage list"
  sp_cancelled :: bool
  sp_listening :: bool
  sp_ws_open :: bool
  sp_terminate :: term_phase
  sp_terminateErr :: "go_error option"
  sp_accept :: accept_pc
  sp_read :: read_pc
  sp_user :: user_pc

definition ErrSessionReset :: go_error where
  "ErrSessionReset = Plain ''securetunnel: destination sent SESSION_RESET''"
definition ErrServiceIDMismatch :: go_error where
  "ErrServiceIDMismatch = Plain ''securetunnel: destination did not advertise expected service id''"
definition ErrUnexpectedClose :: go_error where
  "ErrUnexpectedClose = Plain ''securetunnel: websocket closed unexpectedly''"
definition ErrRegionRequired :: go_error where
  "ErrRegionRequired = Plain ''securetunnel: region is required''"
definition ErrAccessTokenRequired :: go_error where
  "ErrAccessTokenRequired = Plain ''securetunnel: source access token is required''"
definition ErrServiceIDsNotReceived :: go_error where
  "ErrServiceIDsNotReceived = Plain ''securetunnel: destination did not publish SERVICE_IDS before timeout''"

definition update_stream :: "nat \<Rightarrow> (tunnel_stream \<Rightarrow> tunnel_stream) \<Rightarrow> SourceProxy \<Rightarrow> SourceProxy" where
  "update_stream k f s = s\<lparr>sp_object := (sp_object s)(k := f (sp_object s k))\<rparr>"

definition snapshot :: "SourceProxy \<Rightarrow> nat list" where
  "snapshot s = map snd (sp_streams s)"

definition lookupStream :: "SourceProxy \<Rightarrow> int \<Rightarrow> nat option" where
  "lookupStream s i = map_of (sp_streams s) i"

section \<open>Operations\<close>

text \<open>\<open>emitFrame\<close>, with the outcome of the write chosen by the environment.\<close>

definition emitFrame :: "bool \<Rightarrow> TunnelMessage \<Rightarrow> SourceProxy \<Rightarrow> bool \<times> SourceProxy" where
  "emitFrame ok message s =
     (if ok \<and> \<not> sp_cancelled s then (True, s\<lparr>sp_wire := sp_wire s @ [message]\<rparr>) else (False, s))"

definition frame :: "frame_type \<Rightarrow> int \<Rightarrow> TunnelMessage" where
  "frame t i = zero_message\<lparr>tm_Type := t, tm_StreamId := i\<rparr>"

text \<open>
  One step of \<open>closeStream\<close> in goroutine \<open>t\<close>: the flag says that \<open>Do\<close> has returned, \<open>None\<close> that another
  goroutine is inside it.
\<close>

definition closeStream :: "thread \<Rightarrow> bool \<Rightarrow> bool \<Rightarrow> nat \<Rightarrow> SourceProxy \<Rightarrow> (bool \<times> SourceProxy) option" where
  "closeStream t emitReset ok k s =
     (case st_once (sp_object s k) of
        Once_Open \<Rightarrow>
          Some (False, update_stream k (\<lambda>st. st\<lparr>st_once := Once_Deleted t emitReset\<rparr>)
            (s\<lparr>sp_streams := AList.delete (st_id (sp_object s k)) (sp_streams s)\<rparr>))
      | Once_Deleted t' reset \<Rightarrow>
          if t' \<noteq> t then None
          else Some (False, update_stream k (\<lambda>st. st\<lparr>st_once := Once_Emitted t\<rparr>)
            (if reset then snd (emitFrame ok (frame T_STREAM_RESET (st_id (sp_object s k))) s) else s))
      | Once_Emitted t' \<Rightarrow>
          if t' \<noteq> t then None
          else Some (False, update_stream k (\<lambda>st. st\<lparr>st_once := Once_Done, st_conn_open := False\<rparr>) s)
      | Once_Done \<Rightarrow> Some (True, s))"

text \<open>One step of \<open>terminate\<close> in goroutine \<open>t\<close>; the inner closures run the body of \<open>closeOnce\<close> without a reset.\<close>

definition terminate_step :: "thread \<Rightarrow> go_error option \<Rightarrow> SourceProxy \<Rightarrow> (bool \<times> SourceProxy) option" where
  "terminate_step t cause s =
     (case sp_terminate s of
        T_Running \<Rightarrow> Some (False, s\<lparr>sp_terminateErr := cause, sp_terminate := T_Claimed t\<rparr>)
      | T_Claimed t' \<Rightarrow>
          if t' \<noteq> t then None else Some (False, s\<lparr>sp_cancelled := True, sp_terminate := T_Cancelled t\<rparr>)
      | T_Cancelled t' \<Rightarrow>
          if t' \<noteq> t then None else Some (False, s\<lparr>sp_listening := False, sp_terminate := T_Unlistened t\<rparr>)
      | T_Unlistened t' \<Rightarrow>
          if t' \<noteq> t then None else Some (False, s\<lparr>sp_terminate := T_Closing t (snapshot s)\<rparr>)
      | T_Closing t' [] \<Rightarrow>
          if t' \<noteq> t then None else Some (False, s\<lparr>sp_ws_open := False, sp_terminate := T_Done\<rparr>)
      | T_Closing t' (k # ks) \<Rightarrow>
          if t' \<noteq> t then None
          else (case closeStream t False False k s of
                  None \<Rightarrow> None
                | Some (fin, s') \<Rightarrow> Some (False, if fin then s'\<lparr>sp_terminate := T_Closing t ks\<rparr> else s'))
      | T_Done \<Rightarrow> Some (True, s))"

definition allocateStreamID :: "SourceProxy \<Rightarrow> int \<times> SourceProxy" where
  "allocateStreamID s = (sp_nextStreamID s, s\<lparr>sp_nextStreamID := int32 (sp_nextStreamID s + 1)\<rparr>)"

text \<open>The middle of \<open>handleAccept\<close>: a fresh stream enters the heap and the table.\<close>

definition register_stream :: "SourceProxy \<Rightarrow> SourceProxy" where
  "register_stream s0 =
     (case allocateStreamID s0 of (streamID, s) \<Rightarrow>
      let k = sp_count s in
      s\<lparr>sp_object := (sp_object s)(k := \<lparr>st_id = streamID, st_once = Once_Open, st_conn_open = True, st_written = [], st_pump = P_None\<rparr>),
        sp_count := k + 1, sp_streams := AList.update streamID k (sp_streams s), sp_accept := A_Emit k\<rparr>)"

text \<open>
  \<open>runAcceptLoop\<close> with \<open>handleAccept\<close> and \<open>evictExistingStreams\<close>. The flag is the outcome of \<open>Accept\<close> or of
  the write.
\<close>

definition accept_step :: "bool \<Rightarrow> SourceProxy \<Rightarrow> SourceProxy option" where
  "accept_step ok s =
     (case sp_accept s of
        A_Accept \<Rightarrow> Some (s\<lparr>sp_accept := (if ok \<and> sp_listening s then A_Snapshot else A_Exit)\<rparr>)
      | A_Snapshot \<Rightarrow> Some (s\<lparr>sp_accept := A_Evict (snapshot s)\<rparr>)
      | A_Evict [] \<Rightarrow> Some (register_stream s)
      | A_Evict (k # ks) \<Rightarrow>
          (case closeStream Th_Accept True ok k s of
             None \<Rightarrow> None
           | Some (fin, s') \<Rightarrow> Some (if fin then s'\<lparr>sp_accept := A_Evict ks\<rparr> else s'))
      | A_Emit k \<Rightarrow>
          (case emitFrame ok (frame T_STREAM_START (st_id (sp_object s k))) s of (sent, s') \<Rightarrow>
             Some (if sent then (update_stream k (\<lambda>st. st\<lparr>st_pump := P_Read\<rparr>) s')\<lparr>sp_accept := A_Accept\<rparr>
                   else s'\<lparr>sp_accept := A_Fail k\<rparr>))
      | A_Fail k \<Rightarrow>
          (case closeStream Th_Accept False ok k s of
             None \<Rightarrow> None
           | Some (fin, s') \<Rightarrow> Some (if fin then s'\<lparr>sp_accept := A_Accept\<rparr> else s'))
      | A_Exit \<Rightarrow> None)"

text \<open>The cause with which \<open>runReadLoop\<close> terminates after a failed read.\<close>

definition read_cause :: "go_error \<Rightarrow> go_error option" where
  "read_cause err =
     (if errors_Is err io_EOF then None
      else if errors_Is err context_Canceled then None
      else if errors_Is err ErrFrameTooLarge then Some err
      else Some (Wrapped [] ErrUnexpectedClose))"

text \<open>\<open>handleData\<close> up to the write, and \<open>dispatchMessage\<close>: what the read loop does next.\<close>

definition handleData :: "SourceProxy \<Rightarrow> TunnelMessage \<Rightarrow> read_pc" where
  "handleData s message =
     (case lookupStream s (tm_StreamId message) of
        None \<Rightarrow> R_Next
      | Some k \<Rightarrow> if tm_Payload message = [] then R_Next else R_Write k (tm_Payload message))"

definition dispatchMessage :: "SourceProxy \<Rightarrow> TunnelMessage \<Rightarrow> read_pc" where
  "dispatchMessage s message =
     (case tm_Type message of
        T_DATA \<Rightarrow> handleData s message
      | T_STREAM_RESET \<Rightarrow> (case lookupStream s (tm_StreamId message) of None \<Rightarrow> R_Next | Some k \<Rightarrow> R_Close k False)
      | T_CONNECTION_RESET \<Rightarrow> (case lookupStream s (tm_StreamId message) of None \<Rightarrow> R_Next | Some k \<Rightarrow> R_Close k False)
      | T_SESSION_RESET \<Rightarrow> R_Term (Some ErrSessionReset) False
      | T_SERVICE_IDS \<Rightarrow>
          (if sp_serviceID s \<in> set (tm_AvailableServiceIds message) then R_Next
           else R_Term (Some (Wrapped [] ErrServiceIDMismatch)) False)
      | _ \<Rightarrow> R_Next)"

datatype read_event = Rx "TunnelMessage result" | Rx_go bool

definition read_step :: "read_event \<Rightarrow> SourceProxy \<Rightarrow> SourceProxy option" where
  "read_step ev s =
     (case (sp_read s, ev) of
        (R_Next, Rx (Inl err)) \<Rightarrow> Some (s\<lparr>sp_read := R_Term (read_cause err) True\<rparr>)
      | (R_Next, Rx (Inr message)) \<Rightarrow> Some (s\<lparr>sp_read := dispatchMessage s message\<rparr>)
      | (R_Write k payload, Rx_go ok) \<Rightarrow>
          (if ok \<and> st_conn_open (sp_object s k)
           then Some ((update_stream k (\<lambda>st. st\<lparr>st_written := st_written st @ payload\<rparr>) s)\<lparr>sp_read := R_Next\<rparr>)
           else Some (s\<lparr>sp_read := R_Close k True\<rparr>))
      | (R_Close k reset, Rx_go ok) \<Rightarrow>
          (case closeStream Th_Read reset ok k s of
             None \<Rightarrow> None
           | Some (fin, s') \<Rightarrow> Some (if fin then s'\<lparr>sp_read := R_Next\<rparr> else s'))
      | (R_Term cause final, Rx_go ok) \<Rightarrow>
          (case terminate_step Th_Read cause s of
             None \<Rightarrow> None
           | Some (fin, s') \<Rightarrow> Some (if fin then s'\<lparr>sp_read := (if final then R_Exit else R_Next)\<rparr> else s'))
      | _ \<Rightarrow> None)"

text \<open>\<open>runStreamPump\<close>: a read returns bytes, an error, or both; a closed connection returns an error only.\<close>

datatype pump_event = Pm_read string bool | Pm_go bool

definition pump_step :: "nat \<Rightarrow> pump_event \<Rightarrow> SourceProxy \<Rightarrow> SourceProxy option" where
  "pump_step k ev s =
     (case (st_pump (sp_object s k), ev) of
        (P_Read, Pm_read bytes failed) \<Rightarrow>
          if maxDataChunk < length bytes \<or> \<not> st_conn_open (sp_object s k) \<and> (bytes \<noteq> [] \<or> \<not> failed) then None
          else Some (update_stream k (\<lambda>st. st\<lparr>st_pump :=
                 (if bytes \<noteq> [] then P_Emit bytes failed else if failed then P_Close else P_Read)\<rparr>) s)
      | (P_Emit bytes failed, Pm_go ok) \<Rightarrow>
          (case emitFrame ok ((frame T_DATA (st_id (sp_object s k)))\<lparr>tm_Payload := bytes\<rparr>) s of (sent, s') \<Rightarrow>
             Some (update_stream k (\<lambda>st. st\<lparr>st_pump := (if \<not> sent \<or> failed then P_Close else P_Read)\<rparr>) s'))
      | (P_Close, Pm_go ok) \<Rightarrow>
          (case closeStream (Th_Pump k) True ok k s of
             None \<Rightarrow> None
           | Some (fin, s') \<Rightarrow> Some (if fin then update_stream k (\<lambda>st. st\<lparr>st_pump := P_Exit\<rparr>) s' else s'))
      | _ \<Rightarrow> None)"

text \<open>\<open>Close\<close>, once the owner has called it.\<close>

definition user_step :: "bool \<Rightarrow> SourceProxy \<Rightarrow> SourceProxy option" where
  "user_step ok s =
     (case sp_user s of
        U_Idle \<Rightarrow> None
      | U_Snapshot \<Rightarrow> Some (s\<lparr>sp_user := U_Close (snapshot s)\<rparr>)
      | U_Close [] \<Rightarrow> Some (s\<lparr>sp_user := U_Term\<rparr>)
      | U_Close (k # ks) \<Rightarrow>
          (case closeStream Th_User True ok k s of
             None \<Rightarrow> None
           | Some (fin, s') \<Rightarrow> Some (if fin then s'\<lparr>sp_user := U_Close ks\<rparr> else s'))
      | U_Term \<Rightarrow>
          (case terminate_step Th_User None s of
             None \<Rightarrow> None
           | Some (fin, s') \<Rightarrow> Some (if fin then s'\<lparr>sp_user := U_Idle\<rparr> else s')))"

datatype action = Act_Accept bool | Act_Read read_event | Act_Pump nat pump_event | Act_User bool | Act_Close | Act_Cancel

text \<open>\<open>Act_Close\<close> is a call of \<open>Close\<close>, \<open>Act_Cancel\<close> the cancellation of the context the proxy was started with.\<close>

definition proxy_step :: "action \<Rightarrow> SourceProxy \<Rightarrow> SourceProxy option" where
  "proxy_step a s =
     (case a of
        Act_Accept ok \<Rightarrow> accept_step ok s
      | Act_Read ev \<Rightarrow> read_step ev s
      | Act_Pump k ev \<Rightarrow> if k < sp_count s then pump_step k ev s else None
      | Act_User ok \<Rightarrow> user_step ok s
      | Act_Close \<Rightarrow> if sp_user s = U_Idle then Some (s\<lparr>sp_user := U_Snapshot\<rparr>) else None
      | Act_Cancel \<Rightarrow> Some (s\<lparr>sp_cancelled := True\<rparr>))"

fun proxy_run :: "action list \<Rightarrow> SourceProxy \<Rightarrow> SourceProxy option" where
  "proxy_run [] s = Some s"
| "proxy_run (a # as) s = (case proxy_step a s of None \<Rightarrow> None | Some s' \<Rightarrow> proxy_run as s')"

text \<open>The proxy that \<open>StartSourceProxy\<close> returns.\<close>

definition new_proxy :: "string \<Rightarrow> SourceProxy" where
  "new_proxy serviceID =
     \<lparr>sp_serviceID = serviceID,
      sp_object = (\<lambda>_. \<lparr>st_id = 0, st_once = Once_Done, st_conn_open = False, st_written = [], st_pump = P_None\<rparr>),
      sp_count = 0, sp_streams = [], sp_nextStreamID = 1, sp_wire = [], sp_cancelled = False, sp_listening = True,
      sp_ws_open = True, sp_terminate = T_Running, sp_terminateErr = None, sp_accept = A_Accept, sp_read = R_Next, sp_user = U_Idle\<rparr>"

inductive proxy_reachable :: "string \<Rightarrow> SourceProxy \<Rightarrow> bool" for serviceID :: string where
  start: "proxy_reachable serviceID (new_proxy serviceID)"
| step: "proxy_reachable serviceID s \<Longrightarrow> proxy_step a s = Some s' \<Longrightarrow> proxy_reachable serviceID s'"

text \<open>\<open>Wait\<close>: the goroutines of the wait group have returned.\<close>

definition drained :: "SourceProxy \<Rightarrow> bool" where
  "drained s \<longleftrightarrow> sp_accept s = A_Exit \<and> sp_read s = R_Exit
     \<and> list_all (\<lambda>k. st_pump (sp_object s k) \<in> {P_None, P_Exit}) [0..<sp_count s]"

definition Wait :: "SourceProxy \<Rightarrow> go_error option option" where
  "Wait s =
     (if \<not> drained s then None
      else Some (case sp_terminateErr s of
                   Some err \<Rightarrow> if errors_Is err context_Canceled then None else Some err
                 | None \<Rightarrow> None))"

subsection \<open>Case rules\<close>

text \<open>A step of a goroutine is an own step, or a step of \<open>closeStream\<close> or \<open>terminate\<close> with its return.\<close>

lemma accept_step_cases:
  assumes "accept_step ok s = Some s'"
  obtains (accepted) "sp_accept s = A_Accept" "sp_listening s" "s' = s\<lparr>sp_accept := A_Snapshot\<rparr>"
  | (refused) "sp_accept s = A_Accept" "s' = s\<lparr>sp_accept := A_Exit\<rparr>"
  | (snap) "sp_accept s = A_Snapshot" "s' = s\<lparr>sp_accept := A_Evict (snapshot s)\<rparr>"
  | (register) "sp_accept s = A_Evict []" "s' = register_stream s"
  | (evict) k ks fin s1 where "sp_accept s = A_Evict (k # ks)" "closeStream Th_Accept True ok k s = Some (fin, s1)"
      "s' = (if fin then s1\<lparr>sp_accept := A_Evict ks\<rparr> else s1)"
  | (started) k where "sp_accept s = A_Emit k" "\<not> sp_cancelled s"
      "s' = (update_stream k (\<lambda>st. st\<lparr>st_pump := P_Read\<rparr>) (s\<lparr>sp_wire := sp_wire s @ [frame T_STREAM_START (st_id (sp_object s k))]\<rparr>))\<lparr>sp_accept := A_Accept\<rparr>"
  | (unsent) k where "sp_accept s = A_Emit k" "s' = s\<lparr>sp_accept := A_Fail k\<rparr>"
  | (fail) k fin s1 where "sp_accept s = A_Fail k" "closeStream Th_Accept False ok k s = Some (fin, s1)"
      "s' = (if fin then s1\<lparr>sp_accept := A_Accept\<rparr> else s1)"
proof (cases "sp_accept s")
  case A_Accept
  with assms show thesis by (cases "ok \<and> sp_listening s") (auto simp: accept_step_def intro: accepted refused)
next
  case A_Snapshot
  with assms show thesis by (intro snap) (simp_all add: accept_step_def)
next
  case (A_Evict l)
  show thesis
  proof (cases l)
    case Nil
    with A_Evict assms show thesis by (intro register) (simp_all add: accept_step_def)
  next
    case (Cons k ks)
    with A_Evict assms obtain fin s1 where "closeStream Th_Accept True ok k s = Some (fin, s1)"
      "s' = (if fin then s1\<lparr>sp_accept := A_Evict ks\<rparr> else s1)" by (auto simp: accept_step_def split: option.splits)
    with A_Evict Cons show thesis by (intro evict) simp_all
  qed
next
  case (A_Emit k)
  show thesis
  proof (cases "ok \<and> \<not> sp_cancelled s")
    case True
    with A_Emit assms show thesis by (intro started [of k]) (simp_all add: accept_step_def emitFrame_def)
  next
    case False
    with A_Emit assms show thesis by (intro unsent [of k]) (auto simp: accept_step_def emitFrame_def)
  qed
next
  case (A_Fail k)
  with assms obtain fin s1 where "closeStream Th_Accept False ok k s = Some (fin, s1)"
    "s' = (if fin then s1\<lparr>sp_accept := A_Accept\<rparr> else s1)" by (auto simp: accept_step_def split: option.splits)
  with A_Fail show thesis by (intro fail) simp_all
qed (use assms in \<open>simp add: accept_step_def\<close>)

lemma read_step_cases:
  assumes "read_step ev s = Some s'"
  obtains (failed) err where "sp_read s = R_Next" "s' = s\<lparr>sp_read := R_Term (read_cause err) True\<rparr>"
  | (received) m where "sp_read s = R_Next" "s' = s\<lparr>sp_read := dispatchMessage s m\<rparr>"
  | (delivered) k p where "sp_read s = R_Write k p" "st_conn_open (sp_object s k)"
      "s' = (update_stream k (\<lambda>st. st\<lparr>st_written := st_written st @ p\<rparr>) s)\<lparr>sp_read := R_Next\<rparr>"
  | (undelivered) k p where "sp_read s = R_Write k p" "s' = s\<lparr>sp_read := R_Close k True\<rparr>"
  | (close) k e ok fin s1 where "sp_read s = R_Close k e" "closeStream Th_Read e ok k s = Some (fin, s1)"
      "s' = (if fin then s1\<lparr>sp_read := R_Next\<rparr> else s1)"
  | (ending) cause final fin s1 where "sp_read s = R_Term cause final" "terminate_step Th_Read cause s = Some (fin, s1)"
      "s' = (if fin then s1\<lparr>sp_read := (if final then R_Exit else R_Next)\<rparr> else s1)"
proof (cases "sp_read s")
  case R_Next
  with assms show thesis by (auto simp: read_step_def split: read_event.splits sum.splits intro: failed received)
next
  case (R_Write k p)
  with assms show thesis
    by (cases "st_conn_open (sp_object s k)")
      (auto simp: read_step_def split: read_event.splits if_splits intro: delivered [OF R_Write] undelivered [OF R_Write])
next
  case (R_Close k e)
  with assms obtain ok fin s1 where "closeStream Th_Read e ok k s = Some (fin, s1)" "s' = (if fin then s1\<lparr>sp_read := R_Next\<rparr> else s1)"
    by (auto simp: read_step_def split: read_event.splits option.splits)
  with R_Close show thesis by (intro close) simp_all
next
  case (R_Term c f)
  with assms obtain fin s1 where "terminate_step Th_Read c s = Some (fin, s1)"
    "s' = (if fin then s1\<lparr>sp_read := (if f then R_Exit else R_Next)\<rparr> else s1)"
    by (auto simp: read_step_def split: read_event.splits option.splits)
  with R_Term show thesis by (intro ending) simp_all
qed (use assms in \<open>simp add: read_step_def\<close>)

lemma pump_step_cases:
  assumes "pump_step k ev s = Some s'"
  obtains (chunk) bytes failed where "st_pump (sp_object s k) = P_Read"
      "st_conn_open (sp_object s k) \<or> bytes = [] \<and> failed" "length bytes \<le> maxDataChunk"
      "s' = update_stream k (\<lambda>st. st\<lparr>st_pump := (if bytes \<noteq> [] then P_Emit bytes failed else if failed then P_Close else P_Read)\<rparr>) s"
  | (sent) bytes failed where "st_pump (sp_object s k) = P_Emit bytes failed" "\<not> sp_cancelled s"
      "s' = update_stream k (\<lambda>st. st\<lparr>st_pump := (if failed then P_Close else P_Read)\<rparr>)
         (s\<lparr>sp_wire := sp_wire s @ [(frame T_DATA (st_id (sp_object s k)))\<lparr>tm_Payload := bytes\<rparr>]\<rparr>)"
  | (unsent) bytes failed where "st_pump (sp_object s k) = P_Emit bytes failed" "s' = update_stream k (\<lambda>st. st\<lparr>st_pump := P_Close\<rparr>) s"
  | (close) ok fin s1 where "st_pump (sp_object s k) = P_Close" "closeStream (Th_Pump k) True ok k s = Some (fin, s1)"
      "s' = (if fin then update_stream k (\<lambda>st. st\<lparr>st_pump := P_Exit\<rparr>) s1 else s1)"
proof (cases "st_pump (sp_object s k)")
  case P_Read
  with assms obtain bytes failed where "ev = Pm_read bytes failed" by (cases ev) (simp_all add: pump_step_def)
  with P_Read assms show thesis
    by (intro chunk [of bytes failed]) (auto simp: pump_step_def split: if_split_asm)
next
  case (P_Emit bytes failed)
  with assms obtain ok where ev: "ev = Pm_go ok" by (cases ev) (simp_all add: pump_step_def)
  show thesis
  proof (cases "ok \<and> \<not> sp_cancelled s")
    case True
    with P_Emit ev assms show thesis by (intro sent [OF P_Emit]) (simp_all add: pump_step_def emitFrame_def)
  next
    case False
    with P_Emit ev assms show thesis by (intro unsent [OF P_Emit]) (auto simp: pump_step_def emitFrame_def)
  qed
next
  case P_Close
  with assms obtain ok where ev: "ev = Pm_go ok" by (cases ev) (simp_all add: pump_step_def)
  with P_Close assms obtain fin s1 where "closeStream (Th_Pump k) True ok k s = Some (fin, s1)"
    "s' = (if fin then update_stream k (\<lambda>st. st\<lparr>st_pump := P_Exit\<rparr>) s1 else s1)"
    by (auto simp: pump_step_def split: option.splits)
  with P_Close show thesis by (rule close)
qed (use assms in \<open>simp_all add: pump_step_def\<close>)

lemma user_step_cases:
  assumes "user_step ok s = Some s'"
  obtains (snap) "sp_user s = U_Snapshot" "s' = s\<lparr>sp_user := U_Close (snapshot s)\<rparr>"
  | (closed) "sp_user s = U_Close []" "s' = s\<lparr>sp_user := U_Term\<rparr>"
  | (close) k ks fin s1 where "sp_user s = U_Close (k # ks)" "closeStream Th_User True ok k s = Some (fin, s1)"
      "s' = (if fin then s1\<lparr>sp_user := U_Close ks\<rparr> else s1)"
  | (ending) fin s1 where "sp_user s = U_Term" "terminate_step Th_User None s = Some (fin, s1)"
      "s' = (if fin then s1\<lparr>sp_user := U_Idle\<rparr> else s1)"
  using assms by (auto simp: user_step_def split: user_pc.splits list.splits option.splits if_splits)

lemma closeStream_cases:
  assumes "closeStream t e ok k s = Some (fin, s')"
  obtains (claim) "\<not> fin" "st_once (sp_object s k) = Once_Open"
      "s' = update_stream k (\<lambda>st. st\<lparr>st_once := Once_Deleted t e\<rparr>) (s\<lparr>sp_streams := AList.delete (st_id (sp_object s k)) (sp_streams s)\<rparr>)"
  | (reset) "\<not> fin" "st_once (sp_object s k) = Once_Deleted t True" "\<not> sp_cancelled s"
      "s' = update_stream k (\<lambda>st. st\<lparr>st_once := Once_Emitted t\<rparr>) (s\<lparr>sp_wire := sp_wire s @ [frame T_STREAM_RESET (st_id (sp_object s k))]\<rparr>)"
  | (silent) r where "\<not> fin" "st_once (sp_object s k) = Once_Deleted t r" "s' = update_stream k (\<lambda>st. st\<lparr>st_once := Once_Emitted t\<rparr>) s"
  | (shut) "\<not> fin" "st_once (sp_object s k) = Once_Emitted t" "s' = update_stream k (\<lambda>st. st\<lparr>st_once := Once_Done, st_conn_open := False\<rparr>) s"
  | (finished) "fin" "st_once (sp_object s k) = Once_Done" "s' = s"
  using assms by (auto simp: closeStream_def emitFrame_def split: once.splits if_splits)

lemma terminate_step_cases:
  assumes "terminate_step t c s = Some (fin, s')"
  obtains (claim) "\<not> fin" "sp_terminate s = T_Running" "s' = s\<lparr>sp_terminateErr := c, sp_terminate := T_Claimed t\<rparr>"
  | (cancel) "\<not> fin" "sp_terminate s = T_Claimed t" "s' = s\<lparr>sp_cancelled := True, sp_terminate := T_Cancelled t\<rparr>"
  | (unlisten) "\<not> fin" "sp_terminate s = T_Cancelled t" "s' = s\<lparr>sp_listening := False, sp_terminate := T_Unlistened t\<rparr>"
  | (snap) "\<not> fin" "sp_terminate s = T_Unlistened t" "s' = s\<lparr>sp_terminate := T_Closing t (snapshot s)\<rparr>"
  | (close) k ks fin' s1 where "\<not> fin" "sp_terminate s = T_Closing t (k # ks)" "closeStream t False False k s = Some (fin', s1)"
      "s' = (if fin' then s1\<lparr>sp_terminate := T_Closing t ks\<rparr> else s1)"
  | (complete) "\<not> fin" "sp_terminate s = T_Closing t []" "s' = s\<lparr>sp_ws_open := False, sp_terminate := T_Done\<rparr>"
  | (finished) "fin" "sp_terminate s = T_Done" "s' = s"
proof (cases "sp_terminate s")
  case (T_Closing t' l)
  show thesis
  proof (cases l)
    case Nil
    with T_Closing assms show thesis by (intro complete) (simp_all add: terminate_step_def split: if_splits)
  next
    case (Cons k ks)
    with T_Closing assms obtain fin' s1 where "closeStream t False False k s = Some (fin', s1)" "t' = t" "\<not> fin"
      "s' = (if fin' then s1\<lparr>sp_terminate := T_Closing t ks\<rparr> else s1)"
      by (auto simp: terminate_step_def split: if_splits option.splits)
    with T_Closing Cons show thesis by (intro close) simp_all
  qed
next
  case T_Running
  with assms show thesis by (intro claim) (simp_all add: terminate_step_def)
next
  case (T_Claimed t')
  with assms show thesis by (intro cancel) (simp_all add: terminate_step_def split: if_splits)
next
  case (T_Cancelled t')
  with assms show thesis by (intro unlisten) (simp_all add: terminate_step_def split: if_splits)
next
  case (T_Unlistened t')
  with assms show thesis by (intro snap) (simp_all add: terminate_step_def split: if_splits)
next
  case T_Done
  with assms show thesis by (intro finished) (simp_all add: terminate_step_def)
qed

section \<open>Start\<close>

definition DefaultServiceID :: string where "DefaultServiceID = ''SSH''"
definition wsSubprotocol :: string where "wsSubprotocol = ''aws.iot.securetunneling-3.0''"
definition defaultHandshakeTimeout :: duration where "defaultHandshakeTimeout = 10 * Second"

definition dataPlaneURL :: "string \<Rightarrow> string" where
  "dataPlaneURL region = ''wss://data.tunneling.iot.'' @ region @ ''.amazonaws.com/tunnel?local-proxy-mode=source''"

record SourceProxyOptions =
  so_Region :: string
  so_SourceAccessToken :: string
  so_ServiceID :: string
  so_HandshakeTimeout :: duration
  so_dialURLOverride :: string

datatype conn_state = Unopened | Opened | Closed

datatype net_addr = TCPAddr int | OtherAddr

text \<open>
  What the start calls: \<open>Dial\<close> with the URL, the headers and the offered subprotocols gives the selected
  subprotocol, \<open>Listen\<close> an address, \<open>Read\<close> the next WebSocket message within a timeout.
\<close>

record 'w dial_env =
  de_lib :: wire_lib
  de_Dial :: "string \<Rightarrow> (string \<times> string) list \<Rightarrow> string list \<Rightarrow> string result"
  de_Listen :: "string \<Rightarrow> string \<Rightarrow> net_addr result"
  de_Read :: "duration \<Rightarrow> 'w \<Rightarrow> ws_read \<times> 'w"

text \<open>A started proxy with its listener address, the bytes read ahead and the rest of the connection.\<close>

record 'w started_proxy =
  sd_proxy :: SourceProxy
  sd_addr :: net_addr
  sd_preReader :: string
  sd_conn :: 'w

record 'w start_outcome =
  oc_result :: "'w started_proxy result"
  oc_ws :: conn_state
  oc_listener :: conn_state

definition awaitServiceIDs ::
  "wire_lib \<Rightarrow> ('w \<Rightarrow> ws_read \<times> 'w) \<Rightarrow> string \<Rightarrow> 'w \<Rightarrow> (go_error option \<times> string \<times> 'w) option" where
  "awaitServiceIDs lib conn_Read serviceID w =
     (case frame_next lib conn_Read [] w of
        None \<Rightarrow> None
      | Some (r, buf, w1) \<Rightarrow>
          Some (case r of
                  Inl err \<Rightarrow> Some (if errors_Is err io_EOF then ErrServiceIDsNotReceived else Wrapped ''securetunnel: read SERVICE_IDS: '' err)
                | Inr message \<Rightarrow>
                    if tm_Type message \<noteq> T_SERVICE_IDS then Some (Plain ''securetunnel: first frame, expected SERVICE_IDS'')
                    else if serviceID \<in> set (tm_AvailableServiceIds message) then None
                    else Some (Wrapped [] ErrServiceIDMismatch), buf, w1))"

text \<open>\<open>None\<close> is a start that waits for ever.\<close>

definition StartSourceProxy :: "'w dial_env \<Rightarrow> SourceProxyOptions \<Rightarrow> 'w \<Rightarrow> 'w start_outcome option" where
  "StartSourceProxy env options w =
     (let region = TrimSpace (so_Region options);
          service = TrimSpace (so_ServiceID options);
          token = TrimSpace (so_SourceAccessToken options)
      in if region = [] then Some \<lparr>oc_result = Inl ErrRegionRequired, oc_ws = Unopened, oc_listener = Unopened\<rparr>
         else if token = [] then Some \<lparr>oc_result = Inl ErrAccessTokenRequired, oc_ws = Unopened, oc_listener = Unopened\<rparr>
         else
           let serviceID = (if service = [] then DefaultServiceID else service);
               dialURL = (if so_dialURLOverride options = [] then dataPlaneURL region else so_dialURLOverride options)
           in case de_Dial env dialURL [(''access-token'', token)] [wsSubprotocol] of
                Inl err \<Rightarrow>
                  Some \<lparr>oc_result = Inl (Wrapped ''securetunnel: dial websocket: '' err), oc_ws = Unopened, oc_listener = Unopened\<rparr>
              | Inr selected \<Rightarrow>
                  if selected \<noteq> wsSubprotocol
                  then Some \<lparr>oc_result = Inl (Plain ''securetunnel: server did not select subprotocol''), oc_ws = Closed, oc_listener = Unopened\<rparr>
                  else case de_Listen env ''tcp'' ''127.0.0.1:0'' of
                    Inl err \<Rightarrow>
                      Some \<lparr>oc_result = Inl (Wrapped ''securetunnel: bind loopback listener: '' err), oc_ws = Closed, oc_listener = Unopened\<rparr>
                  | Inr addr \<Rightarrow>
                      let timeout = (if so_HandshakeTimeout options \<le> 0 then defaultHandshakeTimeout else so_HandshakeTimeout options)
                      in case awaitServiceIDs (de_lib env) (SetReadLimit (maxFramePayload + 8) (de_Read env timeout)) serviceID w of
                           None \<Rightarrow> None
                         | Some (Some err, buf, w1) \<Rightarrow> Some \<lparr>oc_result = Inl err, oc_ws = Closed, oc_listener = Closed\<rparr>
                         | Some (None, buf, w1) \<Rightarrow>
                             Some \<lparr>oc_result = Inr \<lparr>sd_proxy = new_proxy serviceID, sd_addr = addr, sd_preReader = buf, sd_conn = w1\<rparr>,
                                   oc_ws = Opened, oc_listener = Opened\<rparr>)"

definition LocalPort :: "'w started_proxy \<Rightarrow> int" where
  "LocalPort p = (case sd_addr p of TCPAddr port \<Rightarrow> port | OtherAddr \<Rightarrow> 0)"

section \<open>The stream table\<close>

definition opens :: "SourceProxy \<Rightarrow> nat set" where
  "opens s = {k. k < sp_count s \<and> st_once (sp_object s k) = Once_Open}"

definition table_inv :: "SourceProxy \<Rightarrow> bool" where
  "table_inv s \<longleftrightarrow>
     sp_nextStreamID s = int (sp_count s) + 1 \<and> (\<forall>k < sp_count s. st_id (sp_object s k) = int k + 1)
     \<and> distinct (map fst (sp_streams s)) \<and> set (sp_streams s) = (\<lambda>k. (int k + 1, k)) ` opens s"

text \<open>The heap cells that a goroutine holds a pointer to exist.\<close>

fun accept_refs :: "accept_pc \<Rightarrow> nat set" where
  "accept_refs (A_Evict ks) = set ks" | "accept_refs (A_Emit k) = {k}" | "accept_refs (A_Fail k) = {k}" | "accept_refs _ = {}"

fun read_refs :: "read_pc \<Rightarrow> nat set" where
  "read_refs (R_Write k p) = {k}" | "read_refs (R_Close k b) = {k}" | "read_refs _ = {}"

fun user_refs :: "user_pc \<Rightarrow> nat set" where
  "user_refs (U_Close ks) = set ks" | "user_refs _ = {}"

fun term_refs :: "term_phase \<Rightarrow> nat set" where
  "term_refs (T_Closing t ks) = set ks" | "term_refs _ = {}"

definition known_pcs :: "SourceProxy \<Rightarrow> bool" where
  "known_pcs s \<longleftrightarrow>
     accept_refs (sp_accept s) \<union> read_refs (sp_read s) \<union> user_refs (sp_user s) \<union> term_refs (sp_terminate s) \<subseteq> {..<sp_count s}"

text \<open>At most one stream is open; while the accept loop evicts, it is one of those it is going to close.\<close>

fun covers :: "accept_pc \<Rightarrow> nat set \<Rightarrow> bool" where
  "covers (A_Evict ks) X \<longleftrightarrow> X \<subseteq> set ks"
| "covers (A_Emit k) X \<longleftrightarrow> X \<subseteq> {k}"
| "covers (A_Fail k) X \<longleftrightarrow> X \<subseteq> {k}"
| "covers _ X \<longleftrightarrow> True"

definition single_inv :: "SourceProxy \<Rightarrow> bool" where
  "single_inv s \<longleftrightarrow> (\<forall>k \<in> opens s. \<forall>j \<in> opens s. k = j) \<and> covers (sp_accept s) (opens s)"

lemma covers_mono: "covers a X \<Longrightarrow> Y \<subseteq> X \<Longrightarrow> covers a Y"
  by (cases a) auto

lemma snapshot_opens: "table_inv s \<Longrightarrow> set (snapshot s) = opens s"
  by (simp add: table_inv_def snapshot_def image_image)

lemma opens_known: "opens s \<subseteq> {..<sp_count s}"
  by (auto simp: opens_def)

lemma opens_cong [simp]:
  "opens (s\<lparr>sp_accept := a\<rparr>) = opens s" "opens (s\<lparr>sp_read := r\<rparr>) = opens s" "opens (s\<lparr>sp_user := u\<rparr>) = opens s"
  "opens (s\<lparr>sp_terminate := t\<rparr>) = opens s" "opens (s\<lparr>sp_cancelled := c\<rparr>) = opens s" "opens (s\<lparr>sp_listening := l\<rparr>) = opens s"
  "opens (s\<lparr>sp_ws_open := o'\<rparr>) = opens s" "opens (s\<lparr>sp_terminateErr := e\<rparr>) = opens s" "opens (s\<lparr>sp_wire := w\<rparr>) = opens s"
  "opens (s\<lparr>sp_streams := m\<rparr>) = opens s"
  by (simp_all add: opens_def)

lemma table_inv_cong [simp]:
  "table_inv (s\<lparr>sp_accept := a\<rparr>) = table_inv s" "table_inv (s\<lparr>sp_read := r\<rparr>) = table_inv s" "table_inv (s\<lparr>sp_user := u\<rparr>) = table_inv s"
  "table_inv (s\<lparr>sp_terminate := t\<rparr>) = table_inv s" "table_inv (s\<lparr>sp_cancelled := c\<rparr>) = table_inv s"
  "table_inv (s\<lparr>sp_listening := l\<rparr>) = table_inv s" "table_inv (s\<lparr>sp_ws_open := o'\<rparr>) = table_inv s"
  "table_inv (s\<lparr>sp_terminateErr := e\<rparr>) = table_inv s" "table_inv (s\<lparr>sp_wire := w\<rparr>) = table_inv s"
  by (simp_all add: table_inv_def)

lemma update_stream_sel [simp]:
  "sp_object (update_stream k f s) = (sp_object s)(k := f (sp_object s k))" "sp_count (update_stream k f s) = sp_count s"
  "sp_streams (update_stream k f s) = sp_streams s" "sp_nextStreamID (update_stream k f s) = sp_nextStreamID s"
  "sp_accept (update_stream k f s) = sp_accept s" "sp_read (update_stream k f s) = sp_read s"
  "sp_user (update_stream k f s) = sp_user s" "sp_terminate (update_stream k f s) = sp_terminate s"
  "sp_wire (update_stream k f s) = sp_wire s" "sp_cancelled (update_stream k f s) = sp_cancelled s"
  "sp_listening (update_stream k f s) = sp_listening s" "sp_ws_open (update_stream k f s) = sp_ws_open s"
  by (simp_all add: update_stream_def)

lemma snd_emitFrame_sel [simp]:
  "sp_object (snd (emitFrame ok m s)) = sp_object s" "sp_count (snd (emitFrame ok m s)) = sp_count s"
  "sp_streams (snd (emitFrame ok m s)) = sp_streams s" "sp_nextStreamID (snd (emitFrame ok m s)) = sp_nextStreamID s"
  "sp_accept (snd (emitFrame ok m s)) = sp_accept s" "sp_read (snd (emitFrame ok m s)) = sp_read s"
  "sp_user (snd (emitFrame ok m s)) = sp_user s" "sp_terminate (snd (emitFrame ok m s)) = sp_terminate s"
  "sp_cancelled (snd (emitFrame ok m s)) = sp_cancelled s" "sp_listening (snd (emitFrame ok m s)) = sp_listening s"
  "sp_ws_open (snd (emitFrame ok m s)) = sp_ws_open s"
  by (simp_all add: emitFrame_def)

text \<open>An update of a heap cell that keeps its id and its \<open>closeOnce\<close> does not touch the table.\<close>

lemma update_stream_quiet:
  assumes "\<And>st. st_once (f st) = st_once st" and "\<And>st. st_id (f st) = st_id st"
  shows "opens (update_stream k f s) = opens s" "table_inv (update_stream k f s) = table_inv s"
proof -
  show o: "opens (update_stream k f s) = opens s" by (auto simp: opens_def assms)
  show "table_inv (update_stream k f s) = table_inv s" by (auto simp: table_inv_def o assms)
qed

text \<open>What one step of \<open>closeStream\<close> changes.\<close>

lemma closeStream_frame:
  assumes "closeStream t e ok k s = Some (fin, s')"
  shows "sp_accept s' = sp_accept s" "sp_read s' = sp_read s" "sp_user s' = sp_user s" "sp_terminate s' = sp_terminate s"
    "sp_count s' = sp_count s" "sp_cancelled s' = sp_cancelled s" "sp_listening s' = sp_listening s" "sp_ws_open s' = sp_ws_open s"
    "st_pump (sp_object s' j) = st_pump (sp_object s j)" "st_id (sp_object s' j) = st_id (sp_object s j)"
    "j \<noteq> k \<Longrightarrow> sp_object s' j = sp_object s j" "fin \<Longrightarrow> s' = s \<and> st_once (sp_object s k) = Once_Done"
  using assms by (auto simp: closeStream_def split: once.splits if_splits)

lemma closeStream_table:
  assumes "closeStream t e ok k s = Some (fin, s')" and "table_inv s" and "k < sp_count s"
  shows "table_inv s' \<and> opens s' = opens s - {k}"
proof (cases "st_once (sp_object s k)")
  case Once_Open
  with assms(1) have s': "s' = update_stream k (\<lambda>st. st\<lparr>st_once := Once_Deleted t e\<rparr>) (s\<lparr>sp_streams := AList.delete (st_id (sp_object s k)) (sp_streams s)\<rparr>)"
    by (simp add: closeStream_def)
  have o: "opens s' = opens s - {k}" by (auto simp: opens_def s')
  have "set (sp_streams s') = {x \<in> set (sp_streams s). fst x \<noteq> int k + 1}"
    using assms(2,3) by (auto simp: s' table_inv_def AList.delete_eq)
  also have "\<dots> = (\<lambda>k. (int k + 1, k)) ` opens s'"
    using assms(2) by (auto simp: table_inv_def o)
  finally show ?thesis using assms(2) o by (auto simp: table_inv_def s' distinct_delete)
next
  case (Once_Deleted t' r)
  with assms(1) have s': "s' = update_stream k (\<lambda>st. st\<lparr>st_once := Once_Emitted t\<rparr>)
      (if r then snd (emitFrame ok (frame T_STREAM_RESET (st_id (sp_object s k))) s) else s)"
    by (simp add: closeStream_def split: if_splits)
  have o: "opens s' = opens s - {k}" by (auto simp: opens_def s' Once_Deleted)
  moreover have "k \<notin> opens s" by (simp add: opens_def Once_Deleted)
  ultimately show ?thesis using assms(2) by (auto simp: table_inv_def s')
next
  case (Once_Emitted t')
  with assms(1) have s': "s' = update_stream k (\<lambda>st. st\<lparr>st_once := Once_Done, st_conn_open := False\<rparr>) s"
    by (simp add: closeStream_def split: if_splits)
  have o: "opens s' = opens s - {k}" by (auto simp: opens_def s' Once_Emitted)
  moreover have "k \<notin> opens s" by (simp add: opens_def Once_Emitted)
  ultimately show ?thesis using assms(2) by (auto simp: table_inv_def s')
next
  case Once_Done
  with assms(1) have "s' = s" by (simp add: closeStream_def)
  moreover have "k \<notin> opens s" by (simp add: opens_def Once_Done)
  ultimately show ?thesis using assms(2) by simp
qed

lemma terminate_step_frame:
  assumes "terminate_step t c s = Some (fin, s')"
  shows "sp_accept s' = sp_accept s" "sp_read s' = sp_read s" "sp_user s' = sp_user s" "sp_count s' = sp_count s"
    "st_pump (sp_object s' j) = st_pump (sp_object s j)" "fin \<Longrightarrow> s' = s \<and> sp_terminate s = T_Done"
  using assms
  by (auto simp: terminate_step_def closeStream_frame split: term_phase.splits list.splits if_splits option.splits)

lemma terminate_step_table:
  assumes "terminate_step t c s = Some (fin, s')" and "table_inv s" and "known_pcs s"
  shows "table_inv s' \<and> opens s' \<subseteq> opens s"
  using assms
  by (auto simp: terminate_step_def known_pcs_def split: term_phase.splits list.splits if_splits option.splits
      dest!: closeStream_table)

definition proxy_inv :: "SourceProxy \<Rightarrow> bool" where
  "proxy_inv s \<longleftrightarrow> table_inv s \<and> known_pcs s \<and> single_inv s"

lemma int32_id: "- (2 ^ 31) \<le> x \<Longrightarrow> x < 2 ^ 31 \<Longrightarrow> int32 x = x"
  unfolding int32_def by (rule signed_take_bit_int_eq_self) simp_all

lemma register_stream_inv:
  assumes "proxy_inv s" and "sp_accept s = A_Evict []" and "sp_count s < 2 ^ 31 - 2"
  shows "proxy_inv (register_stream s)"
proof -
  from assms have none: "opens s = {}" by (simp add: proxy_inv_def single_inv_def)
  with assms(1) have empty: "sp_streams s = []" "sp_nextStreamID s = int (sp_count s) + 1"
    by (auto simp: proxy_inv_def table_inv_def)
  have wrap: "int32 (int (sp_count s) + 2) = int (sp_count s) + 2" by (rule int32_id) (use assms(3) in simp_all)
  have o: "opens (register_stream s) = {sp_count s}"
    using none by (auto simp: opens_def register_stream_def allocateStreamID_def Let_def less_Suc_eq)
  have "table_inv (register_stream s)"
    using assms(1) empty wrap unfolding table_inv_def o
    by (auto simp: register_stream_def allocateStreamID_def Let_def proxy_inv_def table_inv_def less_Suc_eq add.commute)
  moreover have "known_pcs (register_stream s)"
    using assms(1) unfolding proxy_inv_def known_pcs_def
    by (auto simp: register_stream_def allocateStreamID_def Let_def less_Suc_eq)
  ultimately show ?thesis
    by (simp add: proxy_inv_def single_inv_def o) (simp add: register_stream_def allocateStreamID_def Let_def)
qed

text \<open>The other goroutines only close streams.\<close>

lemma closing_inv:
  assumes "proxy_inv s" and "table_inv s'" and "opens s' \<subseteq> opens s" and "known_pcs s'" and "sp_accept s' = sp_accept s"
  shows "proxy_inv s'"
  using assms covers_mono [of "sp_accept s" "opens s" "opens s'"] unfolding proxy_inv_def single_inv_def by simp blast

lemma closeStream_inv:
  assumes "closeStream t e ok k s = Some (fin, s')" and "proxy_inv s" and "k < sp_count s"
  shows "proxy_inv s'"
proof (rule closing_inv [OF assms(2)])
  show "table_inv s'" "opens s' \<subseteq> opens s" using closeStream_table [OF assms(1) _ assms(3)] assms(2) by (auto simp: proxy_inv_def)
  show "known_pcs s'" using assms(2) closeStream_frame [OF assms(1)] by (simp add: proxy_inv_def known_pcs_def)
qed (rule closeStream_frame [OF assms(1)])

lemma terminate_step_inv:
  assumes "terminate_step t c s = Some (fin, s')" and "proxy_inv s"
  shows "proxy_inv s'"
proof (rule closing_inv [OF assms(2)])
  show "table_inv s'" "opens s' \<subseteq> opens s" using terminate_step_table [OF assms(1)] assms(2) by (auto simp: proxy_inv_def)
  show "known_pcs s'"
    using assms snapshot_opens [of s] opens_known [of s]
    by (auto simp: proxy_inv_def known_pcs_def terminate_step_def closeStream_frame
        split: term_phase.splits list.splits if_splits option.splits)
qed (rule terminate_step_frame [OF assms(1)])

lemma proxy_inv_accept:
  "proxy_inv s \<Longrightarrow> accept_refs a \<subseteq> {..<sp_count s} \<Longrightarrow> covers a (opens s) \<Longrightarrow> proxy_inv (s\<lparr>sp_accept := a\<rparr>)"
  by (auto simp: proxy_inv_def known_pcs_def single_inv_def)

lemma closeStream_returned:
  assumes "closeStream t e ok k s = Some (fin, s')" and fin
  shows "s' = s \<and> k \<notin> opens s"
  using closeStream_frame(12) [OF assms] by (simp add: opens_def)

lemma proxy_inv_pump: "proxy_inv (update_stream k (\<lambda>st. st\<lparr>st_pump := p\<rparr>) s) = proxy_inv s" "proxy_inv (s\<lparr>sp_wire := w\<rparr>) = proxy_inv s"
  by (simp_all add: proxy_inv_def known_pcs_def single_inv_def update_stream_quiet)

lemma accept_step_inv:
  assumes "accept_step ok s = Some s'" and inv: "proxy_inv s" and "sp_count s < 2 ^ 31 - 2"
  shows "proxy_inv s'"
proof -
  have tab: "table_inv s" and known: "accept_refs (sp_accept s) \<subseteq> {..<sp_count s}" and cov: "covers (sp_accept s) (opens s)"
    using inv by (simp_all add: proxy_inv_def known_pcs_def single_inv_def)
  from assms(1) show ?thesis
  proof (cases rule: accept_step_cases)
    case snap
    with snapshot_opens [OF tab] opens_known [of s] show ?thesis by (simp add: proxy_inv_accept inv)
  next
    case register
    with register_stream_inv [OF inv _ assms(3)] show ?thesis by simp
  next
    case (evict k ks fin s1)
    then have k: "k < sp_count s" using known by simp
    show ?thesis
    proof (cases fin)
      case True
      from closeStream_returned [OF evict(2) True] evict True known cov show ?thesis
        by (auto intro!: proxy_inv_accept [OF inv])
    next
      case False
      with closeStream_inv [OF evict(2) inv k] evict(3) show ?thesis by simp
    qed
  next
    case (started k)
    have "proxy_inv (update_stream k (\<lambda>st. st\<lparr>st_pump := P_Read\<rparr>) (s\<lparr>sp_wire := sp_wire s @ [frame T_STREAM_START (st_id (sp_object s k))]\<rparr>))"
      using inv by (simp add: proxy_inv_pump)
    then show ?thesis unfolding started(3) by (rule proxy_inv_accept) simp_all
  next
    case (unsent k)
    with inv known cov show ?thesis by (simp add: proxy_inv_accept)
  next
    case (fail k fin s1)
    then have k: "k < sp_count s" using known by simp
    show ?thesis
    proof (cases fin)
      case True
      from closeStream_returned [OF fail(2) True] fail True show ?thesis by (auto intro!: proxy_inv_accept [OF inv])
    next
      case False
      with closeStream_inv [OF fail(2) inv k] fail(3) show ?thesis by simp
    qed
  qed (use inv in \<open>simp_all add: proxy_inv_accept\<close>)
qed

lemma lookupStream_known: "table_inv s \<Longrightarrow> lookupStream s i = Some k \<Longrightarrow> k < sp_count s"
  by (auto simp: lookupStream_def table_inv_def opens_def dest!: map_of_SomeD)

lemma dispatchMessage_known:
  assumes "table_inv s"
  shows "read_refs (dispatchMessage s m) \<subseteq> {..<sp_count s}"
  using lookupStream_known [OF assms]
  by (auto simp: dispatchMessage_def handleData_def split: frame_type.splits option.splits)

lemma proxy_inv_read: "proxy_inv s \<Longrightarrow> read_refs r \<subseteq> {..<sp_count s} \<Longrightarrow> proxy_inv (s\<lparr>sp_read := r\<rparr>)"
  by (auto simp: proxy_inv_def known_pcs_def single_inv_def)

lemma read_step_inv:
  assumes "read_step ev s = Some s'" and inv: "proxy_inv s"
  shows "proxy_inv s'"
proof -
  have known: "read_refs (sp_read s) \<subseteq> {..<sp_count s}" and tab: "table_inv s" using inv by (simp_all add: proxy_inv_def known_pcs_def)
  from assms(1) show ?thesis
  proof (cases rule: read_step_cases)
    case (received m)
    with inv dispatchMessage_known [OF tab] show ?thesis by (simp add: proxy_inv_read)
  next
    case (delivered k p)
    have "proxy_inv (update_stream k (\<lambda>st. st\<lparr>st_written := st_written st @ p\<rparr>) s)"
      using inv by (simp add: proxy_inv_def known_pcs_def single_inv_def update_stream_quiet)
    with delivered(3) show ?thesis by (simp add: proxy_inv_read)
  next
    case (close k e ok fin s1)
    with known closeStream_inv [OF close(2) inv] show ?thesis by (simp add: proxy_inv_read)
  next
    case (ending c f fin s1)
    show ?thesis unfolding ending(3)
      using proxy_inv_read [OF terminate_step_inv [OF ending(2) inv], of "if f then R_Exit else R_Next"] terminate_step_inv [OF ending(2) inv]
      by (cases fin; cases f; simp only: if_True if_False read_refs.simps empty_subsetI)
  qed (use inv known in \<open>simp_all add: proxy_inv_read\<close>)
qed

lemma proxy_inv_user: "proxy_inv s \<Longrightarrow> user_refs u \<subseteq> {..<sp_count s} \<Longrightarrow> proxy_inv (s\<lparr>sp_user := u\<rparr>)"
  by (auto simp: proxy_inv_def known_pcs_def single_inv_def)

lemma user_step_inv:
  assumes "user_step ok s = Some s'" and inv: "proxy_inv s"
  shows "proxy_inv s'"
proof -
  have known: "user_refs (sp_user s) \<subseteq> {..<sp_count s}" and tab: "table_inv s" using inv by (simp_all add: proxy_inv_def known_pcs_def)
  from assms(1) show ?thesis
  proof (cases rule: user_step_cases)
    case snap
    with inv snapshot_opens [OF tab] opens_known [of s] show ?thesis by (simp add: proxy_inv_user)
  next
    case (close k ks fin s1)
    with known closeStream_inv [OF close(2) inv] closeStream_frame(5) [OF close(2)] show ?thesis by (simp add: proxy_inv_user)
  next
    case (ending fin s1)
    show ?thesis unfolding ending(3)
      using proxy_inv_user [OF terminate_step_inv [OF ending(2) inv], of U_Idle] terminate_step_inv [OF ending(2) inv]
      by (cases fin; simp only: if_True if_False user_refs.simps empty_subsetI)
  qed (use inv in \<open>simp add: proxy_inv_user\<close>)
qed

lemma pump_step_inv:
  assumes "pump_step k ev s = Some s'" and inv: "proxy_inv s" and "k < sp_count s"
  shows "proxy_inv s'"
  using assms(1)
proof (cases rule: pump_step_cases)
  case (close ok fin s1)
  with closeStream_inv [OF close(2) inv assms(3)] show ?thesis by (simp add: proxy_inv_pump)
qed (use inv in \<open>simp_all add: proxy_inv_pump\<close>)

lemma proxy_step_inv:
  assumes "proxy_step a s = Some s'" and "proxy_inv s" and "sp_count s < 2 ^ 31 - 2"
  shows "proxy_inv s'"
proof (cases a)
  case Act_Cancel
  with assms show ?thesis by (auto simp: proxy_step_def proxy_inv_def known_pcs_def single_inv_def)
qed (use assms in \<open>auto simp: proxy_step_def accept_step_inv read_step_inv pump_step_inv user_step_inv proxy_inv_user split: if_splits\<close>)

section \<open>What the destination sees\<close>

definition frames_of :: "frame_type \<Rightarrow> int \<Rightarrow> TunnelMessage list \<Rightarrow> nat" where
  "frames_of t i ws = length (filter (\<lambda>m. tm_Type m = t \<and> tm_StreamId m = i) ws)"

text \<open>Data of a stream is only sent after its start.\<close>

fun announced :: "int set \<Rightarrow> TunnelMessage list \<Rightarrow> bool" where
  "announced I [] \<longleftrightarrow> True"
| "announced I (m # ws) \<longleftrightarrow> (tm_Type m = T_DATA \<longrightarrow> tm_StreamId m \<in> I)
     \<and> announced (if tm_Type m = T_STREAM_START then insert (tm_StreamId m) I else I) ws"

fun awaits_start :: "accept_pc \<Rightarrow> nat \<Rightarrow> bool" where
  "awaits_start (A_Emit k) j \<longleftrightarrow> k = j" | "awaits_start _ j \<longleftrightarrow> False"

fun unreset :: "once \<Rightarrow> bool" where
  "unreset Once_Open = True" | "unreset (Once_Deleted t r) = True" | "unreset _ = False"

definition wire_inv :: "SourceProxy \<Rightarrow> bool" where
  "wire_inv s \<longleftrightarrow>
     (\<forall>m \<in> set (sp_wire s). 1 \<le> tm_StreamId m \<and> tm_StreamId m \<le> int (sp_count s))
     \<and> announced {} (sp_wire s)
     \<and> (\<forall>i. frames_of T_STREAM_START i (sp_wire s) \<le> 1 \<and> frames_of T_STREAM_RESET i (sp_wire s) \<le> 1)
     \<and> (\<forall>k < sp_count s.
          (awaits_start (sp_accept s) k \<longrightarrow> frames_of T_STREAM_START (int k + 1) (sp_wire s) = 0)
          \<and> (st_pump (sp_object s k) \<noteq> P_None \<longrightarrow> frames_of T_STREAM_START (int k + 1) (sp_wire s) = 1)
          \<and> (unreset (st_once (sp_object s k)) \<longrightarrow> frames_of T_STREAM_RESET (int k + 1) (sp_wire s) = 0))"

lemma frames_of_append [simp]:
  "frames_of t i (ws @ [m]) = frames_of t i ws + (if tm_Type m = t \<and> tm_StreamId m = i then 1 else 0)"
  by (simp add: frames_of_def)

lemma frames_of_pos: "0 < frames_of t i ws \<longleftrightarrow> (\<exists>m \<in> set ws. tm_Type m = t \<and> tm_StreamId m = i)"
  by (auto simp: frames_of_def filter_empty_conv)

lemma announced_append:
  "announced I (ws @ [m]) \<longleftrightarrow> announced I ws \<and> (tm_Type m = T_DATA \<longrightarrow> tm_StreamId m \<in> I \<or> 0 < frames_of T_STREAM_START (tm_StreamId m) ws)"
  by (induction ws arbitrary: I) (auto simp: frames_of_def)

lemma frame_sel [simp]: "tm_Type (frame t i) = t" "tm_StreamId (frame t i) = i"
  by (simp_all add: frame_def)

text \<open>Steps that neither write a frame nor touch what the invariant looks at.\<close>

lemma wire_inv_quiet:
  assumes "wire_inv s" and "sp_wire s' = sp_wire s" and "sp_count s' = sp_count s"
    and "\<And>k. awaits_start (sp_accept s') k \<Longrightarrow> awaits_start (sp_accept s) k"
    and "\<And>k. k < sp_count s \<Longrightarrow> st_pump (sp_object s' k) \<noteq> P_None \<Longrightarrow> st_pump (sp_object s k) \<noteq> P_None"
    and "\<And>k. k < sp_count s \<Longrightarrow> unreset (st_once (sp_object s' k)) \<Longrightarrow> unreset (st_once (sp_object s k))"
  shows "wire_inv s'"
  using assms unfolding wire_inv_def by metis

lemma closeStream_wire:
  assumes "closeStream t e ok k s = Some (fin, s')" and "wire_inv s" and "table_inv s" and "k < sp_count s"
  shows "wire_inv s'"
  using assms(1)
proof (cases rule: closeStream_cases)
  case reset
  from assms(3,4) have i: "st_id (sp_object s j) = int j + 1" if "j < sp_count s" for j using that by (simp add: table_inv_def)
  from assms(2) reset(2) assms(4) have "frames_of T_STREAM_RESET (int k + 1) (sp_wire s) = 0" by (simp add: wire_inv_def)
  with assms(2,4) i show ?thesis unfolding wire_inv_def reset(4)
    by (auto simp: announced_append)
qed (use assms(2) in \<open>auto intro!: wire_inv_quiet [OF assms(2)] split: if_splits\<close>)

lemma terminate_step_wire:
  assumes "terminate_step t c s = Some (fin, s')" and "wire_inv s" and "proxy_inv s"
  shows "wire_inv s'"
  using assms(1)
proof (cases rule: terminate_step_cases)
  case (close k ks fin' s1)
  then have "k < sp_count s" "table_inv s" using assms(3) by (simp_all add: proxy_inv_def known_pcs_def)
  from closeStream_wire [OF close(3) assms(2) this(2,1)] show ?thesis
    unfolding close(4) by (cases fin') (auto intro: wire_inv_quiet)
qed (auto intro!: wire_inv_quiet [OF assms(2)])

lemma proxy_inv_known:
  assumes "proxy_inv s"
  shows "table_inv s" "accept_refs (sp_accept s) \<subseteq> {..<sp_count s}" "read_refs (sp_read s) \<subseteq> {..<sp_count s}"
    "user_refs (sp_user s) \<subseteq> {..<sp_count s}" "term_refs (sp_terminate s) \<subseteq> {..<sp_count s}"
  using assms by (simp_all add: proxy_inv_def known_pcs_def)

lemma accept_step_wire:
  assumes "accept_step ok s = Some s'" and wire: "wire_inv s" and inv: "proxy_inv s"
  shows "wire_inv s'"
proof -
  note known = proxy_inv_known [OF inv]
  from assms(1) show ?thesis
  proof (cases rule: accept_step_cases)
    case register
    have "frames_of t (int (sp_count s) + 1) (sp_wire s) = 0" for t
      using wire frames_of_pos [of t "int (sp_count s) + 1" "sp_wire s"] by (fastforce simp: wire_inv_def)
    with wire show ?thesis unfolding register wire_inv_def
      by (auto simp: register_stream_def allocateStreamID_def Let_def less_Suc_eq add.commute)
  next
    case (evict k ks fin s1)
    with known closeStream_wire [OF evict(2) wire] have "wire_inv s1" by simp
    then show ?thesis unfolding evict(3) by (auto intro: wire_inv_quiet)
  next
    case (started k)
    with known have k: "k < sp_count s" "st_id (sp_object s k) = int k + 1" by (auto simp: table_inv_def)
    with wire started(1) have "frames_of T_STREAM_START (int k + 1) (sp_wire s) = 0" by (simp add: wire_inv_def)
    with wire k show ?thesis unfolding started(3) wire_inv_def by (auto simp: announced_append)
  next
    case (fail k fin s1)
    with known closeStream_wire [OF fail(2) wire] have "wire_inv s1" by simp
    then show ?thesis unfolding fail(3) by (auto intro: wire_inv_quiet)
  qed (auto intro!: wire_inv_quiet [OF wire])
qed

lemma read_step_wire:
  assumes "read_step ev s = Some s'" and wire: "wire_inv s" and inv: "proxy_inv s"
  shows "wire_inv s'"
  using assms(1)
proof (cases rule: read_step_cases)
  case (close k e ok fin s1)
  with proxy_inv_known [OF inv] closeStream_wire [OF close(2) wire] have "wire_inv s1" by simp
  then show ?thesis unfolding close(3) by (auto intro: wire_inv_quiet)
next
  case (ending c f fin s1)
  from terminate_step_wire [OF ending(2) wire inv] show ?thesis unfolding ending(3) by (auto intro: wire_inv_quiet)
qed (auto intro!: wire_inv_quiet [OF wire] split: if_splits)

lemma user_step_wire:
  assumes "user_step ok s = Some s'" and wire: "wire_inv s" and inv: "proxy_inv s"
  shows "wire_inv s'"
  using assms(1)
proof (cases rule: user_step_cases)
  case (close k ks fin s1)
  with proxy_inv_known [OF inv] closeStream_wire [OF close(2) wire] have "wire_inv s1" by simp
  then show ?thesis unfolding close(3) by (auto intro: wire_inv_quiet)
next
  case (ending fin s1)
  from terminate_step_wire [OF ending(2) wire inv] show ?thesis unfolding ending(3) by (auto intro: wire_inv_quiet)
qed (auto intro!: wire_inv_quiet [OF wire])

lemma pump_step_wire:
  assumes "pump_step k ev s = Some s'" and wire: "wire_inv s" and inv: "proxy_inv s" and k: "k < sp_count s"
  shows "wire_inv s'"
proof -
  have i: "st_id (sp_object s k) = int k + 1" using proxy_inv_known(1) [OF inv] k by (simp add: table_inv_def)
  have started: "st_pump (sp_object s k) \<noteq> P_None \<Longrightarrow> frames_of T_STREAM_START (int k + 1) (sp_wire s) = 1"
    using wire k by (simp add: wire_inv_def)
  from assms(1) show ?thesis
  proof (cases rule: pump_step_cases)
    case (sent bytes failed)
    with started wire k i show ?thesis unfolding sent(3) wire_inv_def by (auto simp: announced_append)
  next
    case (close ok fin s1)
    with k proxy_inv_known(1) [OF inv] closeStream_wire [OF close(2) wire] have w: "wire_inv s1" by simp
    show ?thesis unfolding close(3)
      using closeStream_frame(9) [OF close(2), of k] close(1) by (auto intro!: wire_inv_quiet [OF w] w split: if_splits)
  qed (auto intro!: wire_inv_quiet [OF wire] split: if_splits)
qed

lemma proxy_step_wire:
  assumes "proxy_step a s = Some s'" and "wire_inv s" and "proxy_inv s"
  shows "wire_inv s'"
  using assms accept_step_wire read_step_wire pump_step_wire user_step_wire
  by (cases a) (auto simp: proxy_step_def split: if_splits intro: wire_inv_quiet [OF assms(2)])

lemma count_mono: "proxy_step a s = Some s' \<Longrightarrow> sp_count s \<le> sp_count s'"
proof (cases a)
  case (Act_Accept ok)
  assume "proxy_step a s = Some s'"
  with Act_Accept have "accept_step ok s = Some s'" by (simp add: proxy_step_def)
  then show ?thesis
    by (cases rule: accept_step_cases) (auto simp: register_stream_def allocateStreamID_def Let_def closeStream_frame)
next
  case (Act_Read ev)
  assume "proxy_step a s = Some s'"
  with Act_Read have "read_step ev s = Some s'" by (simp add: proxy_step_def)
  then show ?thesis by (cases rule: read_step_cases) (auto simp: closeStream_frame terminate_step_frame)
next
  case (Act_Pump k ev)
  assume "proxy_step a s = Some s'"
  with Act_Pump have "pump_step k ev s = Some s'" by (simp add: proxy_step_def split: if_splits)
  then show ?thesis by (cases rule: pump_step_cases) (auto simp: closeStream_frame)
next
  case (Act_User ok)
  assume "proxy_step a s = Some s'"
  with Act_User have "user_step ok s = Some s'" by (simp add: proxy_step_def)
  then show ?thesis by (cases rule: user_step_cases) (auto simp: closeStream_frame terminate_step_frame)
qed (auto simp: proxy_step_def split: if_splits)

lemma reachable_inv: "proxy_reachable sid s \<Longrightarrow> sp_count s < 2 ^ 31 - 2 \<Longrightarrow> proxy_inv s \<and> wire_inv s"
proof (induction rule: proxy_reachable.induct)
  case start
  show ?case
    by (simp add: new_proxy_def proxy_inv_def table_inv_def known_pcs_def single_inv_def opens_def wire_inv_def frames_of_def)
next
  case (step s a s')
  with count_mono [OF step(2)] have "proxy_inv s \<and> wire_inv s" "sp_count s < 2 ^ 31 - 2" by simp_all
  with step proxy_step_inv [OF step(2)] proxy_step_wire [OF step(2)] show ?case by blast
qed

end
