(* ===== verification/Tunnel_Shutdown.thy ===== *)
theory Tunnel_Shutdown
  imports Tunnel_Proxy
begin

text \<open>
  The end of a source proxy: who is inside which \<open>sync.Once\<close>, what is left open while \<open>terminate\<close> runs, and a
  rank that some goroutine can always decrease. The properties of the proxy are at the end.
\<close>

section \<open>Nothing is leaked\<close>

text \<open>A goroutine that has entered the body of a \<open>Do\<close> is still there.\<close>

fun holds :: "SourceProxy \<Rightarrow> thread \<Rightarrow> nat \<Rightarrow> bool" where
  "holds s Th_Accept k \<longleftrightarrow> (\<exists>ks. sp_accept s = A_Evict (k # ks)) \<or> sp_accept s = A_Fail k"
| "holds s Th_Read k \<longleftrightarrow> (\<exists>e. sp_read s = R_Close k e)
     \<or> (\<exists>c f ks. sp_read s = R_Term c f \<and> sp_terminate s = T_Closing Th_Read (k # ks))"
| "holds s Th_User k \<longleftrightarrow> (\<exists>ks. sp_user s = U_Close (k # ks))
     \<or> (\<exists>ks. sp_user s = U_Term \<and> sp_terminate s = T_Closing Th_User (k # ks))"
| "holds s (Th_Pump j) k \<longleftrightarrow> j = k \<and> st_pump (sp_object s k) = P_Close"

fun claimed :: "once \<Rightarrow> thread option" where
  "claimed (Once_Deleted t r) = Some t" | "claimed (Once_Emitted t) = Some t" | "claimed _ = None"

fun terminator :: "term_phase \<Rightarrow> thread option" where
  "terminator (T_Claimed t) = Some t" | "terminator (T_Cancelled t) = Some t" | "terminator (T_Unlistened t) = Some t"
| "terminator (T_Closing t ks) = Some t" | "terminator _ = None"

fun terminating :: "SourceProxy \<Rightarrow> thread \<Rightarrow> bool" where
  "terminating s Th_Read \<longleftrightarrow> (\<exists>c f. sp_read s = R_Term c f)"
| "terminating s Th_User \<longleftrightarrow> sp_user s = U_Term"
| "terminating s _ \<longleftrightarrow> False"

definition claims_inv :: "SourceProxy \<Rightarrow> bool" where
  "claims_inv s \<longleftrightarrow>
     (\<forall>k < sp_count s. (\<forall>t. claimed (st_once (sp_object s k)) = Some t \<longrightarrow> holds s t k)
        \<and> (st_once (sp_object s k) = Once_Done \<longrightarrow> \<not> st_conn_open (sp_object s k)))
     \<and> (\<forall>t. terminator (sp_terminate s) = Some t \<longrightarrow> terminating s t)"

text \<open>Once \<open>terminate\<close> has taken its snapshot, a stream is open only if it is in the rest of the snapshot or
  has just been registered by the accept loop, whose start frame cannot be sent any more.\<close>

fun past_cancel :: "term_phase \<Rightarrow> bool" where
  "past_cancel T_Running = False" | "past_cancel (T_Claimed t) = False" | "past_cancel _ = True"

fun past_listen :: "term_phase \<Rightarrow> bool" where
  "past_listen (T_Unlistened t) = True" | "past_listen (T_Closing t ks) = True" | "past_listen T_Done = True" | "past_listen _ = False"

fun pending :: "accept_pc \<Rightarrow> nat set" where
  "pending (A_Emit k) = {k}" | "pending (A_Fail k) = {k}" | "pending _ = {}"

fun scheduled :: "term_phase \<Rightarrow> nat set option" where
  "scheduled (T_Closing t ks) = Some (set ks)" | "scheduled T_Done = Some {}" | "scheduled _ = None"

definition leak_inv :: "SourceProxy \<Rightarrow> bool" where
  "leak_inv s \<longleftrightarrow>
     (past_cancel (sp_terminate s) \<longrightarrow> sp_cancelled s) \<and> (past_listen (sp_terminate s) \<longrightarrow> \<not> sp_listening s)
     \<and> (\<forall>X. scheduled (sp_terminate s) = Some X \<longrightarrow> opens s \<subseteq> X \<union> pending (sp_accept s))
     \<and> (sp_terminate s = T_Done \<longrightarrow> \<not> sp_ws_open s) \<and> (sp_read s = R_Exit \<longrightarrow> sp_terminate s = T_Done)"

lemma claims_inv_quiet:
  assumes "claims_inv s" and "sp_count s' = sp_count s"
    and "\<And>k. k < sp_count s \<Longrightarrow> st_once (sp_object s' k) = st_once (sp_object s k) \<and> (st_conn_open (sp_object s' k) \<longrightarrow> st_conn_open (sp_object s k))"
    and "\<And>t k. k < sp_count s \<Longrightarrow> claimed (st_once (sp_object s k)) = Some t \<Longrightarrow> holds s t k \<Longrightarrow> holds s' t k"
    and "\<And>t. terminator (sp_terminate s') = Some t \<Longrightarrow> terminating s' t"
  shows "claims_inv s'"
  using assms unfolding claims_inv_def by metis

lemma holds_frame:
  assumes "sp_accept s' = sp_accept s" "sp_read s' = sp_read s" "sp_user s' = sp_user s" "sp_terminate s' = sp_terminate s"
    and "\<And>k. st_pump (sp_object s' k) = st_pump (sp_object s k)"
  shows "holds s' t k = holds s t k" "terminating s' t = terminating s t"
  using assms by (cases t; simp)+

lemma closeStream_claims:
  assumes "closeStream t e ok k s = Some (fin, s')" and "claims_inv s" and "holds s t k"
  shows "claims_inv s'"
proof -
  note h = holds_frame [OF closeStream_frame(1-4,9) [OF assms(1)]]
  from assms(1) show ?thesis
    by (cases rule: closeStream_cases) (use assms(2,3) h in \<open>auto simp: claims_inv_def\<close>)
qed

lemma terminate_step_claims:
  assumes "terminate_step t c s = Some (fin, s')" and claims: "claims_inv s" and "terminating s t"
  shows "claims_inv s'"
proof -
  have th: "t = Th_Read \<or> t = Th_User" using assms(3) by (cases t) auto
  from assms(1) show ?thesis
  proof (cases rule: terminate_step_cases)
    case (close k ks fin' s1)
    have held: "holds s t k" using th assms(3) close(2) by auto
    note c = closeStream_claims [OF close(3) claims held]
    show ?thesis
    proof (cases fin')
      case True
      with closeStream_frame(12) [OF close(3)] have eq: "s1 = s" "st_once (sp_object s k) = Once_Done" by simp_all
      have "holds s' t' j" if "j < sp_count s" "claimed (st_once (sp_object s j)) = Some t'" "holds s t' j" for t' j
        using that close(2,4) True eq by (cases t') (auto split: if_splits)
      then show ?thesis
        using claims close(2,4) True eq th assms(3) by (intro claims_inv_quiet [OF claims]) auto
    next
      case False
      with c close(4) show ?thesis by simp
    qed
  next
    case snap
    have "holds s' t' j" if "holds s t' j" for t' j using that snap by (cases t') auto
    then show ?thesis using claims snap th assms(3) by (intro claims_inv_quiet [OF claims]) auto
  next
    case complete
    have "holds s' t' j" if "holds s t' j" for t' j using that complete by (cases t') auto
    then show ?thesis using claims complete by (intro claims_inv_quiet [OF claims]) auto
  next
    case claim
    have "holds s' t' j" if "holds s t' j" for t' j using that claim by (cases t') auto
    then show ?thesis using claims claim th assms(3) by (intro claims_inv_quiet [OF claims]) auto
  next
    case cancel
    have "holds s' t' j" if "holds s t' j" for t' j using that cancel by (cases t') auto
    then show ?thesis using claims cancel th assms(3) by (intro claims_inv_quiet [OF claims]) auto
  next
    case unlisten
    have "holds s' t' j" if "holds s t' j" for t' j using that unlisten by (cases t') auto
    then show ?thesis using claims unlisten th assms(3) by (intro claims_inv_quiet [OF claims]) auto
  next
    case finished
    with claims show ?thesis by simp
  qed
qed

text \<open>A goroutine that moves on has not claimed anything any more.\<close>

lemma claims_inv_move:
  assumes claims: "claims_inv s" and "sp_object s' = sp_object s" and "sp_count s' = sp_count s" and "sp_terminate s' = sp_terminate s"
    and "\<And>t k. k < sp_count s \<Longrightarrow> claimed (st_once (sp_object s k)) = Some t \<Longrightarrow> holds s t k \<Longrightarrow> holds s' t k"
    and "\<And>t. terminating s t \<Longrightarrow> terminator (sp_terminate s) = Some t \<Longrightarrow> terminating s' t"
  shows "claims_inv s'"
  using assms(2-) by (intro claims_inv_quiet [OF claims]) (use claims in \<open>auto simp: claims_inv_def\<close>)

lemma accept_step_claims:
  assumes "accept_step ok s = Some s'" and claims: "claims_inv s" and "proxy_inv s" and "wire_inv s"
  shows "claims_inv s'"
  using assms(1)
proof (cases rule: accept_step_cases)
  case register
  have "holds s' t k" if "k < sp_count s" "holds s t k" for t k
    using that register by (cases t) (auto simp: register_stream_def allocateStreamID_def Let_def)
  moreover have "terminating s' t = terminating s t" for t
    using register by (cases t) (auto simp: register_stream_def allocateStreamID_def Let_def)
  ultimately show ?thesis
    using claims unfolding claims_inv_def register
    by (auto simp: register_stream_def allocateStreamID_def Let_def less_Suc_eq)
next
  case (evict k ks fin s1)
  show ?thesis
  proof (cases fin)
    case True
    with closeStream_frame(12) [OF evict(2)] have "s1 = s" "st_once (sp_object s k) = Once_Done" by simp_all
    with True evict show ?thesis
      by (intro claims_inv_move [OF claims]) (simp_all, (case_tac t; auto), (case_tac t; auto))
  next
    case False
    with closeStream_claims [OF evict(2) claims] evict show ?thesis by simp
  qed
next
  case (fail k fin s1)
  show ?thesis
  proof (cases fin)
    case True
    with closeStream_frame(12) [OF fail(2)] have "s1 = s" "st_once (sp_object s k) = Once_Done" by simp_all
    with True fail show ?thesis
      by (intro claims_inv_move [OF claims]) (simp_all, (case_tac t; auto), (case_tac t; auto))
  next
    case False
    with closeStream_claims [OF fail(2) claims] fail show ?thesis by simp
  qed
next
  case (started k)
  have "st_pump (sp_object s k) = P_None"
    using assms(4) proxy_inv_known(2) [OF assms(3)] started(1) by (auto simp: wire_inv_def)
  then have "holds s' t j" if "holds s t j" for t j using that started by (cases t) auto
  moreover have "terminating s' t = terminating s t" for t using started by (cases t) auto
  ultimately show ?thesis using started claims by (intro claims_inv_quiet [OF claims]) (auto simp: claims_inv_def)
qed (auto intro!: claims_inv_move [OF claims], (case_tac t; auto)+)

lemma read_step_claims:
  assumes "read_step ev s = Some s'" and claims: "claims_inv s"
  shows "claims_inv s'"
  using assms(1)
proof (cases rule: read_step_cases)
  case (delivered k p)
  have "holds s' t j" if "holds s t j" for t j using that delivered by (cases t) auto
  moreover have "terminating s t \<Longrightarrow> terminating s' t" for t using delivered by (cases t) auto
  ultimately show ?thesis using delivered claims by (intro claims_inv_quiet [OF claims]) (auto simp: claims_inv_def)
next
  case (close k e ok fin s1)
  show ?thesis
  proof (cases fin)
    case True
    with closeStream_frame(12) [OF close(2)] have "s1 = s" "st_once (sp_object s k) = Once_Done" by simp_all
    with True close show ?thesis
      by (intro claims_inv_move [OF claims]) (simp_all, (case_tac t; auto), (case_tac t; auto))
  next
    case False
    with closeStream_claims [OF close(2) claims] close show ?thesis by simp
  qed
next
  case (ending c f fin s1)
  have c: "claims_inv s1" using terminate_step_claims [OF ending(2) claims] ending(1) by simp
  show ?thesis
  proof (cases fin)
    case True
    with terminate_step_frame(6) [OF ending(2)] have "s1 = s" "sp_terminate s = T_Done" by simp_all
    with True ending show ?thesis
      by (intro claims_inv_move [OF claims]) (simp_all, (case_tac t; auto))
  next
    case False
    with c ending show ?thesis by simp
  qed
qed (auto intro!: claims_inv_move [OF claims], (case_tac t; auto)+)

lemma user_step_claims:
  assumes "user_step ok s = Some s'" and claims: "claims_inv s"
  shows "claims_inv s'"
  using assms(1)
proof (cases rule: user_step_cases)
  case (close k ks fin s1)
  show ?thesis
  proof (cases fin)
    case True
    with closeStream_frame(12) [OF close(2)] have "s1 = s" "st_once (sp_object s k) = Once_Done" by simp_all
    with True close show ?thesis
      by (intro claims_inv_move [OF claims]) (simp_all, (case_tac t; auto), (case_tac t; auto))
  next
    case False
    with closeStream_claims [OF close(2) claims] close show ?thesis by simp
  qed
next
  case (ending fin s1)
  have c: "claims_inv s1" using terminate_step_claims [OF ending(2) claims] ending(1) by simp
  show ?thesis
  proof (cases fin)
    case True
    with terminate_step_frame(6) [OF ending(2)] have "s1 = s" "sp_terminate s = T_Done" by simp_all
    with True ending show ?thesis
      by (intro claims_inv_move [OF claims]) (simp_all, (case_tac t; auto))
  next
    case False
    with c ending show ?thesis by simp
  qed
qed (auto intro!: claims_inv_move [OF claims], (case_tac t; auto)+)

lemma claims_inv_pump:
  assumes claims: "claims_inv s" and "st_pump (sp_object s k) = P_Close \<longrightarrow> claimed (st_once (sp_object s k)) \<noteq> Some (Th_Pump k)"
  shows "claims_inv (update_stream k (\<lambda>st. st\<lparr>st_pump := p\<rparr>) (s\<lparr>sp_wire := ws\<rparr>))" (is "claims_inv ?s'")
proof -
  have "holds ?s' t j" if "claimed (st_once (sp_object s j)) = Some t" "holds s t j" for t j
    using that assms(2) by (cases t) auto
  moreover have "terminating ?s' t = terminating s t" for t by (cases t) auto
  ultimately show ?thesis using claims by (intro claims_inv_quiet [OF claims]) (auto simp: claims_inv_def)
qed

lemma pump_step_claims:
  assumes "pump_step k ev s = Some s'" and claims: "claims_inv s"
  shows "claims_inv s'"
  using assms(1)
proof (cases rule: pump_step_cases)
  case (chunk bytes failed)
  with claims_inv_pump [OF claims, of k _ "sp_wire s"] show ?thesis by simp
next
  case (sent bytes failed)
  with claims_inv_pump [OF claims, of k] show ?thesis by simp
next
  case (unsent bytes failed)
  with claims_inv_pump [OF claims, of k _ "sp_wire s"] show ?thesis by simp
next
  case (close ok fin s1)
  show ?thesis
  proof (cases fin)
    case True
    with closeStream_frame(12) [OF close(2)] have "s1 = s" "st_once (sp_object s k) = Once_Done" by simp_all
    with True close claims_inv_pump [OF claims, of k P_Exit "sp_wire s"] show ?thesis by simp
  next
    case False
    with closeStream_claims [OF close(2) claims] close show ?thesis by simp
  qed
qed

lemma proxy_step_claims:
  assumes "proxy_step a s = Some s'" and claims: "claims_inv s" and "proxy_inv s" and "wire_inv s"
  shows "claims_inv s'"
proof (cases a)
  case Act_Close
  with assms(1) show ?thesis
    by (intro claims_inv_move [OF claims]) (auto simp: proxy_step_def split: if_splits, (case_tac t; auto)+)
next
  case Act_Cancel
  with assms(1) show ?thesis
    by (intro claims_inv_move [OF claims]) (auto simp: proxy_step_def, (case_tac t; auto)+)
qed (use assms accept_step_claims read_step_claims pump_step_claims user_step_claims in \<open>auto simp: proxy_step_def split: if_splits\<close>)

lemma scheduled_past: "scheduled p = Some X \<Longrightarrow> past_cancel p"
  by (cases p) auto

lemma leak_inv_quiet:
  assumes "leak_inv s" and "opens s' \<subseteq> opens s" and "sp_terminate s' = sp_terminate s" and "sp_cancelled s \<longrightarrow> sp_cancelled s'"
    and "sp_listening s' = sp_listening s" and "sp_ws_open s' = sp_ws_open s" and "sp_read s' = R_Exit \<longrightarrow> sp_read s = R_Exit"
    and "opens s' \<inter> pending (sp_accept s) \<subseteq> pending (sp_accept s')"
  shows "leak_inv s'"
  using assms unfolding leak_inv_def by (simp, blast)

lemma closeStream_leak:
  assumes "closeStream t e ok k s = Some (fin, s')" and "leak_inv s" and "table_inv s" and "k < sp_count s"
  shows "leak_inv s'"
  using closeStream_table [OF assms(1,3,4)] closeStream_frame [OF assms(1)] by (intro leak_inv_quiet [OF assms(2)]) auto

lemma terminate_step_leak:
  assumes "terminate_step t c s = Some (fin, s')" and leak: "leak_inv s" and inv: "proxy_inv s" and "sp_read s \<noteq> R_Exit"
  shows "leak_inv s'"
  using assms(1)
proof (cases rule: terminate_step_cases)
  case (close k ks fin' s1)
  then have k: "k < sp_count s" using proxy_inv_known(5) [OF inv] by simp
  note l = closeStream_leak [OF close(3) leak proxy_inv_known(1) [OF inv] k]
  show ?thesis
  proof (cases fin')
    case True
    from closeStream_returned [OF close(3) True] leak close True show ?thesis by (auto simp: leak_inv_def)
  next
    case False
    with l close(4) show ?thesis by simp
  qed
next
  case snap
  with leak snapshot_opens [OF proxy_inv_known(1) [OF inv]] assms(4) show ?thesis by (auto simp: leak_inv_def)
qed (use leak assms(4) in \<open>auto simp: leak_inv_def\<close>)

lemma accept_step_leak:
  assumes "accept_step ok s = Some s'" and leak: "leak_inv s" and inv: "proxy_inv s"
  shows "leak_inv s'"
proof -
  note known = proxy_inv_known [OF inv]
  from assms(1) show ?thesis
  proof (cases rule: accept_step_cases)
    case register
    then have none: "opens s = {}" using inv by (simp add: proxy_inv_def single_inv_def)
    then have "opens s' = {sp_count s}"
      unfolding register by (auto simp: opens_def register_stream_def allocateStreamID_def Let_def less_Suc_eq)
    with leak show ?thesis unfolding leak_inv_def register
      by (auto simp: register_stream_def allocateStreamID_def Let_def)
  next
    case (evict k ks fin s1)
    with known closeStream_leak [OF evict(2) leak] have "leak_inv s1" by simp
    moreover have "sp_accept s1 = A_Evict (k # ks)" using closeStream_frame(1) [OF evict(2)] evict(1) by simp
    ultimately show ?thesis unfolding evict(3) by (auto intro: leak_inv_quiet)
  next
    case (started k)
    have "\<not> past_cancel (sp_terminate s)" using leak started(2) by (auto simp: leak_inv_def)
    then have "scheduled (sp_terminate s) = None" using scheduled_past by (metis option.exhaust)
    with leak started show ?thesis by (auto simp: leak_inv_def)
  next
    case (fail k fin s1)
    then have k: "k < sp_count s" using known by simp
    show ?thesis
    proof (cases fin)
      case True
      from closeStream_returned [OF fail(2) True] fail True show ?thesis by (auto intro!: leak_inv_quiet [OF leak])
    next
      case False
      with closeStream_leak [OF fail(2) leak known(1) k] fail show ?thesis by simp
    qed
  qed (auto intro!: leak_inv_quiet [OF leak])
qed

lemma dispatchMessage_not_exit: "dispatchMessage s m \<noteq> R_Exit"
  by (simp add: dispatchMessage_def handleData_def split: frame_type.splits option.splits)

lemma read_step_leak:
  assumes "read_step ev s = Some s'" and leak: "leak_inv s" and inv: "proxy_inv s"
  shows "leak_inv s'"
  using assms(1)
proof (cases rule: read_step_cases)
  case (received m)
  with dispatchMessage_not_exit show ?thesis by (auto intro!: leak_inv_quiet [OF leak])
next
  case (delivered k p)
  then show ?thesis by (intro leak_inv_quiet [OF leak]) (auto simp: update_stream_quiet)
next
  case (close k e ok fin s1)
  with proxy_inv_known [OF inv] closeStream_leak [OF close(2) leak] have "leak_inv s1" by simp
  then show ?thesis unfolding close(3) by (auto intro: leak_inv_quiet)
next
  case (ending c f fin s1)
  have l: "leak_inv s1" using terminate_step_leak [OF ending(2) leak inv] ending(1) by simp
  then show ?thesis using terminate_step_frame(6) [OF ending(2)] unfolding ending(3) by (auto simp: leak_inv_def)
qed (auto intro!: leak_inv_quiet [OF leak])

lemma user_step_leak:
  assumes "user_step ok s = Some s'" and leak: "leak_inv s" and inv: "proxy_inv s"
  shows "leak_inv s'"
  using assms(1)
proof (cases rule: user_step_cases)
  case (close k ks fin s1)
  with proxy_inv_known [OF inv] closeStream_leak [OF close(2) leak] have "leak_inv s1" by simp
  then show ?thesis unfolding close(3) by (auto intro: leak_inv_quiet)
next
  case (ending fin s1)
  show ?thesis
  proof (cases "sp_read s = R_Exit")
    case True
    with leak have "sp_terminate s = T_Done" by (simp add: leak_inv_def)
    with ending(2) have "s1 = s" by (simp add: terminate_step_def)
    with leak show ?thesis unfolding ending(3) by (auto intro: leak_inv_quiet)
  next
    case False
    with terminate_step_leak [OF ending(2) leak inv] have "leak_inv s1" by simp
    then show ?thesis unfolding ending(3) by (auto intro: leak_inv_quiet)
  qed
qed (auto intro!: leak_inv_quiet [OF leak])

lemma pump_step_leak:
  assumes "pump_step k ev s = Some s'" and leak: "leak_inv s" and inv: "proxy_inv s" and "k < sp_count s"
  shows "leak_inv s'"
  using assms(1)
proof (cases rule: pump_step_cases)
  case (close ok fin s1)
  from closeStream_leak [OF close(2) leak proxy_inv_known(1) [OF inv] assms(4)] have l: "leak_inv s1" .
  have "leak_inv (update_stream k (\<lambda>st. st\<lparr>st_pump := P_Exit\<rparr>) s1)" by (rule leak_inv_quiet [OF l]) (simp_all add: update_stream_quiet)
  with l show ?thesis unfolding close(3) by simp
qed (auto intro!: leak_inv_quiet [OF leak] simp: update_stream_quiet)

lemma proxy_step_leak:
  assumes "proxy_step a s = Some s'" and "leak_inv s" and "proxy_inv s"
  shows "leak_inv s'"
  using assms accept_step_leak read_step_leak pump_step_leak user_step_leak
  by (cases a) (auto simp: proxy_step_def split: if_splits intro: leak_inv_quiet [OF assms(2)])

section \<open>Shutdown completes\<close>

text \<open>A rank that some step of some goroutine decreases until all of them have returned.\<close>

fun once_rank :: "once \<Rightarrow> nat" where
  "once_rank Once_Open = 3" | "once_rank (Once_Deleted t r) = 2" | "once_rank (Once_Emitted t) = 1" | "once_rank Once_Done = 0"

fun pump_rank :: "pump_pc \<Rightarrow> nat" where
  "pump_rank P_Read = 2" | "pump_rank (P_Emit b f) = 3" | "pump_rank P_Close = 1" | "pump_rank _ = 0"

fun accept_rank :: "accept_pc \<Rightarrow> nat" where
  "accept_rank A_Exit = 0" | "accept_rank A_Accept = 1" | "accept_rank (A_Fail k) = 2" | "accept_rank (A_Emit k) = 3"
| "accept_rank (A_Evict ks) = 7 + length ks" | "accept_rank A_Snapshot = 20"

fun read_rank :: "read_pc \<Rightarrow> nat" where
  "read_rank R_Exit = 0" | "read_rank (R_Term c f) = (if f then 1 else 3)" | "read_rank R_Next = 2"
| "read_rank (R_Close k e) = 3" | "read_rank (R_Write k p) = 4"

fun user_rank :: "user_pc \<Rightarrow> nat" where
  "user_rank U_Idle = 0" | "user_rank U_Term = 1" | "user_rank (U_Close ks) = 2 + length ks" | "user_rank U_Snapshot = 20"

fun term_rank :: "term_phase \<Rightarrow> nat" where
  "term_rank T_Running = 30" | "term_rank (T_Claimed t) = 29" | "term_rank (T_Cancelled t) = 28" | "term_rank (T_Unlistened t) = 27"
| "term_rank (T_Closing t ks) = 1 + length ks" | "term_rank T_Done = 0"

definition cell_rank :: "tunnel_stream \<Rightarrow> nat" where
  "cell_rank st = once_rank (st_once st) + pump_rank (st_pump st)"

definition heap_rank :: "SourceProxy \<Rightarrow> nat" where
  "heap_rank s = (\<Sum>k < sp_count s. cell_rank (sp_object s k))"

definition proxy_rank :: "SourceProxy \<Rightarrow> nat" where
  "proxy_rank s = heap_rank s + accept_rank (sp_accept s) + read_rank (sp_read s) + user_rank (sp_user s) + term_rank (sp_terminate s)"

lemma heap_rank_cong [simp]:
  "heap_rank (s\<lparr>sp_accept := a\<rparr>) = heap_rank s" "heap_rank (s\<lparr>sp_read := r\<rparr>) = heap_rank s" "heap_rank (s\<lparr>sp_user := u\<rparr>) = heap_rank s"
  "heap_rank (s\<lparr>sp_terminate := t\<rparr>) = heap_rank s" "heap_rank (s\<lparr>sp_cancelled := c\<rparr>) = heap_rank s"
  "heap_rank (s\<lparr>sp_listening := l\<rparr>) = heap_rank s" "heap_rank (s\<lparr>sp_ws_open := w\<rparr>) = heap_rank s"
  "heap_rank (s\<lparr>sp_terminateErr := e\<rparr>) = heap_rank s" "heap_rank (s\<lparr>sp_wire := ws\<rparr>) = heap_rank s"
  "heap_rank (s\<lparr>sp_streams := m\<rparr>) = heap_rank s"
  by (simp_all add: heap_rank_def)

lemma heap_rank_update:
  assumes "k < sp_count s" and "cell_rank (f (sp_object s k)) < cell_rank (sp_object s k)"
  shows "heap_rank (update_stream k f s) < heap_rank s"
  unfolding heap_rank_def
  using assms by (auto intro!: sum_strict_mono_ex1)

lemma length_streams: "proxy_inv s \<Longrightarrow> length (sp_streams s) \<le> 1"
proof -
  assume inv: "proxy_inv s"
  then have d: "distinct (sp_streams s)" and one: "\<forall>x \<in> set (sp_streams s). \<forall>y \<in> set (sp_streams s). x = y"
    by (auto simp: proxy_inv_def table_inv_def single_inv_def distinct_map)
  then show ?thesis by (cases "sp_streams s" rule: list.exhaust [where ?P = ?thesis]) (auto, metis length_0_conv list.set_intros(1) neq_Nil_conv not_less_eq_eq)
qed

text \<open>A goroutine is ready when no other one is inside the \<open>Do\<close> it is about to call.\<close>

definition ready :: "SourceProxy \<Rightarrow> thread \<Rightarrow> bool" where
  "ready s t \<longleftrightarrow> (\<forall>k. holds s t k \<longrightarrow> claimed (st_once (sp_object s k)) \<in> {None, Some t})
     \<and> (terminating s t \<longrightarrow> terminator (sp_terminate s) \<in> {None, Some t})"

fun alive :: "SourceProxy \<Rightarrow> thread \<Rightarrow> bool" where
  "alive s Th_Accept \<longleftrightarrow> sp_accept s \<noteq> A_Exit"
| "alive s Th_Read \<longleftrightarrow> sp_read s \<noteq> R_Exit"
| "alive s Th_User \<longleftrightarrow> sp_user s \<noteq> U_Idle"
| "alive s (Th_Pump k) \<longleftrightarrow> k < sp_count s \<and> st_pump (sp_object s k) \<notin> {P_None, P_Exit}"

lemma closeStream_progress:
  assumes "claimed (st_once (sp_object s k)) \<in> {None, Some t}" and "k < sp_count s"
  obtains (returns) "closeStream t e False k s = Some (True, s)"
  | (moves) s' where "closeStream t e False k s = Some (False, s')" "heap_rank s' < heap_rank s" "sp_accept s' = sp_accept s" "sp_read s' = sp_read s"
      "sp_user s' = sp_user s" "sp_terminate s' = sp_terminate s" "sp_count s' = sp_count s"
proof (cases "st_once (sp_object s k)")
  case Once_Done
  with returns show thesis by (simp add: closeStream_def)
next
  case Once_Open
  let ?s = "s\<lparr>sp_streams := AList.delete (st_id (sp_object s k)) (sp_streams s)\<rparr>" and ?f = "\<lambda>st. st\<lparr>st_once := Once_Deleted t e\<rparr>"
  show thesis
    using Once_Open assms(2) heap_rank_update [of k ?s ?f]
    by (intro moves [of "update_stream k ?f ?s"]) (simp_all add: closeStream_def cell_rank_def)
next
  case (Once_Deleted t' r)
  let ?f = "\<lambda>st. st\<lparr>st_once := Once_Emitted t\<rparr>"
  show thesis
    using Once_Deleted assms heap_rank_update [of k s ?f]
    by (intro moves [of "update_stream k ?f s"]) (simp_all add: closeStream_def cell_rank_def emitFrame_def)
next
  case (Once_Emitted t')
  let ?f = "\<lambda>st. st\<lparr>st_once := Once_Done, st_conn_open := False\<rparr>"
  show thesis
    using Once_Emitted assms heap_rank_update [of k s ?f]
    by (intro moves [of "update_stream k ?f s"]) (simp_all add: closeStream_def cell_rank_def)
qed

lemma terminate_step_progress:
  assumes "terminator (sp_terminate s) \<in> {None, Some t}" and "proxy_inv s"
    and "\<And>k ks. sp_terminate s = T_Closing t (k # ks) \<Longrightarrow> claimed (st_once (sp_object s k)) \<in> {None, Some t}"
  obtains (returns) "terminate_step t c s = Some (True, s)"
  | (moves) s' where "terminate_step t c s = Some (False, s')" "heap_rank s' + term_rank (sp_terminate s') < heap_rank s + term_rank (sp_terminate s)"
      "sp_accept s' = sp_accept s" "sp_read s' = sp_read s" "sp_user s' = sp_user s" "sp_count s' = sp_count s"
proof (cases "sp_terminate s")
  case T_Running
  then show thesis by (intro moves [of "s\<lparr>sp_terminateErr := c, sp_terminate := T_Claimed t\<rparr>"]) (simp_all add: terminate_step_def)
next
  case (T_Claimed t')
  with assms(1) show thesis by (intro moves [of "s\<lparr>sp_cancelled := True, sp_terminate := T_Cancelled t\<rparr>"]) (simp_all add: terminate_step_def)
next
  case (T_Cancelled t')
  with assms(1) show thesis by (intro moves [of "s\<lparr>sp_listening := False, sp_terminate := T_Unlistened t\<rparr>"]) (simp_all add: terminate_step_def)
next
  case (T_Unlistened t')
  with assms(1) length_streams [OF assms(2)] show thesis
    by (intro moves [of "s\<lparr>sp_terminate := T_Closing t (snapshot s)\<rparr>"]) (simp_all add: terminate_step_def snapshot_def)
next
  case T_Done
  then show thesis by (intro returns) (simp add: terminate_step_def)
next
  case (T_Closing t' l)
  with assms(1) have t: "t' = t" by simp
  show thesis
  proof (cases l)
    case Nil
    with T_Closing t show thesis by (intro moves [of "s\<lparr>sp_ws_open := False, sp_terminate := T_Done\<rparr>"]) (simp_all add: terminate_step_def)
  next
    case (Cons k ks)
    have k: "k < sp_count s" "claimed (st_once (sp_object s k)) \<in> {None, Some t}"
      using proxy_inv_known(5) [OF assms(2)] assms(3) T_Closing Cons t by auto
    show thesis
    proof (rule closeStream_progress [OF k(2,1), of False])
      assume "closeStream t False False k s = Some (True, s)"
      with T_Closing Cons t show thesis by (intro moves [of "s\<lparr>sp_terminate := T_Closing t ks\<rparr>"]) (simp_all add: terminate_step_def)
    next
      fix s1 assume "closeStream t False False k s = Some (False, s1)" "heap_rank s1 < heap_rank s" "sp_accept s1 = sp_accept s"
        "sp_read s1 = sp_read s" "sp_user s1 = sp_user s" "sp_terminate s1 = sp_terminate s" "sp_count s1 = sp_count s"
      with T_Closing Cons t show thesis by (intro moves [of s1]) (simp_all add: terminate_step_def)
    qed
  qed
qed

text \<open>A step that brings the proxy nearer to its end; at most one more stream is registered on the way.\<close>

fun may_register :: "accept_pc \<Rightarrow> nat" where
  "may_register A_Snapshot = 1" | "may_register (A_Evict ks) = 1" | "may_register _ = 0"

definition advances :: "SourceProxy \<Rightarrow> SourceProxy \<Rightarrow> bool" where
  "advances s s' \<longleftrightarrow> proxy_rank s' < proxy_rank s
     \<and> sp_count s' + may_register (sp_accept s') \<le> sp_count s + may_register (sp_accept s)"

lemma heap_rank_register: "heap_rank (register_stream s) = heap_rank s + 3"
proof -
  have "heap_rank (register_stream s) = (\<Sum>k < sp_count s. cell_rank (sp_object (register_stream s) k)) + 3"
    by (simp add: heap_rank_def register_stream_def allocateStreamID_def Let_def cell_rank_def)
  moreover have "(\<Sum>k < sp_count s. cell_rank (sp_object (register_stream s) k)) = heap_rank s"
    unfolding heap_rank_def by (rule sum.cong) (simp_all add: register_stream_def allocateStreamID_def Let_def)
  ultimately show ?thesis by simp
qed

lemma register_stream_pcs [simp]:
  "sp_accept (register_stream s) = A_Emit (sp_count s)" "sp_read (register_stream s) = sp_read s" "sp_user (register_stream s) = sp_user s"
  "sp_terminate (register_stream s) = sp_terminate s" "sp_count (register_stream s) = sp_count s + 1"
  by (simp_all add: register_stream_def allocateStreamID_def Let_def)

lemma accept_progress:
  assumes "alive s Th_Accept" and "ready s Th_Accept" and inv: "proxy_inv s"
  shows "\<exists>s'. accept_step False s = Some s' \<and> advances s s'"
proof -
  have close: "\<exists>s1 fin. closeStream Th_Accept e False k s = Some (fin, s1) \<and> sp_count s1 = sp_count s \<and> sp_read s1 = sp_read s
      \<and> sp_user s1 = sp_user s \<and> sp_terminate s1 = sp_terminate s \<and> (if fin then s1 = s else heap_rank s1 < heap_rank s \<and> sp_accept s1 = sp_accept s)"
    if "holds s Th_Accept k" "k < sp_count s" for k e
    by (rule closeStream_progress [of s k Th_Accept e]) (use that assms(2) in \<open>auto simp: ready_def\<close>)
  show ?thesis
  proof (cases "sp_accept s")
    case (A_Evict l)
    show ?thesis
    proof (cases l)
      case Nil
      with A_Evict show ?thesis by (simp add: accept_step_def advances_def proxy_rank_def heap_rank_register)
    next
      case (Cons k ks)
      with A_Evict proxy_inv_known(2) [OF inv] close [of k True] show ?thesis
        by (auto simp: accept_step_def advances_def proxy_rank_def split: if_splits)
    qed
  next
    case (A_Fail k)
    with proxy_inv_known(2) [OF inv] close [of k False] show ?thesis
      by (auto simp: accept_step_def advances_def proxy_rank_def split: if_splits)
  qed (use assms(1) length_streams [OF inv] in \<open>auto simp: accept_step_def advances_def proxy_rank_def emitFrame_def snapshot_def\<close>)
qed

lemma terminate_ready:
  assumes "ready s t" and "terminating s t" and "proxy_inv s"
  shows "\<exists>s1 fin. terminate_step t c s = Some (fin, s1) \<and> sp_count s1 = sp_count s \<and> sp_read s1 = sp_read s \<and> sp_user s1 = sp_user s
    \<and> sp_accept s1 = sp_accept s
    \<and> (if fin then s1 = s else heap_rank s1 + term_rank (sp_terminate s1) < heap_rank s + term_rank (sp_terminate s))"
proof (rule terminate_step_progress [of s t c])
  show "terminator (sp_terminate s) \<in> {None, Some t}" using assms(1,2) by (simp add: ready_def)
  show "claimed (st_once (sp_object s k)) \<in> {None, Some t}" if "sp_terminate s = T_Closing t (k # ks)" for k ks
    using assms(1,2) that by (cases t) (auto simp: ready_def)
qed (use assms(3) in auto)

lemma read_progress:
  assumes "alive s Th_Read" and "ready s Th_Read" and inv: "proxy_inv s"
  shows "\<exists>ev s'. read_step ev s = Some s' \<and> advances s s'"
proof (cases "sp_read s")
  case R_Next
  then have "read_step (Rx (Inl io_EOF)) s = Some (s\<lparr>sp_read := R_Term (read_cause io_EOF) True\<rparr>)" by (simp add: read_step_def)
  with R_Next show ?thesis by (intro exI conjI) (assumption, simp add: advances_def proxy_rank_def)
next
  case (R_Write k p)
  then have "read_step (Rx_go False) s = Some (s\<lparr>sp_read := R_Close k True\<rparr>)" by (simp add: read_step_def)
  with R_Write show ?thesis by (intro exI conjI) (assumption, simp add: advances_def proxy_rank_def)
next
  case (R_Close k e)
  have "\<exists>s'. read_step (Rx_go False) s = Some s' \<and> advances s s'"
    by (rule closeStream_progress [of s k Th_Read e])
      (use R_Close assms(2) proxy_inv_known(3) [OF inv] in \<open>auto simp: ready_def read_step_def advances_def proxy_rank_def\<close>)
  then show ?thesis by blast
next
  case (R_Term c f)
  then have "\<exists>s'. read_step (Rx_go False) s = Some s' \<and> advances s s'"
    using terminate_ready [of s Th_Read c] assms by (auto simp: read_step_def advances_def proxy_rank_def split: if_splits)
  then show ?thesis by blast
qed (use assms(1) in simp)

lemma user_progress:
  assumes "alive s Th_User" and "ready s Th_User" and inv: "proxy_inv s"
  shows "\<exists>s'. user_step False s = Some s' \<and> advances s s'"
proof (cases "sp_user s")
  case (U_Close l)
  show ?thesis
  proof (cases l)
    case Nil
    with U_Close show ?thesis by (simp add: user_step_def advances_def proxy_rank_def)
  next
    case (Cons k ks)
    show ?thesis
      by (rule closeStream_progress [of s k Th_User True])
        (use U_Close Cons assms(2) proxy_inv_known(4) [OF inv] in \<open>auto simp: ready_def user_step_def advances_def proxy_rank_def\<close>)
  qed
next
  case U_Term
  then show ?thesis
    using terminate_ready [of s Th_User None] assms by (auto simp: user_step_def advances_def proxy_rank_def split: if_splits)
qed (use assms(1) length_streams [OF inv] in \<open>auto simp: user_step_def advances_def proxy_rank_def snapshot_def\<close>)

lemma pump_progress:
  assumes "alive s (Th_Pump k)" and "ready s (Th_Pump k)"
  shows "\<exists>ev s'. pump_step k ev s = Some s' \<and> advances s s'"
proof -
  have k: "k < sp_count s" using assms(1) by simp
  have quiet: "advances s (update_stream k (\<lambda>st. st\<lparr>st_pump := p\<rparr>) s)" if "pump_rank p < pump_rank (st_pump (sp_object s k))" for p
    using heap_rank_update [OF k, of "\<lambda>st. st\<lparr>st_pump := p\<rparr>"] that by (simp add: advances_def proxy_rank_def cell_rank_def)
  show ?thesis
  proof (cases "st_pump (sp_object s k)")
    case P_Read
    then have "pump_step k (Pm_read [] True) s = Some (update_stream k (\<lambda>st. st\<lparr>st_pump := P_Close\<rparr>) s)" by (simp add: pump_step_def)
    with quiet [of P_Close] P_Read show ?thesis by auto
  next
    case (P_Emit b f)
    then have "pump_step k (Pm_go False) s = Some (update_stream k (\<lambda>st. st\<lparr>st_pump := P_Close\<rparr>) s)" by (simp add: pump_step_def emitFrame_def)
    with quiet [of P_Close] P_Emit show ?thesis by auto
  next
    case P_Close
    have "\<exists>s'. pump_step k (Pm_go False) s = Some s' \<and> advances s s'"
    proof (rule closeStream_progress [of s k "Th_Pump k" True])
      assume "closeStream (Th_Pump k) True False k s = Some (True, s)"
      with P_Close quiet [of P_Exit] show ?thesis by (simp add: pump_step_def)
    qed (use P_Close assms in \<open>auto simp: ready_def pump_step_def advances_def proxy_rank_def\<close>)
    then show ?thesis by blast
  qed (use assms(1) in auto)
qed

lemma holds_one: "holds s t k \<Longrightarrow> holds s t j \<Longrightarrow> j = k"
  by (cases t) auto

lemma holds_alive: "holds s t k \<Longrightarrow> k < sp_count s \<Longrightarrow> alive s t"
  by (cases t) auto

lemma holds_known: "proxy_inv s \<Longrightarrow> alive s t \<Longrightarrow> holds s t k \<Longrightarrow> k < sp_count s"
  by (cases t) (auto dest: proxy_inv_known(2-5))

lemma terminating_alive: "terminating s t \<Longrightarrow> alive s t"
  by (cases t) auto

lemma some_ready:
  assumes "claims_inv s" and "proxy_inv s" and "alive s t"
  shows "\<exists>t. alive s t \<and> ready s t"
proof (cases "\<exists>k < sp_count s. claimed (st_once (sp_object s k)) \<noteq> None")
  case True
  then obtain k t where k: "k < sp_count s" "claimed (st_once (sp_object s k)) = Some t" by auto
  with assms(1) have held: "holds s t k" by (simp add: claims_inv_def)
  moreover from held have "terminating s t \<longrightarrow> terminator (sp_terminate s) \<in> {None, Some t}" by (cases t) auto
  moreover have "claimed (st_once (sp_object s j)) \<in> {None, Some t}" if "holds s t j" for j
    using holds_one [OF held that] k(2) by simp
  ultimately show ?thesis using holds_alive [OF held k(1)] unfolding ready_def by blast
next
  case False
  then have free: "claimed (st_once (sp_object s k)) = None" if "alive s u" "holds s u k" for u k
    using holds_known [OF assms(2) that] by blast
  show ?thesis
  proof (cases "terminator (sp_terminate s)")
    case None
    with free [OF assms(3)] assms(3) show ?thesis unfolding ready_def by blast
  next
    case (Some u)
    with assms(1) have "terminating s u" by (simp add: claims_inv_def)
    then have "alive s u" by (rule terminating_alive)
    with free [of u] Some show ?thesis unfolding ready_def by blast
  qed
qed

lemma proxy_progress:
  assumes "claims_inv s" and "proxy_inv s" and "alive s t"
  shows "\<exists>a s'. proxy_step a s = Some s' \<and> advances s s'"
proof -
  obtain u where u: "alive s u" "ready s u" using some_ready [OF assms] by blast
  show ?thesis
  proof (cases u)
    case Th_Accept
    with u accept_progress [OF _ _ assms(2)] obtain s' where "proxy_step (Act_Accept False) s = Some s'" "advances s s'"
      by (auto simp: proxy_step_def)
    then show ?thesis by blast
  next
    case Th_Read
    with u read_progress [OF _ _ assms(2)] obtain ev s' where "proxy_step (Act_Read ev) s = Some s'" "advances s s'"
      by (auto simp: proxy_step_def)
    then show ?thesis by blast
  next
    case Th_User
    with u user_progress [OF _ _ assms(2)] obtain s' where "proxy_step (Act_User False) s = Some s'" "advances s s'"
      by (auto simp: proxy_step_def)
    then show ?thesis by blast
  next
    case (Th_Pump k)
    with u pump_progress [of s k] obtain ev s' where "proxy_step (Act_Pump k ev) s = Some s'" "advances s s'"
      by (auto simp: proxy_step_def)
    then show ?thesis by blast
  qed
qed

lemma not_alive: "(\<forall>t. \<not> alive s t) \<longleftrightarrow> drained s \<and> sp_user s = U_Idle"
proof
  assume none: "\<forall>t. \<not> alive s t"
  have "st_pump (sp_object s k) \<in> {P_None, P_Exit}" if "k < sp_count s" for k using none that by (metis alive.simps(4))
  with none [rule_format, of Th_Accept] none [rule_format, of Th_Read] none [rule_format, of Th_User]
  show "drained s \<and> sp_user s = U_Idle" by (auto simp: drained_def list_all_iff)
next
  assume "drained s \<and> sp_user s = U_Idle"
  then show "\<forall>t. \<not> alive s t" by (auto simp: drained_def list_all_iff elim!: alive.elims)
qed

lemma reachable_all_inv:
  "proxy_reachable sid s \<Longrightarrow> sp_count s < 2 ^ 31 - 2 \<Longrightarrow> proxy_inv s \<and> wire_inv s \<and> claims_inv s \<and> leak_inv s"
proof (induction rule: proxy_reachable.induct)
  case start
  show ?case using reachable_inv [OF proxy_reachable.start, of sid]
    by (simp add: new_proxy_def claims_inv_def leak_inv_def opens_def)
next
  case (step s a s')
  with count_mono [OF step(2)] have "proxy_inv s" "claims_inv s" "leak_inv s" "sp_count s < 2 ^ 31 - 2" by simp_all
  with step reachable_inv [OF proxy_reachable.step [OF step(1,2)]] proxy_step_claims [OF step(2)] proxy_step_leak [OF step(2)]
  show ?case by blast
qed

lemma drains:
  assumes "proxy_reachable sid s" and "sp_count s + may_register (sp_accept s) < 2 ^ 31 - 2"
  shows "\<exists>as s'. proxy_run as s = Some s' \<and> drained s' \<and> sp_user s' = U_Idle \<and> length as \<le> proxy_rank s"
  using assms
proof (induction "proxy_rank s" arbitrary: s rule: less_induct)
  case less
  show ?case
  proof (cases "\<exists>t. alive s t")
    case False
    then have "drained s \<and> sp_user s = U_Idle" using not_alive [of s] by blast
    then show ?thesis by (intro exI [of _ "[]"] exI [of _ s]) simp
  next
    case True
    with reachable_all_inv [OF less(2)] less(3) obtain a s1 where a: "proxy_step a s = Some s1" "advances s s1"
      using proxy_progress by (metis add_lessD1)
    then obtain as s' where "proxy_run as s1 = Some s'" "drained s'" "sp_user s' = U_Idle" "length as \<le> proxy_rank s1"
      using less(1) [of s1] proxy_reachable.step [OF less(2) a(1)] less(3) by (auto simp: advances_def)
    with a show ?thesis by (intro exI [of _ "a # as"] exI [of _ s']) (simp add: advances_def)
  qed
qed

section \<open>Properties\<close>

lemma run_reachable: "proxy_reachable sid s \<Longrightarrow> proxy_run as s = Some s' \<Longrightarrow> proxy_reachable sid s'"
  by (induction as arbitrary: s) (auto split: option.splits intro: proxy_reachable.step)

text \<open>The cause of the termination is written once.\<close>

lemma update_stream_err [simp]: "sp_terminateErr (update_stream k f s) = sp_terminateErr s"
  by (simp add: update_stream_def)

lemma closeStream_cause:
  assumes "closeStream t e ok k s = Some (fin, s')"
  shows "sp_terminateErr s' = sp_terminateErr s \<and> sp_terminate s' = sp_terminate s"
  using assms by (cases rule: closeStream_cases) auto

lemma terminate_step_cause:
  assumes "terminate_step t c s = Some (fin, s')" and "sp_terminate s \<noteq> T_Running"
  shows "sp_terminateErr s' = sp_terminateErr s \<and> sp_terminate s' \<noteq> T_Running"
  using assms by (cases rule: terminate_step_cases) (auto dest: closeStream_cause)

lemma proxy_step_cause:
  assumes "proxy_step a s = Some s'" and "sp_terminate s \<noteq> T_Running"
  shows "sp_terminateErr s' = sp_terminateErr s \<and> sp_terminate s' \<noteq> T_Running"
proof (cases a)
  case (Act_Accept ok)
  with assms(1) have "accept_step ok s = Some s'" by (simp add: proxy_step_def)
  then show ?thesis
    by (cases rule: accept_step_cases)
      (use assms(2) in \<open>auto simp: register_stream_def allocateStreamID_def Let_def dest: closeStream_cause\<close>)
next
  case (Act_Read ev)
  with assms(1) have "read_step ev s = Some s'" by (simp add: proxy_step_def)
  then show ?thesis
    by (cases rule: read_step_cases) (use assms(2) in \<open>auto dest: closeStream_cause terminate_step_cause\<close>)
next
  case (Act_Pump k ev)
  with assms(1) have "pump_step k ev s = Some s'" by (simp add: proxy_step_def split: if_splits)
  then show ?thesis by (cases rule: pump_step_cases) (use assms(2) in \<open>auto dest: closeStream_cause\<close>)
next
  case (Act_User ok)
  with assms(1) have "user_step ok s = Some s'" by (simp add: proxy_step_def)
  then show ?thesis
    by (cases rule: user_step_cases) (use assms(2) in \<open>auto dest: closeStream_cause terminate_step_cause\<close>)
qed (use assms in \<open>auto simp: proxy_step_def split: if_splits\<close>)

lemma proxy_run_cause:
  "proxy_run as s = Some s' \<Longrightarrow> sp_terminate s \<noteq> T_Running \<Longrightarrow> sp_terminateErr s' = sp_terminateErr s"
  by (induction as arbitrary: s) (auto split: option.splits dest: proxy_step_cause)

text \<open>A schedule for the witnesses: a connection is accepted and sends two bytes, a second one evicts it.\<close>

definition sample_schedule :: "action list" where
  "sample_schedule =
     replicate 4 (Act_Accept True) @ [Act_Pump 0 (Pm_read ''hi'' False), Act_Pump 0 (Pm_go True)]
     @ replicate 8 (Act_Accept True)"

definition sample_proxy :: SourceProxy where
  "sample_proxy = the (proxy_run sample_schedule (new_proxy ''SSH''))"

lemma sample_proxy_run: "proxy_run sample_schedule (new_proxy ''SSH'') = Some sample_proxy"
proof -
  have "proxy_run sample_schedule (new_proxy ''SSH'') \<noteq> None" by code_simp
  then show ?thesis by (auto simp: sample_proxy_def)
qed

text \<open>
  C26: in every reachable state of the proxy, whatever the interleaving and the failures, at most one
  stream is in the table and its id is its own and not 0; the destination has seen at most one start and
  one reset of each id, data of a stream only after its start, and no id that was not allocated.
\<close>

theorem proxy_streams:
  assumes "proxy_reachable sid s" and "sp_count s < 2 ^ 31 - 2"
  shows "length (sp_streams s) \<le> 1
    \<and> (\<forall>i k. lookupStream s i = Some k \<longrightarrow> 1 \<le> i \<and> st_id (sp_object s k) = i \<and> st_once (sp_object s k) = Once_Open)
    \<and> announced {} (sp_wire s)
    \<and> (\<forall>i. frames_of T_STREAM_START i (sp_wire s) \<le> 1 \<and> frames_of T_STREAM_RESET i (sp_wire s) \<le> 1)
    \<and> (\<forall>m \<in> set (sp_wire s). 1 \<le> tm_StreamId m \<and> tm_StreamId m \<le> int (sp_count s))"
proof -
  from reachable_inv [OF assms] have inv: "proxy_inv s" and wire: "wire_inv s" by simp_all
  have "1 \<le> i \<and> st_id (sp_object s k) = i \<and> st_once (sp_object s k) = Once_Open" if "lookupStream s i = Some k" for i k
  proof -
    have "(i, k) \<in> set (sp_streams s)" using that by (simp add: lookupStream_def map_of_SomeD)
    then show ?thesis using inv by (auto simp: proxy_inv_def table_inv_def opens_def)
  qed
  with length_streams [OF inv] wire show ?thesis by (simp add: wire_inv_def)
qed

theorem proxy_streams_witness: "length (sp_streams sample_proxy) \<le> 1 \<and> frames_of T_STREAM_START 2 (sp_wire sample_proxy) \<le> 1"
proof -
  have "sp_count sample_proxy = 2" by code_simp
  then have "sp_count sample_proxy < 2 ^ 31 - 2" by simp
  with proxy_streams [OF run_reachable [OF proxy_reachable.start sample_proxy_run]] show ?thesis by blast
qed

text \<open>
  C27: once \<open>Wait\<close> returns, and a call of \<open>Close\<close> that was under way has returned, nothing is left open: the
  table is empty, every local connection, the listener and the WebSocket are closed and the root context
  is cancelled; the value returned is the recorded cause, or none for a cancellation.
\<close>

theorem proxy_shutdown:
  assumes "proxy_reachable sid s" and "sp_count s < 2 ^ 31 - 2" and "Wait s = Some r" and "sp_user s = U_Idle"
  shows "sp_streams s = [] \<and> (\<forall>k < sp_count s. \<not> st_conn_open (sp_object s k)) \<and> \<not> sp_listening s \<and> \<not> sp_ws_open s
    \<and> sp_cancelled s \<and> (r = None \<or> r = sp_terminateErr s)"
proof -
  from assms(3) have d: "drained s" and r: "r = None \<or> r = sp_terminateErr s"
    by (auto simp: Wait_def split: if_splits option.splits)
  from reachable_all_inv [OF assms(1,2)] have inv: "proxy_inv s" and claims: "claims_inv s" and leak: "leak_inv s" by simp_all
  from d leak have fin: "sp_terminate s = T_Done" and free: "\<not> sp_listening s" "\<not> sp_ws_open s" "sp_cancelled s" and none: "opens s = {}"
    by (auto simp: drained_def leak_inv_def)
  have "\<not> st_conn_open (sp_object s k)" if k: "k < sp_count s" for k
  proof -
    have "\<not> holds s t k" for t
      using d assms(4) k not_alive [of s] holds_alive [of s t k] by blast
    then have "claimed (st_once (sp_object s k)) = None"
      using claims k by (metis claims_inv_def not_None_eq)
    moreover have "st_once (sp_object s k) \<noteq> Once_Open" using none k by (auto simp: opens_def)
    ultimately have "st_once (sp_object s k) = Once_Done" by (cases "st_once (sp_object s k)") auto
    then show ?thesis using claims k by (simp add: claims_inv_def)
  qed
  moreover have "sp_streams s = []" using inv none by (auto simp: proxy_inv_def table_inv_def)
  ultimately show ?thesis using free r by blast
qed

text \<open>The sample run, ended by a session reset while the second stream is open.\<close>

definition sample_ended :: SourceProxy where
  "sample_ended = the (proxy_run
     ([Act_Read (Rx (Inr (zero_message\<lparr>tm_Type := T_SESSION_RESET\<rparr>)))] @ replicate 10 (Act_Read (Rx_go True))
      @ [Act_Accept True, Act_Pump 0 (Pm_read [] True), Act_Pump 0 (Pm_go True), Act_Pump 1 (Pm_read [] True), Act_Pump 1 (Pm_go True),
         Act_Read (Rx (Inl io_EOF)), Act_Read (Rx_go True)]) sample_proxy)"

lemma sample_ended_reachable: "proxy_reachable ''SSH'' sample_ended"
proof -
  have "proxy_run
     ([Act_Read (Rx (Inr (zero_message\<lparr>tm_Type := T_SESSION_RESET\<rparr>)))] @ replicate 10 (Act_Read (Rx_go True))
      @ [Act_Accept True, Act_Pump 0 (Pm_read [] True), Act_Pump 0 (Pm_go True), Act_Pump 1 (Pm_read [] True), Act_Pump 1 (Pm_go True),
         Act_Read (Rx (Inl io_EOF)), Act_Read (Rx_go True)]) sample_proxy \<noteq> None"
    by code_simp
  then show ?thesis
    unfolding sample_ended_def
    using run_reachable [OF run_reachable [OF proxy_reachable.start sample_proxy_run]] by fastforce
qed

theorem proxy_shutdown_witness:
  "Wait sample_ended = Some (Some ErrSessionReset) \<and> \<not> st_conn_open (sp_object sample_ended 0) \<and> \<not> st_conn_open (sp_object sample_ended 1)"
proof -
  have s: "sp_count sample_ended = 2" "Wait sample_ended = Some (Some ErrSessionReset)" "sp_user sample_ended = U_Idle" by code_simp+
  with proxy_shutdown [OF sample_ended_reachable _ s(2,3)] show ?thesis by simp
qed

text \<open>
  C28: no deadlock. The goroutines wait for one another inside \<open>sync.Once\<close> (a stream closed by a pump, the read
  loop, an eviction and \<open>terminate\<close> at once), yet from every reachable state some schedule of at most
  \<open>proxy_rank\<close> steps lets all of them return, \<open>Wait\<close> included, and the cause recorded first is the one that stays.
\<close>

theorem proxy_drains:
  assumes "proxy_reachable sid s" and "sp_count s < 2 ^ 31 - 3"
  shows "\<exists>as s'. proxy_run as s = Some s' \<and> length as \<le> proxy_rank s \<and> Wait s' \<noteq> None \<and> sp_user s' = U_Idle
    \<and> (sp_terminate s \<noteq> T_Running \<longrightarrow> sp_terminateErr s' = sp_terminateErr s)"
proof -
  have "may_register (sp_accept s) \<le> 1" by (cases "sp_accept s") simp_all
  with assms(2) drains [OF assms(1)] obtain as s' where "proxy_run as s = Some s'" "drained s'" "sp_user s' = U_Idle" "length as \<le> proxy_rank s"
    by force
  then show ?thesis using proxy_run_cause [of as s s'] by (intro exI [of _ as] exI [of _ s']) (simp add: Wait_def)
qed

theorem proxy_drains_witness: "\<exists>as s'. proxy_run as sample_proxy = Some s' \<and> Wait s' \<noteq> None"
proof -
  have "sp_count sample_proxy = 2" by code_simp
  then have "sp_count sample_proxy < 2 ^ 31 - 3" by simp
  with proxy_drains [OF run_reachable [OF proxy_reachable.start sample_proxy_run]] show ?thesis by blast
qed

text \<open>
  C30: the start of a proxy. With a region, a token, a dialled connection that selects the protocol and a
  bound listener, a destination whose first message publishes the service gives a fresh proxy whose read
  loop receives exactly the messages that follow, however the bytes were cut and however many of them were
  read ahead. A first message of another type, one that does not publish the service, a connection that ends before the
  first message is complete and a WebSocket message beyond the read limit each give their error, with the connection and the
  listener closed.
\<close>

theorem source_proxy_starts:
  fixes env :: "string list dial_env"
  assumes "TrimSpace (so_Region options) \<noteq> []" and "TrimSpace (so_SourceAccessToken options) \<noteq> []" and "so_dialURLOverride options = []"
    and "de_Dial env (dataPlaneURL (TrimSpace (so_Region options))) [(''access-token'', TrimSpace (so_SourceAccessToken options))] [wsSubprotocol]
      = Inr wsSubprotocol"
    and "de_Listen env ''tcp'' ''127.0.0.1:0'' = Inr addr" and "de_Read env = (\<lambda>_. ws_pop)"
    and "list_all (frame_ok (de_lib env)) ((hello, body) # frames)"
    and "concat chunks = envelope body @ concat (map (\<lambda>f. envelope (snd f)) frames)" and "list_all (\<lambda>c. length c \<le> maxFramePayload + 8) chunks"
    and "concat short @ x = envelope body" and "x \<noteq> []" and "list_all (\<lambda>c. length c \<le> maxFramePayload + 8) short" and "maxFramePayload + 8 < length big"
    and "wl_CloseStatus (de_lib env) ws_closed = 1000" and "wl_CloseStatus (de_lib env) ws_too_big = - 1"
    and service: "service = (if TrimSpace (so_ServiceID options) = [] then ''SSH'' else TrimSpace (so_ServiceID options))"
  shows "(if tm_Type hello \<noteq> T_SERVICE_IDS
      then StartSourceProxy env options chunks = Some \<lparr>oc_result = Inl (Plain ''securetunnel: first frame, expected SERVICE_IDS''), oc_ws = Closed, oc_listener = Closed\<rparr>
      else if service \<notin> set (tm_AvailableServiceIds hello)
      then StartSourceProxy env options chunks = Some \<lparr>oc_result = Inl (Wrapped [] ErrServiceIDMismatch), oc_ws = Closed, oc_listener = Closed\<rparr>
      else \<exists>pre rest buf rest'. StartSourceProxy env options chunks
          = Some \<lparr>oc_result = Inr \<lparr>sd_proxy = new_proxy service, sd_addr = addr, sd_preReader = pre, sd_conn = rest\<rparr>,
                  oc_ws = Opened, oc_listener = Opened\<rparr>
        \<and> receive_from (de_lib env) (SetReadLimit (maxFramePayload + 8) ws_pop) (length frames) pre rest = Some (map fst frames, buf, rest'))
    \<and> StartSourceProxy env options short = Some \<lparr>oc_result = Inl ErrServiceIDsNotReceived, oc_ws = Closed, oc_listener = Closed\<rparr>
    \<and> StartSourceProxy env options (short @ big # later)
        = Some \<lparr>oc_result = Inl (Wrapped ''securetunnel: read SERVICE_IDS: '' ws_too_big), oc_ws = Closed, oc_listener = Closed\<rparr>"
proof -
  let ?lib = "de_lib env" and ?rd = "SetReadLimit (maxFramePayload + 8) ws_pop"
  have hello: "frame_ok ?lib (hello, body)" using assms(7) by simp
  have "[] @ concat chunks = envelope body @ concat (map (\<lambda>f. envelope (snd f)) frames)" using assms(8) by simp
  from frame_next_envelope [OF hello this] obtain pre rest where first: "frame_next ?lib ws_pop [] chunks = Some (Inr hello, pre, rest)"
    and tail: "pre @ concat rest = concat (map (\<lambda>f. envelope (snd f)) frames) @ []" by auto
  have small: "list_all (\<lambda>c. length c \<le> maxFramePayload + 8) rest" using frame_next_rest [OF first] assms(9) by (auto simp: list_all_iff)
  obtain buf rest' where rec: "receive_from ?lib ?rd (length frames) pre rest = Some (map fst frames, buf, rest')"
    using receive_frames [OF _ tail, of ?lib] assms(7) receive_limited [OF small, of ?lib] by auto
  have start: "StartSourceProxy env options e = (case awaitServiceIDs ?lib ?rd service e of
       None \<Rightarrow> None
     | Some (Some err, buf, w1) \<Rightarrow> Some \<lparr>oc_result = Inl err, oc_ws = Closed, oc_listener = Closed\<rparr>
     | Some (None, buf, w1) \<Rightarrow> Some \<lparr>oc_result = Inr \<lparr>sd_proxy = new_proxy service, sd_addr = addr, sd_preReader = buf, sd_conn = w1\<rparr>,
         oc_ws = Opened, oc_listener = Opened\<rparr>)" for e
    using assms(1-6) service by (cases "TrimSpace (so_ServiceID options) = []") (simp_all add: StartSourceProxy_def Let_def DefaultServiceID_def split: option.split)
  have "frame_next ?lib ?rd [] chunks = Some (Inr hello, pre, rest)" by (simp add: frame_next_limited [OF assms(9)] first)
  moreover have "frame_next ?lib ?rd [] short = Some (Inl io_EOF, concat short, [])"
    using frame_next_short [OF hello assms(14), of "[]" short x] assms(10,11) by (simp add: frame_next_limited [OF assms(12)])
  moreover have "\<not> isNormalClosure ?lib (Some ws_too_big)" using assms(15) by (simp add: isNormalClosure_def ws_too_big_def io_EOF_def context_Canceled_def)
  then have "frame_next ?lib ?rd [] (short @ big # later) = Some (Inl ws_too_big, concat short, later)"
    using frame_next_too_big [OF hello _ _ assms(11,12,13), of "[]" later] assms(10) by simp
  ultimately show ?thesis
    using rec by (auto simp: start awaitServiceIDs_def io_EOF_def ws_too_big_def)
qed

definition sample_dial_env :: "string list dial_env" where
  "sample_dial_env =
     \<lparr>de_lib = \<lparr>wl_Marshal = (\<lambda>m. Inr (tm_Payload m)),
                wl_Unmarshal = (\<lambda>s. Inr (zero_message\<lparr>tm_Type := T_SERVICE_IDS, tm_Payload := s, tm_AvailableServiceIds := [''SSH'']\<rparr>)),
                wl_CloseStatus = (\<lambda>e. if e = ws_closed then 1000 else - 1)\<rparr>,
      de_Dial = (\<lambda>_ _ ps. Inr (hd ps)), de_Listen = (\<lambda>_ _. Inr (TCPAddr 40022)), de_Read = (\<lambda>_. ws_pop)\<rparr>"

theorem source_proxy_starts_witness:
  "\<exists>p. StartSourceProxy sample_dial_env \<lparr>so_Region = ''eu'', so_SourceAccessToken = ''t'', so_ServiceID = [], so_HandshakeTimeout = 0, so_dialURLOverride = []\<rparr>
       [[CHR 0x00], [CHR 0x01, CHR ''x'']] = Some \<lparr>oc_result = Inr p, oc_ws = Opened, oc_listener = Opened\<rparr> \<and> LocalPort p = 40022"
proof -
  let ?hello = "zero_message\<lparr>tm_Type := T_SERVICE_IDS, tm_Payload := ''x'', tm_AvailableServiceIds := [''SSH'']\<rparr>"
  let ?opts = "\<lparr>so_Region = ''eu'', so_SourceAccessToken = ''t'', so_ServiceID = [], so_HandshakeTimeout = 0, so_dialURLOverride = []\<rparr>"
  have trim: "TrimSpace ''eu'' = ''eu''" "TrimSpace ''t'' = ''t''" "TrimSpace [] = []" by code_simp+
  have env: "envelope ''x'' = [CHR 0x00, CHR 0x01, CHR ''x'']" by (simp add: envelope_def PutUint16_def char_of_def bit_0)
  have ok: "list_all (frame_ok (de_lib sample_dial_env)) [(?hello, ''x'')]" by (simp add: frame_ok_def sample_dial_env_def)
  let ?big = "replicate (maxFramePayload + 9) CHR ''x''"
  have "length ?big = maxFramePayload + 9" by (rule length_replicate)
  then have big: "maxFramePayload + 8 < length ?big" by linarith
  show ?thesis
    using source_proxy_starts [of ?opts sample_dial_env "TCPAddr 40022" ?hello "''x''" "[]" "[[CHR 0x00], [CHR 0x01, CHR ''x'']]" "[[CHR 0x00]]" "[CHR 0x01, CHR ''x'']"
        ?big "''SSH''" "[]"] trim ok env big
    by (auto simp: sample_dial_env_def LocalPort_def maxFramePayload_def ws_closed_def ws_too_big_def simp del: replicate.simps)
qed

end
