(* ===== verification/File_System.thy ===== *)
theory File_System
  imports Go_Strings "HOL-Library.AList" "HOL-Library.List_Lexorder" "HOL-Library.Char_ord"
begin

text \<open>
  Files for the client side: the parts of Go's packages \<open>os\<close> and \<open>path/filepath\<close> that the repository uses,
  and its atomic writes (src/internal/atomicfile/atomicfile.go). A disk is a table of files by path. Before
  each call other processes may change the table, and each call may fail: both are functions of the number
  of the call, so a disk stands for one course of events. What each call changes is recorded as the pair of
  the tables before and after it.
\<close>

section \<open>Paths\<close>

definition sep :: char where "sep = CHR ''/''"

fun join_parts :: "string list \<Rightarrow> string" where
  "join_parts [] = []"
| "join_parts [p] = p"
| "join_parts (p # ps) = p @ sep # join_parts ps"

text \<open>The elements that \<open>filepath.Clean\<close> keeps, last one first.\<close>

fun clean_parts :: "bool \<Rightarrow> string list \<Rightarrow> string list \<Rightarrow> string list" where
  "clean_parts rooted acc [] = acc"
| "clean_parts rooted acc (p # ps) =
     (if p = [] \<or> p = ''.'' then clean_parts rooted acc ps
      else if p = ''..'' then
        (case acc of
           [] \<Rightarrow> clean_parts rooted (if rooted then [] else [''..'']) ps
         | up # rest \<Rightarrow> clean_parts rooted (if up = ''..'' then ''..'' # acc else rest) ps)
      else clean_parts rooted (p # acc) ps)"

definition Clean :: "string \<Rightarrow> string" where
  "Clean path =
     (let rooted = (path \<noteq> [] \<and> hd path = sep);
          out = join_parts (rev (clean_parts rooted [] (Split sep path)))
      in if rooted then sep # out else if out = [] then ''.'' else out)"

definition Join :: "string \<Rightarrow> string \<Rightarrow> string" where
  "Join dir name =
     (if dir = [] \<and> name = [] then []
      else if dir = [] then Clean name
      else if name = [] then Clean dir
      else Clean (dir @ sep # name))"

text \<open>\<open>filepath.Dir\<close>: everything up to the last separator, cleaned.\<close>

definition Dir :: "string \<Rightarrow> string" where
  "Dir path = Clean (rev (dropWhile (\<lambda>c. c \<noteq> sep) (rev path)))"

text \<open>A name that stays one element of a path.\<close>

definition plain_name :: "string \<Rightarrow> bool" where
  "plain_name name \<longleftrightarrow> name \<noteq> [] \<and> name \<noteq> ''.'' \<and> name \<noteq> ''..'' \<and> sep \<notin> set name"

text \<open>The cleaned directory as a prefix of the paths in it.\<close>

definition dir_prefix :: "string \<Rightarrow> string" where
  "dir_prefix dir = (if Clean dir = ''.'' then [] else if Clean dir = [sep] then [sep] else Clean dir @ [sep])"

lemma Split_append: "Split c (s @ c # t) = Split c s @ Split c t"
  by (induction s) (auto split: list.splits)

lemma clean_parts_append: "clean_parts r acc (ps @ qs) = clean_parts r (clean_parts r acc ps) qs"
  by (induction ps arbitrary: acc) (auto split: list.splits)

lemma join_parts_snoc: "ps \<noteq> [] \<Longrightarrow> join_parts (ps @ [p]) = join_parts ps @ sep # p"
  by (induction ps rule: join_parts.induct) auto

lemma clean_parts_proper:
  "p \<in> set (clean_parts r acc ps) \<Longrightarrow> p \<in> set acc \<or> p \<in> set ps \<and> p \<noteq> [] \<and> p \<noteq> ''.'' \<or> p = ''..''"
  by (induction r acc ps rule: clean_parts.induct) (auto split: if_splits list.splits)

lemma join_parts_empty: "\<forall>p \<in> set ps. p \<noteq> [] \<Longrightarrow> join_parts ps = [] \<longleftrightarrow> ps = []"
  by (cases ps rule: join_parts.cases) auto

lemma join_parts_single: "join_parts ps = [c] \<Longrightarrow> \<forall>p \<in> set ps. p \<noteq> [] \<Longrightarrow> ps = [[c]]"
  by (cases ps rule: join_parts.cases) (auto simp: append_eq_Cons_conv)

text \<open>Joining a plain name only appends it to the cleaned directory.\<close>

lemma Join_plain:
  assumes "plain_name name" and "dir \<noteq> []"
  shows "Join dir name = dir_prefix dir @ name"
proof -
  let ?r = "hd dir = sep" and ?ps = "clean_parts (hd dir = sep) [] (Split sep dir)"
  have name: "name \<noteq> []" "clean_parts ?r acc [name] = name # acc" for acc
    using assms(1) by (auto simp: plain_name_def)
  have "clean_parts ?r [] (Split sep (dir @ sep # name)) = name # ?ps"
    using Split_no_sep [of sep name] assms(1) name by (simp add: Split_append clean_parts_append plain_name_def)
  then have join: "Join dir name = (if ?r then [sep] else []) @ join_parts (rev ?ps @ [name])"
    using assms(2) name(1) by (cases "rev ?ps = []") (auto simp: Join_def Clean_def Let_def join_parts_snoc)
  have proper: "\<forall>p \<in> set (rev ?ps). p \<noteq> []" using clean_parts_proper [of _ ?r "[]" "Split sep dir"] by auto
  have no: "join_parts (rev ?ps) \<noteq> [c]" if "c = CHR ''.'' \<or> c = sep" for c
  proof
    assume "join_parts (rev ?ps) = [c]"
    then have "rev ?ps = [[c]]" using proper by (rule join_parts_single)
    then have "[c] \<in> set ?ps" by (metis list.set_intros(1) set_rev)
    then show False
      using that clean_parts_proper [of "[c]" ?r "[]" "Split sep dir"] Split_parts_no_sep [of "[c]" sep dir] by auto
  qed
  have dot: "sep \<noteq> CHR ''.''" by (simp add: sep_def)
  show ?thesis
  proof (cases "?ps = []")
    case True
    with join assms(2) show ?thesis by (cases "hd dir = sep") (auto simp: dir_prefix_def Clean_def Let_def sep_def)
  next
    case False
    with join join_parts_empty [OF proper] no dot assms(2) show ?thesis
      by (cases "hd dir = sep") (auto simp: dir_prefix_def Clean_def Let_def join_parts_snoc)
  qed
qed

section \<open>The disk\<close>

record disk_file =
  f_data :: string
  f_mode :: nat

type_synonym files = "(string \<times> disk_file) list"

record disk =
  dk_files :: files
  dk_dirs :: "(string \<times> nat) list"
  dk_tick :: nat
  dk_other :: "nat \<Rightarrow> files \<Rightarrow> files"
  dk_fault :: "nat \<Rightarrow> (go_error \<times> nat) option"
  dk_suffix :: "nat \<Rightarrow> string"
  dk_log :: "(files \<times> files) list"

definition os_ErrNotExist :: go_error where "os_ErrNotExist = Plain ''file does not exist''"
definition os_ErrExist :: go_error where "os_ErrExist = Plain ''file already exists''"

lemma errors_Is_refl [simp]: "errors_Is e e"
  by (cases e) simp_all

text \<open>One call: other processes, then the call itself with its fault, if it has one.\<close>

definition syscall :: "((go_error \<times> nat) option \<Rightarrow> files \<Rightarrow> 'a \<times> files) \<Rightarrow> disk \<Rightarrow> 'a \<times> disk" where
  "syscall f s =
     (let before = dk_other s (dk_tick s) (dk_files s)
      in case f (dk_fault s (dk_tick s)) before of
           (r, after) \<Rightarrow> (r, s\<lparr>dk_files := after, dk_tick := dk_tick s + 1, dk_log := dk_log s @ [(before, after)]\<rparr>))"

definition os_ReadFile :: "string \<Rightarrow> disk \<Rightarrow> string result \<times> disk" where
  "os_ReadFile path = syscall (\<lambda>fault fs.
     (case fault of
        Some (e, n) \<Rightarrow> Inl e
      | None \<Rightarrow> (case map_of fs path of None \<Rightarrow> Inl (Wrapped (''open '' @ path @ '': '') os_ErrNotExist) | Some f \<Rightarrow> Inr (f_data f)), fs))"

text \<open>\<open>CreateTemp\<close> picks a name that does not exist, with mode 0600; a name that does exist makes it give up.\<close>

definition os_CreateTemp :: "string \<Rightarrow> string \<Rightarrow> disk \<Rightarrow> string result \<times> disk" where
  "os_CreateTemp dir pattern s = syscall (\<lambda>fault fs.
     (let path = Join dir (pattern @ dk_suffix s (dk_tick s))
      in case fault of
           Some (e, n) \<Rightarrow> (Inl e, fs)
         | None \<Rightarrow> if map_of fs path \<noteq> None then (Inl os_ErrExist, fs)
                   else (Inr path, AList.update path \<lparr>f_data = [], f_mode = 384\<rparr> fs))) s"

text \<open>A failed write has written some of the bytes.\<close>

definition os_Write :: "string \<Rightarrow> string \<Rightarrow> disk \<Rightarrow> go_error option \<times> disk" where
  "os_Write path data = syscall (\<lambda>fault fs.
     let written = (case fault of Some (e, n) \<Rightarrow> take n data | None \<Rightarrow> data)
     in (map_option fst fault,
         case map_of fs path of None \<Rightarrow> fs | Some f \<Rightarrow> AList.update path (f\<lparr>f_data := f_data f @ written\<rparr>) fs))"

definition os_Fchmod :: "string \<Rightarrow> nat \<Rightarrow> disk \<Rightarrow> go_error option \<times> disk" where
  "os_Fchmod path mode = syscall (\<lambda>fault fs.
     (map_option fst fault,
      if fault \<noteq> None then fs
      else case map_of fs path of None \<Rightarrow> fs | Some f \<Rightarrow> AList.update path (f\<lparr>f_mode := mode\<rparr>) fs))"

definition os_Close :: "disk \<Rightarrow> go_error option \<times> disk" where
  "os_Close = syscall (\<lambda>fault fs. (map_option fst fault, fs))"

definition os_Rename :: "string \<Rightarrow> string \<Rightarrow> disk \<Rightarrow> go_error option \<times> disk" where
  "os_Rename old new = syscall (\<lambda>fault fs.
     case (fault, map_of fs old) of
       (Some (e, n), _) \<Rightarrow> (Some e, fs)
     | (None, None) \<Rightarrow> (Some (Wrapped (''rename '' @ old @ '': '') os_ErrNotExist), fs)
     | (None, Some f) \<Rightarrow> (None, AList.update new f (AList.delete old fs)))"

definition os_Link :: "string \<Rightarrow> string \<Rightarrow> disk \<Rightarrow> go_error option \<times> disk" where
  "os_Link old new = syscall (\<lambda>fault fs.
     case (fault, map_of fs old) of
       (Some (e, n), _) \<Rightarrow> (Some e, fs)
     | (None, None) \<Rightarrow> (Some (Wrapped (''link '' @ old @ '': '') os_ErrNotExist), fs)
     | (None, Some f) \<Rightarrow> if map_of fs new \<noteq> None then (Some (Wrapped (''link '' @ old @ '': '') os_ErrExist), fs)
                         else (None, AList.update new f fs))"

definition os_Remove :: "string \<Rightarrow> disk \<Rightarrow> go_error option \<times> disk" where
  "os_Remove path = syscall (\<lambda>fault fs.
     case fault of
       Some (e, n) \<Rightarrow> (Some e, fs)
     | None \<Rightarrow> if map_of fs path = None then (Some (Wrapped (''remove '' @ path @ '': '') os_ErrNotExist), fs)
               else (None, AList.delete path fs))"

text \<open>\<open>MkdirAll\<close> of one directory whose parents exist, and \<open>Chmod\<close> of it.\<close>

definition os_MkdirAll :: "string \<Rightarrow> nat \<Rightarrow> disk \<Rightarrow> go_error option \<times> disk" where
  "os_MkdirAll dir mode s =
     (case syscall (\<lambda>fault fs. (map_option fst fault, fs)) s of
        (Some e, s1) \<Rightarrow> (Some e, s1)
      | (None, s1) \<Rightarrow> (None, s1\<lparr>dk_dirs := (if map_of (dk_dirs s1) dir = None then AList.update dir mode (dk_dirs s1) else dk_dirs s1)\<rparr>))"

definition os_Chmod :: "string \<Rightarrow> nat \<Rightarrow> disk \<Rightarrow> go_error option \<times> disk" where
  "os_Chmod dir mode s =
     (case syscall (\<lambda>fault fs. (map_option fst fault, fs)) s of
        (Some e, s1) \<Rightarrow> (Some e, s1)
      | (None, s1) \<Rightarrow> (None, s1\<lparr>dk_dirs := AList.update dir mode (dk_dirs s1)\<rparr>))"

text \<open>\<open>ReadDir\<close>: the names of the files in a directory, sorted.\<close>

definition names_in :: "string \<Rightarrow> files \<Rightarrow> string list" where
  "names_in dir fs = sort (filter (\<lambda>name. name \<noteq> [] \<and> sep \<notin> set name)
     (map (drop (length (dir_prefix dir))) (filter (prefix (dir_prefix dir)) (remdups (map fst fs)))))"

definition os_ReadDir :: "string \<Rightarrow> disk \<Rightarrow> string list result \<times> disk" where
  "os_ReadDir dir = syscall (\<lambda>fault fs. (case fault of Some (e, n) \<Rightarrow> Inl e | None \<Rightarrow> Inr (names_in dir fs), fs))"

section \<open>Atomic writes\<close>

text \<open>The temporary file with its contents, or the error after it was removed.\<close>

definition write_temp :: "string \<Rightarrow> string \<Rightarrow> nat \<Rightarrow> disk \<Rightarrow> string result \<times> disk" where
  "write_temp dir data mode s =
     (case os_CreateTemp dir ''.atomicfile-'' s of
        (Inl e, s1) \<Rightarrow> (Inl (Wrapped ''atomicfile: create temp file: '' e), s1)
      | (Inr tempPath, s1) \<Rightarrow>
          (case os_Write tempPath data s1 of
             (Some e, s2) \<Rightarrow> (Inl (Wrapped ''atomicfile: write temp file: '' e), snd (os_Remove tempPath (snd (os_Close s2))))
           | (None, s2) \<Rightarrow>
               (case os_Fchmod tempPath mode s2 of
                  (Some e, s3) \<Rightarrow> (Inl (Wrapped ''atomicfile: chmod temp file: '' e), snd (os_Remove tempPath (snd (os_Close s3))))
                | (None, s3) \<Rightarrow>
                    (case os_Close s3 of
                       (Some e, s4) \<Rightarrow> (Inl (Wrapped ''atomicfile: close temp file: '' e), snd (os_Remove tempPath s4))
                     | (None, s4) \<Rightarrow> (Inr tempPath, s4)))))"

definition WriteFile :: "string \<Rightarrow> string \<Rightarrow> nat \<Rightarrow> disk \<Rightarrow> go_error option \<times> disk" where
  "WriteFile path data mode s =
     (case write_temp (Dir path) data mode s of
        (Inl e, s1) \<Rightarrow> (Some e, s1)
      | (Inr tempPath, s1) \<Rightarrow>
          (case os_Rename tempPath path s1 of
             (Some e, s2) \<Rightarrow> (Some (Wrapped ''atomicfile: rename: '' e), snd (os_Remove tempPath s2))
           | (None, s2) \<Rightarrow> (None, s2)))"

definition WriteFileExclusive :: "string \<Rightarrow> string \<Rightarrow> nat \<Rightarrow> disk \<Rightarrow> go_error option \<times> disk" where
  "WriteFileExclusive path data mode s =
     (case write_temp (Dir path) data mode s of
        (Inl e, s1) \<Rightarrow> (Some e, s1)
      | (Inr tempPath, s1) \<Rightarrow>
          (case os_Link tempPath path s1 of
             (Some e, s2) \<Rightarrow> (Some e, snd (os_Remove tempPath s2))
           | (None, s2) \<Rightarrow> (None, snd (os_Remove tempPath s2))))"

section \<open>What a sequence of calls changes\<close>

text \<open>
  A run under a guarantee \<open>G\<close>: a sequence of calls each of which changes the table as \<open>G\<close> allows, whatever
  other processes do in between. What is known of them is a rely condition on \<open>dk_other\<close>.
\<close>

definition same_env :: "disk \<Rightarrow> disk \<Rightarrow> bool" where
  "same_env s s' \<longleftrightarrow> dk_other s' = dk_other s \<and> dk_fault s' = dk_fault s \<and> dk_suffix s' = dk_suffix s"

definition called :: "disk \<Rightarrow> disk \<Rightarrow> bool" where
  "called s s' \<longleftrightarrow> same_env s s' \<and> dk_tick s' = Suc (dk_tick s)
     \<and> dk_log s' = dk_log s @ [(dk_other s (dk_tick s) (dk_files s), dk_files s')]"

inductive runs :: "(files \<Rightarrow> files \<Rightarrow> bool) \<Rightarrow> disk \<Rightarrow> disk \<Rightarrow> bool" for G where
  stop: "runs G s s"
| call: "runs G s s1 \<Longrightarrow> called s1 s2 \<Longrightarrow> G (dk_other s1 (dk_tick s1) (dk_files s1)) (dk_files s2) \<Longrightarrow> runs G s s2"

definition leaves_alone :: "disk \<Rightarrow> string \<Rightarrow> bool" where
  "leaves_alone s path \<longleftrightarrow> (\<forall>n fs. map_of (dk_other s n fs) path = map_of fs path)"

text \<open>Other processes may create the file, but do not change one that exists.\<close>

definition keeps :: "disk \<Rightarrow> string \<Rightarrow> bool" where
  "keeps s path \<longleftrightarrow> (\<forall>n fs f. map_of fs path = Some f \<longrightarrow> map_of (dk_other s n fs) path = Some f)"

definition only :: "string \<Rightarrow> files \<Rightarrow> files \<Rightarrow> bool" where
  "only tmp b a \<longleftrightarrow> (\<forall>q. q \<noteq> tmp \<longrightarrow> map_of a q = map_of b q)"

lemma same_env_refl [simp]: "same_env s s"
  by (simp add: same_env_def)

lemma runs_env: "runs G s s' \<Longrightarrow> same_env s s'"
  by (induction rule: runs.induct) (auto simp: called_def same_env_def)

lemma env_conditions:
  assumes "same_env s s'"
  shows "leaves_alone s' p \<longleftrightarrow> leaves_alone s p" "keeps s' p \<longleftrightarrow> keeps s p"
  using assms by (simp_all add: same_env_def leaves_alone_def keeps_def)

lemma runs_trans: "runs G s1 s2 \<Longrightarrow> runs G s s1 \<Longrightarrow> runs G s s2"
  by (induction rule: runs.induct) (auto intro: runs.call)

lemma runs_mono: "runs G s s' \<Longrightarrow> (\<And>b a. G b a \<Longrightarrow> H b a) \<Longrightarrow> runs H s s'"
  by (induction rule: runs.induct) (auto intro: runs.intros)

lemma runs_log: "runs G s s' \<Longrightarrow> \<exists>l. dk_log s' = dk_log s @ l \<and> (\<forall>(b, a) \<in> set l. G b a)"
proof (induction rule: runs.induct)
  case (call s s1 s2)
  then obtain l where "dk_log s1 = dk_log s @ l" "\<forall>(b, a) \<in> set l. G b a" by blast
  with call show ?case by (intro exI [of _ "l @ [(dk_other s1 (dk_tick s1) (dk_files s1), dk_files s2)]"]) (auto simp: called_def)
qed simp

lemma runs_keeps:
  assumes "runs G s s'" and "\<And>b a. G b a \<Longrightarrow> map_of b p = Some f \<Longrightarrow> map_of a p = Some f" and "keeps s p"
  shows "map_of (dk_files s) p = Some f \<Longrightarrow> map_of (dk_files s') p = Some f"
  using assms
proof (induction rule: runs.induct)
  case (call s s1 s2)
  then have "map_of (dk_files s1) p = Some f" "keeps s1 p" using runs_env env_conditions(2) by blast+
  then have "map_of (dk_other s1 (dk_tick s1) (dk_files s1)) p = Some f" by (simp add: keeps_def)
  with call show ?case by blast
qed simp

lemma runs_alone:
  assumes "runs G s s'" and "\<And>b a. G b a \<Longrightarrow> map_of a p = map_of b p" and "leaves_alone s p"
  shows "map_of (dk_files s') p = map_of (dk_files s) p"
  using assms
proof (induction rule: runs.induct)
  case (call s s1 s2)
  then have "map_of (dk_files s1) p = map_of (dk_files s) p" "leaves_alone s1 p" using runs_env env_conditions(1) by blast+
  then have "map_of (dk_other s1 (dk_tick s1) (dk_files s1)) p = map_of (dk_files s) p" by (simp add: leaves_alone_def)
  with call show ?case by metis
qed simp

lemma syscall_effect:
  assumes "syscall f s = (r, s')"
  shows "called s s'" and "f (dk_fault s (dk_tick s)) (dk_other s (dk_tick s) (dk_files s)) = (r, dk_files s')"
  using assms by (auto simp: syscall_def called_def same_env_def Let_def split: prod.splits)

lemma syscall_runs:
  assumes "syscall f s = (r, s')" and "\<And>fault fs r fs'. f fault fs = (r, fs') \<Longrightarrow> G fs fs'"
  shows "runs G s s'"
  using syscall_effect [OF assms(1)] assms(2) runs.call [OF runs.stop] by blast

lemma os_Write_runs: "os_Write tmp data s = (r, s') \<Longrightarrow> runs (only tmp) s s'"
  unfolding os_Write_def by (erule syscall_runs) (auto simp: only_def Let_def update_conv' split: option.splits)

lemma os_Fchmod_runs: "os_Fchmod tmp mode s = (r, s') \<Longrightarrow> runs (only tmp) s s'"
  unfolding os_Fchmod_def by (erule syscall_runs) (auto simp: only_def update_conv' split: option.splits if_splits)

lemma os_Remove_runs: "os_Remove tmp s = (r, s') \<Longrightarrow> runs (only tmp) s s'"
  unfolding os_Remove_def by (erule syscall_runs) (auto simp: only_def delete_conv' split: option.splits if_splits)

lemma os_CreateTemp_runs:
  "os_CreateTemp dir pat s = (r, s') \<Longrightarrow> runs (only (Join dir (pat @ dk_suffix s (dk_tick s)))) s s'"
  unfolding os_CreateTemp_def by (erule syscall_runs) (auto simp: only_def Let_def update_conv' split: option.splits if_splits)

lemma reading_runs:
  "os_Close s = (x, s') \<Longrightarrow> runs (\<lambda>b a. a = b) s s'" "os_ReadFile path s = (y, s') \<Longrightarrow> runs (\<lambda>b a. a = b) s s'"
  "os_ReadDir path s = (z, s') \<Longrightarrow> runs (\<lambda>b a. a = b) s s'"
  unfolding os_Close_def os_ReadFile_def os_ReadDir_def by (erule syscall_runs; simp)+

lemma only_refl [simp]: "only tmp fs fs"
  by (simp add: only_def)

lemma quiet_chain:
  assumes "runs (only tmp) s0 s"
  shows "os_Write tmp data s = (r, s') \<Longrightarrow> runs (only tmp) s0 s'" "os_Fchmod tmp mode s = (r, s') \<Longrightarrow> runs (only tmp) s0 s'"
    "os_Close s = (r, s') \<Longrightarrow> runs (only tmp) s0 s'" "runs (only tmp) s0 (snd (os_Close s))" "runs (only tmp) s0 (snd (os_Remove tmp s))"
proof -
  have close: "runs (only tmp) s0 s'" if "os_Close s = (r, s')" for r s'
    using runs_trans [OF runs_mono [OF reading_runs(1) [OF that], of "only tmp"] assms] by simp
  show "os_Write tmp data s = (r, s') \<Longrightarrow> runs (only tmp) s0 s'" "os_Fchmod tmp mode s = (r, s') \<Longrightarrow> runs (only tmp) s0 s'"
    "os_Close s = (r, s') \<Longrightarrow> runs (only tmp) s0 s'" "runs (only tmp) s0 (snd (os_Close s))" "runs (only tmp) s0 (snd (os_Remove tmp s))"
    using close runs_trans [OF os_Write_runs assms] runs_trans [OF os_Fchmod_runs assms] runs_trans [OF os_Remove_runs assms]
    by (blast, blast, blast, metis prod.collapse, metis prod.collapse)
qed

section \<open>What a write changes\<close>

text \<open>The temporary file of an atomic write.\<close>

definition temp_path :: "string \<Rightarrow> disk \<Rightarrow> string" where
  "temp_path dir s = Join dir (''.atomicfile-'' @ dk_suffix s (dk_tick s))"

lemma write_temp_quiet: "write_temp dir data mode s = (r, s') \<Longrightarrow> runs (only (temp_path dir s)) s s'"
proof -
  assume w: "write_temp dir data mode s = (r, s')"
  obtain c s1 where c: "os_CreateTemp dir ''.atomicfile-'' s = (c, s1)" by fastforce
  then have q1: "runs (only (temp_path dir s)) s s1" unfolding temp_path_def by (rule os_CreateTemp_runs)
  show ?thesis
  proof (cases c)
    case (Inl e)
    with w c q1 show ?thesis by (simp add: write_temp_def)
  next
    case (Inr t)
    then have t: "t = temp_path dir s"
      using syscall_effect(2) [OF c [unfolded os_CreateTemp_def]] by (auto simp: temp_path_def Let_def split: option.splits if_splits)
    obtain x s2 where x: "os_Write t data s1 = (x, s2)" by fastforce
    obtain y s3 where y: "os_Fchmod t mode s2 = (y, s3)" by fastforce
    obtain z s4 where z: "os_Close s3 = (z, s4)" by fastforce
    have q: "runs (only t) s1 s2" "runs (only t) s1 s3" "runs (only t) s1 s4"
      using quiet_chain(1) [OF runs.stop x] quiet_chain(2) [OF _ y] quiet_chain(3) [OF _ z] by blast+
    have "runs (only t) s1 s'"
      using w c Inr x y z q quiet_chain(4,5)
      by (cases x; cases y; cases z) (auto simp: write_temp_def)
    with q1 t show ?thesis by (blast intro: runs_trans)
  qed
qed

lemma write_temp_Inr:
  assumes "leaves_alone s (temp_path dir s)" and "write_temp dir data mode s = (Inr t, s')"
  shows "t = temp_path dir s \<and> map_of (dk_files s') t = Some \<lparr>f_data = data, f_mode = mode\<rparr>"
  using assms
  by (auto simp: write_temp_def os_CreateTemp_def os_Write_def os_Fchmod_def os_Close_def syscall_def Let_def leaves_alone_def
      temp_path_def update_conv' split: prod.splits option.splits sum.splits if_splits)

text \<open>What a replacing and an exclusive write may change besides the temporary file.\<close>

definition replaces :: "string \<Rightarrow> string \<Rightarrow> disk_file \<Rightarrow> bool \<Rightarrow> files \<Rightarrow> files \<Rightarrow> bool" where
  "replaces tmp path f ok b a \<longleftrightarrow> (\<forall>q. q \<noteq> tmp \<longrightarrow> map_of a q = map_of b q \<or> q = path \<and> ok \<and> map_of a q = Some f)"

definition creates :: "string \<Rightarrow> string \<Rightarrow> disk_file \<Rightarrow> bool \<Rightarrow> files \<Rightarrow> files \<Rightarrow> bool" where
  "creates tmp path f ok b a \<longleftrightarrow>
     (\<forall>q. q \<noteq> tmp \<longrightarrow> map_of a q = map_of b q \<or> q = path \<and> ok \<and> map_of b q = None \<and> map_of a q = Some f)"

lemma only_writes: "only tmp b a \<Longrightarrow> replaces tmp path f ok b a" "only tmp b a \<Longrightarrow> creates tmp path f ok b a"
  by (simp_all add: only_def replaces_def creates_def)

lemma WriteFile_effect:
  assumes "leaves_alone s (temp_path (Dir path) s)" and "path \<noteq> temp_path (Dir path) s" and "WriteFile path data mode s = (r, s')"
  shows "runs (replaces (temp_path (Dir path) s) path \<lparr>f_data = data, f_mode = mode\<rparr> (r = None)) s s'
    \<and> (r = None \<longrightarrow> map_of (dk_files s') path = Some \<lparr>f_data = data, f_mode = mode\<rparr> \<and> map_of (dk_files s') (temp_path (Dir path) s) = None)"
proof -
  let ?tmp = "temp_path (Dir path) s" and ?f = "\<lparr>f_data = data, f_mode = mode\<rparr>"
  obtain w s1 where w: "write_temp (Dir path) data mode s = (w, s1)" by fastforce
  have q: "runs (replaces ?tmp path ?f ok) s s1" for ok using runs_mono [OF write_temp_quiet [OF w]] only_writes(1) by blast
  show ?thesis
  proof (cases w)
    case (Inl e)
    with w assms(3) q show ?thesis by (auto simp: WriteFile_def)
  next
    case (Inr t)
    have t: "t = ?tmp" "map_of (dk_files s1) t = Some ?f" using write_temp_Inr [OF assms(1)] w Inr by auto
    obtain x s2 where x: "os_Rename t path s1 = (x, s2)" by fastforce
    note e = syscall_effect [OF x [unfolded os_Rename_def]]
    let ?b = "dk_other s1 (dk_tick s1) (dk_files s1)"
    have b: "map_of ?b t = Some ?f"
      using assms(1) t runs_env [OF write_temp_quiet [OF w]] by (simp add: leaves_alone_def same_env_def)
    show ?thesis
    proof (cases x)
      case None
      then have "dk_files s2 = AList.update path ?f (AList.delete t ?b)" using e(2) b by (auto split: option.splits)
      then have m: "map_of (dk_files s2) = (map_of ?b)(t := None, path \<mapsto> ?f)" by (simp add: update_conv' delete_conv')
      then have "runs (replaces ?tmp path ?f True) s s2" using t by (intro runs.call [OF q e(1)]) (simp add: replaces_def)
      moreover have "r = None" "s' = s2" using assms(3) w Inr x None by (simp_all add: WriteFile_def)
      ultimately show ?thesis using m t assms(2) by simp
    next
      case (Some err)
      then have "dk_files s2 = ?b" using e(2) b by (auto split: option.splits)
      then have "runs (replaces ?tmp path ?f False) s s2" by (intro runs.call [OF q e(1)]) (simp add: replaces_def)
      moreover obtain y s3 where y: "os_Remove t s2 = (y, s3)" by fastforce
      then have "runs (replaces ?tmp path ?f False) s2 s3" using runs_mono [OF os_Remove_runs [OF y]] only_writes(1) t by blast
      moreover have "r \<noteq> None" "s' = s3" using assms(3) w Inr x Some y by (auto simp: WriteFile_def)
      ultimately show ?thesis using runs_trans by auto
    qed
  qed
qed

text \<open>An exclusive write creates the file with its complete contents, or leaves it as it is.\<close>

lemma WriteFileExclusive_effect:
  assumes "leaves_alone s (temp_path (Dir path) s)" and "path \<noteq> temp_path (Dir path) s" and "WriteFileExclusive path data mode s = (r, s')"
  shows "runs (creates (temp_path (Dir path) s) path \<lparr>f_data = data, f_mode = mode\<rparr> (r = None)) s s'
    \<and> (r = None \<longrightarrow> keeps s path \<longrightarrow> map_of (dk_files s') path = Some \<lparr>f_data = data, f_mode = mode\<rparr>)"
proof -
  let ?tmp = "temp_path (Dir path) s" and ?f = "\<lparr>f_data = data, f_mode = mode\<rparr>"
  obtain w s1 where w: "write_temp (Dir path) data mode s = (w, s1)" by fastforce
  have q: "runs (creates ?tmp path ?f ok) s s1" for ok using runs_mono [OF write_temp_quiet [OF w]] only_writes(2) by blast
  show ?thesis
  proof (cases w)
    case (Inl e)
    with w assms(3) q show ?thesis by (auto simp: WriteFileExclusive_def)
  next
    case (Inr t)
    have t: "t = ?tmp" "map_of (dk_files s1) t = Some ?f" using write_temp_Inr [OF assms(1)] w Inr by auto
    obtain x s2 where x: "os_Link t path s1 = (x, s2)" by fastforce
    note e = syscall_effect [OF x [unfolded os_Link_def]]
    let ?b = "dk_other s1 (dk_tick s1) (dk_files s1)"
    have b: "map_of ?b t = Some ?f"
      using assms(1) t runs_env [OF write_temp_quiet [OF w]] by (simp add: leaves_alone_def same_env_def)
    obtain y s3 where y: "os_Remove t s2 = (y, s3)" by fastforce
    have rm: "runs (only ?tmp) s2 s3" using os_Remove_runs [OF y] t by simp
    then have rm': "runs (creates ?tmp path ?f ok) s2 s3" for ok using runs_mono only_writes(2) by blast
    have s': "s' = s3" "r = x" using assms(3) w Inr x y by (auto simp: WriteFileExclusive_def split: option.splits)
    show ?thesis
    proof (cases x)
      case None
      then have new: "dk_files s2 = AList.update path ?f ?b" "map_of ?b path = None" using e(2) b by (auto split: option.splits if_splits)
      then have st: "runs (creates ?tmp path ?f True) s s2" by (intro runs.call [OF q e(1)]) (simp add: creates_def update_conv')
      have "map_of (dk_files s3) path = Some ?f" if "keeps s path"
      proof (rule runs_keeps [OF rm])
        show "keeps s2 path" using that env_conditions(2) [OF runs_env [OF st]] by simp
      qed (use assms(2) new(1) in \<open>auto simp: only_def update_conv'\<close>)
      with runs_trans [OF rm' st] s' None show ?thesis by simp
    next
      case (Some err)
      then have "dk_files s2 = ?b" using e(2) b by (auto split: option.splits if_splits)
      then have "runs (creates ?tmp path ?f False) s s2" by (intro runs.call [OF q e(1)]) (simp add: creates_def)
      with runs_trans [OF rm' this] s' Some show ?thesis by simp
    qed
  qed
qed

section \<open>Names of temporary files\<close>

text \<open>The last element of a path.\<close>

definition base_name :: "string \<Rightarrow> string" where
  "base_name p = rev (takeWhile (\<lambda>c. c \<noteq> sep) (rev p))"

lemma takeWhile_all: "\<forall>x \<in> set xs. P x \<Longrightarrow> takeWhile P (xs @ ys) = xs @ takeWhile P ys"
  by (induction xs) auto

lemma base_name_prefix: "sep \<notin> set name \<Longrightarrow> base_name (dir_prefix dir @ name) = name"
proof -
  assume n: "sep \<notin> set name"
  have "takeWhile (\<lambda>c. c \<noteq> sep) (rev (dir_prefix dir)) = []" by (simp add: dir_prefix_def)
  moreover have "\<forall>x \<in> set (rev name). x \<noteq> sep" using n by auto
  ultimately show ?thesis using takeWhile_all [of "rev name" "\<lambda>c. c \<noteq> sep" "rev (dir_prefix dir)"] by (simp add: base_name_def)
qed

lemma Clean_nonempty [simp]: "Clean p \<noteq> []"
  by (simp add: Clean_def Let_def)

lemma Join_nonempty: "dir \<noteq> [] \<Longrightarrow> Join dir name \<noteq> []"
  by (simp add: Join_def)

text \<open>Other processes have temporary files of their own; \<open>CreateTemp\<close> appends decimal digits.\<close>

definition private_temps :: "disk \<Rightarrow> bool" where
  "private_temps d \<longleftrightarrow> (\<forall>k. list_all is_digit (dk_suffix d k)) \<and> (\<forall>k dir. leaves_alone d (Join dir (''.atomicfile-'' @ dk_suffix d k)))"

lemma private_temps_env: "same_env d d' \<Longrightarrow> private_temps d' \<longleftrightarrow> private_temps d"
  by (simp add: private_temps_def same_env_def leaves_alone_def)

lemma not_digits: "\<not> is_digit CHR ''/''" "\<not> is_digit CHR ''t''"
  by (simp_all add: is_digit_def)

lemma temp_base:
  assumes "private_temps d" and "dir \<noteq> []"
  shows "base_name (temp_path dir d) = ''.atomicfile-'' @ dk_suffix d (dk_tick d)" and "leaves_alone d (temp_path dir d)"
proof -
  have "sep \<notin> set (dk_suffix d (dk_tick d))" using assms(1) not_digits by (auto simp: private_temps_def list_all_iff sep_def)
  then have "plain_name (''.atomicfile-'' @ dk_suffix d (dk_tick d))" "sep \<notin> set (''.atomicfile-'' @ dk_suffix d (dk_tick d))"
    by (simp_all add: plain_name_def sep_def)
  then show "base_name (temp_path dir d) = ''.atomicfile-'' @ dk_suffix d (dk_tick d)"
    unfolding temp_path_def using Join_plain [OF _ assms(2)] base_name_prefix by simp
  show "leaves_alone d (temp_path dir d)" using assms(1) unfolding temp_path_def private_temps_def by blast
qed

lemma Dir_nonempty [simp]: "Dir p \<noteq> []"
  by (simp add: Dir_def)

section \<open>Disks without faults\<close>

definition no_faults :: "disk \<Rightarrow> bool" where
  "no_faults d \<longleftrightarrow> (\<forall>n. dk_fault d n = None)"

lemma os_ReadFile_found:
  assumes "no_faults d" and "map_of (dk_other d (dk_tick d) (dk_files d)) path = Some f"
  shows "\<exists>d'. os_ReadFile path d = (Inr (f_data f), d') \<and> dk_files d' = dk_other d (dk_tick d) (dk_files d)
    \<and> same_env d d' \<and> dk_tick d' = Suc (dk_tick d)"
  using assms by (simp add: os_ReadFile_def syscall_def no_faults_def same_env_def Let_def)

text \<open>A disk on which nothing fails and nobody else works.\<close>

definition calm :: "disk \<Rightarrow> bool" where
  "calm d \<longleftrightarrow> no_faults d \<and> dk_other d = (\<lambda>n fs. fs)"

lemma calm_ReadFile:
  assumes "calm d"
  shows "\<exists>d'. os_ReadFile path d =
    (case map_of (dk_files d) path of None \<Rightarrow> Inl (Wrapped (''open '' @ path @ '': '') os_ErrNotExist) | Some f \<Rightarrow> Inr (f_data f), d')
    \<and> calm d' \<and> dk_files d' = dk_files d"
  using assms by (auto simp: os_ReadFile_def syscall_def calm_def no_faults_def Let_def split: option.splits)

lemma calm_Remove:
  assumes "calm d"
  shows "\<exists>r d'. os_Remove path d = (r, d') \<and> calm d' \<and> map_of (dk_files d') = (map_of (dk_files d))(path := None)
    \<and> (\<forall>e. r = Some e \<longrightarrow> errors_Is e os_ErrNotExist)"
  using assms
  by (auto simp: os_Remove_def syscall_def calm_def no_faults_def Let_def delete_conv' os_ErrNotExist_def fun_eq_iff)

text \<open>There a write succeeds, unless the name of the temporary file is taken.\<close>

lemma calm_WriteFile:
  assumes "calm d" and "map_of (dk_files d) (temp_path (Dir path) d) = None"
  shows "fst (WriteFile path data mode d) = None"
  using assms
  by (simp add: WriteFile_def write_temp_def os_CreateTemp_def os_Write_def os_Fchmod_def os_Close_def os_Rename_def syscall_def
      calm_def no_faults_def Let_def temp_path_def update_conv')

section \<open>Atomicity\<close>

text \<open>
  C31: a write is atomic for every other process. Nothing but the temporary file changes at any moment,
  except that the file itself goes in one step to the complete new contents with the requested mode, and
  only if the write reports success; then the contents are there and the temporary file is gone. This holds
  whichever calls fail, however much of a failed write reached the disk and whatever other processes do,
  as long as they leave the temporary file alone.
\<close>

theorem write_file_atomic:
  assumes "leaves_alone s (temp_path (Dir path) s)" and "path \<noteq> temp_path (Dir path) s" and "WriteFile path data mode s = (r, s')"
  shows "\<exists>l. dk_log s' = dk_log s @ l
    \<and> (\<forall>(b, a) \<in> set l. \<forall>q. q \<noteq> temp_path (Dir path) s \<longrightarrow>
         map_of a q = map_of b q \<or> q = path \<and> r = None \<and> map_of a q = Some \<lparr>f_data = data, f_mode = mode\<rparr>)
    \<and> (r = None \<longrightarrow> map_of (dk_files s') path = Some \<lparr>f_data = data, f_mode = mode\<rparr> \<and> map_of (dk_files s') (temp_path (Dir path) s) = None)"
  using WriteFile_effect [OF assms] runs_log unfolding replaces_def by blast

definition sample_disk :: disk where
  "sample_disk = \<lparr>dk_files = [(''d/f'', \<lparr>f_data = ''old'', f_mode = 384\<rparr>)], dk_dirs = [(''d'', 448)], dk_tick = 0,
     dk_other = (\<lambda>n fs. AList.update ''d/g'' \<lparr>f_data = ''x'', f_mode = n\<rparr> fs), dk_fault = (\<lambda>n. None), dk_suffix = (\<lambda>n. ''1''), dk_log = []\<rparr>"

theorem write_file_atomic_witness:
  "fst (WriteFile ''d/f'' ''new'' 384 sample_disk) = None
   \<and> map_of (dk_files (snd (WriteFile ''d/f'' ''new'' 384 sample_disk))) ''d/f'' = Some \<lparr>f_data = ''new'', f_mode = 384\<rparr>"
proof -
  have tmp: "temp_path (Dir ''d/f'') sample_disk = ''d/.atomicfile-1''" by code_simp
  have "leaves_alone sample_disk (temp_path (Dir ''d/f'') sample_disk)"
    unfolding tmp by (simp add: leaves_alone_def sample_disk_def update_conv')
  moreover have "''d/f'' \<noteq> temp_path (Dir ''d/f'') sample_disk" by (simp add: tmp)
  moreover have ok: "fst (WriteFile ''d/f'' ''new'' 384 sample_disk) = None" by code_simp
  ultimately show ?thesis
    using write_file_atomic [of sample_disk "''d/f''" "''new''" 384 None "snd (WriteFile ''d/f'' ''new'' 384 sample_disk)"]
    by (metis prod.collapse)
qed

end
