(* ===== verification/Cert_Cache.thy ===== *)
theory Cert_Cache
  imports File_System Broker_Types
begin

text \<open>
  The certificate cache of the client (src/internal/certcache/cache.go): one private key per profile and
  one certificate file per device. golang.org/x/crypto/ssh, the key generator and PEM are parameters; a key
  is its bytes. The clock and the random source are functions of the number of the call.
\<close>

section \<open>Data\<close>

definition ErrNotCached :: go_error where "ErrNotCached = Plain ''certcache: cert not cached''"
definition ErrExpired :: go_error where "ErrExpired = Plain ''certcache: cached cert expired''"
definition ErrInvalidDevice :: go_error where "ErrInvalidDevice = Plain ''certcache: invalid device id''"
definition ErrInvalidProfile :: go_error where "ErrInvalidProfile = Plain ''certcache: invalid profile name''"
definition ErrCertKeyMismatch :: go_error where
  "ErrCertKeyMismatch = Plain ''certcache: cert public key does not match profile key''"

definition certFileSuffix :: string where "certFileSuffix = ''.cert''"

text \<open>What \<open>ParseRawPrivateKey\<close> returns, by its dynamic type, and what \<open>ParseAuthorizedKey\<close> returns.\<close>

datatype raw_key = Ed25519_Pointer string | Ed25519_Value string | Other_Key

datatype parsed_key = Parsed_Certificate Certificate | Parsed_Bare PublicKey

record key_lib =
  kl_GenerateKey :: "nat \<Rightarrow> string result"
  kl_MarshalPrivateKey :: "string \<Rightarrow> string result"
  kl_EncodeToMemory :: "string \<Rightarrow> string"
  kl_ParseRawPrivateKey :: "string \<Rightarrow> raw_key result"
  kl_NewPublicKey :: "string \<Rightarrow> PublicKey result"
  kl_Marshal :: "PublicKey \<Rightarrow> string"
  kl_MarshalAuthorizedKey :: "Certificate \<Rightarrow> string"
  kl_ParseAuthorizedKey :: "string \<Rightarrow> parsed_key result"

record cert_store =
  cs_baseDir :: string
  cs_profile :: string
  cs_now :: "nat \<Rightarrow> time"

record cert_entry =
  en_Device :: string
  en_CertPath :: string
  en_ValidAfter :: time
  en_ValidBefore :: time
  en_SerialNumber :: "64 word"
  en_KeyID :: string
  en_Principals :: "string list"

section \<open>Names and paths\<close>

definition validateProfile :: "string \<Rightarrow> go_error option" where
  "validateProfile raw =
     (let profile = TrimSpace raw in
      if profile = [] then Some (Wrapped ''empty: '' ErrInvalidProfile)
      else if profile = ''.'' \<or> profile = ''..'' then Some (Wrapped ''dots: '' ErrInvalidProfile)
      else if \<exists>c \<in> set profile. c = CHR ''/'' \<or> c = CHR 0x5C then Some (Wrapped ''contains path separator: '' ErrInvalidProfile)
      else None)"

definition validateDevice :: "string \<Rightarrow> go_error option" where
  "validateDevice raw =
     (let device = TrimSpace raw in
      if device = [] then Some (Wrapped ''empty: '' ErrInvalidDevice)
      else if device = ''.'' \<or> device = ''..'' then Some (Wrapped ''dots: '' ErrInvalidDevice)
      else if \<exists>c \<in> set device. c = CHR ''/'' \<or> c = CHR 0x5C then Some (Wrapped ''contains path separator: '' ErrInvalidDevice)
      else if Contains device ''..'' then Some (Wrapped ''contains '..': '' ErrInvalidDevice)
      else None)"

definition profileDir :: "cert_store \<Rightarrow> string" where
  "profileDir s = Join (cs_baseDir s) (cs_profile s)"

definition keyPath :: "cert_store \<Rightarrow> string" where
  "keyPath s = Join (profileDir s) ''key''"

definition certPath :: "cert_store \<Rightarrow> string \<Rightarrow> string" where
  "certPath s device = Join (profileDir s) (device @ certFileSuffix)"

definition OpenStore :: "(nat \<Rightarrow> time) \<Rightarrow> string \<Rightarrow> string \<Rightarrow> disk \<Rightarrow> cert_store result \<times> disk" where
  "OpenStore time_Now rawBase profile d =
     (let baseDir = TrimSpace rawBase in
      if baseDir = [] then (Inl (Wrapped ''baseDir is required: '' ErrInvalidProfile), d)
      else case validateProfile profile of
        Some err \<Rightarrow> (Inl err, d)
      | None \<Rightarrow>
          let dir = Join baseDir profile in
          (case os_MkdirAll dir 448 d of
             (Some err, d1) \<Rightarrow> (Inl (Wrapped ''certcache: create profile dir: '' err), d1)
           | (None, d1) \<Rightarrow>
               (case os_Chmod dir 448 d1 of
                  (Some err, d2) \<Rightarrow> (Inl (Wrapped ''certcache: chmod profile dir: '' err), d2)
                | (None, d2) \<Rightarrow> (Inr \<lparr>cs_baseDir = baseDir, cs_profile = profile, cs_now = time_Now\<rparr>, d2))))"

definition SetClock :: "(nat \<Rightarrow> time) \<Rightarrow> (nat \<Rightarrow> time) option \<Rightarrow> cert_store \<Rightarrow> cert_store" where
  "SetClock time_Now now s = s\<lparr>cs_now := (case now of None \<Rightarrow> time_Now | Some f \<Rightarrow> f)\<rparr>"

definition CachePath :: "cert_store \<Rightarrow> string \<Rightarrow> (string \<times> string) result" where
  "CachePath s device = (case validateDevice device of Some err \<Rightarrow> Inl err | None \<Rightarrow> Inr (certPath s device, keyPath s))"

section \<open>Keys\<close>

definition publicKeysEqual :: "key_lib \<Rightarrow> PublicKey option \<Rightarrow> PublicKey option \<Rightarrow> bool" where
  "publicKeysEqual lib a b =
     (case (a, b) of (Some x, Some y) \<Rightarrow> kl_Marshal lib x = kl_Marshal lib y | _ \<Rightarrow> False)"

definition parse_profile_key :: "key_lib \<Rightarrow> string \<Rightarrow> (string \<times> PublicKey) result" where
  "parse_profile_key lib data =
     (case kl_ParseRawPrivateKey lib data of
        Inl err \<Rightarrow> Inl (Wrapped ''certcache: parse profile key: '' err)
      | Inr raw \<Rightarrow>
          (case (case raw of Ed25519_Pointer k \<Rightarrow> Some k | Ed25519_Value k \<Rightarrow> Some k | Other_Key \<Rightarrow> None) of
             None \<Rightarrow> Inl (Plain ''certcache: profile key is not ed25519'')
           | Some priv \<Rightarrow>
               (case kl_NewPublicKey lib priv of
                  Inl err \<Rightarrow> Inl (Wrapped ''certcache: derive ssh public key: '' err)
                | Inr pub \<Rightarrow> Inr (priv, pub))))"

definition loadProfileKey :: "key_lib \<Rightarrow> string \<Rightarrow> disk \<Rightarrow> (string \<times> PublicKey) result \<times> disk" where
  "loadProfileKey lib path d =
     (case os_ReadFile path d of (Inl err, d1) \<Rightarrow> (Inl err, d1) | (Inr data, d1) \<Rightarrow> (parse_profile_key lib data, d1))"

definition writeProfileKeyExclusive :: "key_lib \<Rightarrow> string \<Rightarrow> string \<Rightarrow> disk \<Rightarrow> go_error option \<times> disk" where
  "writeProfileKeyExclusive lib path priv d =
     (case kl_MarshalPrivateKey lib priv of
        Inl err \<Rightarrow> (Some (Wrapped ''certcache: marshal private key: '' err), d)
      | Inr block \<Rightarrow> WriteFileExclusive path (kl_EncodeToMemory lib block) 384 d)"

definition ProfileKey :: "key_lib \<Rightarrow> cert_store \<Rightarrow> disk \<Rightarrow> (string \<times> PublicKey) result \<times> disk" where
  "ProfileKey lib s d =
     (case loadProfileKey lib (keyPath s) d of
        (Inr kp, d1) \<Rightarrow> (Inr kp, d1)
      | (Inl err, d1) \<Rightarrow>
          if \<not> errors_Is err os_ErrNotExist then (Inl err, d1)
          else case kl_GenerateKey lib (dk_tick d1) of
            Inl err \<Rightarrow> (Inl (Wrapped ''certcache: generate ed25519 key: '' err), d1)
          | Inr priv \<Rightarrow>
              (case writeProfileKeyExclusive lib (keyPath s) priv d1 of
                 (Some err, d2) \<Rightarrow> if errors_Is err os_ErrExist then loadProfileKey lib (keyPath s) d2 else (Inl err, d2)
               | (None, d2) \<Rightarrow>
                   (case kl_NewPublicKey lib priv of
                      Inl err \<Rightarrow> (Inl (Wrapped ''certcache: derive ssh public key: '' err), d2)
                    | Inr pub \<Rightarrow> (Inr (priv, pub), d2))))"

section \<open>Certificates\<close>

definition parse_cert :: "key_lib \<Rightarrow> string \<Rightarrow> Certificate result" where
  "parse_cert lib data =
     (case kl_ParseAuthorizedKey lib data of
        Inl err \<Rightarrow> Inl (Wrapped ''certcache: parse cert: '' err)
      | Inr (Parsed_Bare k) \<Rightarrow> Inl (Plain ''certcache: not an SSH certificate'')
      | Inr (Parsed_Certificate cert) \<Rightarrow> Inr cert)"

definition loadCert :: "key_lib \<Rightarrow> string \<Rightarrow> disk \<Rightarrow> Certificate result \<times> disk" where
  "loadCert lib path d =
     (case os_ReadFile path d of
        (Inl err, d1) \<Rightarrow> (Inl (if errors_Is err os_ErrNotExist then ErrNotCached else Wrapped ''certcache: read cert: '' err), d1)
      | (Inr data, d1) \<Rightarrow> (parse_cert lib data, d1))"

definition PutCert :: "key_lib \<Rightarrow> cert_store \<Rightarrow> string \<Rightarrow> Certificate option \<Rightarrow> disk \<Rightarrow> go_error option \<times> disk" where
  "PutCert lib s device cert d =
     (case validateDevice device of
        Some err \<Rightarrow> (Some err, d)
      | None \<Rightarrow>
          (case cert of
             None \<Rightarrow> (Some (Plain ''certcache: cert is nil''), d)
           | Some c \<Rightarrow>
               (case ProfileKey lib s d of
                  (Inl err, d1) \<Rightarrow> (Some err, d1)
                | (Inr (priv, profilePub), d1) \<Rightarrow>
                    if \<not> publicKeysEqual lib (Some (crt_Key c)) (Some profilePub) then (Some ErrCertKeyMismatch, d1)
                    else WriteFile (certPath s device) (kl_MarshalAuthorizedKey lib c) 420 d1)))"

text \<open>\<open>time.Unix(int64(seconds), 0)\<close> of a certificate bound, and \<open>Time.Sub\<close>, which saturates.\<close>

definition cert_time :: "64 word \<Rightarrow> time" where
  "cert_time w = time_Unix64 (sint w)"

definition time_Sub :: "time \<Rightarrow> time \<Rightarrow> duration" where
  "time_Sub t u = max (- (2 ^ 63)) (min (2 ^ 63 - 1) (t - u))"

text \<open>The certificate is returned with an error when it has expired.\<close>

definition GetCert :: "key_lib \<Rightarrow> cert_store \<Rightarrow> string \<Rightarrow> disk \<Rightarrow> (Certificate option \<times> duration \<times> go_error option) \<times> disk" where
  "GetCert lib s device d =
     (case validateDevice device of
        Some err \<Rightarrow> ((None, 0, Some err), d)
      | None \<Rightarrow>
          (case loadCert lib (certPath s device) d of
             (Inl err, d1) \<Rightarrow> ((None, 0, Some err), d1)
           | (Inr cert, d1) \<Rightarrow>
               (case ProfileKey lib s d1 of
                  (Inl err, d2) \<Rightarrow> ((None, 0, Some err), d2)
                | (Inr (priv, profilePub), d2) \<Rightarrow>
                    if \<not> publicKeysEqual lib (Some (crt_Key cert)) (Some profilePub) then ((None, 0, Some ErrCertKeyMismatch), d2)
                    else
                      let remaining = time_Sub (cert_time (crt_ValidBefore cert)) (cs_now s (dk_tick d2)) in
                      if remaining \<le> 0 then ((Some cert, 0, Some ErrExpired), d2)
                      else ((Some cert, remaining, None), d2))))"

section \<open>Listing and pruning\<close>

fun list_certs :: "key_lib \<Rightarrow> string \<Rightarrow> string list \<Rightarrow> disk \<Rightarrow> cert_entry list \<times> disk" where
  "list_certs lib dir [] d = ([], d)"
| "list_certs lib dir (name # names) d =
     (case CutSuffix name certFileSuffix of
        None \<Rightarrow> list_certs lib dir names d
      | Some device \<Rightarrow>
          (case loadCert lib (Join dir name) d of
             (Inl err, d1) \<Rightarrow> list_certs lib dir names d1
           | (Inr cert, d1) \<Rightarrow>
               (case list_certs lib dir names d1 of (entries, d2) \<Rightarrow>
                  (\<lparr>en_Device = device, en_CertPath = Join dir name, en_ValidAfter = cert_time (crt_ValidAfter cert),
                    en_ValidBefore = cert_time (crt_ValidBefore cert), en_SerialNumber = crt_Serial cert, en_KeyID = crt_KeyId cert,
                    en_Principals = crt_ValidPrincipals cert\<rparr> # entries, d2))))"

definition ListEntries :: "key_lib \<Rightarrow> cert_store \<Rightarrow> disk \<Rightarrow> cert_entry list result \<times> disk" where
  "ListEntries lib s d =
     (case os_ReadDir (profileDir s) d of
        (Inl err, d1) \<Rightarrow>
          (if errors_Is err os_ErrNotExist then Inr [] else Inl (Wrapped ''certcache: read profile dir: '' err), d1)
      | (Inr names, d1) \<Rightarrow>
          (case list_certs lib (profileDir s) names d1 of (entries, d2) \<Rightarrow> (Inr (sort_key en_Device entries), d2)))"

text \<open>The devices pruned so far come back with an error, too.\<close>

fun prune :: "time \<Rightarrow> cert_entry list \<Rightarrow> disk \<Rightarrow> (string list \<times> go_error option) \<times> disk" where
  "prune now [] d = (([], None), d)"
| "prune now (e # es) d =
     (if now < en_ValidBefore e then prune now es d
      else case os_Remove (en_CertPath e) d of (r, d1) \<Rightarrow>
        (case r of
           Some err \<Rightarrow>
             if \<not> errors_Is err os_ErrNotExist then (([], Some (Wrapped ''certcache: remove: '' err)), d1)
             else (case prune now es d1 of ((ps, x), d2) \<Rightarrow> ((en_Device e # ps, x), d2))
         | None \<Rightarrow> (case prune now es d1 of ((ps, x), d2) \<Rightarrow> ((en_Device e # ps, x), d2))))"

definition PruneExpired :: "key_lib \<Rightarrow> cert_store \<Rightarrow> time \<Rightarrow> disk \<Rightarrow> (string list \<times> go_error option) \<times> disk" where
  "PruneExpired lib s t d =
     (let now = (if t = zero_time then cs_now s (dk_tick d) else t) in
      case ListEntries lib s d of
        (Inl err, d1) \<Rightarrow> (([], Some err), d1)
      | (Inr entries, d1) \<Rightarrow>
          (case prune now entries d1 of ((pruned, x), d2) \<Rightarrow> ((case x of None \<Rightarrow> sort pruned | Some _ \<Rightarrow> pruned, x), d2)))"

section \<open>Paths stay in the profile directory\<close>

lemma strip_kept: "set s \<subseteq> set (strip ws s) \<union> \<Union> (set ` set ws)"
proof (induction ws s rule: strip.induct)
  case (1 ws s)
  show ?case
  proof (cases "find (\<lambda>w. w \<noteq> [] \<and> prefix w s) ws")
    case None
    then show ?thesis by (subst strip.simps) auto
  next
    case (Some w)
    then obtain r where w: "w \<in> set ws" and s: "s = w @ r" by (auto simp: find_Some_iff prefix_def)
    with Some 1 [of w] have "set r \<subseteq> set (strip ws r) \<union> \<Union> (set ` set ws)" by simp
    with Some w s show ?thesis by (subst strip.simps) auto
  qed
qed

lemma TrimSpace_kept: "c \<in> set s \<Longrightarrow> ascii_graphic c \<Longrightarrow> c \<in> set (TrimSpace s)"
proof -
  assume c: "c \<in> set s" "ascii_graphic c"
  with strip_kept [of s ws_runes] ws_runes_not_graphic have "c \<in> set (trim_left s)" by (auto simp: trim_left_def)
  with strip_kept [of "rev (trim_left s)" "map rev ws_runes"] ws_runes_not_graphic c(2)
  show ?thesis by (auto simp: TrimSpace_def trim_right_def)
qed

lemma sep_kept: "sep \<in> set s \<Longrightarrow> sep \<in> set (TrimSpace s)"
  by (rule TrimSpace_kept) (simp_all add: sep_def ascii_graphic_def)

lemma dots_trim: "TrimSpace ''.'' = ''.''" "TrimSpace ''..'' = ''..''"
  by (simp_all add: TrimSpace_graphic ascii_graphic_def)

lemma valid_profile_plain: "validateProfile profile = None \<Longrightarrow> plain_name profile"
proof -
  assume "validateProfile profile = None"
  then have t: "TrimSpace profile \<noteq> []" "TrimSpace profile \<noteq> ''.''" "TrimSpace profile \<noteq> ''..''" "sep \<notin> set (TrimSpace profile)"
    unfolding validateProfile_def Let_def sep_def by (auto split: if_split_asm)
  then show ?thesis using sep_kept [of profile] dots_trim unfolding plain_name_def by (metis TrimSpace_Nil)
qed

lemma valid_device_sep: "validateDevice device = None \<Longrightarrow> sep \<notin> set device"
  using sep_kept [of device] unfolding validateDevice_def Let_def sep_def by (auto split: if_split_asm)

definition opened :: "cert_store \<Rightarrow> bool" where
  "opened s \<longleftrightarrow> cs_baseDir s \<noteq> [] \<and> validateProfile (cs_profile s) = None"

lemma OpenStore_opened: "OpenStore time_Now base profile d = (Inr s, d') \<Longrightarrow> opened s"
  by (auto simp: OpenStore_def opened_def Let_def split: if_splits option.splits prod.splits)

lemma cert_plain: "validateDevice device = None \<Longrightarrow> plain_name (device @ certFileSuffix)"
  using valid_device_sep [of device] by (auto simp: plain_name_def certFileSuffix_def sep_def append_eq_Cons_conv)

lemma store_paths:
  assumes "opened s"
  shows "keyPath s = dir_prefix (profileDir s) @ ''key''"
    and "validateDevice device = None \<Longrightarrow> certPath s device = dir_prefix (profileDir s) @ device @ ''.cert''"
proof -
  have dir: "profileDir s \<noteq> []" using assms by (simp add: profileDir_def opened_def Join_nonempty)
  show "keyPath s = dir_prefix (profileDir s) @ ''key''"
    using Join_plain [of "''key''" "profileDir s"] dir by (simp add: keyPath_def plain_name_def sep_def)
  show "certPath s device = dir_prefix (profileDir s) @ device @ ''.cert''" if "validateDevice device = None"
    using Join_plain [OF cert_plain [OF that] dir] by (simp add: certPath_def certFileSuffix_def)
qed

lemma cert_path_not_key: "opened s \<Longrightarrow> validateDevice device = None \<Longrightarrow> certPath s device \<noteq> keyPath s"
proof -
  assume "opened s" "validateDevice device = None"
  then have "suffix ''.cert'' (certPath s device)" "suffix ''key'' (keyPath s)" using store_paths(1) [of s] store_paths(2) [of s device] by (auto simp: suffix_def)
  then show ?thesis by (auto simp: suffix_def)
qed

section \<open>One key per profile\<close>

lemma temp_not_key: "private_temps d \<Longrightarrow> opened s \<Longrightarrow> keyPath s \<noteq> temp_path (Dir (keyPath s)) d"
  using temp_base(1) [of d "Dir (keyPath s)"] base_name_prefix [of "''key''" "profileDir s"] store_paths(1) [of s]
  by (auto simp: sep_def)

text \<open>A guarantee: a file that exists is neither replaced nor removed.\<close>

definition steady :: "string \<Rightarrow> files \<Rightarrow> files \<Rightarrow> bool" where
  "steady path b a \<longleftrightarrow> (\<forall>f. map_of b path = Some f \<longrightarrow> map_of a path = Some f)"

lemma steady_refl [simp]: "steady p fs fs"
  by (simp add: steady_def)

lemma creates_steady: "creates tmp path f ok b a \<Longrightarrow> p \<noteq> tmp \<Longrightarrow> steady p b a"
  unfolding creates_def steady_def by fastforce

lemma replaces_steady: "replaces tmp path f ok b a \<Longrightarrow> p \<noteq> tmp \<Longrightarrow> p \<noteq> path \<Longrightarrow> steady p b a"
  unfolding replaces_def steady_def by fastforce

lemma loadProfileKey_effect:
  assumes "loadProfileKey lib path d = (r, d')"
  shows "runs (\<lambda>b a. a = b) d d'"
    and "r = Inr kp \<Longrightarrow> \<exists>f. map_of (dk_files d') path = Some f \<and> parse_profile_key lib (f_data f) = Inr kp"
proof -
  obtain x d1 where x: "os_ReadFile path d = (x, d1)" by fastforce
  with assms have d': "d' = d1" by (auto simp: loadProfileKey_def split: sum.splits)
  with x reading_runs(2) show "runs (\<lambda>b a. a = b) d d'" by blast
  show "\<exists>f. map_of (dk_files d') path = Some f \<and> parse_profile_key lib (f_data f) = Inr kp" if "r = Inr kp"
    using assms x that d' syscall_effect(2) [OF x [unfolded os_ReadFile_def]]
    by (auto simp: loadProfileKey_def split: option.splits sum.splits)
qed

lemma reload:
  assumes "runs (steady p) d d1" and "loadProfileKey lib path d1 = (r, d')"
  shows "runs (steady p) d d' \<and> (r = Inr kp \<longrightarrow> (\<exists>f. map_of (dk_files d') path = Some f \<and> parse_profile_key lib (f_data f) = Inr kp))"
  using loadProfileKey_effect [OF assms(2)] runs_trans [OF runs_mono assms(1), of "\<lambda>b a. a = b"] by auto

definition key_lib_law :: "key_lib \<Rightarrow> bool" where
  "key_lib_law lib \<longleftrightarrow> (\<forall>priv block. kl_MarshalPrivateKey lib priv = Inr block \<longrightarrow>
     kl_ParseRawPrivateKey lib (kl_EncodeToMemory lib block) \<in> {Inr (Ed25519_Pointer priv), Inr (Ed25519_Value priv)})"

lemma ProfileKey_effect:
  assumes "opened s" and "private_temps d" and "keeps d (keyPath s)" and "key_lib_law lib" and "ProfileKey lib s d = (r, d')"
  shows "runs (steady (keyPath s)) d d'
    \<and> (r = Inr kp \<longrightarrow> (\<exists>f. map_of (dk_files d') (keyPath s) = Some f \<and> parse_profile_key lib (f_data f) = Inr kp))"
proof -
  let ?p = "keyPath s"
  obtain x d1 where x: "loadProfileKey lib ?p d = (x, d1)" by fastforce
  note load = reload [OF runs.stop x, of ?p]
  show ?thesis
  proof (cases "\<exists>priv block. kl_GenerateKey lib (dk_tick d1) = Inr priv \<and> kl_MarshalPrivateKey lib priv = Inr block
      \<and> (\<exists>err. x = Inl err \<and> errors_Is err os_ErrNotExist)")
    case False
    then have "(\<exists>e. r = Inl e) \<and> d' = d1 \<or> r = x \<and> d' = d1 \<or> loadProfileKey lib ?p d1 = (r, d')"
      using assms(5) x by (auto simp: ProfileKey_def writeProfileKeyExclusive_def split: sum.splits if_splits)
    then show ?thesis using load reload [of ?p d d1 lib ?p r d' kp] by blast
  next
    case True
    then obtain priv block err where g: "kl_GenerateKey lib (dk_tick d1) = Inr priv" "kl_MarshalPrivateKey lib priv = Inr block"
      "x = Inl err" "errors_Is err os_ErrNotExist" by blast
    obtain y d2 where y: "WriteFileExclusive ?p (kl_EncodeToMemory lib block) 384 d1 = (y, d2)" by fastforce
    have env: "same_env d d1" using load runs_env by blast
    then have priv_t: "private_temps d1" "keeps d1 ?p" using assms(2,3) private_temps_env env_conditions(2) by blast+
    note fresh = temp_not_key [OF priv_t(1) assms(1)]
    note w = WriteFileExclusive_effect [OF temp_base(2) [OF priv_t(1) Dir_nonempty] fresh y]
    have "runs (steady ?p) d1 d2" using runs_mono [OF conjunct1 [OF w]] creates_steady fresh by blast
    then have st: "runs (steady ?p) d d2" using load runs_trans by blast
    show ?thesis
    proof (cases y)
      case None
      then have "map_of (dk_files d2) ?p = Some \<lparr>f_data = kl_EncodeToMemory lib block, f_mode = 384\<rparr>" using w priv_t(2) by blast
      moreover have "parse_profile_key lib (kl_EncodeToMemory lib block) = Inr (priv, pub)" if "kl_NewPublicKey lib priv = Inr pub" for pub
        using assms(4) [unfolded key_lib_law_def, rule_format, OF g(2)] that by (auto simp: parse_profile_key_def)
      ultimately show ?thesis using assms(5) x g y None st
        by (auto simp: ProfileKey_def writeProfileKeyExclusive_def split: sum.splits)
    next
      case (Some e)
      show ?thesis
      proof (cases "errors_Is e os_ErrExist")
        case True
        then have "loadProfileKey lib ?p d2 = (r, d')"
          using assms(5) x g y Some by (simp add: ProfileKey_def writeProfileKeyExclusive_def)
        with reload [OF st] show ?thesis by blast
      next
        case False
        with assms(5) x g y Some st show ?thesis by (auto simp: ProfileKey_def writeProfileKeyExclusive_def)
      qed
    qed
  qed
qed

lemma ProfileKey_existing:
  assumes "opened s" and "private_temps d" and "keeps d (keyPath s)" and "key_lib_law lib"
    and "map_of (dk_files d) (keyPath s) = Some f" and "parse_profile_key lib (f_data f) = Inr kp" and "ProfileKey lib s d = (Inr kp', d')"
  shows "kp' = kp"
proof -
  from ProfileKey_effect [OF assms(1-4,7), of kp'] obtain f' where
    run: "runs (steady (keyPath s)) d d'" and f': "map_of (dk_files d') (keyPath s) = Some f'" "parse_profile_key lib (f_data f') = Inr kp'" by auto
  have "map_of (dk_files d') (keyPath s) = Some f"
    by (rule runs_keeps [OF run]) (use assms(3,5) in \<open>auto simp: steady_def\<close>)
  with f' assms(6) show ?thesis by simp
qed

text \<open>
  C32: a profile has one key. Whatever other processes do, as long as they too never replace a key file (a
  second client that starts at the same moment included) and whichever calls fail, the key that is
  returned is the one on disk; the call itself never replaces or removes a key file; and every later
  call, in any process, that returns a key returns the same one.
\<close>

theorem profile_key_agreed:
  assumes "opened s" and "key_lib_law lib" and "private_temps d" and "keeps d (keyPath s)" and "ProfileKey lib s d = (Inr kp, d')"
  shows "(\<exists>f. map_of (dk_files d') (keyPath s) = Some f \<and> parse_profile_key lib (f_data f) = Inr kp)
    \<and> (\<exists>l. dk_log d' = dk_log d @ l \<and> (\<forall>(b, a) \<in> set l. \<forall>f. map_of b (keyPath s) = Some f \<longrightarrow> map_of a (keyPath s) = Some f))
    \<and> (\<forall>e e' kp'. private_temps e \<and> keeps e (keyPath s) \<and> map_of (dk_files e) (keyPath s) = map_of (dk_files d') (keyPath s)
         \<and> ProfileKey lib s e = (Inr kp', e') \<longrightarrow> kp' = kp)"
proof -
  from ProfileKey_effect [OF assms(1,3,4,2,5), of kp] obtain f where run: "runs (steady (keyPath s)) d d'"
    and f: "map_of (dk_files d') (keyPath s) = Some f" "parse_profile_key lib (f_data f) = Inr kp" by auto
  have "kp' = kp" if "private_temps e" "keeps e (keyPath s)" "map_of (dk_files e) (keyPath s) = map_of (dk_files d') (keyPath s)"
    "ProfileKey lib s e = (Inr kp', e')" for e e' kp'
    using ProfileKey_existing [OF assms(1) that(1,2) assms(2) _ f(2) that(4)] that(3) f(1) by simp
  with f runs_log [OF run] show ?thesis unfolding steady_def by blast
qed

text \<open>A second client links its key between the read and the link of this one.\<close>

definition sample_lib :: key_lib where
  "sample_lib = \<lparr>kl_GenerateKey = (\<lambda>n. Inr ''mine''), kl_MarshalPrivateKey = Inr, kl_EncodeToMemory = (\<lambda>s. s),
     kl_ParseRawPrivateKey = (\<lambda>s. Inr (Ed25519_Pointer s)), kl_NewPublicKey = (\<lambda>s. Inr (BareKey s)), kl_Marshal = (\<lambda>k. case k of BareKey s \<Rightarrow> s | CertKey s \<Rightarrow> s),
     kl_MarshalAuthorizedKey = (\<lambda>c. crt_KeyId c), kl_ParseAuthorizedKey = (\<lambda>s. Inl (Plain s))\<rparr>"

definition sample_store :: cert_store where
  "sample_store = \<lparr>cs_baseDir = ''b'', cs_profile = ''p'', cs_now = (\<lambda>_. 0)\<rparr>"

definition race_disk :: disk where
  "race_disk = \<lparr>dk_files = [], dk_dirs = [], dk_tick = 0,
     dk_other = (\<lambda>n fs. if 3 \<le> n \<and> map_of fs ''b/p/key'' = None then AList.update ''b/p/key'' \<lparr>f_data = ''theirs'', f_mode = 384\<rparr> fs else fs),
     dk_fault = (\<lambda>n. None), dk_suffix = (\<lambda>n. ''7''), dk_log = []\<rparr>"

lemma race_disk_other: "p \<noteq> ''b/p/key'' \<Longrightarrow> map_of (dk_other race_disk n fs) p = map_of fs p"
  by (auto simp: race_disk_def update_conv')

lemma sample_store_key: "keyPath sample_store = ''b/p/key''"
  by code_simp

lemma sample_store_opened: "opened sample_store"
  by code_simp

lemma sample_temp: "Join dir (''.atomicfile-'' @ ''7'') \<noteq> ''b/p/key''"
proof
  assume eq: "Join dir (''.atomicfile-'' @ ''7'') = ''b/p/key''"
  have n: "plain_name (''.atomicfile-'' @ ''7'')" "sep \<notin> set (''.atomicfile-'' @ ''7'')" by (simp_all add: plain_name_def sep_def)
  show False
  proof (cases "dir = []")
    case True
    moreover have "Join [] (''.atomicfile-'' @ ''7'') \<noteq> ''b/p/key''" by code_simp
    ultimately show False using eq by simp
  next
    case False
    have "base_name ''b/p/key'' = ''key''" by code_simp
    with Join_plain [OF n(1) False] base_name_prefix [OF n(2), of dir] eq show False by simp
  qed
qed

lemma race_disk_temps: "private_temps race_disk"
proof -
  have "dk_suffix race_disk k = ''7''" for k by (simp add: race_disk_def)
  then show ?thesis
    using sample_temp race_disk_other unfolding private_temps_def leaves_alone_def by (simp add: is_digit_def)
qed

lemma race_disk_keeps: "keeps race_disk (keyPath sample_store)"
  unfolding sample_store_key by (simp add: keeps_def race_disk_def)

theorem profile_key_agreed_witness:
  "fst (ProfileKey sample_lib sample_store race_disk) = Inr (''theirs'', BareKey ''theirs'')
   \<and> (\<exists>f. map_of (dk_files (snd (ProfileKey sample_lib sample_store race_disk))) (keyPath sample_store) = Some f \<and> f_data f = ''theirs'')"
proof -
  have law: "key_lib_law sample_lib" by (simp add: key_lib_law_def sample_lib_def)
  have r: "fst (ProfileKey sample_lib sample_store race_disk) = Inr (''theirs'', BareKey ''theirs'')" by code_simp
  then have "ProfileKey sample_lib sample_store race_disk = (Inr (''theirs'', BareKey ''theirs''), snd (ProfileKey sample_lib sample_store race_disk))"
    by (metis prod.collapse)
  from conjunct1 [OF profile_key_agreed [OF sample_store_opened law race_disk_temps race_disk_keeps this]] r
  show ?thesis by (auto simp: parse_profile_key_def sample_lib_def)
qed

section \<open>Certificates read back\<close>

lemma temp_not_cert:
  assumes "private_temps d" and "opened s" and "validateDevice device = None"
  shows "certPath s device \<noteq> temp_path (Dir p) d"
proof -
  have "sep \<notin> set (device @ ''.cert'')" using valid_device_sep [OF assms(3)] by (simp add: sep_def)
  then have "base_name (certPath s device) = device @ ''.cert''" using base_name_prefix store_paths(2) [OF assms(2,3)] by simp
  moreover have "base_name (temp_path (Dir p) d) = ''.atomicfile-'' @ dk_suffix d (dk_tick d)" using temp_base(1) [OF assms(1)] by simp
  moreover have "device @ ''.cert'' \<noteq> ''.atomicfile-'' @ dk_suffix d (dk_tick d)"
  proof
    assume "device @ ''.cert'' = ''.atomicfile-'' @ dk_suffix d (dk_tick d)"
    then have "last (''.atomicfile-'' @ dk_suffix d (dk_tick d)) = CHR ''t''" by (metis last_appendR last.simps list.distinct(1))
    moreover have "list_all is_digit (dk_suffix d (dk_tick d))" using assms(1) by (simp add: private_temps_def)
    ultimately show False using not_digits by (cases "dk_suffix d (dk_tick d) = []") (auto simp: list_all_iff dest: last_in_set)
  qed
  ultimately show ?thesis by metis
qed

lemma ProfileKey_found:
  assumes "no_faults d" and "keeps d (keyPath s)" and "map_of (dk_files d) (keyPath s) = Some f" and "parse_profile_key lib (f_data f) = Inr kp"
  shows "\<exists>d'. ProfileKey lib s d = (Inr kp, d') \<and> dk_tick d' = Suc (dk_tick d)"
proof -
  have "map_of (dk_other d (dk_tick d) (dk_files d)) (keyPath s) = Some f" using assms(2,3) by (simp add: keeps_def)
  from os_ReadFile_found [OF assms(1) this] assms(4) show ?thesis by (auto simp: ProfileKey_def loadProfileKey_def)
qed

text \<open>What a successful \<open>PutCert\<close> leaves on the disk.\<close>

lemma PutCert_stored:
  assumes "opened s" and "key_lib_law lib" and "private_temps d" and "keeps d (keyPath s)" and "PutCert lib s device (Some cert) d = (None, d')"
  shows "validateDevice device = None \<and> same_env d d'
    \<and> map_of (dk_files d') (certPath s device) = Some \<lparr>f_data = kl_MarshalAuthorizedKey lib cert, f_mode = 420\<rparr>
    \<and> (\<exists>f priv pub. map_of (dk_files d') (keyPath s) = Some f \<and> parse_profile_key lib (f_data f) = Inr (priv, pub)
         \<and> kl_Marshal lib (crt_Key cert) = kl_Marshal lib pub)"
proof -
  from assms(5) obtain priv pub d1 where dev: "validateDevice device = None" and pk: "ProfileKey lib s d = (Inr (priv, pub), d1)"
    and eq: "kl_Marshal lib (crt_Key cert) = kl_Marshal lib pub"
    and w: "WriteFile (certPath s device) (kl_MarshalAuthorizedKey lib cert) 420 d1 = (None, d')"
    by (auto simp: PutCert_def publicKeysEqual_def split: option.splits prod.splits sum.splits if_splits)
  from ProfileKey_effect [OF assms(1,3,4,2) pk, of "(priv, pub)"] obtain f where run: "runs (steady (keyPath s)) d d1"
    and f: "map_of (dk_files d1) (keyPath s) = Some f" "parse_profile_key lib (f_data f) = Inr (priv, pub)" by auto
  have env: "same_env d d1" by (rule runs_env [OF run])
  have p1: "private_temps d1" "keeps d1 (keyPath s)" using assms(3,4) private_temps_env [OF env] env_conditions(2) [OF env] by simp_all
  let ?tmp = "temp_path (Dir (certPath s device)) d1"
  have ne: "certPath s device \<noteq> ?tmp" by (rule temp_not_cert [OF p1(1) assms(1) dev])
  have kt: "keyPath s \<noteq> ?tmp"
    using temp_base(1) [OF p1(1) Dir_nonempty, of "certPath s device"] base_name_prefix [of "''key''" "profileDir s"] store_paths(1) [OF assms(1)]
    by (auto simp: sep_def)
  from WriteFile_effect [OF temp_base(2) [OF p1(1) Dir_nonempty] ne w]
  have run': "runs (replaces ?tmp (certPath s device) \<lparr>f_data = kl_MarshalAuthorizedKey lib cert, f_mode = 420\<rparr> True) d1 d'"
    and stored: "map_of (dk_files d') (certPath s device) = Some \<lparr>f_data = kl_MarshalAuthorizedKey lib cert, f_mode = 420\<rparr>" by simp_all
  have "map_of (dk_files d') (keyPath s) = Some f"
    by (rule runs_keeps [OF run' _ p1(2) f(1)])
      (use replaces_steady [OF _ kt] cert_path_not_key [OF assms(1) dev] in \<open>auto simp: steady_def\<close>)
  with f dev stored eq env runs_env [OF run'] show ?thesis by (auto simp: same_env_def)
qed

text \<open>
  C33: what \<open>PutCert\<close> stored, \<open>GetCert\<close> returns: the same certificate, with its remaining validity, or with
  \<open>ErrExpired\<close> when there is none left. The key of the profile is the one it was checked against, although
  other processes may have created it; no call fails and the file of the device is left alone.
\<close>

theorem cert_cache_roundtrip:
  assumes "opened s" and "key_lib_law lib" and "kl_ParseAuthorizedKey lib (kl_MarshalAuthorizedKey lib cert) = Inr (Parsed_Certificate cert)" and "private_temps d" and "keeps d (keyPath s)" and "no_faults d"
    and "leaves_alone d (certPath s device)" and "PutCert lib s device (Some cert) d = (None, d')"
  shows "fst (GetCert lib s device d') =
    (let remaining = time_Sub (cert_time (crt_ValidBefore cert)) (cs_now s (dk_tick d' + 2))
     in if remaining \<le> 0 then (Some cert, 0, Some ErrExpired) else (Some cert, remaining, None))"
proof -
  from PutCert_stored [OF assms(1,2,4,5,8)] obtain f priv pub where dev: "validateDevice device = None" and env: "same_env d d'"
    and stored: "map_of (dk_files d') (certPath s device) = Some \<lparr>f_data = kl_MarshalAuthorizedKey lib cert, f_mode = 420\<rparr>"
    and f: "map_of (dk_files d') (keyPath s) = Some f" "parse_profile_key lib (f_data f) = Inr (priv, pub)"
    and eq: "kl_Marshal lib (crt_Key cert) = kl_Marshal lib pub" by blast
  have c: "no_faults d'" "keeps d' (keyPath s)" "leaves_alone d' (certPath s device)"
    using assms(5-7) env by (simp_all add: no_faults_def same_env_def keeps_def leaves_alone_def)
  from stored c(3) have "map_of (dk_other d' (dk_tick d') (dk_files d')) (certPath s device) = Some \<lparr>f_data = kl_MarshalAuthorizedKey lib cert, f_mode = 420\<rparr>"
    by (simp add: leaves_alone_def)
  from os_ReadFile_found [OF c(1) this] obtain d1 where
    d1: "os_ReadFile (certPath s device) d' = (Inr (kl_MarshalAuthorizedKey lib cert), d1)" "dk_files d1 = dk_other d' (dk_tick d') (dk_files d')"
      "same_env d' d1" "dk_tick d1 = Suc (dk_tick d')" by auto
  have "loadCert lib (certPath s device) d' = (Inr cert, d1)"
    using d1(1) assms(3) by (simp add: loadCert_def parse_cert_def)
  moreover have "map_of (dk_files d1) (keyPath s) = Some f" using f(1) c(2) d1(2) by (simp add: keeps_def)
  then obtain d2 where "ProfileKey lib s d1 = (Inr (priv, pub), d2)" "dk_tick d2 = Suc (dk_tick d1)"
    using ProfileKey_found [of d1 s f lib "(priv, pub)"] f(2) c(1,2) d1(3) by (auto simp: no_faults_def same_env_def keeps_def)
  ultimately show ?thesis using dev eq d1(4) by (simp add: GetCert_def publicKeysEqual_def Let_def)
qed

definition sample_cert :: Certificate where
  "sample_cert = \<lparr>crt_Key = BareKey ''theirs'', crt_Serial = 0, crt_CertType = UserCert, crt_KeyId = [], crt_ValidPrincipals = [], crt_ValidAfter = 0, crt_ValidBefore = 5,
     crt_CriticalOptions = [], crt_Extensions = [], crt_Signature = []\<rparr>"

definition sample_cert_lib :: key_lib where
  "sample_cert_lib = sample_lib\<lparr>kl_MarshalAuthorizedKey := (\<lambda>c. ''cert''), kl_ParseAuthorizedKey := (\<lambda>s. Inr (Parsed_Certificate sample_cert))\<rparr>"

theorem cert_cache_roundtrip_witness:
  "fst (GetCert sample_cert_lib sample_store ''dev'' (snd (PutCert sample_cert_lib sample_store ''dev'' (Some sample_cert) race_disk)))
     = (Some sample_cert, 5000000000, None)"
proof -
  let ?put = "PutCert sample_cert_lib sample_store ''dev'' (Some sample_cert) race_disk"
  have r: "fst ?put = None" by code_simp
  then have "?put = (None, snd ?put)" by (metis prod.collapse)
  moreover have "key_lib_law sample_cert_lib" by (simp add: key_lib_law_def sample_cert_lib_def sample_lib_def)
  moreover have "no_faults race_disk" by (simp add: no_faults_def race_disk_def)
  moreover have "certPath sample_store ''dev'' = ''b/p/dev.cert''" by code_simp
  then have "leaves_alone race_disk (certPath sample_store ''dev'')" by (simp add: leaves_alone_def race_disk_other)
  moreover have "kl_ParseAuthorizedKey sample_cert_lib (kl_MarshalAuthorizedKey sample_cert_lib sample_cert) = Inr (Parsed_Certificate sample_cert)"
    by (simp add: sample_cert_lib_def)
  moreover have "time_Sub (cert_time (crt_ValidBefore sample_cert)) (cs_now sample_store n) = 5000000000" for n
  proof -
    have "time_Sub (cert_time (crt_ValidBefore sample_cert)) 0 = 5000000000" by code_simp
    then show ?thesis by (simp add: sample_store_def)
  qed
  ultimately show ?thesis
    using cert_cache_roundtrip [OF sample_store_opened _ _ race_disk_temps race_disk_keeps, of sample_cert_lib sample_cert "''dev''" "snd ?put"]
    by (simp add: Let_def)
qed

section \<open>Pruning\<close>

text \<open>The certificate that the cache reads from a path.\<close>

definition cert_at :: "key_lib \<Rightarrow> files \<Rightarrow> string \<Rightarrow> Certificate option" where
  "cert_at lib fs path = (case map_of fs path of None \<Rightarrow> None | Some f \<Rightarrow> (case parse_cert lib (f_data f) of Inl e \<Rightarrow> None | Inr c \<Rightarrow> Some c))"

lemma calm_loadCert:
  assumes "calm d"
  shows "\<exists>r d'. loadCert lib path d = (r, d') \<and> calm d' \<and> dk_files d' = dk_files d
    \<and> (case cert_at lib (dk_files d) path of None \<Rightarrow> \<exists>e. r = Inl e | Some c \<Rightarrow> r = Inr c)"
  using calm_ReadFile [OF assms, of path]
  by (auto simp: loadCert_def cert_at_def split: option.splits sum.splits)

lemma calm_list_certs:
  assumes "calm d"
  shows "\<exists>es d'. list_certs lib dir names d = (es, d') \<and> calm d' \<and> dk_files d' = dk_files d
    \<and> (\<forall>p t. (\<exists>e \<in> set es. en_CertPath e = p \<and> en_ValidBefore e = t) \<longleftrightarrow>
         (\<exists>name \<in> set names. suffix certFileSuffix name \<and> p = Join dir name
            \<and> (\<exists>c. cert_at lib (dk_files d) p = Some c \<and> t = cert_time (crt_ValidBefore c))))"
  using assms
proof (induction names arbitrary: d)
  case (Cons name names)
  show ?case
  proof (cases "CutSuffix name certFileSuffix")
    case None
    then have "\<not> suffix certFileSuffix name" by (auto simp: CutSuffix_def split: if_splits)
    with None Cons.IH [OF Cons.prems] show ?thesis by auto
  next
    case (Some device)
    then have suf: "suffix certFileSuffix name" by (auto simp: CutSuffix_def split: if_splits)
    from calm_loadCert [OF Cons.prems, of lib "Join dir name"] obtain r d1 where
      r: "loadCert lib (Join dir name) d = (r, d1)" "calm d1" "dk_files d1 = dk_files d"
        "case cert_at lib (dk_files d) (Join dir name) of None \<Rightarrow> \<exists>e. r = Inl e | Some c \<Rightarrow> r = Inr c" by blast
    from Cons.IH [OF r(2)] r(3) obtain es d2 where
      es: "list_certs lib dir names d1 = (es, d2)" "calm d2" "dk_files d2 = dk_files d"
        "\<forall>p t. (\<exists>e \<in> set es. en_CertPath e = p \<and> en_ValidBefore e = t) \<longleftrightarrow>
         (\<exists>name \<in> set names. suffix certFileSuffix name \<and> p = Join dir name
            \<and> (\<exists>c. cert_at lib (dk_files d) p = Some c \<and> t = cert_time (crt_ValidBefore c)))" by auto
    show ?thesis
    proof (cases "cert_at lib (dk_files d) (Join dir name)")
      case None
      with r(4) obtain e where "r = Inl e" by auto
      with Some r(1) es None show ?thesis by auto
    next
      case (Some c)
      with r(4) have r': "r = Inr c" by simp
      let ?e = "\<lparr>en_Device = device, en_CertPath = Join dir name, en_ValidAfter = cert_time (crt_ValidAfter c),
        en_ValidBefore = cert_time (crt_ValidBefore c), en_SerialNumber = crt_Serial c, en_KeyID = crt_KeyId c, en_Principals = crt_ValidPrincipals c\<rparr>"
      let ?here = "\<lambda>p t. p = Join dir name \<and> t = cert_time (crt_ValidBefore c)"
      have "list_certs lib dir (name # names) d = (?e # es, d2)"
        using \<open>CutSuffix name certFileSuffix = Some device\<close> r(1) r' es(1) by simp
      moreover have "(\<exists>e \<in> set (?e # es). en_CertPath e = p \<and> en_ValidBefore e = t) \<longleftrightarrow>
        ?here p t \<or> (\<exists>e \<in> set es. en_CertPath e = p \<and> en_ValidBefore e = t)" for p t by auto
      moreover have "(\<exists>n \<in> set (name # names). suffix certFileSuffix n \<and> p = Join dir n
          \<and> (\<exists>c. cert_at lib (dk_files d) p = Some c \<and> t = cert_time (crt_ValidBefore c))) \<longleftrightarrow>
        ?here p t \<or> (\<exists>n \<in> set names. suffix certFileSuffix n \<and> p = Join dir n
          \<and> (\<exists>c. cert_at lib (dk_files d) p = Some c \<and> t = cert_time (crt_ValidBefore c)))" for p t
        using Some suf by auto
      ultimately show ?thesis using es(2-4) by (intro exI [of _ "?e # es"] exI [of _ d2]) (simp only: simp_thms)
    qed
  qed
qed simp

lemma calm_prune:
  assumes "calm d"
  shows "\<exists>ps d'. prune now es d = ((ps, None), d') \<and> calm d' \<and> set ps = en_Device ` {e \<in> set es. en_ValidBefore e \<le> now}
    \<and> (\<forall>q. map_of (dk_files d') q = (if \<exists>e \<in> set es. en_CertPath e = q \<and> en_ValidBefore e \<le> now then None else map_of (dk_files d) q))"
  using assms
proof (induction es arbitrary: d)
  case (Cons e es)
  show ?case
  proof (cases "now < en_ValidBefore e")
    case True
    then have "\<not> en_ValidBefore e \<le> now" by simp
    with True Cons.IH [OF Cons.prems] show ?thesis by auto
  next
    case False
    from calm_Remove [OF Cons.prems, of "en_CertPath e"] obtain r d1 where
      r: "os_Remove (en_CertPath e) d = (r, d1)" "calm d1" "map_of (dk_files d1) = (map_of (dk_files d))(en_CertPath e := None)"
        "\<forall>e. r = Some e \<longrightarrow> errors_Is e os_ErrNotExist" by blast
    from Cons.IH [OF r(2)] obtain ps d2 where
      ps: "prune now es d1 = ((ps, None), d2)" "calm d2" "set ps = en_Device ` {e \<in> set es. en_ValidBefore e \<le> now}"
        "\<forall>q. map_of (dk_files d2) q = (if \<exists>e \<in> set es. en_CertPath e = q \<and> en_ValidBefore e \<le> now then None else map_of (dk_files d1) q)" by blast
    have "prune now (e # es) d = ((en_Device e # ps, None), d2)" using False r(1,4) ps(1) by (auto split: option.splits)
    with ps False r(3) show ?thesis by (auto simp: image_iff)
  qed
qed simp

lemma names_in_iff: "name \<in> set (names_in dir fs) \<longleftrightarrow> name \<noteq> [] \<and> sep \<notin> set name \<and> map_of fs (dir_prefix dir @ name) \<noteq> None"
proof -
  have "map_of fs (dir_prefix dir @ name) \<noteq> None \<longleftrightarrow> dir_prefix dir @ name \<in> fst ` set fs" by (simp add: map_of_eq_None_iff)
  then show ?thesis by (auto simp: names_in_def prefix_def image_iff) force+
qed

text \<open>
  Pruning removes exactly what it says. On a disk where nothing fails, the files that disappear are
  the certificates of the profile that can be read and whose validity has ended, and no other file: a
  certificate that is still valid, a file that is no certificate and the key of the profile stay.
\<close>

theorem prune_exact:
  assumes "opened s" and "calm d" and "PruneExpired lib s now d = ((pruned, x), d')" and "now \<noteq> zero_time"
  shows "x = None
    \<and> (\<forall>q. map_of (dk_files d') q =
         (if (\<exists>device. sep \<notin> set device \<and> q = dir_prefix (profileDir s) @ device @ ''.cert'')
             \<and> (\<exists>cert. cert_at lib (dk_files d) q = Some cert \<and> cert_time (crt_ValidBefore cert) \<le> now)
          then None else map_of (dk_files d) q))
    \<and> map_of (dk_files d') (keyPath s) = map_of (dk_files d) (keyPath s)"
proof -
  let ?dir = "profileDir s"
  have dir: "?dir \<noteq> []" using assms(1) by (simp add: profileDir_def opened_def Join_nonempty)
  from assms(2) obtain d1 where rd: "os_ReadDir ?dir d = (Inr (names_in ?dir (dk_files d)), d1)" "calm d1" "dk_files d1 = dk_files d"
    by (auto simp: os_ReadDir_def syscall_def calm_def no_faults_def Let_def)
  from calm_list_certs [OF rd(2), of lib ?dir "names_in ?dir (dk_files d)"] rd(3) obtain es d2 where
    es: "list_certs lib ?dir (names_in ?dir (dk_files d)) d1 = (es, d2)" "calm d2" "dk_files d2 = dk_files d"
    and mem: "\<And>p t. (\<exists>e \<in> set es. en_CertPath e = p \<and> en_ValidBefore e = t) \<longleftrightarrow>
      (\<exists>name \<in> set (names_in ?dir (dk_files d)). suffix certFileSuffix name \<and> p = Join ?dir name
         \<and> (\<exists>c. cert_at lib (dk_files d) p = Some c \<and> t = cert_time (crt_ValidBefore c)))" by auto
  have name: "(\<exists>name \<in> set (names_in ?dir (dk_files d)). suffix certFileSuffix name \<and> q = Join ?dir name) \<longleftrightarrow>
      (\<exists>device. sep \<notin> set device \<and> q = dir_prefix ?dir @ device @ ''.cert'')" if "cert_at lib (dk_files d) q = Some c" for q c
  proof -
    have found: "map_of (dk_files d) q \<noteq> None" using that by (auto simp: cert_at_def split: option.splits)
    have join: "Join ?dir (device @ ''.cert'') = dir_prefix ?dir @ device @ ''.cert''" if "sep \<notin> set device" for device
      using Join_plain [of "device @ ''.cert''" ?dir] that dir by (simp add: plain_name_def sep_def append_eq_Cons_conv)
    show ?thesis
    proof
      assume "\<exists>name \<in> set (names_in ?dir (dk_files d)). suffix certFileSuffix name \<and> q = Join ?dir name"
      then obtain device where "sep \<notin> set device" "q = Join ?dir (device @ ''.cert'')"
        by (auto simp: names_in_iff suffix_def certFileSuffix_def)
      with join show "\<exists>device. sep \<notin> set device \<and> q = dir_prefix ?dir @ device @ ''.cert''" by metis
    next
      assume "\<exists>device. sep \<notin> set device \<and> q = dir_prefix ?dir @ device @ ''.cert''"
      then obtain device where dev: "sep \<notin> set device" "q = dir_prefix ?dir @ device @ ''.cert''" by blast
      then have "device @ ''.cert'' \<in> set (names_in ?dir (dk_files d))" using found by (simp add: names_in_iff sep_def)
      with join [OF dev(1)] dev(2) show "\<exists>name \<in> set (names_in ?dir (dk_files d)). suffix certFileSuffix name \<and> q = Join ?dir name"
        by (intro bexI [of _ "device @ ''.cert''"]) (simp_all add: certFileSuffix_def suffix_def)
    qed
  qed
  from calm_prune [OF es(2), of now "sort_key en_Device es", unfolded set_sort es(3)] obtain ps d3 where
    pr: "prune now (sort_key en_Device es) d2 = ((ps, None), d3)"
    and files: "\<And>q. map_of (dk_files d3) q = (if \<exists>e \<in> set es. en_CertPath e = q \<and> en_ValidBefore e \<le> now then None else map_of (dk_files d) q)"
    by blast
  have "PruneExpired lib s now d = ((sort ps, None), d3)" using assms(4) rd(1) es(1) pr by (simp add: PruneExpired_def ListEntries_def Let_def)
  then have res: "x = None" "d' = d3" using assms(3) by simp_all
  have expired: "(\<exists>e \<in> set es. en_CertPath e = q \<and> en_ValidBefore e \<le> now) \<longleftrightarrow>
      (\<exists>device. sep \<notin> set device \<and> q = dir_prefix ?dir @ device @ ''.cert'') \<and> (\<exists>c. cert_at lib (dk_files d) q = Some c \<and> cert_time (crt_ValidBefore c) \<le> now)" for q
    using mem [of q] name [of q] by metis
  have "keyPath s \<noteq> dir_prefix ?dir @ device @ ''.cert''" for device
    using store_paths(1) [OF assms(1)] by (auto simp: append_eq_append_conv2)
  with res files expired show ?thesis by auto
qed

definition calm_disk :: disk where
  "calm_disk = \<lparr>dk_files = [(''b/p/key'', \<lparr>f_data = ''k'', f_mode = 384\<rparr>), (''b/p/dev.cert'', \<lparr>f_data = ''c'', f_mode = 420\<rparr>)], dk_dirs = [],
     dk_tick = 0, dk_other = (\<lambda>n fs. fs), dk_fault = (\<lambda>n. None), dk_suffix = (\<lambda>n. ''7''), dk_log = []\<rparr>"

theorem prune_exact_witness:
  "\<exists>pruned d'. PruneExpired sample_cert_lib sample_store 9000000000 calm_disk = ((pruned, None), d') \<and> map_of (dk_files d') ''b/p/dev.cert'' = None
     \<and> map_of (dk_files d') ''b/p/key'' = Some \<lparr>f_data = ''k'', f_mode = 384\<rparr>"
proof -
  obtain pruned x d' where p: "PruneExpired sample_cert_lib sample_store 9000000000 calm_disk = ((pruned, x), d')" by (metis prod.collapse)
  have c: "calm calm_disk" by (simp add: calm_def no_faults_def calm_disk_def)
  have z: "9000000000 \<noteq> zero_time" by code_simp
  have dir: "dir_prefix (profileDir sample_store) = ''b/p/''" by code_simp
  have "cert_at sample_cert_lib (dk_files calm_disk) ''b/p/dev.cert'' = Some sample_cert" "cert_time (crt_ValidBefore sample_cert) \<le> 9000000000" by code_simp+
  moreover have "\<exists>device. sep \<notin> set device \<and> ''b/p/dev.cert'' = ''b/p/'' @ device @ ''.cert''" by (rule exI [of _ "''dev''"]) (simp add: sep_def)
  ultimately show ?thesis
    using prune_exact [OF sample_store_opened c p z] p unfolding dir sample_store_key by (auto simp: calm_disk_def)
qed

end
