(* ===== verification/Token_Store.thy ===== *)
theory Token_Store
  imports File_System SSH_Cert Go_JSON
begin

text \<open>
  The token stores of the client (src/internal/tokenstore): the state of a login per profile, kept in a JSON
  file or in three entries of the keyring of the operating system. The interface \<open>Store\<close> is the locale
  \<open>token_store\<close>; both implementations satisfy it, the keyring one for every keyring that behaves as documented.
\<close>

section \<open>The state of a login\<close>

record State =
  ts_Version :: int
  ts_IDPIssuer :: string
  ts_IDPClientID :: string
  ts_AccessToken :: string
  ts_RefreshToken :: string
  ts_RefreshTokenExpiresAt :: int
  ts_Subject :: string
  ts_Email :: string
  ts_IssuedAt :: int

definition zero_state :: State where
  "zero_state = \<lparr>ts_Version = 0, ts_IDPIssuer = [], ts_IDPClientID = [], ts_AccessToken = [], ts_RefreshToken = [],
     ts_RefreshTokenExpiresAt = 0, ts_Subject = [], ts_Email = [], ts_IssuedAt = 0\<rparr>"

definition StateVersion :: int where "StateVersion = 1"

definition ErrNotFound :: go_error where "ErrNotFound = Plain ''token state not found''"
definition ErrUnsupportedStateVersion :: go_error where "ErrUnsupportedStateVersion = Plain ''unsupported token state version''"
definition ErrProfileNameRequired :: go_error where "ErrProfileNameRequired = Plain ''profile name is required''"
definition ErrTokenStateIDPIssuerRequired :: go_error where "ErrTokenStateIDPIssuerRequired = Plain ''idp issuer is required''"
definition ErrTokenStateClientIDRequired :: go_error where "ErrTokenStateClientIDRequired = Plain ''idp client id is required''"
definition ErrTokenStateRefreshTokenRequired :: go_error where "ErrTokenStateRefreshTokenRequired = Plain ''refresh token is required''"

definition trimState :: "State \<Rightarrow> State" where
  "trimState st = st\<lparr>ts_IDPIssuer := TrimSpace (ts_IDPIssuer st), ts_IDPClientID := TrimSpace (ts_IDPClientID st),
     ts_AccessToken := TrimSpace (ts_AccessToken st), ts_RefreshToken := TrimSpace (ts_RefreshToken st),
     ts_Subject := TrimSpace (ts_Subject st), ts_Email := TrimSpace (ts_Email st)\<rparr>"

definition validateState :: "State \<Rightarrow> go_error option" where
  "validateState st =
     (if ts_Version st \<noteq> StateVersion then Some (Wrapped [] ErrUnsupportedStateVersion)
      else errors_Join
        [if ts_IDPIssuer st = [] then Some ErrTokenStateIDPIssuerRequired else None,
         if ts_IDPClientID st = [] then Some ErrTokenStateClientIDRequired else None,
         if ts_RefreshToken st = [] then Some ErrTokenStateRefreshTokenRequired else None])"

definition default_version :: "State \<Rightarrow> State" where
  "default_version st = (if ts_Version st = 0 then st\<lparr>ts_Version := StateVersion\<rparr> else st)"

definition requireProfileName :: "string \<Rightarrow> string result" where
  "requireProfileName raw = (let profile = TrimSpace raw in if profile = [] then Inl ErrProfileNameRequired else Inr profile)"

subsection \<open>JSON\<close>

definition member_string :: "string \<Rightarrow> string \<Rightarrow> string \<times> json" where
  "member_string k s = (k, JString s)"
definition member_int :: "string \<Rightarrow> int \<Rightarrow> string \<times> json" where
  "member_int k i = (k, JNumber (FormatInt i))"

text \<open>\<open>omitempty\<close>.\<close>

definition omit_string :: "string \<Rightarrow> string \<Rightarrow> (string \<times> json) list" where
  "omit_string k s = (if s = [] then [] else [member_string k s])"
definition omit_int :: "string \<Rightarrow> int \<Rightarrow> (string \<times> json) list" where
  "omit_int k i = (if i = 0 then [] else [member_int k i])"

definition state_members :: "State \<Rightarrow> (string \<times> json) list" where
  "state_members st =
     [member_int ''version'' (ts_Version st), member_string ''idp_issuer'' (ts_IDPIssuer st), member_string ''idp_client_id'' (ts_IDPClientID st)]
     @ omit_string ''access_token'' (ts_AccessToken st)
     @ [member_string ''refresh_token'' (ts_RefreshToken st)]
     @ omit_int ''refresh_token_expires_at'' (ts_RefreshTokenExpiresAt st)
     @ omit_string ''subject'' (ts_Subject st) @ omit_string ''email'' (ts_Email st)
     @ [member_int ''issued_at'' (ts_IssuedAt st)]"

definition state_fields :: "State json_field list" where
  "state_fields =
     [(''version'', set_int64 (\<lambda>i st. st\<lparr>ts_Version := i\<rparr>)), (''idp_issuer'', set_string (\<lambda>s st. st\<lparr>ts_IDPIssuer := s\<rparr>)),
      (''idp_client_id'', set_string (\<lambda>s st. st\<lparr>ts_IDPClientID := s\<rparr>)), (''access_token'', set_string (\<lambda>s st. st\<lparr>ts_AccessToken := s\<rparr>)),
      (''refresh_token'', set_string (\<lambda>s st. st\<lparr>ts_RefreshToken := s\<rparr>)),
      (''refresh_token_expires_at'', set_int64 (\<lambda>i st. st\<lparr>ts_RefreshTokenExpiresAt := i\<rparr>)),
      (''subject'', set_string (\<lambda>s st. st\<lparr>ts_Subject := s\<rparr>)), (''email'', set_string (\<lambda>s st. st\<lparr>ts_Email := s\<rparr>)),
      (''issued_at'', set_int64 (\<lambda>i st. st\<lparr>ts_IssuedAt := i\<rparr>))]"

definition json_error :: go_error where "json_error = Plain ''json''"

definition encodeState :: "State \<Rightarrow> string result" where
  "encodeState st0 =
     (let st = trimState (default_version st0)
      in case validateState st of Some err \<Rightarrow> Inl err | None \<Rightarrow> Inr (json_print (JObject (state_members st))))"

definition decodeState :: "string \<Rightarrow> State result" where
  "decodeState data =
     (case json_Unmarshal state_fields zero_state data of
        None \<Rightarrow> Inl json_error
      | Some st0 \<Rightarrow>
          if ts_Version st0 \<noteq> StateVersion then Inl (Wrapped [] ErrUnsupportedStateVersion)
          else let st = trimState st0 in (case validateState st of Some err \<Rightarrow> Inl err | None \<Rightarrow> Inr st))"

section \<open>The file store\<close>

definition state_path :: "string \<Rightarrow> string \<Rightarrow> string result" where
  "state_path rawDir rawProfile =
     (case requireProfileName rawProfile of
        Inl err \<Rightarrow> Inl err
      | Inr profile \<Rightarrow>
          let dir = TrimSpace rawDir in
          if dir = [] then Inl (Plain ''token state directory is required'')
          else Inr (Join dir (''state-'' @ PathEscape profile @ ''.json'')))"

definition File_Load :: "string \<Rightarrow> string \<Rightarrow> disk \<Rightarrow> State result \<times> disk" where
  "File_Load dir profile d =
     (case state_path dir profile of
        Inl err \<Rightarrow> (Inl err, d)
      | Inr path \<Rightarrow>
          (case os_ReadFile path d of
             (Inl err, d1) \<Rightarrow> (Inl (if errors_Is err os_ErrNotExist then ErrNotFound else err), d1)
           | (Inr data, d1) \<Rightarrow>
               (case decodeState data of
                  Inl err \<Rightarrow> (Inl (Wrapped ''decode token state: '' err), d1)
                | Inr st \<Rightarrow> (Inr st, d1))))"

definition File_Save :: "string \<Rightarrow> string \<Rightarrow> State \<Rightarrow> disk \<Rightarrow> go_error option \<times> disk" where
  "File_Save sdir profile st d =
     (case state_path sdir profile of
        Inl err \<Rightarrow> (Some err, d)
      | Inr path \<Rightarrow>
          let dir = Dir path in
          (case os_MkdirAll dir 448 d of
             (Some err, d1) \<Rightarrow> (Some err, d1)
           | (None, d1) \<Rightarrow>
               (case os_Chmod dir 448 d1 of
                  (Some err, d2) \<Rightarrow> (Some err, d2)
                | (None, d2) \<Rightarrow>
                    (case encodeState st of
                       Inl err \<Rightarrow> (Some err, d2)
                     | Inr data \<Rightarrow> WriteFile path data 384 d2))))"

definition File_Delete :: "string \<Rightarrow> string \<Rightarrow> disk \<Rightarrow> go_error option \<times> disk" where
  "File_Delete dir profile d =
     (case state_path dir profile of
        Inl err \<Rightarrow> (Some err, d)
      | Inr path \<Rightarrow>
          (case os_Remove path d of
             (Some err, d1) \<Rightarrow> (if errors_Is err os_ErrNotExist then None else Some err, d1)
           | (None, d1) \<Rightarrow> (None, d1)))"

section \<open>The keyring store\<close>

record 'w keyring =
  kr_Get :: "string \<Rightarrow> string \<Rightarrow> 'w \<Rightarrow> string result \<times> 'w"
  kr_Set :: "string \<Rightarrow> string \<Rightarrow> string \<Rightarrow> 'w \<Rightarrow> go_error option \<times> 'w"
  kr_Delete :: "string \<Rightarrow> string \<Rightarrow> 'w \<Rightarrow> go_error option \<times> 'w"

definition keyring_ErrNotFound :: go_error where "keyring_ErrNotFound = Plain ''secret not found in keyring''"

definition defaultServiceName :: string where "defaultServiceName = ''postern''"
definition accessTokenKeySuffix :: string where "accessTokenKeySuffix = ''access-token''"
definition refreshTokenKeySuffix :: string where "refreshTokenKeySuffix = ''refresh-token''"
definition metadataKeySuffix :: string where "metadataKeySuffix = ''metadata''"

definition newKeychain :: "string \<Rightarrow> string" where
  "newKeychain raw = (let service = TrimSpace raw in if service = [] then defaultServiceName else service)"

definition keychain_key :: "string \<Rightarrow> string \<Rightarrow> string" where
  "keychain_key profile sfx = profile @ '':'' @ sfx"

definition keyringLoadError :: "go_error \<Rightarrow> go_error" where
  "keyringLoadError err = (if errors_Is err keyring_ErrNotFound then ErrNotFound else err)"

text \<open>\<open>keychainMetadata\<close> has the fields of the state but the two tokens.\<close>

definition metadata_members :: "State \<Rightarrow> (string \<times> json) list" where
  "metadata_members st =
     [member_int ''version'' (ts_Version st), member_string ''idp_issuer'' (ts_IDPIssuer st), member_string ''idp_client_id'' (ts_IDPClientID st)]
     @ omit_int ''refresh_token_expires_at'' (ts_RefreshTokenExpiresAt st)
     @ omit_string ''subject'' (ts_Subject st) @ omit_string ''email'' (ts_Email st)
     @ [member_int ''issued_at'' (ts_IssuedAt st)]"

definition metadata_fields :: "State json_field list" where
  "metadata_fields =
     [(''version'', set_int64 (\<lambda>i st. st\<lparr>ts_Version := i\<rparr>)), (''idp_issuer'', set_string (\<lambda>s st. st\<lparr>ts_IDPIssuer := s\<rparr>)),
      (''idp_client_id'', set_string (\<lambda>s st. st\<lparr>ts_IDPClientID := s\<rparr>)),
      (''refresh_token_expires_at'', set_int64 (\<lambda>i st. st\<lparr>ts_RefreshTokenExpiresAt := i\<rparr>)),
      (''subject'', set_string (\<lambda>s st. st\<lparr>ts_Subject := s\<rparr>)), (''email'', set_string (\<lambda>s st. st\<lparr>ts_Email := s\<rparr>)),
      (''issued_at'', set_int64 (\<lambda>i st. st\<lparr>ts_IssuedAt := i\<rparr>))]"

definition keychain_state :: "string \<Rightarrow> string \<Rightarrow> string \<Rightarrow> State result" where
  "keychain_state metadataData refreshToken accessToken =
     (case json_Unmarshal metadata_fields zero_state metadataData of
        None \<Rightarrow> Inl (Wrapped ''decode token metadata: '' json_error)
      | Some metadata \<Rightarrow>
          let st = default_version (trimState (metadata\<lparr>ts_AccessToken := accessToken, ts_RefreshToken := refreshToken\<rparr>))
          in case validateState st of Some err \<Rightarrow> Inl (Wrapped ''decode token metadata: '' err) | None \<Rightarrow> Inr st)"

definition Keychain_Load :: "'w keyring \<Rightarrow> string \<Rightarrow> string \<Rightarrow> 'w \<Rightarrow> State result \<times> 'w" where
  "Keychain_Load kr service raw w =
     (case requireProfileName raw of
        Inl err \<Rightarrow> (Inl err, w)
      | Inr profile \<Rightarrow>
          (case kr_Get kr service (keychain_key profile metadataKeySuffix) w of
             (Inl err, w1) \<Rightarrow> (Inl (keyringLoadError err), w1)
           | (Inr metadataData, w1) \<Rightarrow>
               (case kr_Get kr service (keychain_key profile refreshTokenKeySuffix) w1 of
                  (Inl err, w2) \<Rightarrow> (Inl (keyringLoadError err), w2)
                | (Inr refreshToken, w2) \<Rightarrow>
                    (case kr_Get kr service (keychain_key profile accessTokenKeySuffix) w2 of (at, w3) \<Rightarrow>
                       case at of
                         Inl err \<Rightarrow>
                           if \<not> errors_Is err keyring_ErrNotFound then (Inl err, w3)
                           else (keychain_state metadataData refreshToken [], w3)
                       | Inr accessToken \<Rightarrow> (keychain_state metadataData refreshToken accessToken, w3)))))"

definition Keychain_Save :: "'w keyring \<Rightarrow> string \<Rightarrow> string \<Rightarrow> State \<Rightarrow> 'w \<Rightarrow> go_error option \<times> 'w" where
  "Keychain_Save kr service raw st0 w =
     (case requireProfileName raw of
        Inl err \<Rightarrow> (Some err, w)
      | Inr profile \<Rightarrow>
          let st = default_version st0 in
          (case validateState st of
             Some err \<Rightarrow> (Some err, w)
           | None \<Rightarrow>
               (case kr_Set kr service (keychain_key profile refreshTokenKeySuffix) (ts_RefreshToken st) w of
                  (Some err, w1) \<Rightarrow> (Some err, w1)
                | (None, w1) \<Rightarrow>
                    (case (if ts_AccessToken st \<noteq> [] then kr_Set kr service (keychain_key profile accessTokenKeySuffix) (ts_AccessToken st) w1
                           else (case kr_Delete kr service (keychain_key profile accessTokenKeySuffix) w1 of
                                   (Some err, w2) \<Rightarrow> (if errors_Is err keyring_ErrNotFound then None else Some err, w2)
                                 | (None, w2) \<Rightarrow> (None, w2))) of
                       (Some err, w2) \<Rightarrow> (Some err, w2)
                     | (None, w2) \<Rightarrow>
                         kr_Set kr service (keychain_key profile metadataKeySuffix) (json_print (JObject (metadata_members st))) w2))))"

fun delete_entries :: "'w keyring \<Rightarrow> string \<Rightarrow> string \<Rightarrow> string list \<Rightarrow> 'w \<Rightarrow> go_error option list \<times> 'w" where
  "delete_entries kr service profile [] w = ([], w)"
| "delete_entries kr service profile (sfx # rest) w =
     (case kr_Delete kr service (keychain_key profile sfx) w of (r, w1) \<Rightarrow>
      case delete_entries kr service profile rest w1 of (errs, w2) \<Rightarrow>
        ((case r of Some err \<Rightarrow> if errors_Is err keyring_ErrNotFound then None else Some err | None \<Rightarrow> None) # errs, w2))"

definition Keychain_Delete :: "'w keyring \<Rightarrow> string \<Rightarrow> string \<Rightarrow> 'w \<Rightarrow> go_error option \<times> 'w" where
  "Keychain_Delete kr service raw w =
     (case requireProfileName raw of
        Inl err \<Rightarrow> (Some err, w)
      | Inr profile \<Rightarrow>
          (case delete_entries kr service profile [accessTokenKeySuffix, refreshTokenKeySuffix, metadataKeySuffix] w of
             (errs, w1) \<Rightarrow> (errors_Join errs, w1)))"

section \<open>Reading back what was written\<close>

definition int64_range :: "int \<Rightarrow> bool" where
  "int64_range i \<longleftrightarrow> - (2 ^ 63) \<le> i \<and> i < 2 ^ 63"

text \<open>Strings are valid UTF-8, before and after trimming, and integers fit.\<close>

definition clean_string :: "string \<Rightarrow> bool" where
  "clean_string s \<longleftrightarrow> coerce_utf8 s = s \<and> coerce_utf8 (TrimSpace s) = TrimSpace s"

definition clean_state :: "State \<Rightarrow> bool" where
  "clean_state st \<longleftrightarrow> list_all clean_string [ts_IDPIssuer st, ts_IDPClientID st, ts_AccessToken st, ts_RefreshToken st, ts_Subject st, ts_Email st]
     \<and> list_all int64_range [ts_Version st, ts_RefreshTokenExpiresAt st, ts_IssuedAt st]"

definition member_clean :: "string \<times> json \<Rightarrow> bool" where
  "member_clean m \<longleftrightarrow> json_ok (snd m) \<and> json_coerce (snd m) = snd m \<and> coerce_utf8 (fst m) = fst m"

lemma members_unmarshal:
  assumes "list_all member_clean ms"
  shows "json_Unmarshal fs zero (json_print (JObject ms)) = json_bind False fs ms zero"
proof -
  have "json_ok (JObject ms)" "json_coerce (JObject ms) = JObject ms"
    using assms by (auto simp: list_all_iff member_clean_def intro!: map_idI)
  then show ?thesis using json_parse_print [of "JObject ms"] by (simp add: json_Unmarshal_def bind_value_def)
qed

lemma key_clean: "list_all is_ascii k \<Longrightarrow> coerce_utf8 k = k"
  by (rule coerce_utf8_ascii)

lemma member_clean_simps:
  "list_all is_ascii k \<Longrightarrow> member_clean (member_int k i)"
  "list_all is_ascii k \<Longrightarrow> coerce_utf8 s = s \<Longrightarrow> member_clean (member_string k s)"
  "list_all is_ascii k \<Longrightarrow> list_all member_clean (omit_int k i)"
  "list_all is_ascii k \<Longrightarrow> coerce_utf8 s = s \<Longrightarrow> list_all member_clean (omit_string k s)"
  by (simp_all add: member_clean_def member_int_def member_string_def omit_int_def omit_string_def key_clean number_lit_FormatInt)

lemma json_bind_append: "json_bind strict fs (xs @ ys) st = Option.bind (json_bind strict fs xs st) (json_bind strict fs ys)"
  by (induction strict fs xs st rule: json_bind.induct) (auto split: option.splits)

text \<open>Binding one member; an omitted one leaves the zero value.\<close>

lemma bind_int:
  assumes "find_field fs k = Some (set_int64 upd)" and "int64_range i"
  shows "json_bind False fs (member_int k i # ms) st = json_bind False fs ms (upd i st)"
    and "upd 0 st = st \<Longrightarrow> json_bind False fs (omit_int k i @ ms) st = json_bind False fs ms (upd i st)"
  using assms ParseInt64_FormatInt [of i] by (auto simp: member_int_def omit_int_def set_int64_def int64_range_def)

lemma bind_string:
  assumes "find_field fs k = Some (set_string upd)"
  shows "json_bind False fs (member_string k s # ms) st = json_bind False fs ms (upd s st)"
    and "upd [] st = st \<Longrightarrow> json_bind False fs (omit_string k s @ ms) st = json_bind False fs ms (upd s st)"
  using assms by (auto simp: member_string_def omit_string_def set_string_def)

lemma state_find:
  "find_field state_fields ''version'' = Some (set_int64 (\<lambda>i st. st\<lparr>ts_Version := i\<rparr>))"
  "find_field state_fields ''idp_issuer'' = Some (set_string (\<lambda>s st. st\<lparr>ts_IDPIssuer := s\<rparr>))"
  "find_field state_fields ''idp_client_id'' = Some (set_string (\<lambda>s st. st\<lparr>ts_IDPClientID := s\<rparr>))"
  "find_field state_fields ''access_token'' = Some (set_string (\<lambda>s st. st\<lparr>ts_AccessToken := s\<rparr>))"
  "find_field state_fields ''refresh_token'' = Some (set_string (\<lambda>s st. st\<lparr>ts_RefreshToken := s\<rparr>))"
  "find_field state_fields ''refresh_token_expires_at'' = Some (set_int64 (\<lambda>i st. st\<lparr>ts_RefreshTokenExpiresAt := i\<rparr>))"
  "find_field state_fields ''subject'' = Some (set_string (\<lambda>s st. st\<lparr>ts_Subject := s\<rparr>))"
  "find_field state_fields ''email'' = Some (set_string (\<lambda>s st. st\<lparr>ts_Email := s\<rparr>))"
  "find_field state_fields ''issued_at'' = Some (set_int64 (\<lambda>i st. st\<lparr>ts_IssuedAt := i\<rparr>))"
  by (simp_all add: find_field_def state_fields_def)

lemma metadata_find:
  "find_field metadata_fields ''version'' = Some (set_int64 (\<lambda>i st. st\<lparr>ts_Version := i\<rparr>))"
  "find_field metadata_fields ''idp_issuer'' = Some (set_string (\<lambda>s st. st\<lparr>ts_IDPIssuer := s\<rparr>))"
  "find_field metadata_fields ''idp_client_id'' = Some (set_string (\<lambda>s st. st\<lparr>ts_IDPClientID := s\<rparr>))"
  "find_field metadata_fields ''refresh_token_expires_at'' = Some (set_int64 (\<lambda>i st. st\<lparr>ts_RefreshTokenExpiresAt := i\<rparr>))"
  "find_field metadata_fields ''subject'' = Some (set_string (\<lambda>s st. st\<lparr>ts_Subject := s\<rparr>))"
  "find_field metadata_fields ''email'' = Some (set_string (\<lambda>s st. st\<lparr>ts_Email := s\<rparr>))"
  "find_field metadata_fields ''issued_at'' = Some (set_int64 (\<lambda>i st. st\<lparr>ts_IssuedAt := i\<rparr>))"
  by (simp_all add: find_field_def metadata_fields_def)

lemma state_roundtrip:
  assumes "clean_state st"
  shows "json_Unmarshal state_fields zero_state (json_print (JObject (state_members st))) = Some st"
proof -
  have "list_all member_clean (state_members st)"
    using assms by (simp add: state_members_def clean_state_def clean_string_def member_clean_simps is_ascii_def)
  moreover have "json_bind False state_fields (state_members st) zero_state = Some st"
    using assms
    by (simp add: state_members_def clean_state_def zero_state_def bind_int [OF state_find(1)] bind_int [OF state_find(6)]
        bind_int [OF state_find(9)] bind_string [OF state_find(2)] bind_string [OF state_find(3)] bind_string [OF state_find(4)]
        bind_string [OF state_find(5)] bind_string [OF state_find(7)] bind_string [OF state_find(8)])
  ultimately show ?thesis using members_unmarshal by metis
qed

lemma metadata_roundtrip:
  assumes "clean_state st"
  shows "json_Unmarshal metadata_fields zero_state (json_print (JObject (metadata_members st)))
    = Some (st\<lparr>ts_AccessToken := [], ts_RefreshToken := []\<rparr>)"
proof -
  have "list_all member_clean (metadata_members st)"
    using assms by (simp add: metadata_members_def clean_state_def clean_string_def member_clean_simps is_ascii_def)
  moreover have "json_bind False metadata_fields (metadata_members st) zero_state = Some (st\<lparr>ts_AccessToken := [], ts_RefreshToken := []\<rparr>)"
    using assms
    by (simp add: metadata_members_def clean_state_def zero_state_def bind_int [OF metadata_find(1)] bind_int [OF metadata_find(4)]
        bind_int [OF metadata_find(7)] bind_string [OF metadata_find(2)] bind_string [OF metadata_find(3)]
        bind_string [OF metadata_find(5)] bind_string [OF metadata_find(6)])
  ultimately show ?thesis using members_unmarshal by metis
qed

text \<open>What a store gives back for what was saved.\<close>

definition stored :: "State \<Rightarrow> State" where
  "stored st = trimState (default_version st)"

lemma trimState_idem [simp]: "trimState (trimState st) = trimState st"
  by (simp add: trimState_def)

lemma default_version_trim: "default_version (trimState st) = trimState (default_version st)"
  by (simp add: default_version_def trimState_def)

lemma default_version_idem [simp]: "default_version (default_version st) = default_version st"
  by (simp add: default_version_def StateVersion_def)

lemma clean_string_trim: "clean_string s \<Longrightarrow> clean_string (TrimSpace s)"
  by (simp add: clean_string_def)

lemma clean_default: "clean_state st \<Longrightarrow> clean_state (default_version st)"
  by (simp add: clean_state_def default_version_def StateVersion_def int64_range_def)

lemma clean_stored: "clean_state st \<Longrightarrow> clean_state (stored st)"
  using clean_default [of st] by (simp add: stored_def clean_state_def trimState_def clean_string_trim)

lemma validateState_version: "validateState st = None \<Longrightarrow> ts_Version st = StateVersion"
  by (simp add: validateState_def split: if_splits)

lemma decode_encode:
  assumes "encodeState st = Inr data" and "clean_state st"
  shows "decodeState data = Inr (stored st)"
proof -
  have v: "validateState (stored st) = None" and data: "data = json_print (JObject (state_members (stored st)))"
    using assms(1) by (simp_all add: encodeState_def stored_def Let_def split: option.splits)
  from state_roundtrip [OF clean_stored [OF assms(2)]] v validateState_version [OF v] show ?thesis
    by (simp add: decodeState_def data Let_def) (simp add: stored_def)
qed

section \<open>The interface\<close>

text \<open>A store behaves as a map from profiles to states; operations that fail are not in the sequence.\<close>

datatype store_op = Op_Load string | Op_Save string State | Op_Delete string

fun run_ops :: "(string \<Rightarrow> 'w \<Rightarrow> State result \<times> 'w) \<Rightarrow> (string \<Rightarrow> State \<Rightarrow> 'w \<Rightarrow> go_error option \<times> 'w) \<Rightarrow> (string \<Rightarrow> 'w \<Rightarrow> go_error option \<times> 'w)
    \<Rightarrow> store_op list \<Rightarrow> 'w \<Rightarrow> 'w option" where
  "run_ops Load Save Delete [] w = Some w"
| "run_ops Load Save Delete (Op_Load p # ops) w = run_ops Load Save Delete ops (snd (Load p w))"
| "run_ops Load Save Delete (Op_Save p st # ops) w =
     (case Save p st w of (None, w') \<Rightarrow> run_ops Load Save Delete ops w' | (Some e, w') \<Rightarrow> None)"
| "run_ops Load Save Delete (Op_Delete p # ops) w =
     (case Delete p w of (None, w') \<Rightarrow> run_ops Load Save Delete ops w' | (Some e, w') \<Rightarrow> None)"

fun spec_ops :: "store_op list \<Rightarrow> (string \<rightharpoonup> State) \<Rightarrow> (string \<rightharpoonup> State)" where
  "spec_ops [] m = m"
| "spec_ops (Op_Load p # ops) m = spec_ops ops m"
| "spec_ops (Op_Save p st # ops) m = spec_ops ops (m(TrimSpace p \<mapsto> stored st))"
| "spec_ops (Op_Delete p # ops) m = spec_ops ops (m(TrimSpace p := None))"

definition represents :: "(string \<Rightarrow> 'w \<Rightarrow> State result \<times> 'w) \<Rightarrow> (string \<rightharpoonup> State) \<Rightarrow> 'w \<Rightarrow> bool" where
  "represents Load m w \<longleftrightarrow> (\<forall>p. TrimSpace p \<noteq> [] \<longrightarrow> fst (Load p w) = (case m (TrimSpace p) of None \<Rightarrow> Inl ErrNotFound | Some st \<Rightarrow> Inr st))"

text \<open>A state that can be read back: valid after trimming, too.\<close>

definition keepable :: "State \<Rightarrow> bool" where
  "keepable st \<longleftrightarrow> clean_state st \<and> validateState (stored st) = None"

fun op_keepable :: "store_op \<Rightarrow> bool" where
  "op_keepable (Op_Save p st) = keepable st" | "op_keepable _ = True"

locale token_store =
  fixes Load :: "string \<Rightarrow> 'w \<Rightarrow> State result \<times> 'w"
    and Save :: "string \<Rightarrow> State \<Rightarrow> 'w \<Rightarrow> go_error option \<times> 'w"
    and Delete :: "string \<Rightarrow> 'w \<Rightarrow> go_error option \<times> 'w"
    and ok :: "'w \<Rightarrow> bool"
  assumes load_ok: "ok w \<Longrightarrow> ok (snd (Load p w))"
    and load_pure: "ok w \<Longrightarrow> fst (Load q (snd (Load p w))) = fst (Load q w)"
    and save_ok: "ok w \<Longrightarrow> Save p st w = (None, w') \<Longrightarrow> ok w'"
    and save_load: "ok w \<Longrightarrow> Save p st w = (None, w') \<Longrightarrow> keepable st \<Longrightarrow> TrimSpace q = TrimSpace p \<Longrightarrow> fst (Load q w') = Inr (stored st)"
    and save_other: "ok w \<Longrightarrow> Save p st w = (None, w') \<Longrightarrow> TrimSpace q \<noteq> TrimSpace p \<Longrightarrow> fst (Load q w') = fst (Load q w)"
    and delete_ok: "ok w \<Longrightarrow> Delete p w = (None, w') \<Longrightarrow> ok w'"
    and delete_load: "ok w \<Longrightarrow> Delete p w = (None, w') \<Longrightarrow> TrimSpace q = TrimSpace p \<Longrightarrow> fst (Load q w') = Inl ErrNotFound"
    and delete_other: "ok w \<Longrightarrow> Delete p w = (None, w') \<Longrightarrow> TrimSpace q \<noteq> TrimSpace p \<Longrightarrow> fst (Load q w') = fst (Load q w)"
begin

lemma load_represents: "ok w \<Longrightarrow> represents Load m w \<Longrightarrow> represents Load m (snd (Load p w))"
  by (simp add: represents_def load_pure)

lemma save_represents:
  "ok w \<Longrightarrow> represents Load m w \<Longrightarrow> Save p st w = (None, w') \<Longrightarrow> keepable st \<Longrightarrow> represents Load (m(TrimSpace p \<mapsto> stored st)) w'"
  using save_load [of w p st w'] save_other [of w p st w'] by (simp add: represents_def)

lemma delete_represents:
  "ok w \<Longrightarrow> represents Load m w \<Longrightarrow> Delete p w = (None, w') \<Longrightarrow> represents Load (m(TrimSpace p := None)) w'"
  using delete_load [of w p w'] delete_other [of w p w'] by (simp add: represents_def)

lemma ops_refine:
  "ok w \<Longrightarrow> represents Load m w \<Longrightarrow> list_all op_keepable ops \<Longrightarrow> run_ops Load Save Delete ops w = Some w'
    \<Longrightarrow> ok w' \<and> represents Load (spec_ops ops m) w'"
proof (induction ops arbitrary: w m)
  case (Cons op ops)
  show ?case
  proof (cases op)
    case (Op_Load p)
    with Cons.IH [of "snd (Load p w)" m] Cons.prems load_ok [of w p] load_represents [of w m p] show ?thesis by simp
  next
    case (Op_Save p st)
    with Cons.prems obtain w1 where "Save p st w = (None, w1)" "run_ops Load Save Delete ops w1 = Some w'"
      by (auto split: prod.splits option.splits)
    then show ?thesis
      using Cons.IH [OF save_ok save_represents] Cons.prems Op_Save by fastforce
  next
    case (Op_Delete p)
    with Cons.prems obtain w1 where "Delete p w = (None, w1)" "run_ops Load Save Delete ops w1 = Some w'"
      by (auto split: prod.splits option.splits)
    then show ?thesis
      using Cons.IH [OF delete_ok delete_represents] Cons.prems Op_Delete by fastforce
  qed
qed simp

end

section \<open>The file store keeps the interface\<close>

definition file_ok :: "disk \<Rightarrow> bool" where
  "file_ok d \<longleftrightarrow> calm d \<and> (\<forall>k. list_all is_digit (dk_suffix d k))"

definition file_view :: "disk_file option \<Rightarrow> State result" where
  "file_view f =
     (case f of
        None \<Rightarrow> Inl ErrNotFound
      | Some x \<Rightarrow> (case decodeState (f_data x) of Inl err \<Rightarrow> Inl (Wrapped ''decode token state: '' err) | Inr st \<Rightarrow> Inr st))"

lemma hex_digit_slash: "n < 16 \<Longrightarrow> hex_digit n \<noteq> CHR ''/''"
  using hex_digit_code [of n] by (auto split: if_splits)

lemma PathEscape_slash: "sep \<notin> set (PathEscape s)"
proof -
  have "sep \<notin> set (escape_char c)" for c
    using hex_digit_slash [of "of_char c div 16"] hex_digit_slash [of "of_char c mod 16"] of_char_div [of c]
    by (auto simp: escape_char_def unreserved_def Let_def sep_def)
  then show ?thesis by (auto simp: PathEscape_def)
qed

lemma state_path_Inr:
  assumes "state_path dir p = Inr path"
  shows "path = dir_prefix (TrimSpace dir) @ ''state-'' @ PathEscape (TrimSpace p) @ ''.json''"
    and "base_name path = ''state-'' @ PathEscape (TrimSpace p) @ ''.json''"
proof -
  have ne: "TrimSpace dir \<noteq> []" and path: "path = Join (TrimSpace dir) (''state-'' @ PathEscape (TrimSpace p) @ ''.json'')"
    using assms by (auto simp: state_path_def requireProfileName_def Let_def split: if_splits sum.splits)
  let ?name = "''state-'' @ PathEscape (TrimSpace p) @ ''.json''"
  have n: "sep \<notin> set ?name" using PathEscape_slash by (simp add: sep_def)
  then have "plain_name ?name" by (simp add: plain_name_def)
  from Join_plain [OF this ne] show full: "path = dir_prefix (TrimSpace dir) @ ?name" by (simp only: path)
  show "base_name path = ?name" unfolding full by (rule base_name_prefix [OF n])
qed

lemma state_path_trim: "TrimSpace q = TrimSpace p \<Longrightarrow> state_path dir q = state_path dir p"
  by (simp add: state_path_def requireProfileName_def)

lemma state_path_other: "state_path dir p = Inr path \<Longrightarrow> state_path dir q = Inr path' \<Longrightarrow> TrimSpace q \<noteq> TrimSpace p \<Longrightarrow> path' \<noteq> path"
  by (auto dest!: state_path_Inr(1) PathEscape_inj)

lemma temp_not_state:
  assumes "file_ok d" and "state_path dir p = Inr path"
  shows "path \<noteq> temp_path (Dir q) d"
proof -
  have "private_temps d" using assms(1) by (simp add: file_ok_def private_temps_def calm_def leaves_alone_def)
  then have "hd (base_name (temp_path (Dir q) d)) = CHR ''.''" using temp_base(1) [of d "Dir q"] by simp
  moreover have "hd (base_name path) = CHR ''s''" using state_path_Inr(2) [OF assms(2)] by simp
  ultimately show ?thesis by auto
qed

lemma File_Load_view:
  assumes "calm d"
  shows "fst (File_Load dir p d) = (case state_path dir p of Inl err \<Rightarrow> Inl err | Inr path \<Rightarrow> file_view (map_of (dk_files d) path))"
    and "dk_files (snd (File_Load dir p d)) = dk_files d \<and> calm (snd (File_Load dir p d)) \<and> dk_suffix (snd (File_Load dir p d)) = dk_suffix d"
proof -
  have "fst (File_Load dir p d) = (case state_path dir p of Inl err \<Rightarrow> Inl err | Inr path \<Rightarrow> file_view (map_of (dk_files d) path))
    \<and> dk_files (snd (File_Load dir p d)) = dk_files d \<and> calm (snd (File_Load dir p d)) \<and> dk_suffix (snd (File_Load dir p d)) = dk_suffix d"
    using assms
    by (auto simp: File_Load_def os_ReadFile_def syscall_def calm_def no_faults_def Let_def file_view_def
        split: option.splits sum.splits)
  then show "fst (File_Load dir p d) = (case state_path dir p of Inl err \<Rightarrow> Inl err | Inr path \<Rightarrow> file_view (map_of (dk_files d) path))"
    "dk_files (snd (File_Load dir p d)) = dk_files d \<and> calm (snd (File_Load dir p d)) \<and> dk_suffix (snd (File_Load dir p d)) = dk_suffix d" by blast+
qed

lemma calm_dirs:
  assumes "file_ok d"
  shows "os_MkdirAll dir mode d = (r, d') \<Longrightarrow> r = None \<and> file_ok d' \<and> dk_files d' = dk_files d"
    and "os_Chmod dir mode d = (r, d') \<Longrightarrow> r = None \<and> file_ok d' \<and> dk_files d' = dk_files d"
  using assms by (auto simp: os_MkdirAll_def os_Chmod_def syscall_def file_ok_def calm_def no_faults_def Let_def)

lemma file_ok_env: "same_env d d' \<Longrightarrow> file_ok d \<Longrightarrow> file_ok d'"
  by (simp add: same_env_def file_ok_def calm_def no_faults_def)

lemma File_Save_effect:
  assumes "file_ok d" and "File_Save dir p st d = (None, d')"
  obtains path data where "state_path dir p = Inr path" "encodeState st = Inr data" "file_ok d'"
    "map_of (dk_files d') path = Some \<lparr>f_data = data, f_mode = 384\<rparr>"
    "\<And>q path'. state_path dir q = Inr path' \<Longrightarrow> path' \<noteq> path \<Longrightarrow> map_of (dk_files d') path' = map_of (dk_files d) path'"
proof -
  from assms(2) obtain path data d1 d2 where path: "state_path dir p = Inr path" and m: "os_MkdirAll (Dir path) 448 d = (None, d1)"
    and c: "os_Chmod (Dir path) 448 d1 = (None, d2)" and e: "encodeState st = Inr data" and w: "WriteFile path data 384 d2 = (None, d')"
    by (auto simp: File_Save_def Let_def split: sum.splits prod.splits option.splits)
  have ok: "file_ok d2" "dk_files d2 = dk_files d" using calm_dirs(1) [OF assms(1) m] calm_dirs(2) [OF _ c] by auto
  then have alone: "leaves_alone d2 q" for q by (simp add: file_ok_def calm_def leaves_alone_def)
  from WriteFile_effect [OF alone temp_not_state [OF ok(1) path] w]
  have run: "runs (replaces (temp_path (Dir path) d2) path \<lparr>f_data = data, f_mode = 384\<rparr> True) d2 d'"
    and new: "map_of (dk_files d') path = Some \<lparr>f_data = data, f_mode = 384\<rparr>" by simp_all
  have "map_of (dk_files d') path' = map_of (dk_files d) path'" if "state_path dir q = Inr path'" "path' \<noteq> path" for q path'
    using runs_alone [OF run _ alone, of path'] temp_not_state [OF ok(1) that(1), of path] that(2) ok(2) by (auto simp: replaces_def)
  then show thesis using that [OF path e file_ok_env [OF runs_env [OF run] ok(1)] new] by blast
qed

lemma File_Save_calm:
  assumes "file_ok d" and "state_path dir p = Inr path" and "encodeState st = Inr data"
    and "\<And>q. map_of (dk_files d) q = None \<or> hd (base_name q) \<noteq> CHR ''.''"
  shows "fst (File_Save dir p st d) = None"
proof -
  obtain d1 where m: "os_MkdirAll (Dir path) 448 d = (None, d1)" using calm_dirs(1) [OF assms(1)] by (metis prod.collapse)
  note ok1 = calm_dirs(1) [OF assms(1) m]
  obtain d2 where c: "os_Chmod (Dir path) 448 d1 = (None, d2)" using calm_dirs(2) [of d1] ok1 by (metis prod.collapse)
  have ok2: "file_ok d2" "dk_files d2 = dk_files d" using calm_dirs(2) [OF _ c] ok1 by auto
  then have "private_temps d2" by (simp add: file_ok_def private_temps_def calm_def leaves_alone_def)
  then have "map_of (dk_files d2) (temp_path (Dir path) d2) = None"
    using temp_base(1) [of d2 "Dir path"] assms(4) [of "temp_path (Dir path) d2"] ok2(2) by simp
  from calm_WriteFile [OF _ this, of data 384] ok2(1) show ?thesis
    using assms(2,3) m c by (simp add: File_Save_def file_ok_def)
qed

lemma File_Delete_effect:
  assumes "file_ok d" and "File_Delete dir p d = (None, d')"
  obtains path where "state_path dir p = Inr path" "file_ok d'" "map_of (dk_files d') = (map_of (dk_files d))(path := None)"
proof -
  from assms(2) obtain path r where path: "state_path dir p = Inr path" and rm: "os_Remove path d = (r, d')"
    by (auto simp: File_Delete_def split: sum.splits prod.splits option.splits)
  have "same_env d d'" using runs_env [OF os_Remove_runs [OF rm]] .
  moreover from calm_Remove [of d path] assms(1) rm have "map_of (dk_files d') = (map_of (dk_files d))(path := None)" by (auto simp: file_ok_def)
  ultimately show thesis using that [OF path] file_ok_env assms(1) by blast
qed

lemma File_Load_cong:
  assumes "file_ok d" and "file_ok d'" and "\<And>path. state_path dir q = Inr path \<Longrightarrow> map_of (dk_files d') path = map_of (dk_files d) path"
  shows "fst (File_Load dir q d') = fst (File_Load dir q d)"
  using File_Load_view(1) [of d dir q] File_Load_view(1) [of d' dir q] assms by (cases "state_path dir q") (auto simp: file_ok_def)

interpretation file_store: token_store "File_Load dir" "File_Save dir" "File_Delete dir" file_ok for dir
proof unfold_locales
  fix w w' :: disk and p q st
  show load: "file_ok w \<Longrightarrow> file_ok (snd (File_Load dir p w))" for w p
    using File_Load_view(2) [of w dir p] by (simp add: file_ok_def)
  show "file_ok w \<Longrightarrow> fst (File_Load dir q (snd (File_Load dir p w))) = fst (File_Load dir q w)"
    using load [of w p] File_Load_view(2) [of w dir p] by (intro File_Load_cong) (simp_all add: file_ok_def)
  show save: "file_ok w \<Longrightarrow> File_Save dir p st w = (None, w') \<Longrightarrow> file_ok w'" for w p st w' by (rule File_Save_effect)
  show del: "file_ok w \<Longrightarrow> File_Delete dir p w = (None, w') \<Longrightarrow> file_ok w'" for w p w' by (rule File_Delete_effect)
  show "fst (File_Load dir q w') = Inr (stored st)"
    if "file_ok w" "File_Save dir p st w = (None, w')" "keepable st" "TrimSpace q = TrimSpace p"
    using that(1,2)
  proof (rule File_Save_effect)
    fix path data
    assume "state_path dir p = Inr path" "encodeState st = Inr data" "file_ok w'" "map_of (dk_files w') path = Some \<lparr>f_data = data, f_mode = 384\<rparr>"
    then show ?thesis
      using decode_encode [of st data] that(3) state_path_trim [OF that(4), of dir] File_Load_view(1) [of w' dir q]
      by (simp add: file_ok_def file_view_def keepable_def)
  qed
  show "fst (File_Load dir q w') = fst (File_Load dir q w)"
    if "file_ok w" "File_Save dir p st w = (None, w')" "TrimSpace q \<noteq> TrimSpace p"
    using that(1,2)
  proof (rule File_Save_effect)
    fix path data
    assume "state_path dir p = Inr path"
      and other: "\<And>q path'. state_path dir q = Inr path' \<Longrightarrow> path' \<noteq> path \<Longrightarrow> map_of (dk_files w') path' = map_of (dk_files w) path'"
    then show ?thesis using save [OF that(1,2)] that(1) state_path_other [OF _ _ that(3)] by (intro File_Load_cong) blast+
  qed
  show "fst (File_Load dir q w') = Inl ErrNotFound"
    if "file_ok w" "File_Delete dir p w = (None, w')" "TrimSpace q = TrimSpace p"
    using that(1,2)
  proof (rule File_Delete_effect)
    fix path
    assume "state_path dir p = Inr path" "file_ok w'" "map_of (dk_files w') = (map_of (dk_files w))(path := None)"
    then show ?thesis using state_path_trim [OF that(3), of dir] File_Load_view(1) [of w' dir q] by (simp add: file_ok_def file_view_def)
  qed
  show "fst (File_Load dir q w') = fst (File_Load dir q w)"
    if "file_ok w" "File_Delete dir p w = (None, w')" "TrimSpace q \<noteq> TrimSpace p"
    using that(1,2)
  proof (rule File_Delete_effect)
    fix path
    assume a: "state_path dir p = Inr path" "map_of (dk_files w') = (map_of (dk_files w))(path := None)"
    show ?thesis
      by (rule File_Load_cong [OF that(1) del [OF that(1,2)]]) (use a state_path_other [OF a(1) _ that(3)] in auto)
  qed
qed

section \<open>The keyring store keeps the interface\<close>

text \<open>
  What a keyring documents: it holds secrets by service and user, and an entry that is not there gives
  \<open>ErrNotFound\<close>. Only the entries of one service matter.
\<close>

definition keychain_view :: "(string \<Rightarrow> string option) \<Rightarrow> string \<Rightarrow> State result" where
  "keychain_view entry profile =
     (case (entry (keychain_key profile metadataKeySuffix), entry (keychain_key profile refreshTokenKeySuffix)) of
        (Some md, Some rt) \<Rightarrow> keychain_state md rt (case entry (keychain_key profile accessTokenKeySuffix) of None \<Rightarrow> [] | Some at \<Rightarrow> at)
      | _ \<Rightarrow> Inl ErrNotFound)"

locale os_keyring =
  fixes kr :: "'w keyring" and service :: string and ok :: "'w \<Rightarrow> bool" and entry :: "'w \<Rightarrow> string \<Rightarrow> string option"
  assumes get: "ok w \<Longrightarrow> kr_Get kr service u w = (r, w') \<Longrightarrow>
      ok w' \<and> entry w' = entry w \<and> r = (case entry w u of None \<Rightarrow> Inl keyring_ErrNotFound | Some x \<Rightarrow> Inr x)"
    and put: "ok w \<Longrightarrow> kr_Set kr service u x w = (None, w') \<Longrightarrow> ok w' \<and> entry w' = (entry w)(u \<mapsto> x)"
    and drop_entry: "ok w \<Longrightarrow> kr_Delete kr service u w = (d, w') \<Longrightarrow>
      ok w' \<and> (d = None \<or> (\<exists>e. d = Some e \<and> errors_Is e keyring_ErrNotFound) \<longrightarrow> entry w' = (entry w)(u := None))"
begin

lemma load_view:
  assumes "ok w" and "Keychain_Load kr service p w = (r, w')"
  shows "ok w' \<and> entry w' = entry w \<and> r = (case requireProfileName p of Inl err \<Rightarrow> Inl err | Inr profile \<Rightarrow> keychain_view (entry w) profile)"
proof (cases "requireProfileName p")
  case (Inl err)
  with assms show ?thesis by (simp add: Keychain_Load_def)
next
  case (Inr profile)
  obtain r1 w1 where g1: "kr_Get kr service (keychain_key profile metadataKeySuffix) w = (r1, w1)" by fastforce
  obtain r2 w2 where g2: "kr_Get kr service (keychain_key profile refreshTokenKeySuffix) w1 = (r2, w2)" by fastforce
  obtain r3 w3 where g3: "kr_Get kr service (keychain_key profile accessTokenKeySuffix) w2 = (r3, w3)" by fastforce
  note e1 = get [OF assms(1) g1] note e2 = get [OF conjunct1 [OF e1] g2] note e3 = get [OF conjunct1 [OF e2] g3]
  from assms(2) Inr g1 g2 g3 e1 e2 e3 show ?thesis
    by (auto simp: Keychain_Load_def keychain_view_def keyringLoadError_def split: option.splits)
qed

lemma save_effect:
  assumes "ok w" and "Keychain_Save kr service p st w = (None, w')"
  shows "\<exists>profile. requireProfileName p = Inr profile \<and> validateState (default_version st) = None \<and> ok w'
    \<and> entry w' = (entry w)(keychain_key profile refreshTokenKeySuffix \<mapsto> ts_RefreshToken st,
        keychain_key profile accessTokenKeySuffix := (if ts_AccessToken st \<noteq> [] then Some (ts_AccessToken st) else None),
        keychain_key profile metadataKeySuffix \<mapsto> json_print (JObject (metadata_members (default_version st))))"
proof -
  have tokens: "ts_RefreshToken (default_version st) = ts_RefreshToken st" "ts_AccessToken (default_version st) = ts_AccessToken st"
    by (simp_all add: default_version_def)
  from assms(2) obtain profile w1 w2 where pr: "requireProfileName p = Inr profile" and v: "validateState (default_version st) = None"
    and s1: "kr_Set kr service (keychain_key profile refreshTokenKeySuffix) (ts_RefreshToken st) w = (None, w1)"
    and s2: "(if ts_AccessToken st \<noteq> [] then kr_Set kr service (keychain_key profile accessTokenKeySuffix) (ts_AccessToken st) w1
       else (case kr_Delete kr service (keychain_key profile accessTokenKeySuffix) w1 of
               (Some err, w2) \<Rightarrow> (if errors_Is err keyring_ErrNotFound then None else Some err, w2) | (None, w2) \<Rightarrow> (None, w2))) = (None, w2)"
    and s3: "kr_Set kr service (keychain_key profile metadataKeySuffix) (json_print (JObject (metadata_members (default_version st)))) w2 = (None, w')"
    unfolding Keychain_Save_def Let_def tokens by (auto split: sum.splits option.splits prod.splits)
  note e1 = put [OF assms(1) s1]
  have e2: "ok w2 \<and> entry w2 = (entry w1)(keychain_key profile accessTokenKeySuffix := (if ts_AccessToken st \<noteq> [] then Some (ts_AccessToken st) else None))"
  proof (cases "ts_AccessToken st = []")
    case True
    with s2 obtain r where "kr_Delete kr service (keychain_key profile accessTokenKeySuffix) w1 = (r, w2)"
      "r = None \<or> (\<exists>e. r = Some e \<and> errors_Is e keyring_ErrNotFound)" by (auto split: prod.splits option.splits if_splits)
    with drop_entry [OF conjunct1 [OF e1], of "keychain_key profile accessTokenKeySuffix" r w2] True show ?thesis by auto
  next
    case False
    with s2 put [OF conjunct1 [OF e1]] show ?thesis by simp
  qed
  from put [OF conjunct1 [OF e2] s3] e1 e2 pr v show ?thesis by simp
qed

lemma delete_effect:
  assumes "ok w" and "delete_entries kr service profile sfxs w = (errs, w')" and "\<forall>e \<in> set errs. e = None"
  shows "ok w' \<and> entry w' = (\<lambda>u. if u \<in> keychain_key profile ` set sfxs then None else entry w u)"
  using assms
proof (induction sfxs arbitrary: w errs)
  case (Cons sfx sfxs)
  obtain r w1 where d: "kr_Delete kr service (keychain_key profile sfx) w = (r, w1)" by fastforce
  obtain errs' w2 where rest: "delete_entries kr service profile sfxs w1 = (errs', w2)" by fastforce
  have "r = None \<or> (\<exists>e. r = Some e \<and> errors_Is e keyring_ErrNotFound)" and errs': "\<forall>e \<in> set errs'. e = None" and "w2 = w'"
    using Cons.prems(2,3) d rest by (auto split: option.splits if_splits)
  then have "ok w1" "entry w1 = (entry w)(keychain_key profile sfx := None)" using drop_entry [OF Cons.prems(1) d] by blast+
  with Cons.IH [of w1 errs'] rest errs' \<open>w2 = w'\<close> show ?case by (auto simp: fun_eq_iff)
qed simp

end

lemma keychain_key_inj:
  assumes "CHR '':'' \<notin> set s" and "CHR '':'' \<notin> set t"
  shows "keychain_key p s = keychain_key q t \<longleftrightarrow> p = q \<and> s = t"
proof
  assume "keychain_key p s = keychain_key q t"
  then have "rev (keychain_key p s) = rev (keychain_key q t)" by simp
  then have r: "rev s @ CHR '':'' # rev p = rev t @ CHR '':'' # rev q" by (simp add: keychain_key_def)
  have s: "\<forall>x \<in> set (rev s). x \<noteq> CHR '':''" and t: "\<forall>x \<in> set (rev t). x \<noteq> CHR '':''" using assms by auto
  from arg_cong [OF r, of "takeWhile (\<lambda>c. c \<noteq> CHR '':'')"] have "rev s = rev t"
    using takeWhile_all [OF s, of "CHR '':'' # rev p"] takeWhile_all [OF t, of "CHR '':'' # rev q"] by simp
  with r show "p = q \<and> s = t" by simp
qed simp

lemma suffix_colon [simp]:
  "CHR '':'' \<notin> set accessTokenKeySuffix" "CHR '':'' \<notin> set refreshTokenKeySuffix" "CHR '':'' \<notin> set metadataKeySuffix"
  "accessTokenKeySuffix \<noteq> refreshTokenKeySuffix" "accessTokenKeySuffix \<noteq> metadataKeySuffix" "refreshTokenKeySuffix \<noteq> metadataKeySuffix"
  "refreshTokenKeySuffix \<noteq> accessTokenKeySuffix" "metadataKeySuffix \<noteq> accessTokenKeySuffix" "metadataKeySuffix \<noteq> refreshTokenKeySuffix"
  by (simp_all add: accessTokenKeySuffix_def refreshTokenKeySuffix_def metadataKeySuffix_def)

lemma requireProfileName_Inr: "requireProfileName p = Inr profile \<longleftrightarrow> profile = TrimSpace p \<and> profile \<noteq> []"
  by (auto simp: requireProfileName_def Let_def)

lemma keychain_state_saved:
  assumes "keepable st"
  shows "keychain_state (json_print (JObject (metadata_members (default_version st)))) (ts_RefreshToken st) (ts_AccessToken st) = Inr (stored st)"
proof -
  have "default_version st\<lparr>ts_AccessToken := [], ts_RefreshToken := [], ts_AccessToken := ts_AccessToken st, ts_RefreshToken := ts_RefreshToken st\<rparr>
    = default_version st" by (simp add: default_version_def)
  with assms metadata_roundtrip [OF clean_default, of st] show ?thesis
    by (simp add: keychain_state_def keepable_def stored_def Let_def default_version_trim)
qed

lemma keychain_view_other:
  assumes "q \<noteq> p" and "\<And>u. u \<notin> keychain_key p ` {accessTokenKeySuffix, refreshTokenKeySuffix, metadataKeySuffix} \<Longrightarrow> e' u = e u"
  shows "keychain_view e' q = keychain_view e q"
proof -
  have "e' (keychain_key q x) = e (keychain_key q x)" if "CHR '':'' \<notin> set x" for x
    using that assms(1) by (intro assms(2)) (auto simp: keychain_key_inj)
  from this [of metadataKeySuffix] this [of refreshTokenKeySuffix] this [of accessTokenKeySuffix] show ?thesis
    by (simp only: keychain_view_def suffix_colon simp_thms if_True refl not_False_eq_True)
qed

sublocale os_keyring \<subseteq> keychain: token_store "Keychain_Load kr service" "Keychain_Save kr service" "Keychain_Delete kr service" ok
proof unfold_locales
  fix w w' p q st
  have load: "fst (Keychain_Load kr service q w) = (case requireProfileName q of Inl err \<Rightarrow> Inl err | Inr profile \<Rightarrow> keychain_view (entry w) profile)"
    if "ok w" for w q using load_view [OF that, of q] by (metis prod.collapse)
  show "ok w \<Longrightarrow> ok (snd (Keychain_Load kr service p w))" using load_view [of w p] by (metis prod.collapse)
  show "ok w \<Longrightarrow> fst (Keychain_Load kr service q (snd (Keychain_Load kr service p w))) = fst (Keychain_Load kr service q w)"
    using load_view [of w p] load [of w q] load [of "snd (Keychain_Load kr service p w)" q] by (metis prod.collapse)
  show save: "ok w \<Longrightarrow> Keychain_Save kr service p st w = (None, w') \<Longrightarrow> ok w'" for w w' p st using save_effect [of w p st w'] by blast
  have del: "ok w' \<and> entry w' = (\<lambda>u. if u \<in> keychain_key (TrimSpace p) ` {accessTokenKeySuffix, refreshTokenKeySuffix, metadataKeySuffix} then None else entry w u)"
    if d: "ok w" "Keychain_Delete kr service p w = (None, w')" for w w' p
  proof -
    from d(2) obtain profile errs where p: "requireProfileName p = Inr profile"
      and e: "delete_entries kr service profile [accessTokenKeySuffix, refreshTokenKeySuffix, metadataKeySuffix] w = (errs, w')" "errors_Join errs = None"
      by (auto simp: Keychain_Delete_def simp del: delete_entries.simps split: sum.splits prod.splits)
    from delete_effect [OF d(1) e(1)] e(2) p show ?thesis
      by (simp add: requireProfileName_Inr errors_Join_None del: delete_entries.simps)
  qed
  then show "ok w \<Longrightarrow> Keychain_Delete kr service p w = (None, w') \<Longrightarrow> ok w'" by blast
  show "fst (Keychain_Load kr service q w') = Inr (stored st)"
    if h: "ok w" "Keychain_Save kr service p st w = (None, w')" "keepable st" "TrimSpace q = TrimSpace p"
  proof -
    have "TrimSpace p \<noteq> []" using save_effect [OF h(1,2)] by (auto simp: requireProfileName_Inr)
    then have "requireProfileName q = Inr (TrimSpace p)" using h(4) by (simp add: requireProfileName_Inr)
    with save_effect [OF h(1,2)] load [OF save [OF h(1,2)], of q] keychain_state_saved [OF h(3)]
    show ?thesis by (auto simp: requireProfileName_Inr keychain_view_def keychain_key_inj)
  qed
  show "fst (Keychain_Load kr service q w') = fst (Keychain_Load kr service q w)"
    if h: "ok w" "Keychain_Save kr service p st w = (None, w')" "TrimSpace q \<noteq> TrimSpace p"
  proof -
    have "keychain_view (entry w') (TrimSpace q) = keychain_view (entry w) (TrimSpace q)"
      using save_effect [OF h(1,2)] by (intro keychain_view_other [OF h(3)]) (auto simp: requireProfileName_Inr)
    with load [OF save [OF h(1,2)], of q] load [OF h(1), of q] show ?thesis
      by (cases "requireProfileName q") (auto simp: requireProfileName_Inr)
  qed
  show "fst (Keychain_Load kr service q w') = Inl ErrNotFound"
    if h: "ok w" "Keychain_Delete kr service p w = (None, w')" "TrimSpace q = TrimSpace p"
  proof -
    have "TrimSpace p \<noteq> []" using h(2) by (auto simp: Keychain_Delete_def requireProfileName_def Let_def split: if_splits)
    then have "requireProfileName q = Inr (TrimSpace p)" using h(3) by (simp add: requireProfileName_Inr)
    with del [OF h(1,2)] load [of w' q] show ?thesis by (simp add: keychain_view_def)
  qed
  show "fst (Keychain_Load kr service q w') = fst (Keychain_Load kr service q w)"
    if h: "ok w" "Keychain_Delete kr service p w = (None, w')" "TrimSpace q \<noteq> TrimSpace p"
  proof -
    have "keychain_view (entry w') (TrimSpace q) = keychain_view (entry w) (TrimSpace q)"
      using del [OF h(1,2)] by (intro keychain_view_other [OF h(3)]) auto
    with del [OF h(1,2)] load [of w' q] load [OF h(1), of q] show ?thesis
      by (cases "requireProfileName q") (auto simp: requireProfileName_Inr)
  qed
qed

context os_keyring
begin

lemma keychain_refines: "ok w \<Longrightarrow> represents (Keychain_Load kr service) m w \<Longrightarrow> list_all op_keepable ops
    \<Longrightarrow> run_ops (Keychain_Load kr service) (Keychain_Save kr service) (Keychain_Delete kr service) ops w = Some w'
    \<Longrightarrow> ok w' \<and> represents (Keychain_Load kr service) (spec_ops ops m) w'"
  by (rule keychain.ops_refine)

end

text \<open>A keyring in memory, with any number of services.\<close>

definition memory_keyring :: "((string \<times> string) \<times> string) list keyring" where
  "memory_keyring =
     \<lparr>kr_Get = (\<lambda>service user w. (case map_of w (service, user) of None \<Rightarrow> Inl keyring_ErrNotFound | Some x \<Rightarrow> Inr x, w)),
      kr_Set = (\<lambda>service user x w. (None, AList.update (service, user) x w)),
      kr_Delete = (\<lambda>service user w. if map_of w (service, user) = None then (Some keyring_ErrNotFound, w) else (None, AList.delete (service, user) w))\<rparr>"

interpretation memory_store: os_keyring memory_keyring service "\<lambda>w. True" "\<lambda>w u. map_of w (service, u)" for service
  by unfold_locales (auto simp: memory_keyring_def update_conv' delete_conv' fun_eq_iff split: if_splits)

text \<open>Its operations do not fail.\<close>

lemma memory_deletes: "list_all (\<lambda>e. e = None) (fst (delete_entries memory_keyring service profile sfxs w))"
proof (induction sfxs arbitrary: w)
  case (Cons sfx sfxs)
  obtain r w1 where "kr_Delete memory_keyring service (keychain_key profile sfx) w = (r, w1)" "r = None \<or> r = Some keyring_ErrNotFound"
    by (cases "map_of w (service, keychain_key profile sfx)") (simp_all add: memory_keyring_def)
  with Cons.IH [of w1] show ?case by (auto simp: split_beta)
qed simp

lemma memory_succeeds:
  assumes "TrimSpace p \<noteq> []"
  shows "validateState (default_version st) = None \<Longrightarrow> fst (Keychain_Save memory_keyring service p st w) = None"
    and "fst (Keychain_Delete memory_keyring service p w) = None"
proof -
  show "validateState (default_version st) = None \<Longrightarrow> fst (Keychain_Save memory_keyring service p st w) = None"
    using assms by (simp add: Keychain_Save_def requireProfileName_def Let_def memory_keyring_def split: prod.split)
  show "fst (Keychain_Delete memory_keyring service p w) = None"
    using assms memory_deletes [of service "TrimSpace p" _ w]
    by (simp add: Keychain_Delete_def requireProfileName_def Let_def errors_Join_None list_all_iff split_beta del: delete_entries.simps)
qed

text \<open>
  C34: both token stores implement the same abstract store, a map from profiles (up to surrounding white
  space) to normalised states. After any sequence of operations that succeed, loading a profile gives the
  state last saved for it, or \<open>ErrNotFound\<close> after a deletion or when nothing was saved; other profiles are
  untouched. The file store on a disk without faults, the keyring store on every keyring that behaves as
  documented.
\<close>

theorem token_stores_refine_map:
  assumes "list_all op_keepable ops"
    and "file_ok d" and "represents (File_Load dir) m d" and "run_ops (File_Load dir) (File_Save dir) (File_Delete dir) ops d = Some d'"
    and "os_keyring kr service ok entry" and "ok w" and "represents (Keychain_Load kr service) m w"
    and "run_ops (Keychain_Load kr service) (Keychain_Save kr service) (Keychain_Delete kr service) ops w = Some w'"
  shows "represents (File_Load dir) (spec_ops ops m) d' \<and> represents (Keychain_Load kr service) (spec_ops ops m) w'"
  using file_store.ops_refine [OF assms(2,3,1,4)] os_keyring.keychain_refines [OF assms(5,6,7,1,8)] by blast

definition empty_disk :: disk where
  "empty_disk = \<lparr>dk_files = [], dk_dirs = [], dk_tick = 0, dk_other = (\<lambda>n fs. fs), dk_fault = (\<lambda>n. None), dk_suffix = (\<lambda>n. ''7''), dk_log = []\<rparr>"

definition sample_state :: State where
  "sample_state = zero_state\<lparr>ts_IDPIssuer := ''i'', ts_IDPClientID := ''c'', ts_AccessToken := ''a'', ts_RefreshToken := '' r ''\<rparr>"

lemma sample_represents: "represents (File_Load ''d'') (\<lambda>p. None) empty_disk" "represents (Keychain_Load memory_keyring ''s'') (\<lambda>p. None) []"
proof -
  have "state_path ''d'' p \<noteq> Inl e" if "TrimSpace p \<noteq> []" for p e
  proof -
    have "TrimSpace ''d'' \<noteq> []" by code_simp
    with that show ?thesis by (simp add: state_path_def requireProfileName_def Let_def)
  qed
  then show "represents (File_Load ''d'') (\<lambda>p. None) empty_disk"
    using File_Load_view(1) [of empty_disk "''d''"]
    by (fastforce simp: represents_def empty_disk_def calm_def no_faults_def file_view_def split: sum.splits)
  show "represents (Keychain_Load memory_keyring ''s'') (\<lambda>p. None) []"
    by (simp add: represents_def Keychain_Load_def requireProfileName_def Let_def memory_keyring_def keyringLoadError_def)
qed

lemma sample_path: "state_path ''d'' ''p '' = Inr ''d/state-p.json''" "state_path ''d'' ''q'' = Inr ''d/state-q.json''"
  by code_simp+

theorem token_stores_refine_map_witness:
  "\<exists>d' w'. run_ops (File_Load ''d'') (File_Save ''d'') (File_Delete ''d'') [Op_Save ''p '' sample_state, Op_Delete ''q''] empty_disk = Some d'
     \<and> fst (File_Load ''d'' ''p'' d') = Inr (stored sample_state) \<and> fst (File_Load ''d'' ''q'' d') = Inl ErrNotFound
     \<and> fst (Keychain_Load memory_keyring ''s'' ''p'' w') = Inr (stored sample_state)"
proof -
  let ?ops = "[Op_Save ''p '' sample_state, Op_Delete ''q'']"
  have trims: "TrimSpace ''i'' = ''i''" "TrimSpace ''c'' = ''c''" "TrimSpace ''a'' = ''a''" "TrimSpace '' r '' = ''r''" "TrimSpace [] = []" by code_simp+
  have str: "clean_string ''i''" "clean_string ''c''" "clean_string ''a''" "clean_string '' r ''" "clean_string []"
    unfolding clean_string_def trims by (simp_all add: coerce_utf8_ascii is_ascii_def)
  have "clean_state sample_state" by (simp add: clean_state_def sample_state_def zero_state_def str int64_range_def)
  moreover have valid: "validateState (stored sample_state) = None" by code_simp
  ultimately have keep: "list_all op_keepable ?ops" by (simp add: keepable_def)
  have ok: "file_ok empty_disk" by (simp add: file_ok_def empty_disk_def calm_def no_faults_def is_digit_def)
  from valid have enc: "encodeState sample_state = Inr (json_print (JObject (state_members (stored sample_state))))"
    by (simp add: encodeState_def stored_def Let_def)
  have "fst (File_Save ''d'' ''p '' sample_state empty_disk) = None"
    using File_Save_calm [OF ok _ enc, of "''d''" "''p ''"] by (simp add: empty_disk_def sample_path)
  then obtain d1 where d1: "File_Save ''d'' ''p '' sample_state empty_disk = (None, d1)" by (metis prod.collapse)
  from File_Save_effect [OF ok d1] have "calm d1" by (auto simp: file_ok_def)
  from calm_Remove [OF this, of "''d/state-q.json''"] have "fst (File_Delete ''d'' ''q'' d1) = None"
    by (auto simp: File_Delete_def sample_path split: option.splits)
  then obtain d' where "File_Delete ''d'' ''q'' d1 = (None, d')" by (metis prod.collapse)
  with d1 have d: "run_ops (File_Load ''d'') (File_Save ''d'') (File_Delete ''d'') ?ops empty_disk = Some d'" by simp
  have trim: "TrimSpace ''p'' = ''p''" "TrimSpace ''p '' = ''p''" "TrimSpace ''q'' = ''q''" by code_simp+
  have "validateState (default_version sample_state) = None" by code_simp
  then obtain w1 where w1: "Keychain_Save memory_keyring ''s'' ''p '' sample_state [] = (None, w1)"
    using memory_succeeds(1) [of "''p ''" sample_state "''s''" "[]"] trim(2) by (metis prod.collapse list.discI)
  obtain w' where "Keychain_Delete memory_keyring ''s'' ''q'' w1 = (None, w')"
    using memory_succeeds(2) [of "''q''" "''s''" w1] trim(3) by (metis prod.collapse list.discI)
  with w1 have w: "run_ops (Keychain_Load memory_keyring ''s'') (Keychain_Save memory_keyring ''s'') (Keychain_Delete memory_keyring ''s'') ?ops [] = Some w'"
    by simp
  from token_stores_refine_map [OF keep ok sample_represents(1) d memory_store.os_keyring_axioms TrueI sample_represents(2) w]
  have "fst (File_Load ''d'' ''p'' d') = Inr (stored sample_state) \<and> fst (File_Load ''d'' ''q'' d') = Inl ErrNotFound
     \<and> fst (Keychain_Load memory_keyring ''s'' ''p'' w') = Inr (stored sample_state)"
    by (simp add: represents_def trim)
  with d show ?thesis by blast
qed

end
