(* ===== verification/SSH_Conf.thy ===== *)
theory SSH_Conf
  imports File_System Broker_Types
begin

text \<open>
  The ssh configuration file of the client (src/internal/sshconf): stanzas between BEGIN and END markers
  that the client owns, in a file whose other lines belong to the engineer. The operations work on byte
  offsets of the text; the document they maintain is a list of lines and blocks, and the operations are
  shown to implement the obvious ones on it.
\<close>

section \<open>Markers\<close>

definition nl :: char where "nl = CHR 0x0A"
definition cr :: char where "cr = CHR 0x0D"

record Stanza =
  st_Device :: string
  st_Patterns :: "string list"
  st_HostName :: string
  st_User :: string
  st_Port :: int
  st_IdentityFile :: string
  st_CertificateFile :: string

definition markerPrefix :: string where "markerPrefix = ''# BEGIN POSTERN-MANAGED: ''"
definition markerSuffix :: string where "markerSuffix = ''# END POSTERN-MANAGED: ''"
definition headerSentinel :: string where "headerSentinel = ''# Postern-managed ssh-config file.''"
definition tildePostern :: string where "tildePostern = ''~/.postern/ssh.conf''"
definition stanzaIndent :: string where "stanzaIndent = ''  ''"
definition ephemeralMarkerPrefix :: string where "ephemeralMarkerPrefix = ''# POSTERN-EPHEMERAL: ''"

definition header_lines :: "string list" where
  "header_lines =
     [headerSentinel,
      ''# To enable: add `Include '' @ tildePostern @ ''` to ~/.ssh/config.'',
      ''# Generated stanzas are bracketed by BEGIN/END POSTERN-MANAGED markers;'',
      ''# edits outside the markers are preserved.'']"

definition text_of :: "string list \<Rightarrow> string" where
  "text_of ls = concat (map (\<lambda>l. l @ [nl]) ls)"

definition defaultSSHHeader :: string where
  "defaultSSHHeader = text_of header_lines"

section \<open>Text operations\<close>

text \<open>
  The loop of \<open>indexLineStart\<close>, from the offset \<open>idx\<close>. The needle is a marker and never empty; for an empty one the
  source would slice beyond the text.
\<close>

function line_search :: "string \<Rightarrow> string \<Rightarrow> nat \<Rightarrow> nat option" where
  "line_search s needle idx =
     (if length s < idx then None
      else case Index (drop idx s) needle of
             None \<Rightarrow> None
           | Some off \<Rightarrow>
               let abs = idx + off; stop = abs + length needle in
               if (abs = 0 \<or> s ! (abs - 1) = nl) \<and> (stop = length s \<or> s ! stop = nl) then Some abs
               else line_search s needle (abs + 1))"
  by pat_completeness auto
termination by (relation "measure (\<lambda>(s, needle, idx). Suc (length s) - idx)") auto

declare line_search.simps [simp del]

definition indexLineStart :: "string \<Rightarrow> string \<Rightarrow> nat option" where
  "indexLineStart s needle = line_search s needle 0"

definition indexOfNewline :: "string \<Rightarrow> nat \<Rightarrow> nat" where
  "indexOfNewline s from = (case Index (drop from s) [nl] of None \<Rightarrow> length s | Some n \<Rightarrow> from + n + 1)"

function trimTrailingBlank :: "string \<Rightarrow> string" where
  "trimTrailingBlank s = (if suffix [nl, nl] s then trimTrailingBlank (take (length s - 1) s) else s)"
  by pat_completeness auto
termination by (relation "measure length") (auto simp: suffix_def)

declare trimTrailingBlank.simps [simp del]

fun trimLeadingBlank :: "string \<Rightarrow> string" where
  "trimLeadingBlank [] = []"
| "trimLeadingBlank (c # s) = (if c = nl then trimLeadingBlank s else c # s)"

definition TrimRight_nl :: "string \<Rightarrow> string" where
  "TrimRight_nl s = rev (dropWhile (\<lambda>c. c = nl) (rev s))"

definition validateDevice :: "string \<Rightarrow> go_error option" where
  "validateDevice device =
     (if TrimSpace device = [] then Some (Plain ''sshconf: device is required'')
      else if nl \<in> set device \<or> cr \<in> set device then Some (Plain ''sshconf: device contains newline'')
      else None)"

text \<open>From the BEGIN marker to the end of the END line, as offsets.\<close>

definition stanza_span :: "string \<Rightarrow> string \<Rightarrow> string \<Rightarrow> (nat \<times> nat) option" where
  "stanza_span existing begin stop =
     (case indexLineStart existing begin of
        None \<Rightarrow> None
      | Some beginIdx \<Rightarrow>
          (case indexLineStart (drop beginIdx existing) stop of
             None \<Rightarrow> None
           | Some endStart \<Rightarrow> Some (beginIdx, indexOfNewline existing (beginIdx + endStart))))"

definition appendStanza :: "string \<Rightarrow> string \<Rightarrow> string" where
  "appendStanza existing stanza = (if existing = [] then stanza else TrimRight_nl existing @ [nl, nl] @ stanza)"

definition replaceOrAppendStanza :: "string \<Rightarrow> string \<Rightarrow> string \<Rightarrow> string" where
  "replaceOrAppendStanza existing device newStanza =
     (case stanza_span existing (markerPrefix @ device) (markerSuffix @ device) of
        None \<Rightarrow> appendStanza existing newStanza
      | Some (beginIdx, endLineEnd) \<Rightarrow>
          let before = trimTrailingBlank (take beginIdx existing);
              after = trimLeadingBlank (drop endLineEnd existing)
          in before @ (if before \<noteq> [] \<and> \<not> suffix [nl] before then [nl] else []) @ (if before \<noteq> [] then [nl] else []) @
             newStanza @ (if after \<noteq> [] then nl # after else []))"

definition dropStanza :: "string \<Rightarrow> string \<Rightarrow> string \<times> bool" where
  "dropStanza existing device =
     (case stanza_span existing (markerPrefix @ device) (markerSuffix @ device) of
        None \<Rightarrow> (existing, False)
      | Some (beginIdx, endLineEnd) \<Rightarrow>
          let before = trimTrailingBlank (take beginIdx existing);
              after = trimLeadingBlank (drop endLineEnd existing);
              closed = (if suffix [nl] before then before else before @ [nl])
          in if before = [] then (after, True)
             else if after = [] then (closed, True)
             else (closed @ nl # after, True))"

definition extractBlock :: "string \<Rightarrow> string \<Rightarrow> string \<Rightarrow> string option" where
  "extractBlock existing begin stop =
     (case stanza_span existing begin stop of
        None \<Rightarrow> None
      | Some (beginIdx, endLineEnd) \<Rightarrow> Some (drop beginIdx (take endLineEnd existing)))"

text \<open>
  \<open>bufio.Scanner\<close> over a string: the lines without their end, a final carriage return dropped, up to the
  first line that does not fit in the buffer.
\<close>

definition raw_lines :: "string \<Rightarrow> string list" where
  "raw_lines s = (let ls = Split nl s in if last ls = [] then butlast ls else ls)"

definition drop_cr :: "string \<Rightarrow> string" where
  "drop_cr l = (if l \<noteq> [] \<and> last l = cr then butlast l else l)"

definition scan_lines :: "nat \<Rightarrow> string \<Rightarrow> string list" where
  "scan_lines limit s = map drop_cr (takeWhile (\<lambda>l. length l < limit) (raw_lines s))"

definition collectDevices :: "string \<Rightarrow> string list" where
  "collectDevices existing = List.map_filter (\<lambda>line. CutPrefix line markerPrefix) (scan_lines 65536 existing)"

section \<open>Stanzas\<close>

definition host_line :: "Stanza \<Rightarrow> string" where
  "host_line s = st_Device s @ concat (map (\<lambda>p. '' '' @ p) (filter (\<lambda>p. p \<noteq> []) (map TrimSpace (st_Patterns s))))"

definition stanza_lines :: "Stanza \<Rightarrow> string list" where
  "stanza_lines s =
     [''Host '' @ host_line s]
     @ (let hostname = TrimSpace (st_HostName s) in if hostname \<noteq> [] then [stanzaIndent @ ''HostName '' @ hostname] else [])
     @ [stanzaIndent @ ''User '' @ st_User s]
     @ (if 0 < st_Port s then [stanzaIndent @ ''Port '' @ FormatInt (st_Port s)] else [])
     @ [stanzaIndent @ ''IdentityFile '' @ st_IdentityFile s,
        stanzaIndent @ ''CertificateFile '' @ st_CertificateFile s,
        stanzaIndent @ ''IdentitiesOnly yes'',
        stanzaIndent @ ''PreferredAuthentications publickey'',
        stanzaIndent @ ''PasswordAuthentication no'',
        stanzaIndent @ ''KbdInteractiveAuthentication no'',
        stanzaIndent @ ''ForwardAgent yes'']"

definition renderStanza :: "Stanza \<Rightarrow> string result" where
  "renderStanza s =
     (if TrimSpace (st_User s) = [] then Inl (Plain ''sshconf: stanza User is required'')
      else if TrimSpace (st_IdentityFile s) = [] then Inl (Plain ''sshconf: stanza IdentityFile is required'')
      else if TrimSpace (st_CertificateFile s) = [] then Inl (Plain ''sshconf: stanza CertificateFile is required'')
      else Inr (text_of ([markerPrefix @ st_Device s] @ stanza_lines s @ [markerSuffix @ st_Device s])))"

section \<open>Ephemeral stanzas\<close>

record ephemeralFields =
  ef_pid :: int
  ef_opened :: time

definition no_fields :: ephemeralFields where
  "no_fields = \<lparr>ef_pid = 0, ef_opened = zero_time\<rparr>"

definition Cut_eq :: "string \<Rightarrow> (string \<times> string) option" where
  "Cut_eq s = (case Index s ''='' of None \<Rightarrow> None | Some i \<Rightarrow> Some (take i s, drop (Suc i) s))"

definition key_value :: "ephemeralFields \<Rightarrow> string \<Rightarrow> ephemeralFields" where
  "key_value out tok =
     (case Cut_eq tok of
        None \<Rightarrow> out
      | Some (k, v) \<Rightarrow>
          if k = ''pid'' then (case ParseInt64 v of Some n \<Rightarrow> out\<lparr>ef_pid := n\<rparr> | None \<Rightarrow> out)
          else if k = ''opened'' then (case ParseRFC3339 v of Some t \<Rightarrow> out\<lparr>ef_opened := t\<rparr> | None \<Rightarrow> out)
          else out)"

definition parseEphemeralKeyValues :: "string \<Rightarrow> ephemeralFields" where
  "parseEphemeralKeyValues payload = foldl key_value no_fields (Fields payload)"

definition sentinel_line :: "ephemeralFields option \<Rightarrow> string \<Rightarrow> ephemeralFields option" where
  "sentinel_line found line =
     (case CutPrefix line ephemeralMarkerPrefix of None \<Rightarrow> found | Some rest \<Rightarrow> Some (parseEphemeralKeyValues rest))"

definition parseEphemeralFields :: "string \<Rightarrow> ephemeralFields option" where
  "parseEphemeralFields block = foldl sentinel_line None (scan_lines 65536 block)"

definition injectEphemeralSentinel :: "string \<Rightarrow> string \<Rightarrow> int \<Rightarrow> time \<Rightarrow> string" where
  "injectEphemeralSentinel rendered device pid opened =
     (let beginLine = markerPrefix @ device @ [nl]
      in case Index rendered beginLine of
           None \<Rightarrow> rendered
         | Some idx \<Rightarrow>
             let insertAt = idx + length beginLine;
                 sentinel = ephemeralMarkerPrefix @ ''pid='' @ FormatInt pid @ '' opened='' @ FormatRFC3339 opened @ [nl]
             in take insertAt rendered @ sentinel @ drop insertAt rendered)"

text \<open>The walk over the lines of the file: in a block or not, its device and the pid of its sentinel, if it has one.\<close>

fun candidates :: "(string \<times> int \<times> bool) option \<Rightarrow> string list \<Rightarrow> (string \<times> int) list" where
  "candidates cur [] = []"
| "candidates cur (line # lines) =
     (case CutPrefix line markerPrefix of
        Some device \<Rightarrow> candidates (Some (device, 0, False)) lines
      | None \<Rightarrow>
          if prefix markerSuffix line then
            (case cur of Some (device, pid, True) \<Rightarrow> [(device, pid)] | _ \<Rightarrow> []) @ candidates None lines
          else
            (case (cur, CutPrefix line ephemeralMarkerPrefix) of
               (Some (device, pid, isEph), Some rest) \<Rightarrow> candidates (Some (device, ef_pid (parseEphemeralKeyValues rest), True)) lines
             | _ \<Rightarrow> candidates cur lines))"

definition collectEphemeralCandidates :: "string \<Rightarrow> (string \<times> int) list" where
  "collectEphemeralCandidates existing = candidates None (scan_lines 1048576 existing)"

text \<open>
  Signal 0 tells whether a process is there; the calls of the operating system are parameters. Below, the
  processes are those at the moment of an operation.
\<close>

record process_lib =
  pl_FindProcess :: "int \<Rightarrow> go_error option"
  pl_Signal0 :: "int \<Rightarrow> go_error option"
  pl_ESRCH :: go_error
  pl_ErrProcessDone :: go_error

definition defaultPidAlive :: "process_lib \<Rightarrow> int \<Rightarrow> bool" where
  "defaultPidAlive lib pid =
     (if pid \<le> 0 then False
      else if pl_FindProcess lib pid \<noteq> None then False
      else case pl_Signal0 lib pid of
             None \<Rightarrow> True
           | Some err \<Rightarrow> \<not> (errors_Is err (pl_ESRCH lib) \<or> errors_Is err (pl_ErrProcessDone lib)))"

text \<open>The stamp of an existing stanza is printed in UTC, as the client writes it.\<close>

definition ErrEphemeralConcurrent :: "string \<Rightarrow> int \<Rightarrow> time \<Rightarrow> int \<Rightarrow> go_error" where
  "ErrEphemeralConcurrent device pid opened port =
     Plain (if 0 < port
            then ''sshconf: tunnel for device '' @ device @ '' already open at port '' @ FormatInt port @ '' (pid '' @ FormatInt pid @
              '', opened '' @ FormatRFC3339 opened @ ''); close it before opening a new one''
            else ''sshconf: ephemeral tunnel stanza for device '' @ device @ '' already present (pid '' @ FormatInt pid @
              '', opened '' @ FormatRFC3339 opened @ ''); close it before opening a new one'')"

definition ErrEphemeralCollidesWithPersistent :: go_error where
  "ErrEphemeralCollidesWithPersistent = Plain ''sshconf: refusing to clobber a persistent (non-ephemeral) ssh.conf stanza''"

section \<open>The writer\<close>

definition readExisting :: "string \<Rightarrow> disk \<Rightarrow> string result \<times> disk" where
  "readExisting path d =
     (case os_ReadFile path d of
        (Inl err, d1) \<Rightarrow> (if errors_Is err os_ErrNotExist then Inr [] else Inl (Wrapped ''sshconf: read: '' err), d1)
      | (Inr data, d1) \<Rightarrow> (Inr data, d1))"

definition write_conf :: "string \<Rightarrow> string \<Rightarrow> disk \<Rightarrow> go_error option \<times> disk" where
  "write_conf path content d =
     (case os_MkdirAll (Dir path) 448 d of
        (Some err, d1) \<Rightarrow> (Some (Wrapped ''sshconf: create parent dir: '' err), d1)
      | (None, d1) \<Rightarrow>
          (case os_Chmod (Dir path) 448 d1 of
             (Some err, d2) \<Rightarrow> (Some (Wrapped ''sshconf: chmod parent dir: '' err), d2)
           | (None, d2) \<Rightarrow>
               WriteFile path (if Contains content headerSentinel then content else defaultSSHHeader @ [nl] @ content) 420 d2))"

definition Upsert :: "string \<Rightarrow> Stanza \<Rightarrow> disk \<Rightarrow> go_error option \<times> disk" where
  "Upsert path s d =
     (case validateDevice (st_Device s) of
        Some err \<Rightarrow> (Some err, d)
      | None \<Rightarrow>
          (case readExisting path d of
             (Inl err, d1) \<Rightarrow> (Some err, d1)
           | (Inr existing, d1) \<Rightarrow>
               (case renderStanza s of
                  Inl err \<Rightarrow> (Some err, d1)
                | Inr rendered \<Rightarrow> write_conf path (replaceOrAppendStanza existing (st_Device s) rendered) d1)))"

definition Remove :: "string \<Rightarrow> string \<Rightarrow> disk \<Rightarrow> go_error option \<times> disk" where
  "Remove path device d =
     (case validateDevice device of
        Some err \<Rightarrow> (Some err, d)
      | None \<Rightarrow>
          (case readExisting path d of
             (Inl err, d1) \<Rightarrow> (Some err, d1)
           | (Inr existing, d1) \<Rightarrow>
               (case dropStanza existing device of
                  (updated, False) \<Rightarrow> (None, d1)
                | (updated, True) \<Rightarrow> write_conf path updated d1)))"

definition List_devices :: "string \<Rightarrow> disk \<Rightarrow> string list result \<times> disk" where
  "List_devices path d =
     (case readExisting path d of
        (Inl err, d1) \<Rightarrow> (Inl err, d1)
      | (Inr existing, d1) \<Rightarrow> (Inr (sort (collectDevices existing)), d1))"

definition UpsertEphemeral :: "(int \<Rightarrow> bool) \<Rightarrow> string \<Rightarrow> Stanza \<Rightarrow> int \<Rightarrow> time \<Rightarrow> disk \<Rightarrow> go_error option \<times> disk" where
  "UpsertEphemeral pidAlive path s pid opened d =
     (case validateDevice (st_Device s) of
        Some err \<Rightarrow> (Some err, d)
      | None \<Rightarrow>
          if pid \<le> 0 then (Some (Plain ''sshconf: UpsertEphemeral pid must be positive''), d)
          else (case readExisting path d of
             (Inl err, d1) \<Rightarrow> (Some err, d1)
           | (Inr existing, d1) \<Rightarrow>
               (case (case extractBlock existing (markerPrefix @ st_Device s) (markerSuffix @ st_Device s) of
                        None \<Rightarrow> None
                      | Some priorBlock \<Rightarrow>
                          (case parseEphemeralFields priorBlock of
                             None \<Rightarrow> Some (Wrapped [] ErrEphemeralCollidesWithPersistent)
                           | Some prior \<Rightarrow>
                               if pidAlive (ef_pid prior)
                               then Some (ErrEphemeralConcurrent (st_Device s) (ef_pid prior) (ef_opened prior) (st_Port s))
                               else None)) of
                  Some err \<Rightarrow> (Some err, d1)
                | None \<Rightarrow>
                    (case renderStanza s of
                       Inl err \<Rightarrow> (Some err, d1)
                     | Inr rendered \<Rightarrow>
                         write_conf path (replaceOrAppendStanza existing (st_Device s)
                           (injectEphemeralSentinel rendered (st_Device s) pid opened)) d1))))"

definition RemoveEphemeral :: "string \<Rightarrow> string \<Rightarrow> disk \<Rightarrow> go_error option \<times> disk" where
  "RemoveEphemeral path device d =
     (case validateDevice device of
        Some err \<Rightarrow> (Some err, d)
      | None \<Rightarrow>
          (case readExisting path d of
             (Inl err, d1) \<Rightarrow> (Some err, d1)
           | (Inr existing, d1) \<Rightarrow>
               (case extractBlock existing (markerPrefix @ device) (markerSuffix @ device) of
                  None \<Rightarrow> (None, d1)
                | Some block \<Rightarrow>
                    if parseEphemeralFields block = None then (None, d1)
                    else (case dropStanza existing device of
                            (updated, False) \<Rightarrow> (None, d1)
                          | (updated, True) \<Rightarrow> write_conf path updated d1))))"

fun reap :: "(int \<Rightarrow> bool) \<Rightarrow> string \<Rightarrow> (string \<times> int) list \<Rightarrow> disk \<Rightarrow> string list \<times> disk" where
  "reap pidAlive path [] d = ([], d)"
| "reap pidAlive path ((device, pid) # cs) d =
     (if pidAlive pid then reap pidAlive path cs d
      else case RemoveEphemeral path device d of
             (Some err, d1) \<Rightarrow> reap pidAlive path cs d1
           | (None, d1) \<Rightarrow> (case reap pidAlive path cs d1 of (reaped, d2) \<Rightarrow> (device # reaped, d2)))"

definition ReapStaleEphemeral :: "(int \<Rightarrow> bool) \<Rightarrow> string \<Rightarrow> disk \<Rightarrow> string list result \<times> disk" where
  "ReapStaleEphemeral pidAlive path d =
     (case readExisting path d of
        (Inl err, d1) \<Rightarrow> (Inl err, d1)
      | (Inr existing, d1) \<Rightarrow>
          if existing = [] then (Inr [], d1)
          else (case reap pidAlive path (collectEphemeralCandidates existing) d1 of (reaped, d2) \<Rightarrow> (Inr reaped, d2)))"

definition Has :: "string \<Rightarrow> string \<Rightarrow> disk \<Rightarrow> bool result \<times> disk" where
  "Has path device d =
     (case validateDevice device of
        Some err \<Rightarrow> (Inl err, d)
      | None \<Rightarrow>
          (case readExisting path d of
             (Inl err, d1) \<Rightarrow> (Inl err, d1)
           | (Inr existing, d1) \<Rightarrow> (Inr (indexLineStart existing (markerPrefix @ device) \<noteq> None), d1)))"

fun user_line :: "string list \<Rightarrow> string option" where
  "user_line [] = None"
| "user_line (line # lines) =
     (case CutPrefix (TrimSpace line) ''User '' of
        Some rest \<Rightarrow> let user = TrimSpace rest in if user = [] then None else Some user
      | None \<Rightarrow> user_line lines)"

definition LookupUser :: "string \<Rightarrow> string \<Rightarrow> disk \<Rightarrow> string option result \<times> disk" where
  "LookupUser path device d =
     (case validateDevice device of
        Some err \<Rightarrow> (Inl err, d)
      | None \<Rightarrow>
          (case readExisting path d of
             (Inl err, d1) \<Rightarrow> (Inl err, d1)
           | (Inr existing, d1) \<Rightarrow>
               (case extractBlock existing (markerPrefix @ device) (markerSuffix @ device) of
                  None \<Rightarrow> (Inr None, d1)
                | Some block \<Rightarrow> (Inr (user_line (scan_lines 65536 block)), d1))))"

section \<open>Lines\<close>

text \<open>A text is its lines with newlines between them.\<close>

fun join_lines :: "string list \<Rightarrow> string" where
  "join_lines [] = []"
| "join_lines [l] = l"
| "join_lines (l # ls) = l @ nl # join_lines ls"

lemma join_lines_append: "xs \<noteq> [] \<Longrightarrow> ys \<noteq> [] \<Longrightarrow> join_lines (xs @ ys) = join_lines xs @ nl # join_lines ys"
  by (induction xs rule: join_lines.induct) (auto simp: neq_Nil_conv)

lemma join_Split [simp]: "join_lines (Split nl s) = s"
proof (induction s)
  case (Cons c s)
  obtain y ys where "Split nl s = y # ys" by (cases "Split nl s") auto
  with Cons show ?case by (cases ys) auto
qed simp

lemma Split_join: "ls \<noteq> [] \<Longrightarrow> (\<And>l. l \<in> set ls \<Longrightarrow> nl \<notin> set l) \<Longrightarrow> Split nl (join_lines ls) = ls"
  by (induction ls rule: join_lines.induct) (auto simp: Split_no_sep Split_append)

text \<open>Where a text has a line: at its start or after a newline, at its end or before one.\<close>

definition at_line :: "string \<Rightarrow> string \<Rightarrow> nat \<Rightarrow> bool" where
  "at_line s n k \<longleftrightarrow> k + length n \<le> length s \<and> prefix n (drop k s)
     \<and> (k = 0 \<or> s ! (k - 1) = nl) \<and> (k + length n = length s \<or> s ! (k + length n) = nl)"

lemma Index_least: "Index s sub = Some i \<Longrightarrow> j < i \<Longrightarrow> \<not> prefix sub (drop j s)"
proof (induction s arbitrary: i j)
  case (Cons x xs)
  then show ?case by (cases j) (auto split: if_splits)
qed (auto split: if_splits)

lemma Index_absent: "Index s sub = None \<Longrightarrow> \<not> prefix sub (drop j s)"
  using sublist_altdef' [of sub s] suffix_drop [of j s] by (auto simp: Index_None)

lemma line_search_iff:
  "(line_search s n idx = Some k \<longleftrightarrow> idx \<le> k \<and> at_line s n k \<and> (\<forall>j. idx \<le> j \<longrightarrow> j < k \<longrightarrow> \<not> at_line s n j))
   \<and> (line_search s n idx = None \<longleftrightarrow> (\<forall>j \<ge> idx. \<not> at_line s n j))"
proof (induction s n idx rule: line_search.induct)
  case (1 s n idx)
  let ?P = "\<lambda>i. line_search s n i = Some k \<longleftrightarrow> i \<le> k \<and> at_line s n k \<and> (\<forall>j. i \<le> j \<longrightarrow> j < k \<longrightarrow> \<not> at_line s n j)"
  let ?N = "\<lambda>i. line_search s n i = None \<longleftrightarrow> (\<forall>j \<ge> i. \<not> at_line s n j)"
  show "?P idx \<and> ?N idx"
  proof (cases "length s < idx")
    case True
    then have "\<not> at_line s n j" if "idx \<le> j" for j using that by (simp add: at_line_def)
    with True show ?thesis by (subst line_search.simps, subst line_search.simps) auto
  next
    case in_text: False
    show ?thesis
    proof (cases "Index (drop idx s) n")
      case None
      have "\<not> at_line s n j" if "idx \<le> j" for j
        using Index_absent [OF None, of "j - idx"] that by (simp add: at_line_def)
      with None in_text show ?thesis by (subst line_search.simps, subst line_search.simps) auto
    next
      case (Some off)
      have pre: "prefix n (drop (idx + off) s)" "idx + off + length n \<le> length s"
        using Index_Some [OF Some] in_text by (auto simp: add.commute)
      have below: "\<not> at_line s n j" if "idx \<le> j" "j < idx + off" for j
        using Index_least [OF Some, of "j - idx"] that by (simp add: at_line_def)
      let ?here = "(idx + off = 0 \<or> s ! (idx + off - 1) = nl) \<and> (idx + off + length n = length s \<or> s ! (idx + off + length n) = nl)"
      have here: "at_line s n (idx + off) \<longleftrightarrow> ?here" using pre by (simp add: at_line_def)
      have step: "line_search s n idx = (if ?here then Some (idx + off) else line_search s n (idx + off + 1))"
        using Some in_text by (subst line_search.simps) (simp add: Let_def)
      show ?thesis
      proof (cases ?here)
        case True
        with step here below show ?thesis by (metis le_add1 linorder_neqE_nat option.distinct(1) option.inject)
      next
        case False
        with 1 in_text Some have IH: "?P (idx + off + 1)" "?N (idx + off + 1)" by (simp_all add: Let_def)
        have ext: "\<not> at_line s n j" if "idx \<le> j" "j < idx + off + 1" for j
          using below [OF that(1)] here False that(2) by (cases "j = idx + off") auto
        have range: "idx + off + 1 \<le> j" if "idx \<le> j" "at_line s n j" for j using ext [of j] that by (cases "j < idx + off + 1") auto
        have mono: "idx \<le> j" if "idx + off + 1 \<le> j" for j using that by simp
        have at: "line_search s n idx = line_search s n (idx + off + 1)" unfolding step using False by (simp only: if_False)
        have "?P idx" unfolding at IH(1) using range mono by blast
        moreover have "?N idx" unfolding at IH(2) using range mono by blast
        ultimately show ?thesis by blast
      qed
    qed
  qed
qed

lemmas line_search_least = line_search_iff [THEN conjunct1] line_search_iff [THEN conjunct2]

text \<open>The pieces around a line: what is before it ends a line, what is after it starts with a newline.\<close>

definition ended :: "string \<Rightarrow> bool" where
  "ended b \<longleftrightarrow> b = [] \<or> last b = nl"

lemma ended_cases: "ended b \<longleftrightarrow> b = [] \<or> (\<exists>b'. b = b' @ [nl])"
  by (cases b rule: rev_cases) (auto simp: ended_def)

lemma Split_pieces:
  assumes "ended b" and "a = [] \<or> hd a = nl" and "nl \<notin> set n"
  shows "Split nl (b @ n @ a) = butlast (Split nl b) @ n # (if a = [] then [] else Split nl (tl a))"
proof -
  have right: "Split nl (n @ a) = n # (if a = [] then [] else Split nl (tl a))"
    using assms(2,3) by (cases a) (auto simp: Split_no_sep Split_append)
  show ?thesis
  proof (cases "b = []")
    case False
    with assms(1) obtain b' where "b = b' @ [nl]" by (auto simp: ended_cases)
    then show ?thesis using right Split_append [of nl b' "[]"] Split_append [of nl b' "n @ a"] by simp
  qed (use right in simp)
qed

lemma at_line_pieces:
  assumes "at_line s n k"
  obtains b a where "s = b @ n @ a" "length b = k" "ended b" "a = [] \<or> hd a = nl"
proof (rule that)
  from assms have k: "k + length n \<le> length s" "take (length n) (drop k s) = n" by (auto simp: at_line_def prefix_def)
  then show "s = take k s @ n @ drop (k + length n) s"
    by (metis add.commute append_take_drop_id drop_drop)
  show "length (take k s) = k" using k by simp
  show "ended (take k s)" using assms k
    by (cases k) (auto simp: at_line_def ended_def take_Suc_conv_app_nth)
  show "drop (k + length n) s = [] \<or> hd (drop (k + length n) s) = nl"
    using assms hd_drop_conv_nth [of "k + length n" s] by (cases "k + length n = length s") (auto simp: at_line_def)
qed

lemma pieces_at_line: "ended b \<Longrightarrow> a = [] \<or> hd a = nl \<Longrightarrow> at_line (b @ n @ a) n (length b)"
  by (cases a; cases b rule: rev_cases) (auto simp: at_line_def ended_def nth_append)

lemma line_pieces:
  assumes "Split nl s = xs @ n # ys"
  shows "s = (if xs = [] then [] else join_lines xs @ [nl]) @ n @ (if ys = [] then [] else nl # join_lines ys)"
proof -
  have "s = join_lines (xs @ n # ys)" using join_Split [of s] assms by simp
  then show ?thesis
    using join_lines_append [of xs "n # ys"] join_lines_append [of "[n]" ys] by (cases "xs = []"; cases "ys = []") auto
qed

lemma at_line_Split:
  assumes "nl \<notin> set n"
  shows "(\<exists>k. at_line s n k) \<longleftrightarrow> n \<in> set (Split nl s)"
proof
  assume "\<exists>k. at_line s n k"
  then obtain b a where "s = b @ n @ a" "ended b" "a = [] \<or> hd a = nl" using at_line_pieces by metis
  with Split_pieces assms show "n \<in> set (Split nl s)" by simp
next
  assume "n \<in> set (Split nl s)"
  then obtain xs ys where "Split nl s = xs @ n # ys" by (meson split_list)
  from line_pieces [OF this] show "\<exists>k. at_line s n k"
    using pieces_at_line [of "if xs = [] then [] else join_lines xs @ [nl]" "if ys = [] then [] else nl # join_lines ys" n]
    by (auto simp: ended_def)
qed

lemma indexLineStart_None: "nl \<notin> set n \<Longrightarrow> indexLineStart s n = None \<longleftrightarrow> n \<notin> set (Split nl s)"
  using at_line_Split [of n s] by (auto simp: indexLineStart_def line_search_least(2))

lemma indexLineStart_Some:
  assumes "indexLineStart s n = Some k" and "nl \<notin> set n" and "n \<noteq> []"
  obtains b a where "s = b @ n @ a" "length b = k" "ended b" "a = [] \<or> hd a = nl" "n \<notin> set (Split nl b)"
proof -
  from assms(1) have k: "at_line s n k" "\<And>j. j < k \<Longrightarrow> \<not> at_line s n j" by (auto simp: indexLineStart_def line_search_least(1))
  from at_line_pieces [OF k(1)] obtain b a where p: "s = b @ n @ a" "length b = k" "ended b" "a = [] \<or> hd a = nl" by blast
  have "n \<notin> set (Split nl b)"
  proof
    assume "n \<in> set (Split nl b)"
    then obtain j where j: "at_line b n j" using at_line_Split [OF assms(2)] by blast
    from at_line_pieces [OF this] obtain b1 a1 where q: "b = b1 @ n @ a1" "length b1 = j" "ended b1" "a1 = [] \<or> hd a1 = nl" by blast
    have "a1 \<noteq> []" using p(3) q(1) assms(2,3) last_in_set [of n] unfolding ended_def by (metis append_Nil2 append_is_Nil_conv last_appendR)
    then have "at_line s n j" using pieces_at_line [OF q(3), of "a1 @ n @ a" n] q p(1) by auto
    moreover have "j < k" using q p(2) assms(3) by (auto simp: neq_Nil_conv)
    ultimately show False using k(2) by blast
  qed
  with that p show thesis by blast
qed

text \<open>The non-blank lines of a text. Blank lines only separate.\<close>

definition nb :: "string \<Rightarrow> string list" where
  "nb s = filter (\<lambda>l. l \<noteq> []) (Split nl s)"

lemma nb_Nil [simp]: "nb [] = []"
  by (simp add: nb_def)

lemma nb_nl: "nb (s @ nl # t) = nb s @ nb t"
  by (simp add: nb_def Split_append)

lemma nb_single: "nl \<notin> set l \<Longrightarrow> l \<noteq> [] \<Longrightarrow> nb l = [l]"
  by (simp add: nb_def Split_no_sep)

lemma nb_ended: "ended b \<Longrightarrow> nb (b @ t) = nb b @ nb t"
  using nb_nl [of _ t] nb_nl [of _ "[]"] by (auto simp: ended_cases)

lemma nb_newline [simp]: "nb (nl # t) = nb t" "nb (s @ [nl]) = nb s"
  using nb_nl [of "[]" t] nb_nl [of s "[]"] by simp_all

lemma nb_trimLeadingBlank [simp]: "nb (trimLeadingBlank s) = nb s"
  by (induction s rule: trimLeadingBlank.induct) auto

lemma nb_trimTrailingBlank [simp]: "nb (trimTrailingBlank s) = nb s"
proof (induction s rule: trimTrailingBlank.induct)
  case (1 s)
  show ?case
  proof (cases "suffix [nl, nl] s")
    case True
    then obtain t where "s = t @ [nl, nl]" by (auto simp: suffix_def)
    with 1 True show ?thesis using nb_nl [of t "[nl]"] nb_nl [of t "[]"] by (subst trimTrailingBlank.simps) simp
  qed (simp add: trimTrailingBlank.simps)
qed

lemma nb_TrimRight_nl [simp]: "nb (TrimRight_nl s) = nb s"
  by (induction s rule: rev_induct) (auto simp: TrimRight_nl_def)

lemma nb_text_of: "list_all (\<lambda>l. nl \<notin> set l \<and> l \<noteq> []) ls \<Longrightarrow> nb (text_of ls) = ls"
  by (induction ls) (auto simp: text_of_def nb_nl nb_single)

section \<open>Blocks as lines\<close>

definition find_block :: "string \<Rightarrow> string \<Rightarrow> string list \<Rightarrow> (string list \<times> string list \<times> string list) option" where
  "find_block B E ls =
     (case dropWhile (\<lambda>l. l \<noteq> B) ls of
        [] \<Rightarrow> None
      | _ # rest \<Rightarrow>
          (case dropWhile (\<lambda>l. l \<noteq> E) rest of
             [] \<Rightarrow> None
           | _ # zs \<Rightarrow> Some (takeWhile (\<lambda>l. l \<noteq> B) ls, B # takeWhile (\<lambda>l. l \<noteq> E) rest @ [E], zs)))"

lemma dropWhile_absent: "x \<notin> set xs \<Longrightarrow> dropWhile (\<lambda>l. l \<noteq> x) (xs @ ys) = dropWhile (\<lambda>l. l \<noteq> x) ys"
  "x \<notin> set xs \<Longrightarrow> takeWhile (\<lambda>l. l \<noteq> x) (xs @ ys) = xs @ takeWhile (\<lambda>l. l \<noteq> x) ys"
  by (induction xs) auto

lemma find_block_at: "B \<notin> set xs \<Longrightarrow> E \<notin> set ys \<Longrightarrow> find_block B E (xs @ B # ys @ E # zs) = Some (xs, B # ys @ [E], zs)"
  by (simp add: find_block_def dropWhile_absent)

lemma find_block_absent: "B \<notin> set ls \<Longrightarrow> find_block B E ls = None"
proof -
  assume "B \<notin> set ls"
  then have "dropWhile (\<lambda>l. l \<noteq> B) ls = []" by (auto simp: dropWhile_eq_Nil_conv)
  then show ?thesis by (simp only: find_block_def list.case)
qed

lemma find_block_open: "B \<notin> set xs \<Longrightarrow> E \<notin> set ys \<Longrightarrow> find_block B E (xs @ B # ys) = None"
proof -
  assume "B \<notin> set xs" "E \<notin> set ys"
  then have "dropWhile (\<lambda>l. l \<noteq> B) (xs @ B # ys) = B # ys" "dropWhile (\<lambda>l. l \<noteq> E) ys = []"
    by (auto simp: dropWhile_eq_Nil_conv dropWhile_absent)
  then show ?thesis by (simp only: find_block_def list.case)
qed

lemma set_nb: "set (nb s) = set (Split nl s) - {[]}"
  by (auto simp: nb_def)

text \<open>A marker: a non-empty line.\<close>

definition marker :: "string \<Rightarrow> bool" where
  "marker B \<longleftrightarrow> B \<noteq> [] \<and> nl \<notin> set B"

lemma nb_line: "marker B \<Longrightarrow> a = [] \<or> hd a = nl \<Longrightarrow> nb (B @ a) = B # nb (tl a)"
  using nb_nl [of B "tl a"] by (cases a) (auto simp: marker_def nb_single)

lemma nb_tl: "a = [] \<or> hd a = nl \<Longrightarrow> nb (tl a) = nb a"
  by (cases a) auto

lemma newline_after:
  assumes "marker E" and "a = [] \<or> hd a = nl"
  shows "indexOfNewline (b @ E @ a) (length b) = length b + length E + (if a = [] then 0 else 1)"
proof -
  have absent: "Index (E @ nl # t) [nl] = Some (length E)" if "nl \<notin> set E" for t E
    using that by (induction E) (auto simp: prefix_def)
  have "Index E [nl] = None" using assms(1) by (auto simp: Index_None marker_def sublist_def)
  with absent [of E "tl a"] assms show ?thesis by (cases a) (auto simp: indexOfNewline_def marker_def)
qed

lemma stanza_span_lines:
  assumes B: "marker B" and E: "marker E" and "B \<noteq> E"
  shows "case stanza_span e B E of
      None \<Rightarrow> find_block B E (nb e) = None
    | Some (i, j) \<Rightarrow> \<exists>b m a. e = b @ m @ a \<and> i = length b \<and> j = length (b @ m) \<and> ended b \<and> (a = [] \<or> ended m)
        \<and> find_block B E (nb e) = Some (nb b, nb m, nb a)"
proof (cases "indexLineStart e B")
  case None
  then have "B \<notin> set (nb e)" using B by (simp add: indexLineStart_None marker_def set_nb)
  with None show ?thesis by (simp add: stanza_span_def find_block_absent)
next
  case (Some i)
  from B have "nl \<notin> set B" "B \<noteq> []" by (simp_all add: marker_def)
  from indexLineStart_Some [OF Some this] obtain b a0 where
    e: "e = b @ B @ a0" "length b = i" "ended b" "a0 = [] \<or> hd a0 = nl" "B \<notin> set (Split nl b)" by blast
  then have nbb: "B \<notin> set (nb b)" and nbe: "nb e = nb b @ B # nb (tl a0)" by (simp_all add: set_nb nb_ended nb_line B)
  have rest: "drop i e = B @ a0" using e by simp
  show ?thesis
  proof (cases "indexLineStart (drop i e) E")
    case None
    then have "E \<notin> set (nb (B @ a0))" using E rest by (simp add: indexLineStart_None marker_def set_nb)
    then have "E \<notin> set (nb (tl a0))" using e(4) by (simp add: nb_line B)
    with None Some nbb nbe show ?thesis by (simp add: stanza_span_def find_block_open)
  next
    case (Some k)
    from E have "nl \<notin> set E" "E \<noteq> []" by (simp_all add: marker_def)
    from indexLineStart_Some [OF Some this] rest obtain b2 a2 where
      p: "B @ a0 = b2 @ E @ a2" "length b2 = k" "ended b2" "a2 = [] \<or> hd a2 = nl" "E \<notin> set (Split nl b2)" by metis
    from p(5) have nE: "E \<notin> set (nb b2)" by (simp add: set_nb)
    have lines: "B # nb (tl a0) = nb b2 @ E # nb (tl a2)"
      using nb_line [OF B e(4)] nb_line [OF E p(4)] nb_ended [OF p(3), of "E @ a2"] p(1) by simp
    with \<open>B \<noteq> E\<close> obtain ys where ys: "nb b2 = B # ys" "nb (tl a0) = ys @ E # nb (tl a2)" by (cases "nb b2") auto
    let ?m = "b2 @ E @ (if a2 = [] then [] else [nl])"
    have parts: "e = b @ ?m @ tl a2" using e(1) p(1,4) by (cases a2) auto
    have stop: "indexOfNewline e (i + k) = length (b @ ?m)"
      using newline_after [OF E p(4), of "b @ b2"] e(1,2) p(1,2) by simp
    have fin: "tl a2 = [] \<or> ended ?m" by (cases a2) (auto simp: ended_def)
    have "nb ?m = B # ys @ [E]"
      using nb_ended [OF p(3), of "E @ (if a2 = [] then [] else [nl])"] ys(1) nb_line [OF E, of "if a2 = [] then [] else [nl]"] by auto
    then have found: "find_block B E (nb e) = Some (nb b, nb ?m, nb (tl a2))"
      using nbe ys nbb nE by (simp add: find_block_at)
    have "stanza_span e B E = Some (length b, length (b @ ?m))"
      using \<open>indexLineStart e B = Some i\<close> Some e(2) stop by (simp add: stanza_span_def)
    moreover have "\<exists>b' m a. e = b' @ m @ a \<and> length b = length b' \<and> length (b @ ?m) = length (b' @ m) \<and> ended b' \<and> (a = [] \<or> ended m)
        \<and> find_block B E (nb e) = Some (nb b', nb m, nb a)"
      by (rule exI [of _ b], rule exI [of _ ?m], rule exI [of _ "tl a2"]) (intro conjI parts fin found e(3) refl)
    ultimately show ?thesis by (simp only: option.case prod.case)
  qed
qed

text \<open>The markers of a device.\<close>

lemma markers [simp]:
  assumes "nl \<notin> set d"
  shows "marker (markerPrefix @ d)" "marker (markerSuffix @ d)" "markerPrefix @ d \<noteq> markerSuffix @ d'"
  using assms by (simp_all add: marker_def markerPrefix_def markerSuffix_def nl_def)

lemma markers_differ [simp]: "markerPrefix \<noteq> markerSuffix" "markerSuffix \<noteq> markerPrefix"
  by (simp_all add: markerPrefix_def markerSuffix_def)

definition block_of :: "string \<Rightarrow> string list \<Rightarrow> (string list \<times> string list \<times> string list) option" where
  "block_of d = find_block (markerPrefix @ d) (markerSuffix @ d)"

lemma stanza_pieces:
  assumes "nl \<notin> set d"
  obtains "stanza_span e (markerPrefix @ d) (markerSuffix @ d) = None" "block_of d (nb e) = None"
  | b m a where "stanza_span e (markerPrefix @ d) (markerSuffix @ d) = Some (length b, length (b @ m))" "e = b @ m @ a" "ended b"
    "a = [] \<or> ended m" "block_of d (nb e) = Some (nb b, nb m, nb a)"
  using stanza_span_lines [of "markerPrefix @ d" "markerSuffix @ d" e] assms
  by (cases "stanza_span e (markerPrefix @ d) (markerSuffix @ d)") (auto simp: block_of_def)

lemma nb_separated: "ended b \<Longrightarrow> nb (b @ (if b \<noteq> [] \<and> \<not> suffix [nl] b then [nl] else []) @ (if b \<noteq> [] then [nl] else []) @ t) = nb b @ nb t"
  by (auto simp: nb_ended)

lemma ended_trimTrailingBlank: "ended b \<Longrightarrow> ended (trimTrailingBlank b)"
proof (induction b rule: trimTrailingBlank.induct)
  case (1 b)
  show ?case
  proof (cases "suffix [nl, nl] b")
    case True
    then obtain t where "b = t @ [nl, nl]" by (auto simp: suffix_def)
    with 1 True show ?thesis by (subst trimTrailingBlank.simps) (simp add: ended_def)
  qed (use 1 in \<open>simp add: trimTrailingBlank.simps\<close>)
qed

lemma nb_replaceOrAppendStanza:
  assumes "nl \<notin> set d" and "ended r"
  shows "nb (replaceOrAppendStanza e d r) = (case block_of d (nb e) of None \<Rightarrow> nb e @ nb r | Some (xs, ys, zs) \<Rightarrow> xs @ nb r @ zs)"
  using assms(1)
proof (cases rule: stanza_pieces [of d e])
  case 1
  have "nb (TrimRight_nl e @ [nl, nl] @ r) = nb e @ nb r" using nb_nl [of "TrimRight_nl e" "nl # r"] by simp
  with 1 show ?thesis by (simp add: replaceOrAppendStanza_def appendStanza_def)
next
  case (2 b m a)
  have r: "nb (r @ nl # trimLeadingBlank a) = nb r @ nb a" "trimLeadingBlank a = [] \<Longrightarrow> nb a = []"
    using nb_nl [of r "trimLeadingBlank a"] nb_trimLeadingBlank [of a] by (auto simp del: nb_trimLeadingBlank)
  show ?thesis
    using 2 nb_separated [OF ended_trimTrailingBlank [OF 2(3)]] r by (simp add: replaceOrAppendStanza_def Let_def)
qed

lemma nb_dropStanza:
  assumes "nl \<notin> set d"
  shows "(case block_of d (nb e) of
      None \<Rightarrow> dropStanza e d = (e, False)
    | Some (xs, ys, zs) \<Rightarrow> \<exists>u. dropStanza e d = (u, True) \<and> nb u = xs @ zs)"
  using assms
proof (cases rule: stanza_pieces [of d e])
  case 1
  then show ?thesis by (simp add: dropStanza_def)
next
  case (2 b m a)
  have join: "nb (trimTrailingBlank b @ nl # trimLeadingBlank a) = nb b @ nb a" by (simp add: nb_nl)
  have closed: "nb (trimTrailingBlank b @ nl # nl # trimLeadingBlank a) = nb b @ nb a" using nb_nl [of "trimTrailingBlank b" "nl # trimLeadingBlank a"] by simp
  have "nb b = []" if "trimTrailingBlank b = []" using nb_trimTrailingBlank [of b] that by simp
  moreover have "nb a = []" if "trimLeadingBlank a = []" using nb_trimLeadingBlank [of a] that by simp
  ultimately show ?thesis using 2 join closed by (simp add: dropStanza_def Let_def)
qed

lemma extractBlock_lines:
  assumes "nl \<notin> set d"
  shows "(case block_of d (nb e) of
      None \<Rightarrow> extractBlock e (markerPrefix @ d) (markerSuffix @ d) = None
    | Some (xs, ys, zs) \<Rightarrow> \<exists>m. extractBlock e (markerPrefix @ d) (markerSuffix @ d) = Some m \<and> nb m = ys)"
  using assms by (cases rule: stanza_pieces [of d e]) (auto simp: extractBlock_def)

end
