(* ===== verification/SSH_Document.thy ===== *)
theory SSH_Document
  imports SSH_Conf
begin

text \<open>
  The document behind the ssh configuration file: lines of the engineer and blocks. The operations of \<open>SSH_Conf\<close>,
  which search and cut the text, implement the obvious operations on documents.
\<close>

section \<open>Documents\<close>

text \<open>
  The abstract file: lines of the engineer and blocks with their bodies. A text holds a document when its
  non-blank lines are those of the document, the blocks are named once, and no line looks like a marker
  of another kind or would upset a line scanner.
\<close>

datatype item = Own string | Block string "string list"

fun item_lines :: "item \<Rightarrow> string list" where
  "item_lines (Own l) = [l]"
| "item_lines (Block d b) = (markerPrefix @ d) # b @ [markerSuffix @ d]"

definition doc_lines :: "item list \<Rightarrow> string list" where
  "doc_lines doc = concat (map item_lines doc)"

definition scannable :: "string \<Rightarrow> bool" where
  "scannable l \<longleftrightarrow> l \<noteq> [] \<and> nl \<notin> set l \<and> last l \<noteq> cr \<and> length l < 65536"

definition plain_line :: "string \<Rightarrow> bool" where
  "plain_line l \<longleftrightarrow> scannable l \<and> \<not> prefix markerPrefix l \<and> \<not> prefix markerSuffix l"

definition device_ok :: "string \<Rightarrow> bool" where
  "device_ok d \<longleftrightarrow> validateDevice d = None \<and> length (markerPrefix @ d) < 65536"

fun item_ok :: "item \<Rightarrow> bool" where
  "item_ok (Own l) = plain_line l"
| "item_ok (Block d b) = (device_ok d \<and> list_all plain_line b)"

fun device_of :: "item \<Rightarrow> string option" where
  "device_of (Own l) = None"
| "device_of (Block d b) = Some d"

definition devices :: "item list \<Rightarrow> string list" where
  "devices doc = List.map_filter device_of doc"

definition doc_ok :: "item list \<Rightarrow> bool" where
  "doc_ok doc \<longleftrightarrow> list_all item_ok doc \<and> distinct (devices doc)"

definition holds :: "string \<Rightarrow> item list \<Rightarrow> bool" where
  "holds s doc \<longleftrightarrow> nb s = doc_lines doc \<and> doc_ok doc"

definition upsert_doc :: "string \<Rightarrow> string list \<Rightarrow> item list \<Rightarrow> item list" where
  "upsert_doc d b doc =
     (if d \<in> set (devices doc) then map (\<lambda>i. if device_of i = Some d then Block d b else i) doc else doc @ [Block d b])"

definition remove_doc :: "string \<Rightarrow> item list \<Rightarrow> item list" where
  "remove_doc d doc = filter (\<lambda>i. device_of i \<noteq> Some d) doc"

lemma devices_simps [simp]:
  "devices [] = []" "devices (Own l # doc) = devices doc" "devices (Block d b # doc) = d # devices doc" "devices (xs @ ys) = devices xs @ devices ys"
  by (simp_all add: devices_def map_filter_def)

lemma doc_lines_simps [simp]:
  "doc_lines [] = []" "doc_lines (i # doc) = item_lines i @ doc_lines doc" "doc_lines (xs @ ys) = doc_lines xs @ doc_lines ys"
  by (simp_all add: doc_lines_def)

lemma set_devices: "d \<in> set (devices doc) \<longleftrightarrow> (\<exists>i \<in> set doc. device_of i = Some d)"
  by (force simp: devices_def map_filter_def)

lemma device_of_Some: "device_of i = Some d \<longleftrightarrow> (\<exists>b. i = Block d b)"
  by (cases i) auto

lemma device_ok_clean: "device_ok d \<Longrightarrow> nl \<notin> set d \<and> cr \<notin> set d \<and> d \<noteq> []"
  by (auto simp: device_ok_def validateDevice_def TrimSpace_def trim_left_def trim_right_def strip_Nil split: if_splits)

lemma plain_not_marker: "plain_line l \<Longrightarrow> l \<noteq> markerPrefix @ d \<and> l \<noteq> markerSuffix @ d"
  by (auto simp: plain_line_def)

lemma marker_kinds [simp]: "markerPrefix @ d \<noteq> markerSuffix @ d'" "markerSuffix @ d \<noteq> markerPrefix @ d'"
  by (simp_all add: markerPrefix_def markerSuffix_def)

lemma marker_in_doc: "list_all item_ok doc \<Longrightarrow> markerPrefix @ d \<in> set (doc_lines doc) \<longleftrightarrow> d \<in> set (devices doc)"
proof (induction doc)
  case (Cons i doc)
  then show ?case by (cases i) (auto simp: list_all_iff dest: plain_not_marker)
qed simp

lemma block_split:
  assumes "d \<in> set (devices doc)"
  obtains xs b ys where "doc = xs @ Block d b # ys"
  using assms by (auto simp: set_devices device_of_Some dest: split_list)

lemma block_of_doc:
  assumes "doc_ok doc"
  shows "d \<notin> set (devices doc) \<Longrightarrow> block_of d (doc_lines doc) = None"
    and "doc = xs @ Block d b # ys \<Longrightarrow> block_of d (doc_lines doc) = Some (doc_lines xs, item_lines (Block d b), doc_lines ys)"
proof -
  show "d \<notin> set (devices doc) \<Longrightarrow> block_of d (doc_lines doc) = None"
    using assms by (simp add: block_of_def doc_ok_def marker_in_doc find_block_absent)
  assume doc: "doc = xs @ Block d b # ys"
  with assms have "markerPrefix @ d \<notin> set (doc_lines xs)" "markerSuffix @ d \<notin> set b"
    by (auto simp: doc_ok_def marker_in_doc list_all_iff dest: plain_not_marker)
  then show "block_of d (doc_lines doc) = Some (doc_lines xs, item_lines (Block d b), doc_lines ys)"
    by (simp add: doc block_of_def find_block_at)
qed

lemma other_items: "d \<notin> set (devices xs) \<Longrightarrow> i \<in> set xs \<Longrightarrow> device_of i \<noteq> Some d"
  by (auto simp: set_devices)

lemma doc_ops_at:
  assumes "doc_ok (xs @ Block d c # ys)"
  shows "upsert_doc d b (xs @ Block d c # ys) = xs @ Block d b # ys" "remove_doc d (xs @ Block d c # ys) = xs @ ys"
proof -
  have "d \<notin> set (devices xs)" "d \<notin> set (devices ys)" using assms by (auto simp: doc_ok_def)
  then have "device_of i \<noteq> Some d" if "i \<in> set xs \<union> set ys" for i using other_items that by blast
  then show "upsert_doc d b (xs @ Block d c # ys) = xs @ Block d b # ys" "remove_doc d (xs @ Block d c # ys) = xs @ ys"
    by (simp_all add: upsert_doc_def remove_doc_def map_idI)
qed

lemma doc_ops_ok:
  assumes "doc_ok doc"
  shows "item_ok (Block d b) \<Longrightarrow> doc_ok (upsert_doc d b doc)" "doc_ok (remove_doc d doc)"
proof -
  show "doc_ok (upsert_doc d b doc)" if "item_ok (Block d b)"
  proof (cases "d \<in> set (devices doc)")
    case True
    then obtain xs c ys where "doc = xs @ Block d c # ys" by (rule block_split)
    with assms that show ?thesis using doc_ops_at(1) [of xs d c ys b] by (auto simp: doc_ok_def)
  qed (use assms that in \<open>auto simp: upsert_doc_def doc_ok_def\<close>)
  show "doc_ok (remove_doc d doc)"
  proof (cases "d \<in> set (devices doc)")
    case True
    then obtain xs c ys where "doc = xs @ Block d c # ys" by (rule block_split)
    with assms show ?thesis using doc_ops_at(2) [of xs d c ys] by (auto simp: doc_ok_def)
  next
    case False
    then have "remove_doc d doc = doc" using other_items by (simp add: remove_doc_def)
    with assms show ?thesis by simp
  qed
qed

lemma holds_replace:
  assumes "holds e doc" and ok: "item_ok (Block d b)"
  shows "holds (replaceOrAppendStanza e d (text_of (item_lines (Block d b)))) (upsert_doc d b doc)"
proof -
  let ?r = "text_of (item_lines (Block d b))"
  have d: "nl \<notin> set d" using ok device_ok_clean by auto
  have r: "nb ?r = item_lines (Block d b)"
    using ok d by (intro nb_text_of) (auto simp: list_all_iff plain_line_def scannable_def markerPrefix_def markerSuffix_def nl_def)
  have e: "ended ?r" by (simp add: ended_def text_of_def)
  have doc: "doc_ok doc" "nb e = doc_lines doc" using assms(1) by (auto simp: holds_def)
  have "nb (replaceOrAppendStanza e d ?r) = doc_lines (upsert_doc d b doc)"
  proof (cases "d \<in> set (devices doc)")
    case True
    then obtain xs c ys where "doc = xs @ Block d c # ys" by (rule block_split)
    with doc block_of_doc(2) [OF doc(1) this] show ?thesis
      using nb_replaceOrAppendStanza [OF d e, of e] doc_ops_at(1) [of xs d c ys b] r by simp
  next
    case False
    with doc block_of_doc(1) [OF doc(1) this] show ?thesis
      using nb_replaceOrAppendStanza [OF d e, of e] r by (simp add: upsert_doc_def)
  qed
  then show ?thesis using doc_ops_ok(1) [OF doc(1) ok] by (simp add: holds_def)
qed

lemma holds_drop:
  assumes "holds e doc" and d: "nl \<notin> set d"
  shows "d \<notin> set (devices doc) \<Longrightarrow> dropStanza e d = (e, False)"
    and "d \<in> set (devices doc) \<Longrightarrow> \<exists>u. dropStanza e d = (u, True) \<and> holds u (remove_doc d doc)"
proof -
  have doc: "doc_ok doc" "nb e = doc_lines doc" using assms(1) by (auto simp: holds_def)
  show "dropStanza e d = (e, False)" if "d \<notin> set (devices doc)"
    using nb_dropStanza [OF d, of e] block_of_doc(1) [OF doc(1) that] doc(2) by simp
  show "\<exists>u. dropStanza e d = (u, True) \<and> holds u (remove_doc d doc)" if "d \<in> set (devices doc)"
  proof -
    from that obtain xs c ys where s: "doc = xs @ Block d c # ys" by (rule block_split)
    then have "remove_doc d doc = xs @ ys" using doc_ops_at(2) [of xs d c ys] doc(1) by simp
    then show ?thesis using nb_dropStanza [OF d, of e] block_of_doc(2) [OF doc(1) s] doc(2) doc_ops_ok(2) [OF doc(1), of d] by (simp add: holds_def)
  qed
qed

lemma holds_extract:
  assumes "holds e doc" and d: "nl \<notin> set d"
  shows "d \<notin> set (devices doc) \<Longrightarrow> extractBlock e (markerPrefix @ d) (markerSuffix @ d) = None"
    and "Block d b \<in> set doc \<Longrightarrow> \<exists>m. extractBlock e (markerPrefix @ d) (markerSuffix @ d) = Some m \<and> nb m = item_lines (Block d b)"
proof -
  have doc: "doc_ok doc" "nb e = doc_lines doc" using assms(1) by (auto simp: holds_def)
  show "extractBlock e (markerPrefix @ d) (markerSuffix @ d) = None" if "d \<notin> set (devices doc)"
    using extractBlock_lines [OF d, of e] block_of_doc(1) [OF doc(1) that] doc(2) by simp
  assume "Block d b \<in> set doc"
  then obtain xs ys where s: "doc = xs @ Block d b # ys" by (meson split_list)
  show "\<exists>m. extractBlock e (markerPrefix @ d) (markerSuffix @ d) = Some m \<and> nb m = item_lines (Block d b)"
    using extractBlock_lines [OF d, of e] block_of_doc(2) [OF doc(1) s] doc(2) by simp
qed

section \<open>Scanning\<close>

lemma raw_lines_nb: "filter (\<lambda>l. l \<noteq> []) (raw_lines s) = nb s"
proof -
  have "filter (\<lambda>l. l \<noteq> []) (butlast ls) = filter (\<lambda>l. l \<noteq> []) ls" if "ls \<noteq> []" "last ls = []" for ls :: "string list"
    using that by (induction ls rule: rev_induct) auto
  then show ?thesis by (simp add: raw_lines_def nb_def Let_def)
qed

lemma scan_lines_nb:
  assumes "list_all scannable (nb s)" and "65536 \<le> limit"
  shows "filter (\<lambda>l. l \<noteq> []) (scan_lines limit s) = nb s"
proof -
  have "l = [] \<or> scannable l" if "l \<in> set (raw_lines s)" for l
  proof (cases "l = []")
    case False
    with that have "l \<in> set (nb s)" by (simp flip: raw_lines_nb)
    with assms(1) show ?thesis by (simp add: list_all_iff)
  qed simp
  then have "\<forall>l \<in> set (raw_lines s). length l < limit" "\<forall>l \<in> set (raw_lines s). drop_cr l = l"
    using assms(2) by (fastforce simp: scannable_def drop_cr_def)+
  then have "scan_lines limit s = raw_lines s" by (simp add: scan_lines_def takeWhile_eq_all_conv [THEN iffD2] map_idI)
  then show ?thesis by (simp add: raw_lines_nb)
qed

lemma marker_scannable: "device_ok d \<Longrightarrow> scannable (markerPrefix @ d) \<and> scannable (markerSuffix @ d)"
proof -
  assume d: "device_ok d"
  then have "last d \<noteq> cr" "d \<noteq> []" "nl \<notin> set d" using device_ok_clean [OF d] last_in_set [of d] by metis+
  with d show ?thesis by (auto simp: scannable_def device_ok_def markerPrefix_def markerSuffix_def nl_def)
qed

lemma item_scannable: "item_ok i \<Longrightarrow> list_all scannable (item_lines i)"
  using marker_scannable by (cases i) (auto simp: plain_line_def list_all_iff)

lemma doc_scannable: "list_all item_ok doc \<Longrightarrow> list_all scannable (doc_lines doc)"
  using item_scannable by (induction doc) auto

lemma filtered_fold: "(\<And>x. f x [] = x) \<Longrightarrow> foldl f x (filter (\<lambda>l. l \<noteq> []) ls) = foldl f x ls"
  by (induction ls arbitrary: x) auto

lemma prefixes_differ:
  "\<not> prefix markerPrefix (markerSuffix @ d)" "\<not> prefix markerSuffix (markerPrefix @ d)"
  "\<not> prefix ephemeralMarkerPrefix (markerPrefix @ d)" "\<not> prefix ephemeralMarkerPrefix (markerSuffix @ d)"
  by (simp_all add: markerPrefix_def markerSuffix_def ephemeralMarkerPrefix_def)

text \<open>What the sentinel of a block says.\<close>

definition block_fields :: "string list \<Rightarrow> ephemeralFields option" where
  "block_fields b = foldl sentinel_line None b"

lemma sentinel_other [simp]: "sentinel_line x [] = x" "sentinel_line x (markerPrefix @ d) = x" "sentinel_line x (markerSuffix @ d) = x"
  by (simp_all add: sentinel_line_def CutPrefix_def prefixes_differ) (simp add: ephemeralMarkerPrefix_def)

lemma parse_block:
  assumes "item_ok (Block d b)" and "nb m = item_lines (Block d b)"
  shows "parseEphemeralFields m = block_fields b"
proof -
  have "filter (\<lambda>l. l \<noteq> []) (scan_lines 65536 m) = item_lines (Block d b)"
    using scan_lines_nb [of m 65536] item_scannable [OF assms(1)] assms(2) by simp
  then have "parseEphemeralFields m = foldl sentinel_line None (item_lines (Block d b))"
    by (metis filtered_fold parseEphemeralFields_def sentinel_other(1))
  then show ?thesis by (simp add: block_fields_def)
qed

lemma candidates_blank: "candidates cur (filter (\<lambda>l. l \<noteq> []) ls) = candidates cur ls"
proof (induction ls arbitrary: cur)
  case (Cons l ls)
  have "candidates cur ([] # ls) = candidates cur ls"
    by (cases cur) (auto simp: CutPrefix_def markerPrefix_def markerSuffix_def ephemeralMarkerPrefix_def)
  with Cons show ?case by (auto simp del: candidates.simps(2)) (auto simp: Cons split: option.splits)
qed simp

text \<open>In a block, the walk does what folding over its body does.\<close>

definition walk :: "string \<Rightarrow> ephemeralFields option \<Rightarrow> string \<times> int \<times> bool" where
  "walk d ff = (d, (case ff of None \<Rightarrow> 0 | Some f \<Rightarrow> ef_pid f), ff \<noteq> None)"

lemma candidates_body:
  "list_all plain_line b \<Longrightarrow> candidates (Some (walk d ff)) (b @ (markerSuffix @ d') # rest) =
     (case foldl sentinel_line ff b of None \<Rightarrow> [] | Some f \<Rightarrow> [(d, ef_pid f)]) @ candidates None rest"
proof (induction b arbitrary: ff)
  case Nil
  show ?case by (cases ff) (simp_all add: walk_def CutPrefix_def prefixes_differ)
next
  case (Cons l b)
  have "candidates (Some (walk d ff)) (l # t) = candidates (Some (walk d (sentinel_line ff l))) t" for t
    using Cons.prems by (auto simp: plain_line_def CutPrefix_def sentinel_line_def walk_def split: option.splits)
  with Cons show ?case by simp
qed

fun item_candidate :: "item \<Rightarrow> (string \<times> int) option" where
  "item_candidate (Own l) = None"
| "item_candidate (Block d b) = map_option (\<lambda>f. (d, ef_pid f)) (block_fields b)"

lemma candidates_doc: "list_all item_ok doc \<Longrightarrow> candidates None (doc_lines doc) = List.map_filter item_candidate doc"
proof (induction doc)
  case (Cons i doc)
  show ?case
  proof (cases i)
    case (Own l)
    with Cons show ?thesis by (simp add: plain_line_def CutPrefix_def map_filter_def)
  next
    case (Block d b)
    have "candidates None (item_lines i @ doc_lines doc) = candidates (Some (walk d None)) (b @ (markerSuffix @ d) # doc_lines doc)"
      by (simp add: Block walk_def)
    with Cons Block candidates_body [of b d None d "doc_lines doc"] show ?thesis
      by (auto simp: map_filter_def block_fields_def simp del: candidates.simps split: option.splits)
  qed
qed (simp add: map_filter_def)

lemma holds_candidates:
  assumes "holds s doc"
  shows "collectEphemeralCandidates s = List.map_filter item_candidate doc"
proof -
  from assms have doc: "list_all item_ok doc" "nb s = doc_lines doc" by (simp_all add: holds_def doc_ok_def)
  then have "filter (\<lambda>l. l \<noteq> []) (scan_lines 1048576 s) = doc_lines doc" using scan_lines_nb [of s 1048576] doc_scannable by simp
  then show ?thesis using candidates_blank [of None "scan_lines 1048576 s"] candidates_doc [OF doc(1)] by (simp add: collectEphemeralCandidates_def)
qed

lemma devices_scan: "list_all item_ok doc \<Longrightarrow> List.map_filter (\<lambda>l. CutPrefix l markerPrefix) (doc_lines doc) = devices doc"
proof (induction doc)
  case (Cons i doc)
  have none: "List.map_filter (\<lambda>l. CutPrefix l markerPrefix) b = []" if "list_all plain_line b" for b
    using that by (induction b) (auto simp: map_filter_def plain_line_def CutPrefix_def)
  have app: "List.map_filter f (xs @ ys) = List.map_filter f xs @ List.map_filter f ys" for f :: "string \<Rightarrow> string option" and xs ys
    by (simp add: map_filter_def)
  show ?case
  proof (cases i)
    case (Own l)
    with Cons have "CutPrefix l markerPrefix = None" by (simp add: plain_line_def CutPrefix_def)
    with Cons Own show ?thesis by simp
  next
    case (Block d b)
    with Cons none [of b] have "List.map_filter (\<lambda>l. CutPrefix l markerPrefix) ((b @ [markerSuffix @ d]) @ doc_lines doc) = devices doc"
      by (simp add: app) (simp add: map_filter_def CutPrefix_def prefixes_differ)
    with Block show ?thesis by (simp add: map_filter_def)
  qed
qed (simp add: map_filter_def)

lemma holds_devices:
  assumes "holds s doc"
  shows "collectDevices s = devices doc"
proof -
  from assms have doc: "list_all item_ok doc" "nb s = doc_lines doc" by (simp_all add: holds_def doc_ok_def)
  then have f: "filter (\<lambda>l. l \<noteq> []) (scan_lines 65536 s) = doc_lines doc" using scan_lines_nb [of s 65536] doc_scannable by simp
  have "List.map_filter (\<lambda>l. CutPrefix l markerPrefix) (filter (\<lambda>l. l \<noteq> []) ls) = List.map_filter (\<lambda>l. CutPrefix l markerPrefix) ls" for ls
    by (induction ls) (auto simp: map_filter_def CutPrefix_def markerPrefix_def)
  then show ?thesis using f devices_scan [OF doc(1)] by (metis collectDevices_def)
qed

section \<open>The header\<close>

definition headered :: "string \<Rightarrow> string" where
  "headered content = (if Contains content headerSentinel then content else defaultSSHHeader @ [nl] @ content)"

definition has_header :: "item list \<Rightarrow> bool" where
  "has_header doc \<longleftrightarrow> (\<exists>l \<in> set (doc_lines doc). Contains l headerSentinel)"

definition header_doc :: "item list" where
  "header_doc = map Own header_lines"

definition with_header :: "item list \<Rightarrow> item list" where
  "with_header doc = (if has_header doc then doc else header_doc @ doc)"

lemma sublist_around: "nl \<notin> set n \<Longrightarrow> n \<noteq> [] \<Longrightarrow> sublist n (l @ nl # t) \<longleftrightarrow> sublist n l \<or> sublist n t"
  by (auto simp: sublist_append sublist_Cons_right prefix_Cons)

lemma sublist_lines:
  assumes "nl \<notin> set n" and "n \<noteq> []"
  shows "sublist n (join_lines ls) \<longleftrightarrow> (\<exists>l \<in> set ls. sublist n l)"
proof (induction ls rule: join_lines.induct)
  case (3 l l' ls)
  then show ?case using sublist_around [OF assms, of l "join_lines (l' # ls)"] by simp
qed (use assms in simp_all)

lemma Contains_line: "nl \<notin> set n \<Longrightarrow> n \<noteq> [] \<Longrightarrow> Contains s n \<longleftrightarrow> (\<exists>l \<in> set (nb s). Contains l n)"
  using sublist_lines [of n "Split nl s"] by (auto simp: Contains_def Index_None set_nb)

lemma header_sentinel: "nl \<notin> set headerSentinel" "headerSentinel \<noteq> []"
  by (simp_all add: headerSentinel_def nl_def)

lemma header_plain: "list_all plain_line header_lines"
  by (simp add: header_lines_def plain_line_def scannable_def headerSentinel_def tildePostern_def markerPrefix_def markerSuffix_def nl_def cr_def)

lemma doc_lines_Own [simp]: "doc_lines (map Own ls) = ls" "devices (map Own ls) = []" "list_all item_ok (map Own ls) = list_all plain_line ls"
  by (induction ls) auto

lemma nb_header: "nb (defaultSSHHeader @ t) = header_lines @ nb t"
proof -
  have "nb defaultSSHHeader = header_lines" "ended defaultSSHHeader"
    using header_plain by (simp_all add: defaultSSHHeader_def nb_text_of list_all_iff plain_line_def scannable_def)
      (simp add: text_of_def header_lines_def ended_def)
  then show ?thesis by (simp add: nb_ended)
qed

lemma holds_headered: "holds s doc \<Longrightarrow> holds (headered s) (with_header doc)"
  using Contains_line [OF header_sentinel, of s] header_plain
  by (auto simp: holds_def headered_def with_header_def has_header_def nb_header header_doc_def doc_ok_def)

lemma header_kept: "has_header (header_doc @ doc)"
proof -
  have "Contains headerSentinel headerSentinel" by (simp add: Contains_def Index_None)
  then show ?thesis by (simp add: has_header_def header_doc_def header_lines_def)
qed

section \<open>The file\<close>

text \<open>
  A disk on which nothing fails and nobody else writes, and whose temporary names are free and not the name
  of the configuration file.
\<close>

definition conf_disk :: "string \<Rightarrow> disk \<Rightarrow> bool" where
  "conf_disk path d \<longleftrightarrow> calm d \<and> (\<forall>n. let t = Join (Dir path) (''.atomicfile-'' @ dk_suffix d n) in t \<noteq> path \<and> map_of (dk_files d) t = None)"

definition content :: "string \<Rightarrow> disk \<Rightarrow> string" where
  "content path d = (case map_of (dk_files d) path of None \<Rightarrow> [] | Some f \<Rightarrow> f_data f)"

lemma read_conf:
  assumes "conf_disk path d"
  obtains d1 where "readExisting path d = (Inr (content path d), d1)" "conf_disk path d1" "content path d1 = content path d"
proof -
  have c: "calm d" "\<forall>n. Join (Dir path) (''.atomicfile-'' @ dk_suffix d n) \<noteq> path"
    "\<forall>n. map_of (dk_files d) (Join (Dir path) (''.atomicfile-'' @ dk_suffix d n)) = None" using assms by (auto simp: conf_disk_def Let_def)
  then have "\<exists>d1. readExisting path d = (Inr (content path d), d1) \<and> conf_disk path d1 \<and> content path d1 = content path d"
    by (auto simp: readExisting_def os_ReadFile_def syscall_def calm_def no_faults_def Let_def content_def conf_disk_def os_ErrNotExist_def
        split: option.splits)
  with that show thesis by blast
qed

lemma write_conf_effect:
  assumes "conf_disk path d"
  obtains d' where "write_conf path text d = (None, d')" "conf_disk path d'" "content path d' = headered text"
proof -
  let ?t = "\<lambda>n. Join (Dir path) (''.atomicfile-'' @ dk_suffix d n)"
  have c: "calm d" "\<And>n. ?t n \<noteq> path" "\<And>n. map_of (dk_files d) (?t n) = None" using assms by (auto simp: conf_disk_def Let_def)
  obtain d1 where d1: "os_MkdirAll (Dir path) 448 d = (None, d1)" "calm d1" "dk_files d1 = dk_files d" "dk_suffix d1 = dk_suffix d"
    using c(1) by (auto simp: os_MkdirAll_def syscall_def calm_def no_faults_def Let_def)
  obtain d2 where d2: "os_Chmod (Dir path) 448 d1 = (None, d2)" "calm d2" "dk_files d2 = dk_files d" "dk_suffix d2 = dk_suffix d"
    using d1 by (auto simp: os_Chmod_def syscall_def calm_def no_faults_def Let_def)
  have tmp: "temp_path (Dir path) d2 \<noteq> path" "map_of (dk_files d2) (temp_path (Dir path) d2) = None" using c d2 by (simp_all add: temp_path_def)
  have alone: "leaves_alone d2 q" for q using d2(2) by (simp add: calm_def leaves_alone_def)
  obtain d' where w: "WriteFile path (headered text) 420 d2 = (None, d')"
    using calm_WriteFile [OF d2(2) tmp(2)] by (metis prod.collapse)
  note eff = WriteFile_effect [OF alone tmp(1) [symmetric] w]
  have env: "same_env d2 d'" using eff runs_env by blast
  have other: "map_of (dk_files d') q = map_of (dk_files d) q" if "q \<noteq> path" "q \<noteq> temp_path (Dir path) d2" for q
    using runs_alone [of "replaces (temp_path (Dir path) d2) path \<lparr>f_data = headered text, f_mode = 420\<rparr> True" d2 d' q] eff alone that d2(3)
    by (auto simp: replaces_def)
  have gone: "map_of (dk_files d') (temp_path (Dir path) d2) = None" using eff by simp
  have "conf_disk path d'"
    using env d2 c other gone by (auto simp: conf_disk_def Let_def same_env_def calm_def no_faults_def) metis
  moreover have "content path d' = headered text" using eff by (simp add: content_def)
  moreover have "write_conf path text d = (None, d')" using d1(1) d2(1) w by (simp add: write_conf_def headered_def)
  ultimately show thesis using that by blast
qed

section \<open>The operations on documents\<close>

definition doc_at :: "string \<Rightarrow> item list \<Rightarrow> disk \<Rightarrow> bool" where
  "doc_at path doc d \<longleftrightarrow> conf_disk path d \<and> holds (content path d) doc"

definition stanza_ok :: "Stanza \<Rightarrow> bool" where
  "stanza_ok s \<longleftrightarrow> item_ok (Block (st_Device s) (stanza_lines s))
     \<and> TrimSpace (st_User s) \<noteq> [] \<and> TrimSpace (st_IdentityFile s) \<noteq> [] \<and> TrimSpace (st_CertificateFile s) \<noteq> []"

definition eph_line :: "int \<Rightarrow> time \<Rightarrow> string" where
  "eph_line pid opened = ephemeralMarkerPrefix @ ''pid='' @ FormatInt pid @ '' opened='' @ FormatRFC3339 opened"

lemma read_doc:
  assumes "doc_at path doc d"
  obtains e d1 where "readExisting path d = (Inr e, d1)" "holds e doc" "doc_at path doc d1"
  using assms read_conf [of path d] by (metis doc_at_def)

lemma write_doc:
  assumes "doc_at path doc0 d" and "holds u doc"
  obtains d' where "write_conf path u d = (None, d')" "doc_at path (with_header doc) d'"
  using assms write_conf_effect [of path d u] holds_headered [OF assms(2)] by (metis doc_at_def)

lemma stanza_ok_render:
  assumes "stanza_ok s"
  shows "validateDevice (st_Device s) = None" "renderStanza s = Inr (text_of (item_lines (Block (st_Device s) (stanza_lines s))))"
    "nl \<notin> set (st_Device s)" "item_ok (Block (st_Device s) (stanza_lines s))"
  using assms device_ok_clean by (auto simp: stanza_ok_def renderStanza_def device_ok_def)

lemma Upsert_doc:
  assumes "doc_at path doc d" and "stanza_ok s"
  shows "\<exists>d'. Upsert path s d = (None, d') \<and> doc_at path (with_header (upsert_doc (st_Device s) (stanza_lines s) doc)) d'"
proof -
  from assms(1) obtain e d1 where r: "readExisting path d = (Inr e, d1)" "holds e doc" "doc_at path doc d1" by (rule read_doc)
  from write_doc [OF r(3) holds_replace [OF r(2) stanza_ok_render(4) [OF assms(2)]]] r(1) stanza_ok_render [OF assms(2)]
  show ?thesis by (metis (no_types, lifting) Upsert_def option.simps(4) prod.simps(2) sum.case(2))
qed

lemma remove_absent: "dev \<notin> set (devices doc) \<Longrightarrow> remove_doc dev doc = doc"
  using other_items by (simp add: remove_doc_def)

lemma drop_doc:
  assumes "doc_at path doc d1" and "holds e doc" and "nl \<notin> set dev"
  shows "\<exists>d'. (case dropStanza e dev of (updated, False) \<Rightarrow> (None, d1) | (updated, True) \<Rightarrow> write_conf path updated d1) = (None, d')
    \<and> doc_at path (if dev \<in> set (devices doc) then with_header (remove_doc dev doc) else doc) d'"
proof (cases "dev \<in> set (devices doc)")
  case True
  then obtain u where u: "dropStanza e dev = (u, True)" "holds u (remove_doc dev doc)" using holds_drop(2) [OF assms(2,3)] by blast
  from write_doc [OF assms(1) u(2)] obtain d' where "write_conf path u d1 = (None, d')" "doc_at path (with_header (remove_doc dev doc)) d'" by blast
  with u(1) True show ?thesis by simp
next
  case False
  then show ?thesis using holds_drop(1) [OF assms(2,3)] assms(1) by simp
qed

lemma Remove_doc:
  assumes "doc_at path doc d" and "device_ok dev"
  shows "\<exists>d'. Remove path dev d = (None, d') \<and> doc_at path (if dev \<in> set (devices doc) then with_header (remove_doc dev doc) else doc) d'"
proof -
  have dev: "validateDevice dev = None" "nl \<notin> set dev" using assms(2) device_ok_clean by (auto simp: device_ok_def)
  from assms(1) obtain e d1 where r: "readExisting path d = (Inr e, d1)" "holds e doc" "doc_at path doc d1" by (rule read_doc)
  from drop_doc [OF r(3,2) dev(2)] dev(1) r(1) show ?thesis by (simp add: Remove_def)
qed

lemma queries_doc:
  assumes "doc_at path doc d"
  shows "fst (List_devices path d) = Inr (sort (devices doc))"
    and "device_ok dev \<Longrightarrow> fst (Has path dev d) = Inr (dev \<in> set (devices doc))"
proof -
  from assms obtain e d1 where r: "readExisting path d = (Inr e, d1)" "holds e doc" by (rule read_doc)
  then show "fst (List_devices path d) = Inr (sort (devices doc))" by (simp add: List_devices_def holds_devices)
  assume dev: "device_ok dev"
  have "markerPrefix @ dev \<in> set (Split nl e) \<longleftrightarrow> dev \<in> set (devices doc)"
    using r(2) marker_in_doc [of doc dev] set_nb [of e] by (auto simp: holds_def doc_ok_def markerPrefix_def)
  moreover have "nl \<notin> set (markerPrefix @ dev)" "validateDevice dev = None"
    using device_ok_clean [OF dev] dev by (simp_all add: markerPrefix_def nl_def device_ok_def)
  ultimately show "fst (Has path dev d) = Inr (dev \<in> set (devices doc))"
    using r(1) indexLineStart_None [of "markerPrefix @ dev" e] by (simp add: Has_def)
qed

subsection \<open>Ephemeral stanzas\<close>

lemma Index_start: "Index (x @ t) x = Some 0"
proof (cases "x @ t")
  case (Cons a l)
  then have "prefix x (a # l)" by (metis prefixI)
  with Cons show ?thesis by simp
qed simp

lemma inject_lines:
  "injectEphemeralSentinel (text_of (item_lines (Block dev b))) dev pid opened = text_of (item_lines (Block dev (eph_line pid opened # b)))"
  using Index_start [of "markerPrefix @ dev @ [nl]"] by (simp add: injectEphemeralSentinel_def text_of_def eph_line_def)

text \<open>The prior block, as the guard of \<open>UpsertEphemeral\<close> sees it.\<close>

definition block_body :: "string \<Rightarrow> item list \<Rightarrow> string list option" where
  "block_body dev doc = map_of (List.map_filter (\<lambda>i. case i of Own l \<Rightarrow> None | Block dv b \<Rightarrow> Some (dv, b)) doc) dev"

definition refusal :: "(int \<Rightarrow> bool) \<Rightarrow> Stanza \<Rightarrow> item list \<Rightarrow> go_error option" where
  "refusal pidAlive s doc =
     (case block_body (st_Device s) doc of
        None \<Rightarrow> None
      | Some b \<Rightarrow>
          (case block_fields b of
             None \<Rightarrow> Some (Wrapped [] ErrEphemeralCollidesWithPersistent)
           | Some f \<Rightarrow>
               if pidAlive (ef_pid f) then Some (ErrEphemeralConcurrent (st_Device s) (ef_pid f) (ef_opened f) (st_Port s)) else None))"

lemma block_body_None: "block_body dev doc = None \<longleftrightarrow> dev \<notin> set (devices doc)"
proof (induction doc)
  case (Cons i doc)
  then show ?case by (cases i) (auto simp: block_body_def map_filter_def)
qed (simp add: block_body_def map_filter_def)

lemma block_body_Some: "block_body dev doc = Some b \<Longrightarrow> Block dev b \<in> set doc"
proof (induction doc)
  case (Cons i doc)
  then show ?case by (cases i) (auto simp: block_body_def map_filter_def split: if_splits)
qed (simp add: block_body_def map_filter_def)

lemma block_body_eq: "doc_ok doc \<Longrightarrow> Block dev b \<in> set doc \<Longrightarrow> block_body dev doc = Some b"
proof (induction doc)
  case (Cons i doc)
  then show ?case by (cases i) (auto simp: block_body_def map_filter_def doc_ok_def set_devices)
qed simp

lemma prior_block:
  assumes "holds e doc" and "device_ok dev"
  shows "(case extractBlock e (markerPrefix @ dev) (markerSuffix @ dev) of None \<Rightarrow> block_body dev doc = None
    | Some m \<Rightarrow> \<exists>b. block_body dev doc = Some b \<and> parseEphemeralFields m = block_fields b)"
proof -
  have nl: "nl \<notin> set dev" using device_ok_clean [OF assms(2)] by simp
  show ?thesis
  proof (cases "block_body dev doc")
    case None
    then show ?thesis using holds_extract(1) [OF assms(1) nl] by (simp add: block_body_None)
  next
    case (Some b)
    from holds_extract(2) [OF assms(1) nl block_body_Some [OF this]] obtain m where
      m: "extractBlock e (markerPrefix @ dev) (markerSuffix @ dev) = Some m" "nb m = item_lines (Block dev b)" by blast
    have "item_ok (Block dev b)" using block_body_Some [OF Some] assms(1) by (auto simp: holds_def doc_ok_def list_all_iff)
    with m parse_block Some show ?thesis by simp
  qed
qed

lemma UpsertEphemeral_doc:
  assumes "doc_at path doc d" and "stanza_ok s" and "0 < pid" and "plain_line (eph_line pid opened)"
  shows "\<exists>d'. UpsertEphemeral pidAlive path s pid opened d = (refusal pidAlive s doc, d')
    \<and> doc_at path (if refusal pidAlive s doc = None then with_header (upsert_doc (st_Device s) (eph_line pid opened # stanza_lines s) doc) else doc) d'"
proof -
  note st = stanza_ok_render [OF assms(2)]
  from assms(1) obtain e d1 where r: "readExisting path d = (Inr e, d1)" "holds e doc" "doc_at path doc d1" by (rule read_doc)
  have ok: "item_ok (Block (st_Device s) (eph_line pid opened # stanza_lines s))" using st(4) assms(4) by simp
  from write_doc [OF r(3) holds_replace [OF r(2) ok]] obtain d' where
    w: "write_conf path (replaceOrAppendStanza e (st_Device s) (text_of (item_lines (Block (st_Device s) (eph_line pid opened # stanza_lines s))))) d1 = (None, d')"
      "doc_at path (with_header (upsert_doc (st_Device s) (eph_line pid opened # stanza_lines s) doc)) d'" by blast
  from st(4) have "device_ok (st_Device s)" by simp
  from prior_block [OF r(2) this] have guard: "(case extractBlock e (markerPrefix @ st_Device s) (markerSuffix @ st_Device s) of
      None \<Rightarrow> None
    | Some priorBlock \<Rightarrow>
        (case parseEphemeralFields priorBlock of
           None \<Rightarrow> Some (Wrapped [] ErrEphemeralCollidesWithPersistent)
         | Some prior \<Rightarrow>
             if pidAlive (ef_pid prior) then Some (ErrEphemeralConcurrent (st_Device s) (ef_pid prior) (ef_opened prior) (st_Port s)) else None))
    = refusal pidAlive s doc"
    by (auto simp: refusal_def split: option.splits)
  show ?thesis
    unfolding UpsertEphemeral_def using st(1,2) assms(3) r(1,3) guard w inject_lines [of "st_Device s" "stanza_lines s" pid opened]
    by (cases "refusal pidAlive s doc") simp_all
qed

definition ephemeral :: "item list \<Rightarrow> string \<Rightarrow> bool" where
  "ephemeral doc dev \<longleftrightarrow> (case block_body dev doc of None \<Rightarrow> False | Some b \<Rightarrow> block_fields b \<noteq> None)"

lemma RemoveEphemeral_doc:
  assumes "doc_at path doc d" and "device_ok dev"
  shows "\<exists>d'. RemoveEphemeral path dev d = (None, d') \<and> doc_at path (if ephemeral doc dev then with_header (remove_doc dev doc) else doc) d'"
proof -
  have dev: "validateDevice dev = None" "nl \<notin> set dev" using assms(2) device_ok_clean by (auto simp: device_ok_def)
  from assms(1) obtain e d1 where r: "readExisting path d = (Inr e, d1)" "holds e doc" "doc_at path doc d1" by (rule read_doc)
  note prior = prior_block [OF r(2) assms(2)]
  show ?thesis
  proof (cases "ephemeral doc dev")
    case True
    then have "dev \<in> set (devices doc)" using block_body_None [of dev doc] by (auto simp: ephemeral_def split: option.splits)
    with drop_doc [OF r(3,2) dev(2)] prior True dev(1) r(1) show ?thesis
      by (auto simp: RemoveEphemeral_def ephemeral_def split: option.splits)
  next
    case False
    with prior dev(1) r show ?thesis by (auto simp: RemoveEphemeral_def ephemeral_def split: option.splits)
  qed
qed

lemma block_body_simps [simp]:
  "block_body dev [] = None" "block_body dev (Own l # doc) = block_body dev doc"
  "block_body dev (Block dv b # doc) = (if dv = dev then Some b else block_body dev doc)"
  by (simp_all add: block_body_def map_filter_def)

lemma block_body_append: "block_body dev (xs @ ys) = (case block_body dev xs of None \<Rightarrow> block_body dev ys | Some b \<Rightarrow> Some b)"
proof (induction xs)
  case (Cons i xs)
  then show ?case by (cases i) auto
qed simp

lemma block_body_ops:
  "block_body dev (with_header doc) = block_body dev doc"
  "block_body dev (remove_doc dev' doc) = (if dev = dev' then None else block_body dev doc)"
  "block_body dev (upsert_doc dev' b doc) = (if dev = dev' then Some b else block_body dev doc)"
proof -
  have "block_body dev header_doc = None" by (simp add: block_body_None header_doc_def)
  then show "block_body dev (with_header doc) = block_body dev doc" by (simp add: with_header_def block_body_append)
  show "block_body dev (remove_doc dev' doc) = (if dev = dev' then None else block_body dev doc)"
  proof (induction doc)
    case (Cons i doc)
    then show ?case by (cases i) (auto simp: remove_doc_def)
  qed (simp add: remove_doc_def)
  have "block_body dev (map (\<lambda>i. if device_of i = Some dev' then Block dev' b else i) doc)
      = (if dev = dev' then (if dev' \<in> set (devices doc) then Some b else None) else block_body dev doc)" for doc
  proof (induction doc)
    case (Cons i doc)
    then show ?case by (cases i) auto
  qed simp
  then show "block_body dev (upsert_doc dev' b doc) = (if dev = dev' then Some b else block_body dev doc)"
    using block_body_None [of dev' doc] by (auto simp: upsert_doc_def block_body_append split: option.splits)
qed

subsection \<open>Reaping\<close>

definition reap_step :: "item list \<Rightarrow> string \<Rightarrow> item list" where
  "reap_step doc dev = with_header (remove_doc dev doc)"

definition stale :: "(int \<Rightarrow> bool) \<Rightarrow> (string \<times> int) list \<Rightarrow> string list" where
  "stale pidAlive cs = map fst (filter (\<lambda>c. \<not> pidAlive (snd c)) cs)"

definition stale_devices :: "(int \<Rightarrow> bool) \<Rightarrow> item list \<Rightarrow> string list" where
  "stale_devices pidAlive doc = stale pidAlive (List.map_filter item_candidate doc)"

definition reap_doc :: "(int \<Rightarrow> bool) \<Rightarrow> item list \<Rightarrow> item list" where
  "reap_doc pidAlive doc = foldl reap_step doc (stale_devices pidAlive doc)"

lemma ephemeral_step: "dev' \<noteq> dev \<Longrightarrow> ephemeral (reap_step doc dev) dev' = ephemeral doc dev'"
  by (simp add: ephemeral_def reap_step_def block_body_ops)

lemma reap_list:
  assumes "doc_at path doc d" and "distinct (map fst cs)" and "\<And>c. c \<in> set cs \<Longrightarrow> ephemeral doc (fst c) \<and> device_ok (fst c)"
  shows "\<exists>d'. reap pidAlive path cs d = (stale pidAlive cs, d') \<and> doc_at path (foldl reap_step doc (stale pidAlive cs)) d'"
  using assms
proof (induction cs arbitrary: doc d)
  case (Cons c cs)
  obtain dev pid where c: "c = (dev, pid)" by fastforce
  show ?case
  proof (cases "pidAlive pid")
    case True
    with Cons.IH [of doc d] Cons.prems c show ?thesis by (simp add: stale_def)
  next
    case False
    from Cons.prems(3) [of c] c have "device_ok dev" "ephemeral doc dev" by simp_all
    with RemoveEphemeral_doc [OF Cons.prems(1), of dev] obtain d1 where
      rm: "RemoveEphemeral path dev d = (None, d1)" "doc_at path (reap_step doc dev) d1" by (auto simp: reap_step_def)
    have "ephemeral (reap_step doc dev) (fst c') \<and> device_ok (fst c')" if "c' \<in> set cs" for c'
    proof -
      have "fst c' \<noteq> dev" using Cons.prems(2) c that by force
      with Cons.prems(3) [of c'] that show ?thesis by (simp add: ephemeral_step)
    qed
    with Cons.IH [OF rm(2)] Cons.prems(2) obtain d2 where
      "reap pidAlive path cs d1 = (stale pidAlive cs, d2)" "doc_at path (foldl reap_step (reap_step doc dev) (stale pidAlive cs)) d2" by auto
    with False rm(1) c show ?thesis by (simp add: stale_def)
  qed
qed (simp add: stale_def)

lemma candidate_items:
  assumes "doc_ok doc"
  shows "distinct (map fst (List.map_filter item_candidate doc))"
    and "c \<in> set (List.map_filter item_candidate doc) \<Longrightarrow> ephemeral doc (fst c) \<and> device_ok (fst c)"
proof -
  have sub: "set (map fst (List.map_filter item_candidate doc)) \<subseteq> set (devices doc)" for doc
  proof (induction doc)
    case (Cons i doc)
    then show ?case by (cases i) (auto simp: map_filter_def split: option.splits)
  qed (simp add: map_filter_def)
  have "distinct (devices doc) \<Longrightarrow> distinct (map fst (List.map_filter item_candidate doc))" for doc
  proof (induction doc)
    case (Cons i doc)
    show ?case
    proof (cases i)
      case (Block dv b)
      with Cons sub [of doc] show ?thesis by (cases "block_fields b") (auto simp: map_filter_def)
    qed (use Cons in \<open>simp add: map_filter_def\<close>)
  qed (simp add: map_filter_def)
  then show "distinct (map fst (List.map_filter item_candidate doc))" using assms by (simp add: doc_ok_def)
  assume "c \<in> set (List.map_filter item_candidate doc)"
  then obtain i where i: "i \<in> set doc" "item_candidate i = Some c" by (auto simp: map_filter_def)
  from i(2) obtain b f where b: "i = Block (fst c) b" "block_fields b = Some f" by (cases i) auto
  with block_body_eq [OF assms, of "fst c" b] i(1) assms show "ephemeral doc (fst c) \<and> device_ok (fst c)"
    by (auto simp: ephemeral_def doc_ok_def list_all_iff)
qed

lemma ReapStaleEphemeral_doc:
  assumes "doc_at path doc d"
  shows "\<exists>d'. ReapStaleEphemeral pidAlive path d = (Inr (stale_devices pidAlive doc), d') \<and> doc_at path (reap_doc pidAlive doc) d'"
proof -
  from assms obtain e d1 where r: "readExisting path d = (Inr e, d1)" "holds e doc" "doc_at path doc d1" by (rule read_doc)
  have doc: "doc_ok doc" using r(2) by (simp add: holds_def)
  note cs = holds_candidates [OF r(2)]
  from reap_list [OF r(3) candidate_items(1) [OF doc] candidate_items(2) [OF doc]] obtain d2 where
    reap: "reap pidAlive path (collectEphemeralCandidates e) d1 = (stale_devices pidAlive doc, d2)" "doc_at path (reap_doc pidAlive doc) d2"
    by (auto simp: cs stale_devices_def reap_doc_def)
  show ?thesis
  proof (cases "e = []")
    case True
    have "collectEphemeralCandidates [] = []" by (simp add: collectEphemeralCandidates_def scan_lines_def raw_lines_def)
    with True cs have "stale_devices pidAlive doc = []" by (simp add: stale_devices_def stale_def)
    with True r show ?thesis by (simp add: ReapStaleEphemeral_def reap_doc_def)
  qed (use r(1) reap in \<open>simp add: ReapStaleEphemeral_def\<close>)
qed

section \<open>Sequences of operations\<close>

datatype conf_op =
    Op_Upsert Stanza
  | Op_Remove string
  | Op_UpsertEphemeral "int \<Rightarrow> bool" Stanza int time
  | Op_RemoveEphemeral string
  | Op_Reap "int \<Rightarrow> bool"

fun conf_op_run :: "string \<Rightarrow> conf_op \<Rightarrow> disk \<Rightarrow> (go_error option \<times> string list) \<times> disk" where
  "conf_op_run path (Op_Upsert s) d = (case Upsert path s d of (e, d') \<Rightarrow> ((e, []), d'))"
| "conf_op_run path (Op_Remove dev) d = (case Remove path dev d of (e, d') \<Rightarrow> ((e, []), d'))"
| "conf_op_run path (Op_UpsertEphemeral al s pid opened) d = (case UpsertEphemeral al path s pid opened d of (e, d') \<Rightarrow> ((e, []), d'))"
| "conf_op_run path (Op_RemoveEphemeral dev) d = (case RemoveEphemeral path dev d of (e, d') \<Rightarrow> ((e, []), d'))"
| "conf_op_run path (Op_Reap al) d = (case ReapStaleEphemeral al path d of (Inl e, d') \<Rightarrow> ((Some e, []), d') | (Inr devs, d') \<Rightarrow> ((None, devs), d'))"

fun conf_op_spec :: "conf_op \<Rightarrow> item list \<Rightarrow> (go_error option \<times> string list) \<times> item list" where
  "conf_op_spec (Op_Upsert s) doc = ((None, []), with_header (upsert_doc (st_Device s) (stanza_lines s) doc))"
| "conf_op_spec (Op_Remove dev) doc = ((None, []), if dev \<in> set (devices doc) then with_header (remove_doc dev doc) else doc)"
| "conf_op_spec (Op_UpsertEphemeral al s pid opened) doc =
     ((refusal al s doc, []),
      if refusal al s doc = None then with_header (upsert_doc (st_Device s) (eph_line pid opened # stanza_lines s) doc) else doc)"
| "conf_op_spec (Op_RemoveEphemeral dev) doc = ((None, []), if ephemeral doc dev then with_header (remove_doc dev doc) else doc)"
| "conf_op_spec (Op_Reap al) doc = ((None, stale_devices al doc), reap_doc al doc)"

fun conf_op_ok :: "conf_op \<Rightarrow> bool" where
  "conf_op_ok (Op_Upsert s) = stanza_ok s"
| "conf_op_ok (Op_Remove dev) = device_ok dev"
| "conf_op_ok (Op_UpsertEphemeral al s pid opened) = (stanza_ok s \<and> 0 < pid \<and> plain_line (eph_line pid opened))"
| "conf_op_ok (Op_RemoveEphemeral dev) = device_ok dev"
| "conf_op_ok (Op_Reap al) = True"

fun conf_run :: "string \<Rightarrow> conf_op list \<Rightarrow> disk \<Rightarrow> (go_error option \<times> string list) list \<times> disk" where
  "conf_run path [] d = ([], d)"
| "conf_run path (op # ops) d = (case conf_op_run path op d of (r, d1) \<Rightarrow> case conf_run path ops d1 of (rs, d2) \<Rightarrow> (r # rs, d2))"

fun conf_spec :: "conf_op list \<Rightarrow> item list \<Rightarrow> (go_error option \<times> string list) list \<times> item list" where
  "conf_spec [] doc = ([], doc)"
| "conf_spec (op # ops) doc = (case conf_op_spec op doc of (r, doc1) \<Rightarrow> case conf_spec ops doc1 of (rs, doc2) \<Rightarrow> (r # rs, doc2))"

lemma conf_op_refines:
  assumes "doc_at path doc d" and "conf_op_ok op"
  shows "\<exists>d'. conf_op_run path op d = (fst (conf_op_spec op doc), d') \<and> doc_at path (snd (conf_op_spec op doc)) d'"
proof (cases op)
  case (Op_Upsert s)
  with Upsert_doc [OF assms(1), of s] assms(2) show ?thesis by auto
next
  case (Op_Remove dev)
  with Remove_doc [OF assms(1), of dev] assms(2) show ?thesis by auto
next
  case (Op_UpsertEphemeral al s pid opened)
  with UpsertEphemeral_doc [OF assms(1), of s pid opened al] assms(2) show ?thesis by auto
next
  case (Op_RemoveEphemeral dev)
  with RemoveEphemeral_doc [OF assms(1), of dev] assms(2) show ?thesis by auto
next
  case (Op_Reap al)
  with ReapStaleEphemeral_doc [OF assms(1), of al] show ?thesis by auto
qed

lemma conf_run_refines:
  "doc_at path doc d \<Longrightarrow> list_all conf_op_ok ops \<Longrightarrow>
    \<exists>d'. conf_run path ops d = (fst (conf_spec ops doc), d') \<and> doc_at path (snd (conf_spec ops doc)) d'"
proof (induction ops arbitrary: doc d)
  case (Cons op ops)
  then obtain d1 where op: "conf_op_run path op d = (fst (conf_op_spec op doc), d1)" "doc_at path (snd (conf_op_spec op doc)) d1"
    using conf_op_refines [of path doc d op] by auto
  from Cons.IH [OF op(2)] Cons.prems op(1) show ?case by (auto simp: split_beta)
qed simp

text \<open>
  C35: the configuration file is the document it stands for. Start with any file whose lines form a document:
  lines of the engineer and blocks named once. After any sequence of operations that add, replace, remove or reap
  stanzas, with any processes alive at each step, the operations answered what the specification on documents
  answers, refusals included, and the file holds the specified document: the lines of the engineer and
  the other blocks unchanged and in order. \<open>List\<close> and \<open>Has\<close> read its devices.
\<close>

theorem ssh_conf_refines_document:
  assumes "doc_at path doc d" and "list_all conf_op_ok ops" and "conf_run path ops d = (rs, d')" and "device_ok dev"
  shows "rs = fst (conf_spec ops doc) \<and> doc_at path (snd (conf_spec ops doc)) d'
    \<and> fst (List_devices path d') = Inr (sort (devices (snd (conf_spec ops doc))))
    \<and> fst (Has path dev d') = Inr (dev \<in> set (devices (snd (conf_spec ops doc))))"
  using conf_run_refines [OF assms(1,2)] queries_doc [of path "snd (conf_spec ops doc)" d'] assms(3,4) by auto

section \<open>Examples\<close>

definition sample_conf_disk :: disk where
  "sample_conf_disk = \<lparr>dk_files = [(''d/c'', \<lparr>f_data = ''Host x'', f_mode = 420\<rparr>)], dk_dirs = [], dk_tick = 0,
     dk_other = (\<lambda>n fs. fs), dk_fault = (\<lambda>n. None), dk_suffix = (\<lambda>n. ''7''), dk_log = []\<rparr>"

definition sample_stanza :: Stanza where
  "sample_stanza = \<lparr>st_Device = ''dev'', st_Patterns = [], st_HostName = [], st_User = ''u'', st_Port = 22, st_IdentityFile = ''i'', st_CertificateFile = ''c''\<rparr>"

lemma stanza_trims: "TrimSpace ''dev'' = ''dev''" "TrimSpace [] = []" "TrimSpace ''u'' = ''u''" "TrimSpace ''i'' = ''i''" "TrimSpace ''c'' = ''c''"
  by code_simp+

lemma sample_device_ok: "device_ok ''dev''"
  by (simp add: device_ok_def validateDevice_def stanza_trims markerPrefix_def nl_def cr_def)

lemma sample_stanza_ok: "stanza_ok sample_stanza"
proof -
  have "FormatInt 22 = ''22''" by code_simp
  then show ?thesis
    by (simp add: stanza_ok_def sample_stanza_def stanza_lines_def host_line_def sample_device_ok stanza_trims stanzaIndent_def
        plain_line_def scannable_def markerPrefix_def markerSuffix_def nl_def cr_def)
qed

lemma sample_doc_at: "doc_at ''d/c'' [Own ''Host x''] sample_conf_disk"
proof -
  have "Join (Dir ''d/c'') ''.atomicfile-7'' = ''d/.atomicfile-7''" by code_simp
  then have "conf_disk ''d/c'' sample_conf_disk" by (simp add: conf_disk_def sample_conf_disk_def calm_def no_faults_def)
  moreover have "nb ''Host x'' = [''Host x'']" by (simp add: nb_single nl_def)
  ultimately show ?thesis
    by (simp add: doc_at_def holds_def content_def sample_conf_disk_def doc_ok_def plain_line_def scannable_def markerPrefix_def markerSuffix_def nl_def cr_def)
qed

lemma devices_with_header: "devices (with_header doc) = devices doc"
  by (simp add: with_header_def header_doc_def)

theorem ssh_conf_refines_document_witness:
  "\<exists>d'. conf_run ''d/c'' [Op_Upsert sample_stanza, Op_Remove ''dev'', Op_Upsert sample_stanza] sample_conf_disk = ([(None, []), (None, []), (None, [])], d')
     \<and> fst (List_devices ''d/c'' d') = Inr [''dev''] \<and> fst (Has ''d/c'' ''dev'' d') = Inr True"
proof -
  let ?ops = "[Op_Upsert sample_stanza, Op_Remove ''dev'', Op_Upsert sample_stanza]"
  obtain rs d' where run: "conf_run ''d/c'' ?ops sample_conf_disk = (rs, d')" by fastforce
  have ok: "list_all conf_op_ok ?ops" by (simp add: sample_stanza_ok sample_device_ok)
  have dev: "st_Device sample_stanza = ''dev''" by (simp add: sample_stanza_def)
  have spec: "fst (conf_spec ?ops [Own ''Host x'']) = [(None, []), (None, []), (None, [])]" "devices (snd (conf_spec ?ops [Own ''Host x''])) = [''dev'']"
    by (simp_all add: devices_with_header upsert_doc_def remove_doc_def dev with_header_def header_doc_def header_lines_def)
  from ssh_conf_refines_document [OF sample_doc_at ok run sample_device_ok] run show ?thesis unfolding spec by (simp del: conf_run.simps)
qed

end
