(* ===== verification/SSH_Stanzas.thy ===== *)
theory SSH_Stanzas
  imports SSH_Document
begin

text \<open>
  What the document gives the user of the configuration file: one tunnel per device, tunnels that leave the other
  lines alone, and an upsert that may be repeated.
\<close>

section \<open>Tunnels\<close>

text \<open>The stamp of a tunnel reads back.\<close>

lemma graphic_not_space: "ascii_graphic c \<Longrightarrow> find (\<lambda>w. w \<noteq> [] \<and> prefix w (c # s)) ws_runes = None"
  using ws_runes_not_graphic by (fastforce simp: find_None_iff prefix_Cons)

lemma fields_token: "list_all ascii_graphic tok \<Longrightarrow> fields_aux cur (tok @ s) = fields_aux (rev tok @ cur) s"
proof (induction tok arbitrary: cur)
  case (Cons c tok)
  then show ?case by (subst fields_aux.simps) (simp add: graphic_not_space)
qed simp

lemma fields_space: "fields_aux cur (CHR '' '' # s) = (if cur = [] then [] else [rev cur]) @ fields_aux [] s"
proof -
  have "find (\<lambda>w. w \<noteq> [] \<and> prefix w (CHR '' '' # s)) ws_runes = Some '' ''" by (simp add: ws_runes_def)
  then show ?thesis by (subst fields_aux.simps) simp
qed

lemma fields_end: "fields_aux cur [] = (if cur = [] then [] else [rev cur])"
proof -
  have "find (\<lambda>w :: string. w \<noteq> [] \<and> prefix w []) ws_runes = None" by (simp add: find_None_iff)
  then show ?thesis by (subst fields_aux.simps) simp
qed

lemma Fields_two:
  assumes "list_all ascii_graphic x" "list_all ascii_graphic y" "x \<noteq> []" "y \<noteq> []"
  shows "Fields (x @ '' '' @ y) = [x, y]"
  using assms fields_token [of x "[]" "'' '' @ y"] fields_token [of y "[]" "[]"] by (simp add: Fields_def fields_space fields_end)

lemma FormatRFC3339_graphic: "list_all ascii_graphic (FormatRFC3339 t)"
proof -
  have p: "list_all ascii_graphic (pad w n)" for w n
    using nat_str_digits [of n] is_digit_graphic by (auto simp: pad_def list_all_iff ascii_graphic_def)
  then have "list_all ascii_graphic (appendInt x w)" for x w by (simp add: appendInt_def ascii_graphic_def)
  with p show ?thesis by (simp add: FormatRFC3339_def ascii_graphic_def split: prod.split)
qed

definition in_years :: "time \<Rightarrow> bool" where
  "in_years t \<longleftrightarrow> 0 \<le> fst (Date t) \<and> fst (Date t) \<le> 9999"

lemma stamp_parses:
  assumes "0 < pid" "pid < 2 ^ 63" "in_years opened"
  shows "parseEphemeralKeyValues (''pid='' @ FormatInt pid @ '' opened='' @ FormatRFC3339 opened) = \<lparr>ef_pid = pid, ef_opened = time_Unix (Unix opened)\<rparr>"
proof -
  have "Fields ((''pid='' @ FormatInt pid) @ '' '' @ (''opened='' @ FormatRFC3339 opened)) = [''pid='' @ FormatInt pid, ''opened='' @ FormatRFC3339 opened]"
    using FormatInt_graphic [of pid] FormatRFC3339_graphic [of opened] by (intro Fields_two) (simp_all add: ascii_graphic_def)
  then have f: "Fields (''pid='' @ FormatInt pid @ '' opened='' @ FormatRFC3339 opened) = [''pid='' @ FormatInt pid, ''opened='' @ FormatRFC3339 opened]"
    by simp
  have "ParseInt64 (FormatInt pid) = Some pid" using assms by (intro ParseInt64_FormatInt) simp_all
  moreover have "ParseRFC3339 (FormatRFC3339 opened) = Some (time_Unix (Unix opened))"
    using assms(3) by (intro ParseRFC3339_FormatRFC3339) (simp_all add: in_years_def)
  ultimately show ?thesis
    unfolding parseEphemeralKeyValues_def f by (simp add: key_value_def Cut_eq_def no_fields_def)
qed

text \<open>No line of a stanza is a stamp.\<close>

lemma stanza_not_stamp: "l \<in> set (stanza_lines s) \<Longrightarrow> \<not> prefix ephemeralMarkerPrefix l"
  by (auto simp: stanza_lines_def stanzaIndent_def ephemeralMarkerPrefix_def Let_def split: if_splits)

lemma stanza_fields: "foldl sentinel_line x (stanza_lines s) = x"
proof -
  have "\<forall>l \<in> set ls. \<not> prefix ephemeralMarkerPrefix l \<Longrightarrow> foldl sentinel_line x ls = x" for ls
    by (induction ls) (auto simp: sentinel_line_def CutPrefix_def)
  with stanza_not_stamp show ?thesis by blast
qed

lemma tunnel_fields:
  "block_fields (eph_line pid opened # stanza_lines s) = Some (parseEphemeralKeyValues (''pid='' @ FormatInt pid @ '' opened='' @ FormatRFC3339 opened))"
  "block_fields (stanza_lines s) = None"
  by (simp_all add: block_fields_def stanza_fields sentinel_line_def eph_line_def)

text \<open>What the operations do to one block.\<close>

fun spares :: "string \<Rightarrow> int \<Rightarrow> conf_op \<Rightarrow> bool" where
  "spares dev pid (Op_Upsert s) = (st_Device s \<noteq> dev)"
| "spares dev pid (Op_Remove dv) = (dv \<noteq> dev)"
| "spares dev pid (Op_UpsertEphemeral al s pid' opened) = (st_Device s = dev \<longrightarrow> al pid)"
| "spares dev pid (Op_RemoveEphemeral dv) = (dv \<noteq> dev)"
| "spares dev pid (Op_Reap al) = al pid"

lemma reap_spares:
  assumes "doc_ok doc" and "block_body dev doc = Some b" and "\<And>f. block_fields b = Some f \<Longrightarrow> al (ef_pid f)"
  shows "block_body dev (reap_doc al doc) = Some b"
proof -
  have "dev \<notin> set (stale_devices al doc)"
  proof
    assume "dev \<in> set (stale_devices al doc)"
    then obtain i c where i: "i \<in> set doc" "item_candidate i = Some c" "fst c = dev" "\<not> al (snd c)"
      by (auto simp: stale_devices_def stale_def map_filter_def)
    from i(2,3) obtain b' f where "i = Block dev b'" "block_fields b' = Some f" "snd c = ef_pid f" by (cases i) auto
    with block_body_eq [OF assms(1), of dev b'] i(1,4) assms(2,3) show False by simp
  qed
  moreover have "dev \<notin> set devs \<Longrightarrow> block_body dev (foldl reap_step doc devs) = block_body dev doc" for devs doc
    by (induction devs arbitrary: doc) (auto simp: reap_step_def block_body_ops)
  ultimately show ?thesis using assms(2) by (simp add: reap_doc_def)
qed

lemma op_spares:
  assumes "doc_ok doc" and "block_body dev doc = Some b" and "block_fields b = Some f" and "spares dev (ef_pid f) op"
  shows "block_body dev (snd (conf_op_spec op doc)) = Some b"
proof (cases op)
  case (Op_UpsertEphemeral al s pid opened)
  then show ?thesis using assms by (cases "st_Device s = dev") (auto simp: block_body_ops refusal_def)
next
  case (Op_Reap al)
  then show ?thesis using assms reap_spares [of doc dev b al] by simp
qed (use assms in \<open>auto simp: block_body_ops\<close>)

lemma run_spares:
  assumes "doc_at path doc d" and "list_all conf_op_ok ops" and "list_all (spares dev (ef_pid f)) ops"
    and "block_body dev doc = Some b" and "block_fields b = Some f" and "conf_run path ops d = (rs, d')"
  shows "\<exists>doc'. doc_at path doc' d' \<and> block_body dev doc' = Some b"
  using assms
proof (induction ops arbitrary: doc d rs)
  case (Cons op ops)
  obtain d1 where op: "conf_op_run path op d = (fst (conf_op_spec op doc), d1)" "doc_at path (snd (conf_op_spec op doc)) d1"
    using conf_op_refines [OF Cons.prems(1), of op] Cons.prems(2) by auto
  have "doc_ok doc" using Cons.prems(1) by (simp add: doc_at_def holds_def)
  from op_spares [OF this Cons.prems(4,5), of op] Cons.prems(3) have "block_body dev (snd (conf_op_spec op doc)) = Some b" by simp
  with Cons.IH [OF op(2)] Cons.prems op(1) show ?case by (auto split: prod.splits)
qed auto

text \<open>
  C37: one tunnel per device. Once a tunnel stanza was written, every later attempt to write one for the same
  device is refused, naming the process and the time that were recorded, as long as that process is found alive
  and its stanza is not removed by name, whatever else is done to the file in between, reaping included.
\<close>

theorem tunnel_exclusive:
  assumes "doc_at path doc d" and "stanza_ok s" and "0 < pid" and "pid < 2 ^ 63" and "in_years opened" and "plain_line (eph_line pid opened)"
    and "UpsertEphemeral al path s pid opened d = (None, d1)"
    and "list_all conf_op_ok ops" and "list_all (spares (st_Device s) pid) ops" and "conf_run path ops d1 = (rs, d2)"
    and "stanza_ok s'" and "st_Device s' = st_Device s" and "0 < pid'" and "plain_line (eph_line pid' opened')" and "al' pid"
  shows "fst (UpsertEphemeral al' path s' pid' opened' d2) = Some (ErrEphemeralConcurrent (st_Device s) pid (time_Unix (Unix opened)) (st_Port s'))"
proof -
  let ?b = "eph_line pid opened # stanza_lines s"
  from UpsertEphemeral_doc [OF assms(1,2,3,6), of al] assms(7) have
    d1: "doc_at path (with_header (upsert_doc (st_Device s) ?b doc)) d1" by auto
  have f: "block_fields ?b = Some \<lparr>ef_pid = pid, ef_opened = time_Unix (Unix opened)\<rparr>"
    using tunnel_fields(1) stamp_parses [OF assms(3,4,5)] by simp
  have "block_body (st_Device s) (with_header (upsert_doc (st_Device s) ?b doc)) = Some ?b" by (simp add: block_body_ops)
  from run_spares [OF d1 assms(8) _ this f assms(10)] assms(9) obtain doc2 where
    d2: "doc_at path doc2 d2" "block_body (st_Device s) doc2 = Some ?b" by auto
  then have "refusal al' s' doc2 = Some (ErrEphemeralConcurrent (st_Device s) pid (time_Unix (Unix opened)) (st_Port s'))"
    using assms(12,15) f by (simp add: refusal_def)
  with UpsertEphemeral_doc [OF d2(1) assms(11,13,14), of al'] show ?thesis by auto
qed

text \<open>What no tunnel operation touches: the lines of the engineer and the persistent blocks.\<close>

fun persistent :: "item \<Rightarrow> bool" where
  "persistent (Own l) = True"
| "persistent (Block dv b) = (block_fields b = None)"

fun tunnel_op :: "conf_op \<Rightarrow> bool" where
  "tunnel_op (Op_Upsert s) = False"
| "tunnel_op (Op_Remove dv) = False"
| "tunnel_op op = True"

definition headed :: "item list \<Rightarrow> item list \<Rightarrow> bool" where
  "headed P doc \<longleftrightarrow> filter persistent doc = P \<or> filter persistent doc = header_doc @ P"

lemma headed_with_header:
  assumes "headed P doc"
  shows "headed P (with_header doc)"
proof (cases "has_header doc")
  case False
  have "has_header doc" if "filter persistent doc = header_doc @ P"
  proof -
    have "Own headerSentinel \<in> set (filter persistent doc)" unfolding that by (simp add: header_doc_def header_lines_def)
    then have "headerSentinel \<in> set (doc_lines doc)" by (force simp: doc_lines_def)
    moreover have "Contains headerSentinel headerSentinel" by (simp add: Contains_def Index_None)
    ultimately show ?thesis by (auto simp: has_header_def)
  qed
  with assms False have "filter persistent doc = P" by (auto simp: headed_def)
  moreover have "filter persistent header_doc = header_doc" by (simp add: header_doc_def header_lines_def)
  ultimately show ?thesis using False by (simp add: headed_def with_header_def)
qed (use assms in \<open>simp add: with_header_def\<close>)

lemma not_persistent:
  assumes "doc_ok doc" and "block_body dev doc = Some b" and "block_fields b \<noteq> None" and "i \<in> set doc" and "device_of i = Some dev"
  shows "\<not> persistent i"
proof -
  from assms(5) obtain c where "i = Block dev c" by (auto simp: device_of_Some)
  with block_body_eq [OF assms(1), of dev c] assms show ?thesis by auto
qed

lemma ephemeral_remove:
  assumes "doc_ok doc" and "ephemeral doc dev" and "headed P doc"
  shows "headed P (reap_step doc dev)"
proof -
  from assms(2) obtain b where "block_body dev doc = Some b" "block_fields b \<noteq> None" by (auto simp: ephemeral_def split: option.splits)
  then have "filter persistent (remove_doc dev doc) = filter persistent doc"
    using not_persistent [OF assms(1)] by (auto simp: remove_doc_def intro!: filter_cong)
  then show ?thesis using assms(3) headed_with_header by (simp add: headed_def reap_step_def)
qed

lemma ephemeral_upsert:
  assumes "doc_ok doc" and "refusal al s doc = None" and "headed P doc" and "block_fields b \<noteq> None"
  shows "headed P (with_header (upsert_doc (st_Device s) b doc))"
proof -
  have "filter persistent (upsert_doc (st_Device s) b doc) = filter persistent doc"
  proof (cases "block_body (st_Device s) doc")
    case None
    then show ?thesis using assms(4) by (simp add: upsert_doc_def block_body_None)
  next
    case (Some c)
    with assms(2) have c: "block_fields c \<noteq> None" by (auto simp: refusal_def split: option.splits)
    have "st_Device s \<in> set (devices doc)" using Some block_body_None [of "st_Device s" doc] by auto
    moreover have "filter persistent (map (\<lambda>i. if device_of i = Some (st_Device s) then Block (st_Device s) b else i) xs) = filter persistent xs"
      if "set xs \<subseteq> set doc" for xs
      using that by (induction xs) (use assms(4) not_persistent [OF assms(1) Some c] in auto)
    ultimately show ?thesis by (simp add: upsert_doc_def)
  qed
  then show ?thesis using assms(3) headed_with_header by (simp add: headed_def)
qed

lemma reap_keeps:
  assumes "doc_ok doc" and "headed P doc" and "distinct devs" and "\<And>dev. dev \<in> set devs \<Longrightarrow> ephemeral doc dev"
  shows "headed P (foldl reap_step doc devs)"
  using assms
proof (induction devs arbitrary: doc)
  case (Cons dev devs)
  have "doc_ok (reap_step doc dev)"
    using doc_ops_ok(2) [OF Cons.prems(1), of dev] header_plain by (auto simp: reap_step_def with_header_def doc_ok_def header_doc_def)
  moreover have "headed P (reap_step doc dev)" using ephemeral_remove Cons.prems by simp
  moreover have "ephemeral (reap_step doc dev) dev'" if "dev' \<in> set devs" for dev'
    using Cons.prems(4) [of dev'] that ephemeral_step [of dev' dev doc] Cons.prems(3) by auto
  ultimately show ?case using Cons.IH Cons.prems(3) by simp
qed simp

lemma tunnel_op_keeps:
  assumes "doc_ok doc" and "headed P doc" and "tunnel_op op"
  shows "headed P (snd (conf_op_spec op doc))"
proof (cases op)
  case (Op_UpsertEphemeral al s pid opened)
  then show ?thesis using assms ephemeral_upsert [OF assms(1) _ assms(2), of al s "eph_line pid opened # stanza_lines s"] by (simp add: tunnel_fields)
next
  case (Op_RemoveEphemeral dev)
  then show ?thesis using ephemeral_remove [OF assms(1) _ assms(2), of dev] assms(2) by (simp add: reap_step_def)
next
  case (Op_Reap al)
  have "distinct (stale_devices al doc)"
    using candidate_items(1) [OF assms(1)] by (simp add: stale_devices_def stale_def distinct_map_filter)
  moreover have "ephemeral doc dev" if "dev \<in> set (stale_devices al doc)" for dev
    using that candidate_items(2) [OF assms(1)] by (auto simp: stale_devices_def stale_def)
  ultimately show ?thesis using reap_keeps [OF assms(1,2)] Op_Reap by (simp add: reap_doc_def)
qed (use assms in simp_all)

text \<open>
  C36: tunnels leave the file of the engineer alone. Whatever tunnels are opened, closed or reaped, with whichever
  processes alive, the lines outside blocks and the blocks without a tunnel stamp stay, all of them,
  unchanged and in their order; at most the header is put in front.
\<close>

theorem tunnels_keep_lines:
  assumes "doc_at path doc d" and "list_all conf_op_ok ops" and "list_all tunnel_op ops" and "conf_run path ops d = (rs, d')"
  shows "\<exists>doc'. doc_at path doc' d' \<and>
    (filter persistent doc' = filter persistent doc \<or> filter persistent doc' = header_doc @ filter persistent doc)"
proof -
  have "doc_at path (snd (conf_spec ops doc)) d' \<and> headed P (snd (conf_spec ops doc))" if "headed P doc" for P
    using that assms
  proof (induction ops arbitrary: doc d rs)
    case (Cons op ops)
    obtain d1 where op: "conf_op_run path op d = (fst (conf_op_spec op doc), d1)" "doc_at path (snd (conf_op_spec op doc)) d1"
      using conf_op_refines [OF Cons.prems(2), of op] Cons.prems(3) by auto
    have "doc_ok doc" using Cons.prems(2) by (simp add: doc_at_def holds_def)
    from tunnel_op_keeps [OF this Cons.prems(1), of op] Cons.prems(4) have "headed P (snd (conf_op_spec op doc))" by simp
    moreover obtain rs' where "conf_run path ops d1 = (rs', d')" using Cons.prems(5) op(1) by (auto split: prod.splits)
    ultimately show ?case using Cons.IH [OF _ op(2)] Cons.prems(3,4) by (auto simp: split_beta)
  qed simp
  from this [of "filter persistent doc"] show ?thesis by (auto simp: headed_def)
qed

section \<open>Upserting twice\<close>

lemma first_line_at:
  assumes "s = b @ n @ a" and "ended b" and "a = [] \<or> hd a = nl" and "marker n" and "n \<notin> set (Split nl b)"
  shows "indexLineStart s n = Some (length b)"
proof -
  have n: "n \<noteq> []" "nl \<notin> set n" using assms(4) by (simp_all add: marker_def)
  have "\<not> at_line s n j" if "j < length b" for j
  proof
    assume "at_line s n j"
    then obtain b1 a1 where p: "s = b1 @ n @ a1" "length b1 = j" "ended b1" "a1 = [] \<or> hd a1 = nl" by (rule at_line_pieces)
    define u where "u = drop j b"
    have b: "b = b1 @ u" using p(1,2) assms(1) that unfolding u_def by (metis append_eq_append_conv_if append_take_drop_id less_imp_le)
    have u: "u \<noteq> []" "last u = nl" using b assms(2) p(2) that by (auto simp: ended_def)
    from p(1) assms(1) b have rest: "u @ n @ a = n @ a1" by simp
    show False
    proof (cases "length n \<le> length u")
      case True
      with rest obtain v where v: "u = n @ v" "v @ n @ a = a1" by (metis append_eq_append_conv_if append_eq_conv_conj append_take_drop_id)
      then have "v \<noteq> []" using u n last_in_set [of n] by (metis append_Nil2)
      with v p(4) have "hd v = nl" by (cases v) auto
      with Split_pieces [OF p(3), of v n] n(2) b v(1) assms(5) show False by simp
    next
      case False
      with rest have "prefix u n" by (metis append_eq_append_conv2 linorder_linear prefix_def prefix_length_le prefix_length_prefix)
      with u n(2) show False by (auto simp: prefix_def dest: last_in_set)
    qed
  qed
  moreover have "at_line s n (length b)" using pieces_at_line [OF assms(2,3)] assms(1) by simp
  ultimately show ?thesis by (simp add: indexLineStart_def line_search_least(1))
qed

text \<open>A text in which the stanza stands as an upsert leaves it.\<close>

definition settled :: "string \<Rightarrow> string \<Rightarrow> string \<Rightarrow> bool" where
  "settled d r s \<longleftrightarrow> (\<exists>before after. s = before @ (if before \<noteq> [] then [nl] else []) @ r @ (if after \<noteq> [] then nl # after else [])
     \<and> ended before \<and> \<not> suffix [nl, nl] before \<and> markerPrefix @ d \<notin> set (nb before) \<and> (after = [] \<or> hd after \<noteq> nl))"

lemma trimTrailingBlank_once: "ended b \<Longrightarrow> b \<noteq> [] \<Longrightarrow> \<not> suffix [nl, nl] b \<Longrightarrow> trimTrailingBlank (b @ [nl]) = b"
proof -
  assume b: "ended b" "b \<noteq> []" "\<not> suffix [nl, nl] b"
  then obtain t where t: "b = t @ [nl]" by (auto simp: ended_cases)
  have "trimTrailingBlank (b @ [nl]) = trimTrailingBlank b" unfolding t by (subst trimTrailingBlank.simps) (simp add: suffix_def)
  also have "\<dots> = b" using b(3) by (subst trimTrailingBlank.simps) simp
  finally show ?thesis .
qed

lemma trimTrailingBlank_done: "\<not> suffix [nl, nl] (trimTrailingBlank b)"
  by (induction b rule: trimTrailingBlank.induct) (metis trimTrailingBlank.simps)

lemma trimLeadingBlank_done: "trimLeadingBlank a = [] \<or> hd (trimLeadingBlank a) \<noteq> nl"
  by (induction a rule: trimLeadingBlank.induct) auto

lemma trimLeadingBlank_id: "a = [] \<or> hd a \<noteq> nl \<Longrightarrow> trimLeadingBlank a = a"
  by (cases a) auto

lemma ended_text_of: "ended (text_of ls)"
  by (induction ls rule: rev_induct) (simp_all add: ended_def text_of_def)

lemma settled_stable:
  assumes "settled d (text_of (item_lines (Block d b))) s" and ok: "item_ok (Block d b)"
  shows "replaceOrAppendStanza s d (text_of (item_lines (Block d b))) = s"
proof -
  let ?B = "markerPrefix @ d" and ?E = "markerSuffix @ d" and ?r = "text_of (item_lines (Block d b))"
  from assms(1) obtain before after where s: "s = before @ (if before \<noteq> [] then [nl] else []) @ ?r @ (if after \<noteq> [] then nl # after else [])"
    and p: "ended before" "\<not> suffix [nl, nl] before" "?B \<notin> set (nb before)" "after = [] \<or> hd after \<noteq> nl" by (auto simp: settled_def)
  define pre where "pre = before @ (if before \<noteq> [] then [nl] else [])"
  define rest where "rest = (if after \<noteq> [] then nl # after else [])"
  have s': "s = pre @ ?r @ rest" using s by (simp add: pre_def rest_def)
  have d: "nl \<notin> set d" using ok device_ok_clean by auto
  have body: "list_all (\<lambda>l. nl \<notin> set l \<and> l \<noteq> []) (?B # b)" using ok d
    by (auto simp: list_all_iff plain_line_def scannable_def markerPrefix_def nl_def)
  have r: "?r = text_of (?B # b) @ ?E @ [nl]" by (simp add: text_of_def)
  have r2: "?r = ?B @ [nl] @ text_of (b @ [?E])" by (simp add: text_of_def)
  have pre: "ended pre" "?B \<notin> set (Split nl pre)"
  proof -
    show "ended pre" using p(1) by (simp add: pre_def ended_def)
    have "nb pre = nb before" by (simp add: pre_def)
    with p(3) show "?B \<notin> set (Split nl pre)" using set_nb [of pre] by (auto simp: markerPrefix_def)
  qed
  have B: "indexLineStart s ?B = Some (length pre)"
    by (rule first_line_at [of s pre ?B "[nl] @ text_of (b @ [?E]) @ rest"]) (use s' pre d r2 in simp_all)
  have "?E \<notin> set (nb (text_of (?B # b)))"
    unfolding nb_text_of [OF body] using ok by (auto simp: list_all_iff dest: plain_not_marker)
  then have En: "?E \<notin> set (Split nl (text_of (?B # b)))" using set_nb [of "text_of (?B # b)"] by (auto simp: markerSuffix_def)
  have drop: "drop (length pre) s = ?r @ rest" using s' by simp
  have E: "indexLineStart (drop (length pre) s) ?E = Some (length (text_of (?B # b)))"
    by (rule first_line_at [of _ "text_of (?B # b)" ?E "[nl] @ rest"]) (use drop r En d ended_text_of in simp_all)
  have stop: "indexOfNewline s (length pre + length (text_of (?B # b))) = length (pre @ ?r)"
    using newline_after [of ?E "nl # rest" "pre @ text_of (?B # b)"] s' r d by simp
  have "stanza_span s ?B ?E = Some (length pre, length (pre @ ?r))" using B E stop by (simp add: stanza_span_def)
  moreover have "take (length pre) s = pre" "drop (length (pre @ ?r)) s = rest" using s' by simp_all
  moreover have "trimTrailingBlank pre = before"
    using trimTrailingBlank_once [OF p(1) _ p(2)] by (auto simp: pre_def trimTrailingBlank.simps [of "[]"])
  moreover have "trimLeadingBlank rest = after" using trimLeadingBlank_id [OF p(4)] by (auto simp: rest_def)
  moreover have "before = [] \<or> suffix [nl] before" using p(1) by (auto simp: ended_cases)
  ultimately show ?thesis using s by (auto simp: replaceOrAppendStanza_def Let_def)
qed

text \<open>An END follows the BEGIN, if there is one.\<close>

definition complete :: "string \<Rightarrow> string \<Rightarrow> bool" where
  "complete d s \<longleftrightarrow> markerPrefix @ d \<in> set (nb s) \<longrightarrow> block_of d (nb s) \<noteq> None"

lemma TrimRight_nl_done: "\<not> suffix [nl] (TrimRight_nl s)"
  by (induction s rule: rev_induct) (auto simp: TrimRight_nl_def suffix_def)

lemma replace_settles:
  assumes "nl \<notin> set d" and "complete d e"
  shows "settled d r (replaceOrAppendStanza e d r)"
  using assms(1)
proof (cases rule: stanza_pieces [of d e])
  case 1
  with assms(2) have B: "markerPrefix @ d \<notin> set (nb e)" by (auto simp: complete_def)
  show ?thesis
  proof (cases "e = []")
    case True
    have "settled d r r" unfolding settled_def by (rule exI [of _ "[]"], rule exI [of _ "[]"]) (simp add: ended_def)
    with 1 True show ?thesis by (simp add: replaceOrAppendStanza_def appendStanza_def)
  next
    case False
    have "settled d r ((TrimRight_nl e @ [nl]) @ [nl] @ r)"
      unfolding settled_def
      by (rule exI [of _ "TrimRight_nl e @ [nl]"], rule exI [of _ "[]"])
        (use B TrimRight_nl_done [of e] in \<open>auto simp: ended_def suffix_def append_eq_append_conv2 append_eq_Cons_conv\<close>)
    with 1 False show ?thesis by (simp add: replaceOrAppendStanza_def appendStanza_def)
  qed
next
  case (2 b m a)
  let ?before = "trimTrailingBlank b" and ?after = "trimLeadingBlank a"
  have "markerPrefix @ d \<notin> set (nb b)"
  proof -
    have "nb b = takeWhile (\<lambda>l. l \<noteq> markerPrefix @ d) (nb e)" using 2(5) by (auto simp: block_of_def find_block_def split: list.splits)
    then show ?thesis using set_takeWhileD [of "markerPrefix @ d" "\<lambda>l. l \<noteq> markerPrefix @ d" "nb e"] by auto
  qed
  moreover have e: "ended ?before" using ended_trimTrailingBlank [OF 2(3)] .
  ultimately have "settled d r (?before @ (if ?before \<noteq> [] then [nl] else []) @ r @ (if ?after \<noteq> [] then nl # ?after else []))"
    unfolding settled_def
    by (intro exI [of _ ?before] exI [of _ ?after]) (use trimTrailingBlank_done trimLeadingBlank_done in auto)
  moreover have "?before = [] \<or> suffix [nl] ?before" using e by (auto simp: ended_cases)
  ultimately show ?thesis using 2(1,2) by (auto simp: replaceOrAppendStanza_def Let_def)
qed

lemma settled_headered:
  assumes "settled d r s" and "s = [] \<or> hd s \<noteq> nl" and "r \<noteq> []" and "hd r \<noteq> nl" and "nl \<notin> set d"
  shows "settled d r (headered s)"
proof (cases "Contains s headerSentinel")
  case False
  from assms(1) obtain before after where s: "s = before @ (if before \<noteq> [] then [nl] else []) @ r @ (if after \<noteq> [] then nl # after else [])"
    and p: "ended before" "\<not> suffix [nl, nl] before" "markerPrefix @ d \<notin> set (nb before)" "after = [] \<or> hd after \<noteq> nl" by (auto simp: settled_def)
  define pre where "pre = (if before = [] then defaultSSHHeader else defaultSSHHeader @ [nl] @ before)"
  have H: "defaultSSHHeader \<noteq> []" "ended defaultSSHHeader" "\<not> suffix [nl, nl] defaultSSHHeader"
    by (simp_all add: defaultSSHHeader_def header_lines_def text_of_def ended_def nl_def suffix_def append_eq_Cons_conv)
  have before: "before = [] \<or> 2 \<le> length before"
    using assms(2) s p(1) by (cases before; cases "tl before") (auto simp: ended_def)
  have "\<not> suffix [nl, nl] pre"
  proof (cases "before = []")
    case False
    with before obtain w x y where w: "before = w @ [x, y]"
      by (cases before rule: rev_cases; cases "butlast before" rule: rev_cases) auto
    with p(2) have "\<not> (x = nl \<and> y = nl)" by (auto simp: suffix_def)
    with w show ?thesis by (auto simp: pre_def suffix_def)
  qed (use H(3) in \<open>simp add: pre_def\<close>)
  moreover have "ended pre" using H p(1) by (auto simp: pre_def ended_def)
  moreover have "markerPrefix @ d \<notin> set (nb pre)"
  proof -
    have "nb pre = header_lines @ nb before" using nb_header [of "[nl] @ before"] nb_header [of "[]"] by (simp add: pre_def)
    then show ?thesis using p(3) header_plain by (auto simp: list_all_iff dest: plain_not_marker)
  qed
  moreover have "headered s = pre @ (if pre \<noteq> [] then [nl] else []) @ r @ (if after \<noteq> [] then nl # after else [])"
    using False s H(1) by (simp add: headered_def pre_def)
  ultimately show ?thesis using p(4) unfolding settled_def by blast
qed (use assms(1) in \<open>simp add: headered_def\<close>)

lemma headered_again: "headered (headered s) = headered s"
proof -
  have "sublist headerSentinel (defaultSSHHeader @ t)" for t
    by (simp add: defaultSSHHeader_def header_lines_def text_of_def sublist_def) (metis append_Nil)
  then have "Contains (defaultSSHHeader @ t) headerSentinel" for t by (simp add: Contains_def Index_None)
  then show ?thesis by (auto simp: headered_def)
qed

lemma Upsert_text:
  assumes "conf_disk path d" and "stanza_ok s"
  obtains d' where "Upsert path s d = (None, d')" "conf_disk path d'"
    "content path d' = headered (replaceOrAppendStanza (content path d) (st_Device s) (text_of (item_lines (Block (st_Device s) (stanza_lines s)))))"
proof -
  from read_conf [OF assms(1)] obtain d1 where r: "readExisting path d = (Inr (content path d), d1)" "conf_disk path d1" by blast
  from write_conf_effect [OF r(2), of "replaceOrAppendStanza (content path d) (st_Device s) (text_of (item_lines (Block (st_Device s) (stanza_lines s))))"]
  show thesis using that r(1) stanza_ok_render [OF assms(2)] by (auto simp: Upsert_def)
qed

lemma replace_start:
  assumes "e = [] \<or> hd e \<noteq> nl" and "r \<noteq> []" and "hd r \<noteq> nl" and "nl \<notin> set d"
  shows "hd (replaceOrAppendStanza e d r) \<noteq> nl"
proof -
  have right: "TrimRight_nl e \<noteq> [] \<and> hd (TrimRight_nl e) = hd e" if "e \<noteq> []" "hd e \<noteq> nl" for e
  proof -
    from that obtain c t where "e = c # t" "c \<noteq> nl" by (cases e) auto
    then show ?thesis
    proof (induction t arbitrary: e rule: rev_induct)
      case (snoc x t)
      then show ?case by (cases "x = nl") (auto simp: TrimRight_nl_def)
    qed (simp add: TrimRight_nl_def)
  qed
  have trail: "trimTrailingBlank b = [] \<or> hd (trimTrailingBlank b) = hd b" for b
  proof (induction b rule: trimTrailingBlank.induct)
    case (1 b)
    show ?case
    proof (cases "suffix [nl, nl] b")
      case True
      then obtain t where "b = t @ [nl, nl]" by (auto simp: suffix_def)
      with 1 True show ?thesis by (subst (1 2) trimTrailingBlank.simps) (cases t; simp)
    qed (simp add: trimTrailingBlank.simps)
  qed
  from assms(4) show ?thesis
  proof (cases rule: stanza_pieces [of d e])
    case 1
    with right [of e] assms show ?thesis by (cases "e = []") (auto simp: replaceOrAppendStanza_def appendStanza_def hd_append)
  next
    case (2 b m a)
    with trail [of b] assms show ?thesis
      by (cases "b = []") (auto simp: replaceOrAppendStanza_def Let_def hd_append trimTrailingBlank.simps [of "[]"])
  qed
qed

text \<open>
  C38: upserting twice writes the same bytes as upserting once. It holds for every file in which the stanza, if it
  starts, also ends, and which does not start with a blank line.
\<close>

theorem upsert_idempotent:
  assumes "conf_disk path d" and "stanza_ok s" and "complete (st_Device s) (content path d)"
    and "content path d = [] \<or> hd (content path d) \<noteq> nl" and "Upsert path s d = (r1, d1)" and "Upsert path s d1 = (r2, d2)"
  shows "r1 = None \<and> r2 = None \<and> content path d2 = content path d1"
proof -
  let ?r = "text_of (item_lines (Block (st_Device s) (stanza_lines s)))" and ?dev = "st_Device s"
  note st = stanza_ok_render [OF assms(2)]
  have r: "?r \<noteq> []" "hd ?r \<noteq> nl" by (simp_all add: text_of_def markerPrefix_def nl_def)
  from Upsert_text [OF assms(1,2)] assms(5) have d1: "r1 = None" "conf_disk path d1"
    "content path d1 = headered (replaceOrAppendStanza (content path d) ?dev ?r)" by auto
  from Upsert_text [OF d1(2) assms(2)] assms(6) have d2: "r2 = None"
    "content path d2 = headered (replaceOrAppendStanza (content path d1) ?dev ?r)" by auto
  have "settled ?dev ?r (replaceOrAppendStanza (content path d) ?dev ?r)" by (rule replace_settles [OF st(3) assms(3)])
  then have "settled ?dev ?r (content path d1)"
    unfolding d1(3) using settled_headered replace_start [OF assms(4) r st(3)] r st(3) by blast
  from settled_stable [OF this st(4)] d2 d1(1,3) headered_again show ?thesis by simp
qed

text \<open>
  Without an END, the first upsert appends and the second takes everything from the old BEGIN to the END of
  the appended stanza for one block: the lines in between are lost.
\<close>

theorem upsert_swallows_unclosed:
  assumes "nb e = xs @ (markerPrefix @ d) # ys" and "markerPrefix @ d \<notin> set xs" and "markerSuffix @ d \<notin> set ys"
    and "item_ok (Block d b)" and "r = text_of (item_lines (Block d b))"
  shows "nb (replaceOrAppendStanza e d r) = nb e @ item_lines (Block d b)"
    and "nb (replaceOrAppendStanza (replaceOrAppendStanza e d r) d r) = xs @ item_lines (Block d b)"
proof -
  have d: "nl \<notin> set d" and e: "ended r" using assms(4,5) device_ok_clean ended_text_of by auto
  have r: "nb r = item_lines (Block d b)"
    using assms(4,5) d by (auto intro!: nb_text_of simp: list_all_iff plain_line_def scannable_def markerPrefix_def markerSuffix_def nl_def)
  show one: "nb (replaceOrAppendStanza e d r) = nb e @ item_lines (Block d b)"
    using nb_replaceOrAppendStanza [OF d e, of e] find_block_open [OF assms(2,3)] assms(1) r by (simp add: block_of_def)
  have "markerSuffix @ d \<notin> set b" using assms(4) by (auto simp: list_all_iff dest: plain_not_marker)
  with one nb_replaceOrAppendStanza [OF d e, of "replaceOrAppendStanza e d r"] r assms(1,2,3)
    find_block_at [of "markerPrefix @ d" xs "markerSuffix @ d" "ys @ (markerPrefix @ d) # b" "[]"]
  show "nb (replaceOrAppendStanza (replaceOrAppendStanza e d r) d r) = xs @ item_lines (Block d b)"
    by (simp add: block_of_def)
qed

section \<open>Examples\<close>

lemma sample_stamp: "in_years 0" "plain_line (eph_line 7 0)" "plain_line (eph_line 8 0)"
proof -
  have "Date 0 = (1970, 1, 1)" by code_simp
  then show "in_years 0" by (simp add: in_years_def)
  have f: "FormatRFC3339 0 = ''1970-01-01T00:00:00Z''" "FormatInt 7 = ''7''" "FormatInt 8 = ''8''" by code_simp+
  show "plain_line (eph_line 7 0)" "plain_line (eph_line 8 0)"
    by (simp_all add: eph_line_def f ephemeralMarkerPrefix_def plain_line_def scannable_def markerPrefix_def markerSuffix_def nl_def cr_def)
qed

theorem tunnels_keep_lines_witness:
  "\<exists>rs d' doc'. conf_run ''d/c'' [Op_UpsertEphemeral (\<lambda>p. False) sample_stanza 7 0, Op_Reap (\<lambda>p. False)] sample_conf_disk = (rs, d')
     \<and> doc_at ''d/c'' doc' d' \<and> Own ''Host x'' \<in> set doc'"
proof -
  let ?ops = "[Op_UpsertEphemeral (\<lambda>p. False) sample_stanza 7 0, Op_Reap (\<lambda>p. False)]"
  obtain rs d' where run: "conf_run ''d/c'' ?ops sample_conf_disk = (rs, d')" by fastforce
  have ok: "list_all conf_op_ok ?ops" "list_all tunnel_op ?ops" by (simp_all add: sample_stanza_ok sample_stamp)
  from tunnels_keep_lines [OF sample_doc_at ok run] obtain doc' where
    doc': "doc_at ''d/c'' doc' d'" "filter persistent doc' = [Own ''Host x''] \<or> filter persistent doc' = header_doc @ [Own ''Host x'']" by auto
  have "Own ''Host x'' \<in> set (filter persistent doc')" using doc'(2) by (elim disjE; simp only:; simp)
  then have "Own ''Host x'' \<in> set doc'" using filter_is_subset [of persistent doc'] by blast
  with run doc'(1) show ?thesis by blast
qed

theorem tunnel_exclusive_witness:
  "\<exists>d1 d2 rs. UpsertEphemeral (\<lambda>p. False) ''d/c'' sample_stanza 7 0 sample_conf_disk = (None, d1)
     \<and> conf_run ''d/c'' [Op_Reap (\<lambda>p. p = 7)] d1 = (rs, d2)
     \<and> fst (UpsertEphemeral (\<lambda>p. True) ''d/c'' sample_stanza 8 0 d2) = Some (ErrEphemeralConcurrent ''dev'' 7 (time_Unix (Unix 0)) 22)"
proof -
  have r: "refusal (\<lambda>p. False) sample_stanza [Own ''Host x''] = None" by (simp add: refusal_def)
  have "\<exists>d1. UpsertEphemeral (\<lambda>p. False) ''d/c'' sample_stanza 7 0 sample_conf_disk = (None, d1)"
    using UpsertEphemeral_doc [OF sample_doc_at sample_stanza_ok _ sample_stamp(2), of "\<lambda>p. False"] r by auto
  then obtain d1 where d1: "UpsertEphemeral (\<lambda>p. False) ''d/c'' sample_stanza 7 0 sample_conf_disk = (None, d1)" by blast
  obtain rs d2 where d2: "conf_run ''d/c'' [Op_Reap (\<lambda>p. p = 7)] d1 = (rs, d2)" by fastforce
  have "fst (UpsertEphemeral (\<lambda>p. True) ''d/c'' sample_stanza 8 0 d2) = Some (ErrEphemeralConcurrent ''dev'' 7 (time_Unix (Unix 0)) 22)"
    using tunnel_exclusive [OF sample_doc_at sample_stanza_ok _ _ sample_stamp(1,2) d1 _ _ d2 sample_stanza_ok refl _ sample_stamp(3), of "\<lambda>p. True"]
    by (simp add: sample_stanza_def)
  with d1 d2 show ?thesis by blast
qed

theorem upsert_idempotent_witness:
  "\<exists>d1 d2. Upsert ''d/c'' sample_stanza sample_conf_disk = (None, d1) \<and> Upsert ''d/c'' sample_stanza d1 = (None, d2) \<and> content ''d/c'' d2 = content ''d/c'' d1"
proof -
  obtain r1 d1 where d1: "Upsert ''d/c'' sample_stanza sample_conf_disk = (r1, d1)" by fastforce
  obtain r2 d2 where d2: "Upsert ''d/c'' sample_stanza d1 = (r2, d2)" by fastforce
  have doc: "conf_disk ''d/c'' sample_conf_disk" "nb (content ''d/c'' sample_conf_disk) = [''Host x'']" using sample_doc_at by (simp_all add: doc_at_def holds_def)
  then have "complete (st_Device sample_stanza) (content ''d/c'' sample_conf_disk)" by (simp add: complete_def markerPrefix_def)
  moreover have "hd (content ''d/c'' sample_conf_disk) \<noteq> nl" by (simp add: content_def sample_conf_disk_def nl_def)
  ultimately have "r1 = None \<and> r2 = None \<and> content ''d/c'' d2 = content ''d/c'' d1"
    using upsert_idempotent [OF doc(1) sample_stanza_ok _ _ d1 d2] by blast
  with d1 d2 show ?thesis by blast
qed

end
