(* ===== verification/OAuth_Login.thy ===== *)
theory OAuth_Login
  imports Token_Store Go_Value Go_Base64
begin

text \<open>
  The login of the client (src/internal/oauthlogin): the authorization code flow with its loopback callback, the
  refresh of access tokens, and the client-credentials grant. The identity provider, the browser, the listener and the
  random source are functions on a world \<open>'v\<close>; golang.org/x/oauth2, go-oidc and go-jose are parameters.
  The token store works on a world \<open>'w\<close> of its own, so that both stores of \<open>Token_Store\<close> fit.
\<close>

section \<open>Errors and constants\<close>

definition callbackPath :: string where "callbackPath = ''/cb''"
definition defaultCallbackPorts :: "int list" where
  "defaultCallbackPorts = [50001, 50002, 50003, 50004, 50005, 50006, 50007, 50008, 50009, 50010]"
definition AllowedCallbackPorts :: "int list" where "AllowedCallbackPorts = defaultCallbackPorts"

definition ErrOAuthLoginProfileRequired :: go_error where "ErrOAuthLoginProfileRequired = Plain ''profile name is required''"
definition ErrOAuthLoginIssuerRequired :: go_error where "ErrOAuthLoginIssuerRequired = Plain ''issuer is required''"
definition ErrOAuthLoginClientIDRequired :: go_error where "ErrOAuthLoginClientIDRequired = Plain ''client id is required''"
definition ErrOAuthLoginTokenStoreRequired :: go_error where "ErrOAuthLoginTokenStoreRequired = Plain ''token store is required''"
definition ErrOAuthLoginAudienceParamRequired :: go_error where
  "ErrOAuthLoginAudienceParamRequired = Plain ''audience param is required when audience is set''"
definition ErrOAuthLoginReservedAuthParam :: go_error where
  "ErrOAuthLoginReservedAuthParam = Plain ''auth param uses a parameter name reserved by the oauth flow''"
definition ErrOAuthCallbackError :: go_error where "ErrOAuthCallbackError = Plain ''oauth callback returned error''"
definition ErrOAuthCallbackStateMismatch :: go_error where "ErrOAuthCallbackStateMismatch = Plain ''oauth callback state mismatch''"
definition ErrOAuthCallbackMissingCode :: go_error where "ErrOAuthCallbackMissingCode = Plain ''oauth callback missing code''"
definition ErrOAuthLoginMissingAccessToken :: go_error where "ErrOAuthLoginMissingAccessToken = Plain ''token response missing access_token''"
definition ErrOAuthLoginMissingRefreshToken :: go_error where "ErrOAuthLoginMissingRefreshToken = Plain ''token response missing refresh_token''"
definition ErrOAuthLoginIDTokenMissingSubject :: go_error where "ErrOAuthLoginIDTokenMissingSubject = Plain ''id token missing sub''"
definition ErrOAuthDiscovery :: go_error where "ErrOAuthDiscovery = Plain ''oauth: discover OIDC config''"
definition ErrOAuthExchange :: go_error where "ErrOAuthExchange = Plain ''oauth: exchange authorization code''"
definition ErrOAuthRefresh :: go_error where "ErrOAuthRefresh = Plain ''oauth: refresh access token''"
definition ErrLoginRequired :: go_error where "ErrLoginRequired = Plain ''login required''"
definition ErrAccessTokenProfileRequired :: go_error where "ErrAccessTokenProfileRequired = Plain ''profile name is required''"
definition ErrAccessTokenIssuerRequired :: go_error where "ErrAccessTokenIssuerRequired = Plain ''issuer is required''"
definition ErrAccessTokenClientIDRequired :: go_error where "ErrAccessTokenClientIDRequired = Plain ''client id is required''"
definition ErrAccessTokenTokenStoreRequired :: go_error where "ErrAccessTokenTokenStoreRequired = Plain ''token store is required''"
definition ErrAccessTokenRefreshMissingToken :: go_error where
  "ErrAccessTokenRefreshMissingToken = Plain ''refresh token response missing access_token''"
definition ErrClientCredentialsClientSecretRequired :: go_error where
  "ErrClientCredentialsClientSecretRequired = Plain ''client secret is required for the client-credentials grant''"
definition ErrClientCredentialsMissingAccessToken :: go_error where
  "ErrClientCredentialsMissingAccessToken = Plain ''client-credentials token response missing access_token''"
definition ErrOAuthClientCredentials :: go_error where "ErrOAuthClientCredentials = Plain ''oauth: client-credentials token request''"

definition defaultAccessTokenRefreshSkew :: duration where "defaultAccessTokenRefreshSkew = Minute"

section \<open>The libraries\<close>

datatype AuthStyle = AuthStyleAutoDetect | AuthStyleInParams | AuthStyleInHeader

record oauth_endpoint =
  ep_AuthURL :: string
  ep_TokenURL :: string
  ep_AuthStyle :: AuthStyle

record oauth_config =
  oc_ClientID :: string
  oc_Endpoint :: oauth_endpoint
  oc_RedirectURL :: string
  oc_Scopes :: "string list"

record oauth_token =
  ot_AccessToken :: string
  ot_RefreshToken :: string
  ot_Extra :: "(string \<times> any) list"

record credentials_config =
  cc_ClientID :: string
  cc_ClientSecret :: string
  cc_TokenURL :: string
  cc_Scopes :: "string list"
  cc_AuthStyle :: AuthStyle
  cc_EndpointParams :: "(string \<times> string) list"

text \<open>
  What reaches the loopback listener before the context ends: requests for the callback path with their query, or
  the failure of the server.
\<close>

datatype callback_event = Callback_Request "(string \<times> string) list" | Serve_Failed go_error

record 'v oauth_lib =
  ol_Listen :: "int \<Rightarrow> 'v \<Rightarrow> (int option) result \<times> 'v"
  ol_Rand :: "nat \<Rightarrow> 'v \<Rightarrow> string result \<times> 'v"
  ol_GenerateVerifier :: "'v \<Rightarrow> string \<times> 'v"
  ol_NewProvider :: "string \<Rightarrow> 'v \<Rightarrow> oauth_endpoint result \<times> 'v"
  ol_AuthCodeURL :: "oauth_config \<Rightarrow> string \<Rightarrow> (string \<times> string) list \<Rightarrow> string"
  ol_S256Challenge :: "string \<Rightarrow> (string \<times> string) list"
  ol_BrowserOpen :: "string \<Rightarrow> 'v \<Rightarrow> go_error option \<times> 'v"
  ol_Prompt :: "string \<Rightarrow> 'v \<Rightarrow> 'v"
  ol_Events :: "'v \<Rightarrow> (callback_event list \<times> go_error) \<times> 'v"
  ol_Exchange :: "oauth_config \<Rightarrow> string \<Rightarrow> (string \<times> string) list \<Rightarrow> 'v \<Rightarrow> oauth_token result \<times> 'v"
  ol_Refresh :: "oauth_config \<Rightarrow> string \<Rightarrow> 'v \<Rightarrow> oauth_token result \<times> 'v"
  ol_ClientCredentials :: "credentials_config \<Rightarrow> 'v \<Rightarrow> oauth_token result \<times> 'v"
  ol_VerifyID :: "string \<Rightarrow> string \<Rightarrow> string \<Rightarrow> 'v \<Rightarrow> string result \<times> 'v"
  ol_ParseSigned :: "string \<Rightarrow> string result"
  ol_UnsafeExpiry :: "string \<Rightarrow> (time option) result"
  ol_RetrieveBody :: "go_error \<Rightarrow> string option"
  ol_HugeFloat :: "float64 \<Rightarrow> int"
  ol_Now :: "'v \<Rightarrow> time \<times> 'v"

section \<open>Helpers\<close>

text \<open>\<open>fmt.Errorf\<close> with two verbs \<open>%w\<close> wraps both errors.\<close>

definition wrapTokenError :: "'v oauth_lib \<Rightarrow> go_error \<Rightarrow> go_error \<Rightarrow> go_error" where
  "wrapTokenError lib sentinel err =
     (case ol_RetrieveBody lib err of
        Some body \<Rightarrow> if body \<noteq> [] then Joined [sentinel, err, Plain (TrimSpace body)] else Joined [sentinel, err]
      | None \<Rightarrow> Joined [sentinel, err])"

text \<open>\<open>int64(v)\<close> of a float truncates; beyond 64 bits the result depends on the machine.\<close>

definition int64_of_float :: "'v oauth_lib \<Rightarrow> float64 \<Rightarrow> int" where
  "int64_of_float lib v =
     (case v of
        Finite mant ex \<Rightarrow>
          let t = (if mant < 0 then - float_floor (- mant) ex else float_floor mant ex)
          in if - (2 ^ 63) \<le> t \<and> t < 2 ^ 63 then t else ol_HugeFloat lib v
      | _ \<Rightarrow> ol_HugeFloat lib v)"

text \<open>The decoder of x/oauth2 puts numbers into \<open>float64\<close>; a \<open>json.Number\<close> does not occur.\<close>

definition refreshTokenExpiresIn :: "'v oauth_lib \<Rightarrow> oauth_token \<Rightarrow> int" where
  "refreshTokenExpiresIn lib tok =
     (case map_of (ot_Extra tok) ''refresh_token_expires_in'' of Some (VFloat v) \<Rightarrow> int64_of_float lib v | _ \<Rightarrow> 0)"

definition expires_at :: "time \<Rightarrow> int \<Rightarrow> int" where
  "expires_at now seconds = Unix (now + int64 (seconds * Second))"

definition accessTokenExpiry :: "'v oauth_lib \<Rightarrow> string \<Rightarrow> time result" where
  "accessTokenExpiry lib token =
     (case ol_ParseSigned lib token of
        Inl err \<Rightarrow> Inl (Wrapped ''parse access token: '' err)
      | Inr parsed \<Rightarrow>
          (case ol_UnsafeExpiry lib parsed of
             Inl err \<Rightarrow> Inl (Wrapped ''decode access token claims: '' err)
           | Inr None \<Rightarrow> Inl (Plain ''access token missing exp'')
           | Inr (Some t) \<Rightarrow> Inr t))"

definition accessTokenFresh :: "'v oauth_lib \<Rightarrow> string \<Rightarrow> time \<Rightarrow> duration \<Rightarrow> bool" where
  "accessTokenFresh lib token now skew = (case accessTokenExpiry lib token of Inl err \<Rightarrow> False | Inr expiresAt \<Rightarrow> now + skew < expiresAt)"

definition scopeList :: "string \<Rightarrow> string list" where
  "scopeList extra = [''openid'', ''email'', ''profile''] @ Fields extra"

section \<open>Options\<close>

record Options =
  op_ProfileName :: string
  op_Issuer :: string
  op_ClientID :: string
  op_Audience :: string
  op_AudienceParam :: string
  op_Scopes :: string
  op_AuthParams :: "(string \<times> string) list"
  op_HasStore :: bool
  op_CallbackPorts :: "int list"
  op_NoBrowser :: bool

definition newOAuthConfig :: "string \<Rightarrow> string \<Rightarrow> oauth_endpoint \<Rightarrow> string \<Rightarrow> oauth_config" where
  "newOAuthConfig clientID scopes endpoint redirectURI =
     \<lparr>oc_ClientID = clientID, oc_Endpoint = endpoint\<lparr>ep_AuthStyle := AuthStyleInParams\<rparr>, oc_RedirectURL = redirectURI, oc_Scopes = scopeList scopes\<rparr>"

definition normalizeOptions :: "Options \<Rightarrow> Options" where
  "normalizeOptions o0 =
     o0\<lparr>op_ProfileName := TrimSpace (op_ProfileName o0), op_Issuer := TrimRight_slash (TrimSpace (op_Issuer o0)),
        op_ClientID := TrimSpace (op_ClientID o0), op_Audience := TrimSpace (op_Audience o0),
        op_AudienceParam := TrimSpace (op_AudienceParam o0), op_Scopes := TrimSpace (op_Scopes o0),
        op_CallbackPorts := (if op_CallbackPorts o0 = [] then defaultCallbackPorts else op_CallbackPorts o0)\<rparr>"

definition reservedAuthParams :: "string list" where
  "reservedAuthParams = [''client_id'', ''redirect_uri'', ''response_type'', ''scope'', ''state'', ''code_challenge'',
     ''code_challenge_method'', ''access_type'']"

text \<open>The map is walked in any order; the order decides which error is reported.\<close>

fun check_params :: "string \<Rightarrow> string list \<Rightarrow> go_error option" where
  "check_params audienceParam [] = None"
| "check_params audienceParam (raw # keys) =
     (let key = TrimSpace raw in
      if key \<in> set reservedAuthParams then Some (Wrapped key ErrOAuthLoginReservedAuthParam)
      else if audienceParam \<noteq> [] \<and> key = audienceParam then Some (Wrapped key ErrOAuthLoginReservedAuthParam)
      else check_params audienceParam keys)"

definition ValidateAuthParams :: "(string \<times> string) list \<Rightarrow> string \<Rightarrow> go_error option" where
  "ValidateAuthParams params audienceParam = check_params (TrimSpace audienceParam) (map fst params)"

definition validateOptions :: "Options \<Rightarrow> go_error option" where
  "validateOptions o1 = errors_Join
     [if op_ProfileName o1 = [] then Some ErrOAuthLoginProfileRequired else None,
      if op_Issuer o1 = [] then Some ErrOAuthLoginIssuerRequired else None,
      if op_ClientID o1 = [] then Some ErrOAuthLoginClientIDRequired else None,
      if \<not> op_HasStore o1 then Some ErrOAuthLoginTokenStoreRequired else None,
      if op_Audience o1 \<noteq> [] \<and> op_AudienceParam o1 = [] then Some ErrOAuthLoginAudienceParamRequired else None,
      ValidateAuthParams (op_AuthParams o1) (op_AudienceParam o1)]"

section \<open>The loopback callback\<close>

fun listenForCallback :: "'v oauth_lib \<Rightarrow> go_error option \<Rightarrow> int list \<Rightarrow> 'v \<Rightarrow> (string \<times> int) result \<times> 'v" where
  "listenForCallback lib lastErr [] v =
     (Inl (Wrapped ''bind loopback callback: '' (case lastErr of None \<Rightarrow> Plain ''no callback ports configured'' | Some err \<Rightarrow> err)), v)"
| "listenForCallback lib lastErr (port # ports) v =
     (case ol_Listen lib port v of
        (Inl err, v1) \<Rightarrow> listenForCallback lib (Some err) ports v1
      | (Inr None, v1) \<Rightarrow> (Inl (Plain ''loopback listener returned non-TCP addr''), v1)
      | (Inr (Some bound), v1) \<Rightarrow> (Inr (''http://127.0.0.1:'' @ FormatInt bound @ callbackPath, bound), v1))"

definition query_get :: "(string \<times> string) list \<Rightarrow> string \<Rightarrow> string" where
  "query_get q k = (case map_of q k of None \<Rightarrow> [] | Some x \<Rightarrow> x)"

text \<open>What one event puts on the channel of \<open>serveCallback\<close>.\<close>

definition callback_result :: "string \<Rightarrow> callback_event \<Rightarrow> string result" where
  "callback_result expectedState ev =
     (case ev of
        Serve_Failed err \<Rightarrow> Inl (Wrapped ''callback server: '' err)
      | Callback_Request query \<Rightarrow>
          let errText = query_get query ''error''; code = TrimSpace (query_get query ''code'') in
          if errText \<noteq> [] then Inl (Wrapped errText ErrOAuthCallbackError)
          else if query_get query ''state'' \<noteq> expectedState then Inl ErrOAuthCallbackStateMismatch
          else if code = [] then Inl ErrOAuthCallbackMissingCode
          else Inr code)"

text \<open>The channel has room for one result: the first one counts, and without any the context ends the wait.\<close>

definition waitForCallback :: "string \<Rightarrow> callback_event list \<times> go_error \<Rightarrow> string result" where
  "waitForCallback expectedState evs =
     (case fst evs of
        [] \<Rightarrow> Inl (snd evs)
      | ev # _ \<Rightarrow>
          (case callback_result expectedState ev of
             Inl err \<Rightarrow> Inl err
           | Inr code \<Rightarrow> if code = [] then Inl ErrOAuthCallbackMissingCode else Inr code))"

definition randomURLString :: "'v oauth_lib \<Rightarrow> nat \<Rightarrow> 'v \<Rightarrow> string result \<times> 'v" where
  "randomURLString lib n v =
     (case ol_Rand lib n v of (Inl err, v1) \<Rightarrow> (Inl err, v1) | (Inr buf, v1) \<Rightarrow> (Inr (RawURL_EncodeToString buf), v1))"

definition newline :: string where "newline = [CHR 0x0A]"

definition printHeadlessInstructions :: "string \<Rightarrow> int \<Rightarrow> string" where
  "printHeadlessInstructions authorizeURL port =
     ''Browser launch is disabled (--no-browser).'' @ newline @ newline
     @ ''This CLI is waiting for the login redirect on 127.0.0.1:'' @ FormatInt port @ ''.'' @ newline
     @ ''If your browser is on another machine, forward that port back first, e.g.:'' @ newline @ newline
     @ ''    ssh -L '' @ FormatInt port @ '':localhost:'' @ FormatInt port @ '' <this-host>'' @ newline @ newline
     @ ''Then open this URL in that browser to authorize:'' @ newline @ newline
     @ ''    '' @ authorizeURL @ newline @ newline"

section \<open>Login\<close>

record Result =
  rs_Email :: string
  rs_Subject :: string

definition DisplayName :: "Result \<Rightarrow> string" where
  "DisplayName r = (if rs_Email r \<noteq> [] then rs_Email r else rs_Subject r)"

record idTokenClaims =
  id_Subject :: string
  id_Email :: string
  id_IssuedAt :: int

definition id_fields :: "idTokenClaims json_field list" where
  "id_fields = [(''sub'', set_string (\<lambda>s st. st\<lparr>id_Subject := s\<rparr>)), (''email'', set_string (\<lambda>s st. st\<lparr>id_Email := s\<rparr>)),
     (''iat'', set_int64 (\<lambda>i st. st\<lparr>id_IssuedAt := i\<rparr>))]"

definition audience_param :: "Options \<Rightarrow> (string \<times> string) list" where
  "audience_param o1 = (if op_Audience o1 \<noteq> [] then [(op_AudienceParam o1, op_Audience o1)] else [])"

definition authOpts :: "'v oauth_lib \<Rightarrow> Options \<Rightarrow> string \<Rightarrow> (string \<times> string) list" where
  "authOpts lib o1 verifier = ol_S256Challenge lib verifier @ [(''access_type'', ''offline'')] @ audience_param o1 @ op_AuthParams o1"

definition exchangeOpts :: "Options \<Rightarrow> string \<Rightarrow> (string \<times> string) list" where
  "exchangeOpts o1 verifier = (''code_verifier'', verifier) # audience_param o1"

text \<open>Up to the callback: the code, and what the exchange needs.\<close>

definition login_code :: "'v oauth_lib \<Rightarrow> Options \<Rightarrow> 'v \<Rightarrow> (oauth_config \<times> string \<times> string) result \<times> 'v" where
  "login_code lib o1 v =
     (case listenForCallback lib None (op_CallbackPorts o1) v of
        (Inl err, v1) \<Rightarrow> (Inl err, v1)
      | (Inr (redirectURI, callbackPort), v1) \<Rightarrow>
          (case randomURLString lib 32 v1 of
             (Inl err, v2) \<Rightarrow> (Inl err, v2)
           | (Inr state, v2) \<Rightarrow>
               (case ol_GenerateVerifier lib v2 of (verifier, v3) \<Rightarrow>
                (case ol_NewProvider lib (op_Issuer o1) v3 of
                   (Inl err, v4) \<Rightarrow> (Inl (Joined [ErrOAuthDiscovery, err]), v4)
                 | (Inr endpoint, v4) \<Rightarrow>
                     let cfg = newOAuthConfig (op_ClientID o1) (op_Scopes o1) endpoint redirectURI;
                         authorizeURL = ol_AuthCodeURL lib cfg state (authOpts lib o1 verifier)
                     in (case (if op_NoBrowser o1 then (None, ol_Prompt lib (printHeadlessInstructions authorizeURL callbackPort) v4)
                               else ol_BrowserOpen lib authorizeURL v4) of
                           (Some err, v5) \<Rightarrow> (Inl (Wrapped ''open browser: '' err), v5)
                         | (None, v5) \<Rightarrow>
                             (case ol_Events lib v5 of (evs, v6) \<Rightarrow>
                                (case waitForCallback state evs of
                                   Inl err \<Rightarrow> (Inl err, v6)
                                 | Inr code \<Rightarrow> (Inr (cfg, verifier, code), v6))))))))"

definition login_tokens :: "'v oauth_lib \<Rightarrow> Options \<Rightarrow> oauth_config \<Rightarrow> string \<Rightarrow> string \<Rightarrow> 'v \<Rightarrow> oauth_token result \<times> 'v" where
  "login_tokens lib o1 cfg verifier code v =
     (case ol_Exchange lib cfg code (exchangeOpts o1 verifier) v of
        (Inl err, v1) \<Rightarrow> (Inl (wrapTokenError lib ErrOAuthExchange err), v1)
      | (Inr tokens, v1) \<Rightarrow>
          (if TrimSpace (ot_RefreshToken tokens) = [] then Inl ErrOAuthLoginMissingRefreshToken
           else if TrimSpace (ot_AccessToken tokens) = [] then Inl ErrOAuthLoginMissingAccessToken
           else case accessTokenExpiry lib (ot_AccessToken tokens) of
                  Inl err \<Rightarrow> Inl (Wrapped ''access token expiry: '' err)
                | Inr _ \<Rightarrow> Inr tokens, v1))"

definition login_identity :: "'v oauth_lib \<Rightarrow> Options \<Rightarrow> oauth_token \<Rightarrow> 'v \<Rightarrow> idTokenClaims result \<times> 'v" where
  "login_identity lib o1 tokens v =
     (let idToken = (case map_of (ot_Extra tokens) ''id_token'' of Some (VString s) \<Rightarrow> s | _ \<Rightarrow> []) in
      if TrimSpace idToken = [] then (Inl (Plain ''id token missing from token exchange response''), v)
      else (case ol_VerifyID lib (op_Issuer o1) (op_ClientID o1) idToken v of
              (Inl err, v1) \<Rightarrow> (Inl (Wrapped ''verify id token: '' err), v1)
            | (Inr payload, v1) \<Rightarrow>
                (case json_Unmarshal id_fields \<lparr>id_Subject = [], id_Email = [], id_IssuedAt = 0\<rparr> payload of
                   None \<Rightarrow> Inl (Wrapped ''decode id token claims: '' json_error)
                 | Some c \<Rightarrow>
                     let claims = c\<lparr>id_Subject := TrimSpace (id_Subject c), id_Email := TrimSpace (id_Email c)\<rparr>
                     in if id_Subject claims = [] then Inl ErrOAuthLoginIDTokenMissingSubject else Inr claims, v1)))"

definition login_state :: "'v oauth_lib \<Rightarrow> Options \<Rightarrow> oauth_token \<Rightarrow> idTokenClaims \<Rightarrow> time \<Rightarrow> State" where
  "login_state lib o1 tokens claims now =
     \<lparr>ts_Version = 0, ts_IDPIssuer = op_Issuer o1, ts_IDPClientID = op_ClientID o1,
      ts_AccessToken = ot_AccessToken tokens, ts_RefreshToken = ot_RefreshToken tokens,
      ts_RefreshTokenExpiresAt = (let seconds = refreshTokenExpiresIn lib tokens in if 0 < seconds then expires_at now seconds else 0),
      ts_Subject = id_Subject claims, ts_Email = id_Email claims,
      ts_IssuedAt = (if id_IssuedAt claims = 0 then Unix now else id_IssuedAt claims)\<rparr>"

type_synonym 'w saver = "string \<Rightarrow> State \<Rightarrow> 'w \<Rightarrow> go_error option \<times> 'w"
type_synonym 'w loader = "string \<Rightarrow> 'w \<Rightarrow> State result \<times> 'w"

definition Login :: "'v oauth_lib \<Rightarrow> 'w saver \<Rightarrow> Options \<Rightarrow> 'v \<Rightarrow> 'w \<Rightarrow> Result result \<times> 'v \<times> 'w" where
  "Login lib Save o0 v w =
     (let o1 = normalizeOptions o0 in
      case validateOptions o1 of
        Some err \<Rightarrow> (Inl err, v, w)
      | None \<Rightarrow>
          (case login_code lib o1 v of
             (Inl err, v1) \<Rightarrow> (Inl err, v1, w)
           | (Inr (cfg, verifier, code), v1) \<Rightarrow>
               (case login_tokens lib o1 cfg verifier code v1 of
                  (Inl err, v2) \<Rightarrow> (Inl err, v2, w)
                | (Inr tokens, v2) \<Rightarrow>
                    (case login_identity lib o1 tokens v2 of
                       (Inl err, v3) \<Rightarrow> (Inl err, v3, w)
                     | (Inr claims, v3) \<Rightarrow>
                         (case ol_Now lib v3 of (now, v4) \<Rightarrow>
                          (case Save (op_ProfileName o1) (login_state lib o1 tokens claims now) w of
                             (Some err, w1) \<Rightarrow> (Inl (Wrapped ''save token state: '' err), v4, w1)
                           | (None, w1) \<Rightarrow> (Inr \<lparr>rs_Email = id_Email claims, rs_Subject = id_Subject claims\<rparr>, v4, w1)))))))"

section \<open>Access tokens\<close>

record AccessTokenOptions =
  ao_ProfileName :: string
  ao_Issuer :: string
  ao_ClientID :: string
  ao_HasStore :: bool
  ao_RefreshSkew :: duration

definition normalizeAccessTokenOptions :: "AccessTokenOptions \<Rightarrow> AccessTokenOptions" where
  "normalizeAccessTokenOptions o0 =
     o0\<lparr>ao_ProfileName := TrimSpace (ao_ProfileName o0), ao_Issuer := TrimRight_slash (TrimSpace (ao_Issuer o0)),
        ao_ClientID := TrimSpace (ao_ClientID o0),
        ao_RefreshSkew := (if ao_RefreshSkew o0 = 0 then defaultAccessTokenRefreshSkew else max 0 (ao_RefreshSkew o0))\<rparr>"

definition validateAccessTokenOptions :: "AccessTokenOptions \<Rightarrow> go_error option" where
  "validateAccessTokenOptions o1 = errors_Join
     [if ao_ProfileName o1 = [] then Some ErrAccessTokenProfileRequired else None,
      if ao_Issuer o1 = [] then Some ErrAccessTokenIssuerRequired else None,
      if ao_ClientID o1 = [] then Some ErrAccessTokenClientIDRequired else None,
      if \<not> ao_HasStore o1 then Some ErrAccessTokenTokenStoreRequired else None]"

text \<open>The refresh grant, from discovery to the checks on its answer.\<close>

definition refresh_grant :: "'v oauth_lib \<Rightarrow> AccessTokenOptions \<Rightarrow> string \<Rightarrow> 'v \<Rightarrow> oauth_token result \<times> 'v" where
  "refresh_grant lib o1 refreshToken v =
     (case ol_NewProvider lib (ao_Issuer o1) v of
        (Inl err, v1) \<Rightarrow> (Inl (Joined [ErrOAuthDiscovery, err]), v1)
      | (Inr endpoint, v1) \<Rightarrow>
          (case ol_Refresh lib (newOAuthConfig (ao_ClientID o1) [] endpoint []) refreshToken v1 of
             (Inl err, v2) \<Rightarrow> (Inl (wrapTokenError lib ErrOAuthRefresh err), v2)
           | (Inr tokens, v2) \<Rightarrow>
               (if TrimSpace (ot_AccessToken tokens) = [] then Inl ErrAccessTokenRefreshMissingToken
                else case accessTokenExpiry lib (ot_AccessToken tokens) of
                       Inl err \<Rightarrow> Inl (Wrapped ''refresh token response access_token: '' err)
                     | Inr _ \<Rightarrow> Inr tokens, v2)))"

definition refreshed_state :: "'v oauth_lib \<Rightarrow> State \<Rightarrow> oauth_token \<Rightarrow> time \<Rightarrow> State" where
  "refreshed_state lib st tokens now =
     (let st1 = st\<lparr>ts_AccessToken := ot_AccessToken tokens\<rparr>;
          st2 = (if TrimSpace (ot_RefreshToken tokens) \<noteq> [] then st1\<lparr>ts_RefreshToken := ot_RefreshToken tokens\<rparr> else st1);
          seconds = refreshTokenExpiresIn lib tokens
      in if 0 < seconds then st2\<lparr>ts_RefreshTokenExpiresAt := expires_at now seconds\<rparr> else st2)"

definition AccessToken :: "'v oauth_lib \<Rightarrow> 'w loader \<Rightarrow> 'w saver \<Rightarrow> AccessTokenOptions \<Rightarrow> 'v \<Rightarrow> 'w \<Rightarrow> string result \<times> 'v \<times> 'w" where
  "AccessToken lib Load Save o0 v w =
     (let o1 = normalizeAccessTokenOptions o0 in
      case validateAccessTokenOptions o1 of
        Some err \<Rightarrow> (Inl err, v, w)
      | None \<Rightarrow>
          (case Load (ao_ProfileName o1) w of
             (Inl err, w1) \<Rightarrow> (Inl (if errors_Is err ErrNotFound then Wrapped (ao_ProfileName o1) ErrLoginRequired else err), v, w1)
           | (Inr st, w1) \<Rightarrow>
               if ts_IDPIssuer st \<noteq> ao_Issuer o1 \<or> ts_IDPClientID st \<noteq> ao_ClientID o1
               then (Inl (Wrapped ''cached token state does not match resolved profile'' ErrLoginRequired), v, w1)
               else (case ol_Now lib v of (now, v1) \<Rightarrow>
                 if accessTokenFresh lib (ts_AccessToken st) now (ao_RefreshSkew o1) then (Inr (ts_AccessToken st), v1, w1)
                 else if 0 < ts_RefreshTokenExpiresAt st \<and> ts_RefreshTokenExpiresAt st \<le> Unix now
                 then (Inl (Wrapped ''refresh token expired'' ErrLoginRequired), v1, w1)
                 else (case refresh_grant lib o1 (ts_RefreshToken st) v1 of
                         (Inl err, v2) \<Rightarrow> (Inl err, v2, w1)
                       | (Inr tokens, v2) \<Rightarrow>
                           (case Save (ao_ProfileName o1) (refreshed_state lib st tokens now) w1 of
                              (Some err, w2) \<Rightarrow> (Inl (Wrapped ''save refreshed token state: '' err), v2, w2)
                            | (None, w2) \<Rightarrow> (Inr (ot_AccessToken tokens), v2, w2))))))"

section \<open>Client credentials\<close>

record ClientCredentialsOptions =
  co_Issuer :: string
  co_ClientID :: string
  co_ClientSecret :: string
  co_Audience :: string
  co_AudienceParam :: string
  co_Scopes :: string

definition normalizeClientCredentialsOptions :: "ClientCredentialsOptions \<Rightarrow> ClientCredentialsOptions" where
  "normalizeClientCredentialsOptions o0 =
     o0\<lparr>co_Issuer := TrimRight_slash (TrimSpace (co_Issuer o0)), co_ClientID := TrimSpace (co_ClientID o0),
        co_ClientSecret := TrimSpace (co_ClientSecret o0), co_Audience := TrimSpace (co_Audience o0),
        co_AudienceParam := TrimSpace (co_AudienceParam o0), co_Scopes := TrimSpace (co_Scopes o0)\<rparr>"

definition validateClientCredentialsOptions :: "ClientCredentialsOptions \<Rightarrow> go_error option" where
  "validateClientCredentialsOptions o1 = errors_Join
     [if co_Issuer o1 = [] then Some ErrOAuthLoginIssuerRequired else None,
      if co_ClientID o1 = [] then Some ErrOAuthLoginClientIDRequired else None,
      if co_ClientSecret o1 = [] then Some ErrClientCredentialsClientSecretRequired else None,
      if co_Audience o1 \<noteq> [] \<and> co_AudienceParam o1 = [] then Some ErrOAuthLoginAudienceParamRequired else None]"

definition ClientCredentialsToken :: "'v oauth_lib \<Rightarrow> ClientCredentialsOptions \<Rightarrow> 'v \<Rightarrow> string result \<times> 'v" where
  "ClientCredentialsToken lib o0 v =
     (let o1 = normalizeClientCredentialsOptions o0 in
      case validateClientCredentialsOptions o1 of
        Some err \<Rightarrow> (Inl err, v)
      | None \<Rightarrow>
          (case ol_NewProvider lib (co_Issuer o1) v of
             (Inl err, v1) \<Rightarrow> (Inl (Joined [ErrOAuthDiscovery, err]), v1)
           | (Inr endpoint, v1) \<Rightarrow>
               (case ol_ClientCredentials lib
                  \<lparr>cc_ClientID = co_ClientID o1, cc_ClientSecret = co_ClientSecret o1, cc_TokenURL = ep_TokenURL endpoint,
                   cc_Scopes = Fields (co_Scopes o1), cc_AuthStyle = AuthStyleInParams,
                   cc_EndpointParams = (if co_Audience o1 \<noteq> [] then [(co_AudienceParam o1, co_Audience o1)] else [])\<rparr> v1 of
                  (Inl err, v2) \<Rightarrow> (Inl (wrapTokenError lib ErrOAuthClientCredentials err), v2)
                | (Inr token, v2) \<Rightarrow>
                    (if TrimSpace (ot_AccessToken token) = [] then Inl ErrClientCredentialsMissingAccessToken
                     else case accessTokenExpiry lib (ot_AccessToken token) of
                            Inl err \<Rightarrow> Inl (Wrapped ''client-credentials access token expiry: '' err)
                          | Inr _ \<Rightarrow> Inr (ot_AccessToken token), v2))))"

section \<open>What a login binds\<close>

text \<open>The first callback decides, and only with the state of this login.\<close>

lemma waitForCallback_Inr:
  assumes "waitForCallback state evs = Inr code"
  obtains query rest where "fst evs = Callback_Request query # rest" "query_get query ''error'' = []" "query_get query ''state'' = state"
    "code = TrimSpace (query_get query ''code'')" "code \<noteq> []"
  using assms that
  by (auto simp: waitForCallback_def callback_result_def Let_def split: list.splits sum.splits callback_event.splits if_splits)

lemma listenForCallback_Inr:
  "listenForCallback lib err ports v = (Inr (uri, port), v') \<Longrightarrow> uri = ''http://127.0.0.1:'' @ FormatInt port @ ''/cb''"
  by (induction ports arbitrary: err v) (auto simp: callbackPath_def split: prod.splits sum.splits option.splits)

text \<open>
  The round through the browser of one login, from the world \<open>v\<close> it starts in to the world \<open>v'\<close> after its callback: the
  listener, the state and the verifier drawn there one after the other, the provider, the authorize URL with this state and the
  challenge of this verifier, and the first request that reaches the callback path.
\<close>

definition browser_round ::
  "'v oauth_lib \<Rightarrow> Options \<Rightarrow> 'v \<Rightarrow> string \<Rightarrow> string \<Rightarrow> oauth_config \<Rightarrow> (string \<times> string) list \<Rightarrow> 'v \<Rightarrow> bool" where
  "browser_round lib o1 v state verifier cfg query v' \<longleftrightarrow>
     (\<exists>port v1 buf v2 v3 endpoint v4 v5 rest e.
        listenForCallback lib None (op_CallbackPorts o1) v = (Inr (oc_RedirectURL cfg, port), v1)
        \<and> oc_RedirectURL cfg = ''http://127.0.0.1:'' @ FormatInt port @ ''/cb''
        \<and> ol_Rand lib 32 v1 = (Inr buf, v2) \<and> state = RawURL_EncodeToString buf
        \<and> ol_GenerateVerifier lib v2 = (verifier, v3)
        \<and> ol_NewProvider lib (op_Issuer o1) v3 = (Inr endpoint, v4)
        \<and> cfg = newOAuthConfig (op_ClientID o1) (op_Scopes o1) endpoint (oc_RedirectURL cfg)
        \<and> (let url = ol_AuthCodeURL lib cfg state (authOpts lib o1 verifier) in
           if op_NoBrowser o1 then v5 = ol_Prompt lib (printHeadlessInstructions url port) v4
           else ol_BrowserOpen lib url v4 = (None, v5))
        \<and> ol_Events lib v5 = ((Callback_Request query # rest, e), v'))"

lemma login_code_Inr:
  assumes "login_code lib o1 v = (Inr (cfg, verifier, code), v')"
  obtains state query where "browser_round lib o1 v state verifier cfg query v'" "query_get query ''error'' = []"
    "query_get query ''state'' = state" "code = TrimSpace (query_get query ''code'')" "code \<noteq> []"
proof -
  from assms obtain redirectURI port v1 buf v2 v3 endpoint v4 v5 evs where
    l: "listenForCallback lib None (op_CallbackPorts o1) v = (Inr (redirectURI, port), v1)"
    and r: "ol_Rand lib 32 v1 = (Inr buf, v2)" and g: "ol_GenerateVerifier lib v2 = (verifier, v3)"
    and n: "ol_NewProvider lib (op_Issuer o1) v3 = (Inr endpoint, v4)"
    and p: "cfg = newOAuthConfig (op_ClientID o1) (op_Scopes o1) endpoint redirectURI"
    and b: "(if op_NoBrowser o1 then (None, ol_Prompt lib (printHeadlessInstructions (ol_AuthCodeURL lib cfg (RawURL_EncodeToString buf) (authOpts lib o1 verifier)) port) v4)
       else ol_BrowserOpen lib (ol_AuthCodeURL lib cfg (RawURL_EncodeToString buf) (authOpts lib o1 verifier)) v4) = (None, v5)"
    and ev: "ol_Events lib v5 = (evs, v')" and w: "waitForCallback (RawURL_EncodeToString buf) evs = Inr code"
    by (auto simp: login_code_def randomURLString_def Let_def split: prod.splits sum.splits option.splits if_splits)
  from b have b': "if op_NoBrowser o1 then v5 = ol_Prompt lib (printHeadlessInstructions (ol_AuthCodeURL lib cfg (RawURL_EncodeToString buf) (authOpts lib o1 verifier)) port) v4
      else ol_BrowserOpen lib (ol_AuthCodeURL lib cfg (RawURL_EncodeToString buf) (authOpts lib o1 verifier)) v4 = (None, v5)"
    by (cases "op_NoBrowser o1") simp_all
  have uri: "oc_RedirectURL cfg = redirectURI" by (simp add: p newOAuthConfig_def)
  from w show thesis
  proof (rule waitForCallback_Inr)
    fix query rest
    assume q: "fst evs = Callback_Request query # rest" "query_get query ''error'' = []" "query_get query ''state'' = RawURL_EncodeToString buf"
      "code = TrimSpace (query_get query ''code'')" "code \<noteq> []"
    have "evs = (Callback_Request query # rest, snd evs)" using q(1) by (simp add: prod_eq_iff)
    with ev have ev': "ol_Events lib v5 = ((Callback_Request query # rest, snd evs), v')" by simp
    have "browser_round lib o1 v (RawURL_EncodeToString buf) verifier cfg query v'"
      unfolding browser_round_def uri Let_def
      by (intro exI conjI) (rule l, rule listenForCallback_Inr [OF l], rule r, rule refl, rule g, rule n, rule p, rule b', rule ev')
    from that [OF this q(2-5)] show thesis .
  qed
qed

lemma check_params_None: "check_params a keys = None \<longleftrightarrow> (\<forall>k \<in> set keys. TrimSpace k \<notin> set reservedAuthParams \<and> (a = [] \<or> TrimSpace k \<noteq> a))"
  by (induction keys) (auto simp: Let_def)

lemma validateOptions_None:
  assumes "validateOptions (normalizeOptions o0) = None"
  shows "op_ProfileName (normalizeOptions o0) \<noteq> []" "op_Issuer (normalizeOptions o0) \<noteq> []" "op_ClientID (normalizeOptions o0) \<noteq> []"
    and "k \<in> fst ` set (op_AuthParams o0) \<Longrightarrow> TrimSpace k \<notin> set reservedAuthParams"
    and "k \<in> fst ` set (op_AuthParams o0) \<Longrightarrow> op_Audience (normalizeOptions o0) \<noteq> [] \<Longrightarrow> TrimSpace k \<noteq> op_AudienceParam (normalizeOptions o0)"
proof -
  have a: "op_AuthParams (normalizeOptions o0) = op_AuthParams o0" "TrimSpace (op_AudienceParam (normalizeOptions o0)) = op_AudienceParam (normalizeOptions o0)"
    by (simp_all add: normalizeOptions_def)
  from assms show "op_ProfileName (normalizeOptions o0) \<noteq> []" "op_Issuer (normalizeOptions o0) \<noteq> []" "op_ClientID (normalizeOptions o0) \<noteq> []"
    and "k \<in> fst ` set (op_AuthParams o0) \<Longrightarrow> TrimSpace k \<notin> set reservedAuthParams"
    and "k \<in> fst ` set (op_AuthParams o0) \<Longrightarrow> op_Audience (normalizeOptions o0) \<noteq> [] \<Longrightarrow> TrimSpace k \<noteq> op_AudienceParam (normalizeOptions o0)"
    unfolding validateOptions_def errors_Join_None ValidateAuthParams_def a
    by (auto simp: check_params_None split: if_splits)
qed

lemma Login_Inr:
  assumes "Login lib Save o0 v w = (Inr r, v', w')"
  obtains cfg verifier code tokens claims now v1 v2 v3 where
    "validateOptions (normalizeOptions o0) = None" "login_code lib (normalizeOptions o0) v = (Inr (cfg, verifier, code), v1)"
    "login_tokens lib (normalizeOptions o0) cfg verifier code v1 = (Inr tokens, v2)"
    "login_identity lib (normalizeOptions o0) tokens v2 = (Inr claims, v3)" "ol_Now lib v3 = (now, v')"
    "Save (op_ProfileName (normalizeOptions o0)) (login_state lib (normalizeOptions o0) tokens claims now) w = (None, w')"
    "r = \<lparr>rs_Email = id_Email claims, rs_Subject = id_Subject claims\<rparr>"
  using assms that by (auto simp: Login_def Let_def split: option.splits prod.splits sum.splits)

lemma login_tokens_Inr:
  "login_tokens lib o1 cfg verifier code v = (Inr tokens, v') \<Longrightarrow>
    ol_Exchange lib cfg code (exchangeOpts o1 verifier) v = (Inr tokens, v') \<and> TrimSpace (ot_RefreshToken tokens) \<noteq> [] \<and> TrimSpace (ot_AccessToken tokens) \<noteq> []"
  by (auto simp: login_tokens_def split: prod.splits sum.splits if_splits)

lemma login_identity_Inr:
  assumes "login_identity lib o1 tokens v = (Inr claims, v')"
  obtains idToken payload cc where "map_of (ot_Extra tokens) ''id_token'' = Some (VString idToken)"
    "ol_VerifyID lib (op_Issuer o1) (op_ClientID o1) idToken v = (Inr payload, v')"
    "json_Unmarshal id_fields \<lparr>id_Subject = [], id_Email = [], id_IssuedAt = 0\<rparr> payload = Some cc"
    "claims = cc\<lparr>id_Subject := TrimSpace (id_Subject cc), id_Email := TrimSpace (id_Email cc)\<rparr>" "id_Subject claims \<noteq> []"
proof -
  have blank: "TrimSpace [] = []" by code_simp
  from assms show thesis
    by (auto simp: login_identity_def Let_def blank intro: that split: prod.splits sum.splits if_splits option.splits any.splits)
qed

section \<open>With a token store\<close>

text \<open>
  The provider answers with valid UTF-8, as JSON is, and the clock stands between 1970 and 2262. The store holds
  states that can be read back.
\<close>

definition clean_tokens :: "oauth_token \<Rightarrow> bool" where
  "clean_tokens tokens \<longleftrightarrow> clean_string (ot_AccessToken tokens) \<and> clean_string (ot_RefreshToken tokens)"

definition clean_claims :: "idTokenClaims \<Rightarrow> bool" where
  "clean_claims c \<longleftrightarrow> clean_string (id_Subject c) \<and> clean_string (id_Email c) \<and> int64_range (id_IssuedAt c)"

definition clean_provider :: "'v oauth_lib \<Rightarrow> bool" where
  "clean_provider lib \<longleftrightarrow>
     (\<forall>cfg code opts v tokens v'. ol_Exchange lib cfg code opts v = (Inr tokens, v') \<longrightarrow> clean_tokens tokens)
     \<and> (\<forall>cfg rt v tokens v'. ol_Refresh lib cfg rt v = (Inr tokens, v') \<longrightarrow> clean_tokens tokens)
     \<and> (\<forall>iss cl tok v payload v' c. ol_VerifyID lib iss cl tok v = (Inr payload, v') \<longrightarrow>
          json_Unmarshal id_fields \<lparr>id_Subject = [], id_Email = [], id_IssuedAt = 0\<rparr> payload = Some c \<longrightarrow> clean_claims c)
     \<and> (\<forall>v. 0 \<le> fst (ol_Now lib v) \<and> fst (ol_Now lib v) < 2 ^ 63)"

definition readable :: "(string \<rightharpoonup> State) \<Rightarrow> bool" where
  "readable m \<longleftrightarrow> (\<forall>p st. m p = Some st \<longrightarrow> keepable st \<and> stored st = st)"

lemma stored_idem: "stored (stored st) = stored st"
  by (simp add: stored_def default_version_def trimState_def StateVersion_def)

lemma keepable_stored: "keepable st \<Longrightarrow> keepable (stored st) \<and> stored (stored st) = stored st"
  by (simp add: keepable_def stored_idem) (simp add: clean_state_def stored_def default_version_def trimState_def clean_string_trim StateVersion_def int64_range_def)

lemma readable_update: "readable m \<Longrightarrow> keepable st \<Longrightarrow> readable (m(p \<mapsto> stored st))"
  using keepable_stored by (auto simp: readable_def)

lemma expires_at_range: "0 \<le> now \<Longrightarrow> now < 2 ^ 63 \<Longrightarrow> int64_range (expires_at now s)"
proof -
  assume now: "0 \<le> now" "now < 2 ^ 63"
  have "- (2 ^ 63) \<le> int64 (s * Second)" "int64 (s * Second) < 2 ^ 63"
    using signed_take_bit_int_greater_eq_minus_exp [of 63 "s * Second"] signed_take_bit_int_less_exp [of 63 "s * Second"]
    by (simp_all add: int64_def)
  with now have "- (2 ^ 63) \<le> now + int64 (s * Second)" "now + int64 (s * Second) < 2 ^ 64" by simp_all
  then show ?thesis unfolding expires_at_def Unix_def Second_def int64_range_def by simp linarith
qed

lemma validateState_None: "validateState st = None \<longleftrightarrow> ts_Version st = StateVersion \<and> ts_IDPIssuer st \<noteq> [] \<and> ts_IDPClientID st \<noteq> [] \<and> ts_RefreshToken st \<noteq> []"
  by (auto simp: validateState_def errors_Join_None)

lemma refreshed_keepable:
  assumes "keepable st" and "clean_tokens tokens" and "0 \<le> now" "now < 2 ^ 63"
  shows "keepable (refreshed_state lib st tokens now)"
  using assms expires_at_range [OF assms(3,4)]
  by (auto simp: keepable_def validateState_None refreshed_state_def Let_def stored_def default_version_def trimState_def clean_state_def clean_tokens_def
      split: if_splits)

lemma login_keepable:
  assumes "clean_tokens tokens" and "clean_claims claims" and "0 \<le> now" "now < 2 ^ 63" and "TrimSpace (ot_RefreshToken tokens) \<noteq> []"
    and "clean_string (op_Issuer o1)" "TrimSpace (op_Issuer o1) \<noteq> []" "clean_string (op_ClientID o1)" "TrimSpace (op_ClientID o1) \<noteq> []"
  shows "keepable (login_state lib o1 tokens claims now)"
proof -
  have "int64_range (Unix now)" using assms(3,4) unfolding int64_range_def Unix_def Second_def by simp linarith
  with assms expires_at_range [OF assms(3,4)] show ?thesis
    by (auto simp: keepable_def validateState_None login_state_def Let_def stored_def default_version_def trimState_def clean_state_def clean_tokens_def
        clean_claims_def int64_range_def StateVersion_def)
qed

lemma normalized_options [simp]:
  "ao_ProfileName (normalizeAccessTokenOptions o0) = TrimSpace (ao_ProfileName o0)" "op_ProfileName (normalizeOptions o1) = TrimSpace (op_ProfileName o1)"
  by (simp_all add: normalizeAccessTokenOptions_def normalizeOptions_def)

lemma valid_profile: "validateAccessTokenOptions (normalizeAccessTokenOptions o0) = None \<Longrightarrow> TrimSpace (ao_ProfileName o0) \<noteq> []"
  by (auto simp: validateAccessTokenOptions_def errors_Join_None split: if_splits)

context token_store
begin

text \<open>A cached token that is still fresh is returned as it is.\<close>

lemma cached_token:
  assumes "ok w" and "represents Load m w" and "validateAccessTokenOptions (normalizeAccessTokenOptions o0) = None"
    and "m (TrimSpace (ao_ProfileName o0)) = Some st" and "ts_IDPIssuer st = ao_Issuer (normalizeAccessTokenOptions o0)"
    and "ts_IDPClientID st = ao_ClientID (normalizeAccessTokenOptions o0)" and "ol_Now lib v = (now, v')"
    and "accessTokenFresh lib (ts_AccessToken st) now (ao_RefreshSkew (normalizeAccessTokenOptions o0))"
  shows "\<exists>w'. AccessToken lib Load Save o0 v w = (Inr (ts_AccessToken st), v', w') \<and> ok w' \<and> represents Load m w'"
proof -
  let ?p = "TrimSpace (ao_ProfileName o0)"
  have "fst (Load ?p w) = Inr st" using assms(2,4) valid_profile [OF assms(3)] by (simp add: represents_def)
  then obtain w' where l: "Load ?p w = (Inr st, w')" by (metis prod.collapse)
  then have "ok w'" "represents Load m w'" using load_ok [OF assms(1), of ?p] load_represents [OF assms(1,2), of ?p] by simp_all
  with l show ?thesis using assms(3-8) by (simp add: AccessToken_def)
qed

lemma token_obtained:
  assumes "ok w" and "represents Load m w" and "readable m" and "clean_provider lib" and "AccessToken lib Load Save o0 v w = (Inr tok, v', w')"
  shows "\<exists>st now. m (TrimSpace (ao_ProfileName o0)) = Some st \<and> ts_IDPIssuer st = ao_Issuer (normalizeAccessTokenOptions o0)
    \<and> ts_IDPClientID st = ao_ClientID (normalizeAccessTokenOptions o0) \<and> ok w' \<and> ol_Now lib v = (now, snd (ol_Now lib v))
    \<and> (tok = ts_AccessToken st \<and> accessTokenFresh lib tok now (ao_RefreshSkew (normalizeAccessTokenOptions o0)) \<and> represents Load m w'
       \<or> (\<exists>tokens. refresh_grant lib (normalizeAccessTokenOptions o0) (ts_RefreshToken st) (snd (ol_Now lib v)) = (Inr tokens, v')
            \<and> tok = ot_AccessToken tokens \<and> keepable (refreshed_state lib st tokens now)
            \<and> represents Load (m(TrimSpace (ao_ProfileName o0) \<mapsto> stored (refreshed_state lib st tokens now))) w'))"
proof -
  let ?o = "normalizeAccessTokenOptions o0" and ?p = "TrimSpace (ao_ProfileName o0)"
  from assms(5) obtain st w1 now v1 where v: "validateAccessTokenOptions ?o = None" and l: "Load ?p w = (Inr st, w1)"
    and match: "ts_IDPIssuer st = ao_Issuer ?o" "ts_IDPClientID st = ao_ClientID ?o" and now: "ol_Now lib v = (now, v1)"
    and rest: "if accessTokenFresh lib (ts_AccessToken st) now (ao_RefreshSkew ?o) then tok = ts_AccessToken st \<and> w' = w1
      else \<exists>tokens. refresh_grant lib ?o (ts_RefreshToken st) v1 = (Inr tokens, v') \<and> Save ?p (refreshed_state lib st tokens now) w1 = (None, w')
        \<and> tok = ot_AccessToken tokens"
    by (auto simp: AccessToken_def Let_def split: option.splits prod.splits sum.splits if_splits)
  have "fst (Load ?p w) = (case m ?p of None \<Rightarrow> Inl ErrNotFound | Some st \<Rightarrow> Inr st)"
    using assms(2) valid_profile [OF v] by (simp add: represents_def)
  with l have m: "m ?p = Some st" by (auto split: option.splits)
  have w1: "ok w1" "represents Load m w1" using load_ok [OF assms(1), of ?p] load_represents [OF assms(1,2), of ?p] l by simp_all
  show ?thesis
  proof (cases "accessTokenFresh lib (ts_AccessToken st) now (ao_RefreshSkew ?o)")
    case True
    with rest m match w1 now show ?thesis by auto
  next
    case False
    with rest obtain tokens where t: "refresh_grant lib ?o (ts_RefreshToken st) v1 = (Inr tokens, v')"
      "Save ?p (refreshed_state lib st tokens now) w1 = (None, w')" "tok = ot_AccessToken tokens" by auto
    from t(1) obtain cfg v3 where "ol_Refresh lib cfg (ts_RefreshToken st) v3 = (Inr tokens, v')"
      by (auto simp: refresh_grant_def split: prod.splits sum.splits if_splits)
    then have "clean_tokens tokens" using assms(4) unfolding clean_provider_def by blast
    moreover have "0 \<le> now" "now < 2 ^ 63" using assms(4) now unfolding clean_provider_def by (metis fst_conv)+
    moreover have "keepable st" using assms(3) m by (simp add: readable_def)
    ultimately have keep: "keepable (refreshed_state lib st tokens now)" using refreshed_keepable by blast
    have "represents Load (m(?p \<mapsto> stored (refreshed_state lib st tokens now))) w'"
      using save_represents [OF w1 t(2) keep] by simp
    with t m match keep now save_ok [OF w1(1) t(2)] show ?thesis by auto
  qed
qed

text \<open>After a login the store has its state, and the next call finds the access token there.\<close>

lemma login_stored:
  assumes "ok w" and "represents Load m w" and "clean_provider lib" and "Login lib Save o0 v w = (Inr r, v', w')"
    and "clean_string (op_Issuer (normalizeOptions o0))" "TrimSpace (op_Issuer (normalizeOptions o0)) = op_Issuer (normalizeOptions o0)"
    and "clean_string (op_ClientID (normalizeOptions o0))"
  shows "\<exists>cfg verifier code tokens claims now v1 v2 v3. login_code lib (normalizeOptions o0) v = (Inr (cfg, verifier, code), v1)
    \<and> login_tokens lib (normalizeOptions o0) cfg verifier code v1 = (Inr tokens, v2)
    \<and> login_identity lib (normalizeOptions o0) tokens v2 = (Inr claims, v3) \<and> ol_Now lib v3 = (now, v') \<and> r = \<lparr>rs_Email = id_Email claims, rs_Subject = id_Subject claims\<rparr>
    \<and> ok w' \<and> represents Load (m(TrimSpace (op_ProfileName o0) \<mapsto> stored (login_state lib (normalizeOptions o0) tokens claims now))) w'"
  using assms(4)
proof (rule Login_Inr)
  let ?o = "normalizeOptions o0"
  fix cfg verifier code tokens claims now v1 v2 v3
  assume v: "validateOptions ?o = None" and c: "login_code lib ?o v = (Inr (cfg, verifier, code), v1)" and t: "login_tokens lib ?o cfg verifier code v1 = (Inr tokens, v2)"
    and i: "login_identity lib ?o tokens v2 = (Inr claims, v3)" and now: "ol_Now lib v3 = (now, v')"
    and s: "Save (op_ProfileName ?o) (login_state lib ?o tokens claims now) w = (None, w')"
    and r: "r = \<lparr>rs_Email = id_Email claims, rs_Subject = id_Subject claims\<rparr>"
  from login_tokens_Inr [OF t] have tok: "ol_Exchange lib cfg code (exchangeOpts ?o verifier) v1 = (Inr tokens, v2)" "TrimSpace (ot_RefreshToken tokens) \<noteq> []" by auto
  have "clean_tokens tokens" using tok(1) assms(3) unfolding clean_provider_def by blast
  moreover have "clean_claims claims"
  proof -
    from login_identity_Inr [OF i] obtain iss cl tk payload cc where "ol_VerifyID lib iss cl tk v2 = (Inr payload, v3)"
      "json_Unmarshal id_fields \<lparr>id_Subject = [], id_Email = [], id_IssuedAt = 0\<rparr> payload = Some cc"
      "claims = cc\<lparr>id_Subject := TrimSpace (id_Subject cc), id_Email := TrimSpace (id_Email cc)\<rparr>" .
    moreover then have "clean_claims cc" using assms(3) unfolding clean_provider_def by blast
    ultimately show ?thesis by (simp add: clean_claims_def clean_string_trim)
  qed
  moreover have "0 \<le> now" "now < 2 ^ 63" using assms(3) now unfolding clean_provider_def by (metis fst_conv)+
  moreover have "TrimSpace (op_Issuer ?o) \<noteq> []" "TrimSpace (op_ClientID ?o) \<noteq> []"
    using validateOptions_None(2,3) [OF v] assms(6) by (simp_all add: normalizeOptions_def)
  ultimately have "keepable (login_state lib ?o tokens claims now)" using login_keepable tok(2) assms(5,7) by blast
  from save_represents [OF assms(1,2) s this] save_ok [OF assms(1) s] c t i r now show ?thesis by auto
qed

end

text \<open>
  C39: an access token is the cached one, still fresh for the required margin, or one the provider has just issued
  for the cached refresh token. It is never taken from a state of another issuer or client. After a refresh the store
  holds the new token and the refresh token to use next: the one the provider sent, or the old one when it sent
  none. The other profiles are untouched. For every store that keeps the interface.
\<close>

theorem access_token_sound:
  assumes "token_store Load Save Delete ok" and "ok w" and "represents Load m w" and "readable m" and "clean_provider lib"
    and "AccessToken lib Load Save o0 v w = (Inr tok, v', w')"
  shows "\<exists>st m' now. m (TrimSpace (ao_ProfileName o0)) = Some st
    \<and> ts_IDPIssuer st = ao_Issuer (normalizeAccessTokenOptions o0) \<and> ts_IDPClientID st = ao_ClientID (normalizeAccessTokenOptions o0)
    \<and> ok w' \<and> represents Load m' w' \<and> readable m' \<and> now = fst (ol_Now lib v)
    \<and> (m' = m \<and> tok = ts_AccessToken st \<and> (\<exists>t. accessTokenExpiry lib tok = Inr t \<and> now + ao_RefreshSkew (normalizeAccessTokenOptions o0) < t)
       \<or> (\<exists>tokens st'. refresh_grant lib (normalizeAccessTokenOptions o0) (ts_RefreshToken st) (snd (ol_Now lib v)) = (Inr tokens, v')
            \<and> tok = ot_AccessToken tokens \<and> m' = m(TrimSpace (ao_ProfileName o0) \<mapsto> st') \<and> ts_AccessToken st' = TrimSpace tok
            \<and> ts_RefreshToken st' = (if TrimSpace (ot_RefreshToken tokens) = [] then ts_RefreshToken st else TrimSpace (ot_RefreshToken tokens))))"
proof -
  let ?o = "normalizeAccessTokenOptions o0" and ?p = "TrimSpace (ao_ProfileName o0)"
  from token_store.token_obtained [OF assms] obtain st now where st: "m ?p = Some st" "ts_IDPIssuer st = ao_Issuer ?o" "ts_IDPClientID st = ao_ClientID ?o" "ok w'"
    and now: "ol_Now lib v = (now, snd (ol_Now lib v))"
    and how: "tok = ts_AccessToken st \<and> accessTokenFresh lib tok now (ao_RefreshSkew ?o) \<and> represents Load m w'
       \<or> (\<exists>tokens. refresh_grant lib ?o (ts_RefreshToken st) (snd (ol_Now lib v)) = (Inr tokens, v') \<and> tok = ot_AccessToken tokens
            \<and> keepable (refreshed_state lib st tokens now) \<and> represents Load (m(?p \<mapsto> stored (refreshed_state lib st tokens now))) w')" by blast
  have n: "now = fst (ol_Now lib v)" using now by (metis fst_conv)
  from how show ?thesis
  proof (elim disjE exE conjE)
    assume "tok = ts_AccessToken st" "accessTokenFresh lib tok now (ao_RefreshSkew ?o)" "represents Load m w'"
    with st n assms(4) show ?thesis by (auto simp: accessTokenFresh_def split: sum.splits)
  next
    fix tokens
    assume t: "refresh_grant lib ?o (ts_RefreshToken st) (snd (ol_Now lib v)) = (Inr tokens, v')" "tok = ot_AccessToken tokens"
      "keepable (refreshed_state lib st tokens now)" "represents Load (m(?p \<mapsto> stored (refreshed_state lib st tokens now))) w'"
    have "stored st = st" using assms(4) st(1) by (simp add: readable_def)
    moreover have "ts_RefreshToken (stored st) = TrimSpace (ts_RefreshToken st)" by (simp add: stored_def default_version_def trimState_def)
    ultimately have "TrimSpace (ts_RefreshToken st) = ts_RefreshToken st" by simp
    then have "ts_AccessToken (stored (refreshed_state lib st tokens now)) = TrimSpace tok"
      "ts_RefreshToken (stored (refreshed_state lib st tokens now)) = (if TrimSpace (ot_RefreshToken tokens) = [] then ts_RefreshToken st else TrimSpace (ot_RefreshToken tokens))"
      by (simp_all add: stored_def default_version_def trimState_def refreshed_state_def Let_def t(2))
    with st n t readable_update [OF assms(4) t(3), of ?p] show ?thesis by blast
  qed
qed

text \<open>
  C40: a login is bound to this client, and it lasts. It succeeds only if the first callback carried the state that was drawn
  at random in this login, from the world it started in, right after the listener was bound, and that was sent in its
  authorize URL. The code of that callback is exchanged with the verifier that this login drew next, the identity
  reported is that of the id token in the answer, verified for the configured issuer and client, and the calls follow one another from the
  first world of the login to the last. The extra parameters of the profile replace none that the flow sets. Afterwards every request for
  an access token under the same profile, issuer and client gets the token of the login from the store, without asking the
  provider, as long as it is fresh.
\<close>

theorem login_session:
  assumes "token_store Load Save Delete ok" and "ok w" and "represents Load m w" and "clean_provider lib" and "Login lib Save o0 v w = (Inr r, v', w')"
    and "clean_string (op_Issuer (normalizeOptions o0))" and "TrimSpace (op_Issuer (normalizeOptions o0)) = op_Issuer (normalizeOptions o0)"
    and "clean_string (op_ClientID (normalizeOptions o0))"
  shows "\<exists>state verifier cfg query v1 tokens v2 idToken payload v3 claims now.
      browser_round lib (normalizeOptions o0) v state verifier cfg query v1
    \<and> query_get query ''error'' = [] \<and> query_get query ''state'' = state
    \<and> ol_Exchange lib cfg (TrimSpace (query_get query ''code'')) (exchangeOpts (normalizeOptions o0) verifier) v1 = (Inr tokens, v2)
    \<and> map_of (ot_Extra tokens) ''id_token'' = Some (VString idToken)
    \<and> ol_VerifyID lib (op_Issuer (normalizeOptions o0)) (op_ClientID (normalizeOptions o0)) idToken v2 = (Inr payload, v3)
    \<and> ol_Now lib v3 = (now, v')
    \<and> json_Unmarshal id_fields \<lparr>id_Subject = [], id_Email = [], id_IssuedAt = 0\<rparr> payload = Some claims
    \<and> rs_Subject r = TrimSpace (id_Subject claims) \<and> rs_Subject r \<noteq> [] \<and> rs_Email r = TrimSpace (id_Email claims)
    \<and> (\<forall>k \<in> fst ` set (op_AuthParams o0). TrimSpace k \<notin> set reservedAuthParams)
    \<and> (\<forall>ao v8 now v9. validateAccessTokenOptions (normalizeAccessTokenOptions ao) = None \<and> TrimSpace (ao_ProfileName ao) = TrimSpace (op_ProfileName o0)
         \<and> ao_Issuer (normalizeAccessTokenOptions ao) = op_Issuer (normalizeOptions o0) \<and> ao_ClientID (normalizeAccessTokenOptions ao) = op_ClientID (normalizeOptions o0)
         \<and> ol_Now lib v8 = (now, v9) \<and> accessTokenFresh lib (TrimSpace (ot_AccessToken tokens)) now (ao_RefreshSkew (normalizeAccessTokenOptions ao))
         \<longrightarrow> (\<exists>w''. AccessToken lib Load Save ao v8 w' = (Inr (TrimSpace (ot_AccessToken tokens)), v9, w'')))"
proof -
  let ?o = "normalizeOptions o0"
  from token_store.login_stored [OF assms] obtain cfg verifier code tokens claims now v1 v2 v3 where
    c: "login_code lib ?o v = (Inr (cfg, verifier, code), v1)" and t: "login_tokens lib ?o cfg verifier code v1 = (Inr tokens, v2)"
    and i: "login_identity lib ?o tokens v2 = (Inr claims, v3)" and now: "ol_Now lib v3 = (now, v')"
    and r: "r = \<lparr>rs_Email = id_Email claims, rs_Subject = id_Subject claims\<rparr>"
    and st: "ok w'" "represents Load (m(TrimSpace (op_ProfileName o0) \<mapsto> stored (login_state lib ?o tokens claims now))) w'" by blast
  have valid: "validateOptions ?o = None" using assms(5) by (rule Login_Inr)
  have client: "TrimSpace (op_ClientID ?o) = op_ClientID ?o" by (simp add: normalizeOptions_def)
  let ?st = "stored (login_state lib ?o tokens claims now)"
  have fields: "ts_IDPIssuer ?st = op_Issuer ?o" "ts_IDPClientID ?st = op_ClientID ?o" "ts_AccessToken ?st = TrimSpace (ot_AccessToken tokens)"
    using assms(7) client by (simp_all add: stored_def default_version_def trimState_def login_state_def)
  have session: "\<exists>w''. AccessToken lib Load Save ao v8 w' = (Inr (TrimSpace (ot_AccessToken tokens)), v9, w'')"
    if "validateAccessTokenOptions (normalizeAccessTokenOptions ao) = None \<and> TrimSpace (ao_ProfileName ao) = TrimSpace (op_ProfileName o0)
         \<and> ao_Issuer (normalizeAccessTokenOptions ao) = op_Issuer ?o \<and> ao_ClientID (normalizeAccessTokenOptions ao) = op_ClientID ?o
         \<and> ol_Now lib v8 = (now', v9) \<and> accessTokenFresh lib (TrimSpace (ot_AccessToken tokens)) now' (ao_RefreshSkew (normalizeAccessTokenOptions ao))" for ao v8 now' v9
    using token_store.cached_token [OF assms(1) st, of ao ?st lib v8 now' v9] that fields by auto
  from login_identity_Inr [OF i] obtain idToken payload cc where tok: "map_of (ot_Extra tokens) ''id_token'' = Some (VString idToken)"
    and idt: "ol_VerifyID lib (op_Issuer ?o) (op_ClientID ?o) idToken v2 = (Inr payload, v3)"
      "json_Unmarshal id_fields \<lparr>id_Subject = [], id_Email = [], id_IssuedAt = 0\<rparr> payload = Some cc"
      "claims = cc\<lparr>id_Subject := TrimSpace (id_Subject cc), id_Email := TrimSpace (id_Email cc)\<rparr>" "id_Subject claims \<noteq> []" .
  have who: "rs_Subject r = TrimSpace (id_Subject cc)" "rs_Subject r \<noteq> []" "rs_Email r = TrimSpace (id_Email cc)" using r idt by auto
  have params: "\<forall>k \<in> fst ` set (op_AuthParams o0). TrimSpace k \<notin> set reservedAuthParams" using validateOptions_None(4) [OF valid] by blast
  from c show ?thesis
  proof (rule login_code_Inr)
    fix state query
    assume q: "browser_round lib ?o v state verifier cfg query v1" "query_get query ''error'' = []" "query_get query ''state'' = state"
      "code = TrimSpace (query_get query ''code'')"
    have ex: "ol_Exchange lib cfg (TrimSpace (query_get query ''code'')) (exchangeOpts ?o verifier) v1 = (Inr tokens, v2)"
      using login_tokens_Inr [OF t] q(4) by simp
    show ?thesis
      by (intro exI conjI; (rule q(1-3) ex tok idt(1) now idt(2) who params)?) (use session in blast)
  qed
qed

section \<open>An example\<close>

definition login_lib :: "nat oauth_lib" where
  "login_lib =
     \<lparr>ol_Listen = (\<lambda>port v. (Inr (Some port), v)), ol_Rand = (\<lambda>n v. (Inr (replicate n CHR ''x''), v)), ol_GenerateVerifier = (\<lambda>v. (''v'', v)),
      ol_NewProvider = (\<lambda>iss v. (Inr \<lparr>ep_AuthURL = [], ep_TokenURL = [], ep_AuthStyle = AuthStyleAutoDetect\<rparr>, v)), ol_AuthCodeURL = (\<lambda>cfg st opts. ''u''),
      ol_S256Challenge = (\<lambda>v. []), ol_BrowserOpen = (\<lambda>u v. (None, v)), ol_Prompt = (\<lambda>t v. v),
      ol_Events = (\<lambda>v. (([Callback_Request [(''state'', RawURL_EncodeToString (replicate 32 CHR ''x'')), (''code'', ''c'')]], Plain ''done''), v)),
      ol_Exchange = (\<lambda>cfg code opts v. (Inr \<lparr>ot_AccessToken = ''a'', ot_RefreshToken = ''r'', ot_Extra = [(''id_token'', VString ''i'')]\<rparr>, v)),
      ol_Refresh = (\<lambda>cfg rt v. (Inl (Plain ''offline''), v)), ol_ClientCredentials = (\<lambda>cfg v. (Inl (Plain ''offline''), v)),
      ol_VerifyID = (\<lambda>iss cl tok v. (Inr (json_print (JObject [member_string ''sub'' ''s''])), v)),
      ol_ParseSigned = (\<lambda>tok. Inr tok), ol_UnsafeExpiry = (\<lambda>tok. Inr (Some 100000000000)), ol_RetrieveBody = (\<lambda>e. None),
      ol_HugeFloat = (\<lambda>x. 0), ol_Now = (\<lambda>v. (0, v))\<rparr>"

definition login_options :: Options where
  "login_options = \<lparr>op_ProfileName = ''p'', op_Issuer = ''i'', op_ClientID = ''c'', op_Audience = [], op_AudienceParam = [], op_Scopes = [],
     op_AuthParams = [], op_HasStore = True, op_CallbackPorts = [], op_NoBrowser = False\<rparr>"

definition sample_access :: AccessTokenOptions where
  "sample_access = \<lparr>ao_ProfileName = ''p'', ao_Issuer = ''i'', ao_ClientID = ''c'', ao_HasStore = True, ao_RefreshSkew = 0\<rparr>"

lemma sample_trim: "TrimSpace ''p'' = ''p''" "TrimSpace ''i'' = ''i''" "TrimSpace ''c'' = ''c''" "TrimSpace ''a'' = ''a''" "TrimSpace ''r'' = ''r''"
  "TrimSpace ''s'' = ''s''" "TrimSpace [] = []"
  by code_simp+

lemma sample_clean: "clean_string ''a''" "clean_string ''r''" "clean_string ''i''" "clean_string ''c''" "clean_string ''s''" "clean_string []"
  unfolding clean_string_def sample_trim by (simp_all add: coerce_utf8_ascii is_ascii_def)

lemma sample_normal: "normalizeOptions login_options = login_options\<lparr>op_CallbackPorts := defaultCallbackPorts\<rparr>"
  "normalizeAccessTokenOptions sample_access = sample_access\<lparr>ao_RefreshSkew := Minute\<rparr>"
  by (simp_all add: normalizeOptions_def normalizeAccessTokenOptions_def login_options_def sample_access_def sample_trim TrimRight_slash_def
      defaultAccessTokenRefreshSkew_def)

lemma sample_claims:
  "json_Unmarshal id_fields \<lparr>id_Subject = [], id_Email = [], id_IssuedAt = 0\<rparr> (json_print (JObject [member_string ''sub'' ''s'']))
     = Some \<lparr>id_Subject = ''s'', id_Email = [], id_IssuedAt = 0\<rparr>"
proof -
  have "list_all member_clean [member_string ''sub'' ''s'']" using member_clean_simps(2) [of "''sub''" "''s''"]
    by (simp add: coerce_utf8_ascii is_ascii_def)
  moreover have "find_field id_fields ''sub'' = Some (set_string (\<lambda>s st. st\<lparr>id_Subject := s\<rparr>))" by (simp add: id_fields_def find_field_def)
  ultimately show ?thesis by (simp add: members_unmarshal bind_string del: json_print.simps)
qed

lemma sample_provider: "clean_provider login_lib"
  unfolding clean_provider_def
  by (auto simp: login_lib_def clean_tokens_def sample_clean sample_claims clean_claims_def int64_range_def simp del: json_print.simps)

lemma sample_store: "file_ok empty_disk" "represents (File_Load ''d'') (\<lambda>p. None) empty_disk"
  by (simp add: file_ok_def empty_disk_def calm_def no_faults_def is_digit_def) (rule sample_represents(1))

lemma sample_fields [simp]:
  "op_Issuer (normalizeOptions login_options) = ''i''" "op_ClientID (normalizeOptions login_options) = ''c''" "op_ProfileName login_options = ''p''"
  "ao_Issuer (normalizeAccessTokenOptions sample_access) = ''i''" "ao_ClientID (normalizeAccessTokenOptions sample_access) = ''c''"
  "ao_ProfileName sample_access = ''p''" "ao_RefreshSkew (normalizeAccessTokenOptions sample_access) = Minute" "ol_Now login_lib v = (0, v)"
  unfolding sample_normal by (simp_all add: login_options_def sample_access_def login_lib_def)

definition sample_tokens :: oauth_token where
  "sample_tokens = \<lparr>ot_AccessToken = ''a'', ot_RefreshToken = ''r'', ot_Extra = [(''id_token'', VString ''i'')]\<rparr>"

definition sample_saved :: State where
  "sample_saved = login_state login_lib (normalizeOptions login_options) sample_tokens \<lparr>id_Subject = ''s'', id_Email = [], id_IssuedAt = 0\<rparr> 0"

lemma sample_keepable: "keepable sample_saved"
  unfolding sample_saved_def
  by (rule login_keepable) (simp_all add: clean_tokens_def clean_claims_def sample_clean sample_trim sample_tokens_def int64_range_def)

lemma sample_steps:
  shows "validateOptions (normalizeOptions login_options) = None"
    and "login_code login_lib (normalizeOptions login_options) 0 =
      (Inr (newOAuthConfig ''c'' [] \<lparr>ep_AuthURL = [], ep_TokenURL = [], ep_AuthStyle = AuthStyleAutoDetect\<rparr> (''http://127.0.0.1:'' @ FormatInt 50001 @ ''/cb''), ''v'', ''c''), 0)"
    and "login_tokens login_lib (normalizeOptions login_options) cfg vr cd 0 = (Inr sample_tokens, 0)"
    and "login_identity login_lib (normalizeOptions login_options) sample_tokens 0 = (Inr \<lparr>id_Subject = ''s'', id_Email = [], id_IssuedAt = 0\<rparr>, 0)"
proof -
  show "validateOptions (normalizeOptions login_options) = None"
    unfolding sample_normal by (simp add: validateOptions_def login_options_def errors_Join_None ValidateAuthParams_def)
  show "login_code login_lib (normalizeOptions login_options) 0 =
      (Inr (newOAuthConfig ''c'' [] \<lparr>ep_AuthURL = [], ep_TokenURL = [], ep_AuthStyle = AuthStyleAutoDetect\<rparr> (''http://127.0.0.1:'' @ FormatInt 50001 @ ''/cb''), ''v'', ''c''), 0)"
    unfolding sample_normal
    by (simp add: login_code_def login_lib_def login_options_def defaultCallbackPorts_def randomURLString_def waitForCallback_def callback_result_def
        query_get_def sample_trim callbackPath_def Let_def)
  show "login_tokens login_lib (normalizeOptions login_options) cfg vr cd 0 = (Inr sample_tokens, 0)"
    by (simp add: login_tokens_def login_lib_def sample_trim accessTokenExpiry_def sample_tokens_def)
  show "login_identity login_lib (normalizeOptions login_options) sample_tokens 0 = (Inr \<lparr>id_Subject = ''s'', id_Email = [], id_IssuedAt = 0\<rparr>, 0)"
    by (simp add: login_identity_def login_lib_def sample_trim sample_claims sample_tokens_def Let_def del: json_print.simps)
qed

lemma sample_login:
  obtains d where "File_Save ''d'' ''p'' sample_saved empty_disk = (None, d)"
    "Login login_lib (File_Save ''d'') login_options 0 empty_disk = (Inr \<lparr>rs_Email = [], rs_Subject = ''s''\<rparr>, 0, d)"
proof -
  have enc: "encodeState sample_saved = Inr (json_print (JObject (state_members (stored sample_saved))))"
    using sample_keepable by (simp add: encodeState_def stored_def Let_def keepable_def del: json_print.simps)
  have path: "state_path ''d'' ''p'' = Inr ''d/state-p.json''" by code_simp
  have "fst (File_Save ''d'' ''p'' sample_saved empty_disk) = None"
    by (rule File_Save_calm [OF sample_store(1) path enc]) (simp add: empty_disk_def)
  then obtain d where d: "File_Save ''d'' ''p'' sample_saved empty_disk = (None, d)" by (metis prod.collapse)
  then have "Login login_lib (File_Save ''d'') login_options 0 empty_disk = (Inr \<lparr>rs_Email = [], rs_Subject = ''s''\<rparr>, 0, d)"
    using sample_steps by (simp add: Login_def Let_def sample_saved_def sample_trim)
  with d show thesis by (rule that)
qed

lemma sample_request: "validateAccessTokenOptions (normalizeAccessTokenOptions sample_access) = None" "accessTokenFresh login_lib ''a'' 0 Minute"
  unfolding sample_normal
  by (simp_all add: validateAccessTokenOptions_def sample_access_def errors_Join_None accessTokenFresh_def accessTokenExpiry_def login_lib_def Minute_def Second_def)

theorem login_session_witness:
  "\<exists>r d. Login login_lib (File_Save ''d'') login_options 0 empty_disk = (Inr r, 0, d)
     \<and> (\<exists>d'. AccessToken login_lib (File_Load ''d'') (File_Save ''d'') sample_access 0 d = (Inr ''a'', 0, d'))"
proof -
  obtain r d where l: "Login login_lib (File_Save ''d'') login_options 0 empty_disk = (Inr r, 0, d)" by (rule sample_login)
  have exch: "ol_Exchange login_lib cfg cd opts x = (Inr tokens, y) \<Longrightarrow> ot_AccessToken tokens = ''a''" for cfg cd opts x tokens y
    by (auto simp: login_lib_def)
  have o: "clean_string (op_Issuer (normalizeOptions login_options))" "TrimSpace (op_Issuer (normalizeOptions login_options)) = op_Issuer (normalizeOptions login_options)"
    "clean_string (op_ClientID (normalizeOptions login_options))"
    by (simp_all add: sample_clean sample_trim)
  have "\<exists>d'. AccessToken login_lib (File_Load ''d'') (File_Save ''d'') sample_access 0 d = (Inr ''a'', 0, d')"
    using login_session [OF file_store.token_store_axioms sample_store sample_provider l o]
  proof (elim exE conjE)
    fix cfg query verifier v1 tokens v2
    assume ex: "ol_Exchange login_lib cfg (TrimSpace (query_get query ''code'')) (exchangeOpts (normalizeOptions login_options) verifier) v1 = (Inr tokens, v2)"
      and s: "\<forall>ao v8 now v9. validateAccessTokenOptions (normalizeAccessTokenOptions ao) = None \<and> TrimSpace (ao_ProfileName ao) = TrimSpace (op_ProfileName login_options)
         \<and> ao_Issuer (normalizeAccessTokenOptions ao) = op_Issuer (normalizeOptions login_options)
         \<and> ao_ClientID (normalizeAccessTokenOptions ao) = op_ClientID (normalizeOptions login_options)
         \<and> ol_Now login_lib v8 = (now, v9) \<and> accessTokenFresh login_lib (TrimSpace (ot_AccessToken tokens)) now (ao_RefreshSkew (normalizeAccessTokenOptions ao))
         \<longrightarrow> (\<exists>w''. AccessToken login_lib (File_Load ''d'') (File_Save ''d'') ao v8 d = (Inr (TrimSpace (ot_AccessToken tokens)), v9, w''))"
    from s [rule_format, of sample_access 0 0 0] sample_request exch [OF ex] show ?thesis by (simp add: sample_trim)
  qed
  with l show ?thesis by blast
qed

theorem access_token_sound_witness:
  "\<exists>d d'. AccessToken login_lib (File_Load ''d'') (File_Save ''d'') sample_access 0 d = (Inr ''a'', 0, d') \<and> file_ok d' \<and> accessTokenExpiry login_lib ''a'' = Inr 100000000000"
proof -
  obtain d where d: "File_Save ''d'' ''p'' sample_saved empty_disk = (None, d)" by (rule sample_login)
  let ?m = "(\<lambda>p. None)(''p'' \<mapsto> stored sample_saved)"
  have st: "file_ok d" "represents (File_Load ''d'') ?m d"
    using file_store.save_ok [OF sample_store(1) d] file_store.save_represents [OF sample_store d sample_keepable] by (simp_all add: sample_trim)
  have "readable (\<lambda>p. None)" by (simp add: readable_def)
  then have m: "readable ?m" by (rule readable_update) (rule sample_keepable)
  have f: "ts_IDPIssuer (stored sample_saved) = ''i''" "ts_IDPClientID (stored sample_saved) = ''c''" "ts_AccessToken (stored sample_saved) = ''a''"
    by (simp_all add: sample_saved_def login_state_def stored_def default_version_def trimState_def sample_trim sample_tokens_def)
  obtain d' where t: "AccessToken login_lib (File_Load ''d'') (File_Save ''d'') sample_access 0 d = (Inr ''a'', 0, d')"
    using file_store.cached_token [OF st sample_request(1), of "stored sample_saved" login_lib 0 0 0] sample_request(2) f by (auto simp: sample_trim)
  have no: "ol_Refresh login_lib cfg rt v \<noteq> (Inr tokens, v')" for cfg rt v tokens v' by (simp add: login_lib_def)
  from access_token_sound [OF file_store.token_store_axioms st m sample_provider t] have "file_ok d'" by blast
  moreover have "accessTokenExpiry login_lib ''a'' = Inr 100000000000" by (simp add: accessTokenExpiry_def login_lib_def)
  ultimately show ?thesis using t by blast
qed

end
