(* ===== verification/Spec2Isabelle.thy ===== *)
theory Spec2Isabelle
  imports Wire Timefix Tunnel_Shutdown Cert_Cache Token_Store SSH_Stanzas OAuth_Login
begin

text \<open>
  A verification library for postern, a broker that turns OIDC identities into short-lived SSH
  credentials for devices.

  \<^bold>\<open>The program.\<close> A client sends an access token and a device id to the broker. The broker verifies the
  token, applies a rate limit, resolves the device in a registry, asks a policy store, writes an audit
  row, and only then signs an SSH certificate, signs a time payload for a device whose clock is wrong,
  or opens a tunnel to the device. On the device, a privileged pair of programs accepts a time payload
  and sets the clock. The three issue pipelines share two preambles and the audit helpers; the
  interfaces behind them (token verifier, registry, policy, rate limiter, audit sink, signer, tunnel
  backend) have AWS or HTTP implementations, which the wiring builds from the configuration. On the machine
  of the engineer, the client logs in at the identity provider, keeps its tokens in a file or in the keyring,
  caches a key pair per profile and its certificates, writes blocks into the ssh configuration, and runs the
  source end of a tunnel; several client processes may run at the same time.

  \<^bold>\<open>The theories.\<close>
  \<^item> \<open>Prelude\<close>, \<open>Go_Strings\<close>, \<open>Go_Time\<close>, \<open>Go_Duration\<close>, \<open>Go_Value\<close>, \<open>Go_JSON\<close>, \<open>Go_Base64\<close>: what the source uses of
    the Go library, as functions: errors, UTF-8 and trimming, the calendar and RFC 3339, durations, the
    values of decoded JSON with their floating-point numbers, JSON printing and parsing, base64.
  \<^item> \<open>Broker_Types\<close> (internal/broker/types.go, errors.go, runes.go): requests, rows, constants.
  \<^item> \<open>Broker_Pipeline\<close> (preamble.go, denial.go, id.go): the preambles on a world with a trace of calls, the
    monitor that says in which order a request may pass the gates, and the locale \<open>issue_pipeline\<close>.
  \<^item> \<open>SSH_Cert\<close> (sshcert.go), \<open>Time_Payload\<close> (issuetimepayload.go), \<open>Tunnel\<close> (tunnel.go), \<open>Tunnel_Target\<close>
    (tunneltarget.go): the issuers, each interpreted in \<open>issue_pipeline\<close>.
  \<^item> \<open>Grounded\<close>: every entry of a trace is a call of the dependency it names (locale \<open>grounded_pipeline\<close>).
  \<^item> \<open>Timefix\<close> (cmd/timefix-apply, cmd/timefix-set-clock): the verifier and the clock setter of the device.
  \<^item> \<open>Registry\<close> (internal/registry; locale \<open>device_registry\<close>), \<open>Rate_Limit\<close> (internal/ratelimit), \<open>Policy\<close>
    (internal/policy), \<open>IDP\<close> (internal/idp), \<open>Tunnel_Backend\<close> (internal/tunneling), \<open>Audit_Log\<close> (internal/audit and
    internal/signer): the implementations of the interfaces.
  \<^item> \<open>Handlers\<close> (pkg/brokerhandlers/handlers.go; locale \<open>http_endpoint\<close>): routing and the HTTP endpoints.
  \<^item> \<open>Config\<close> (pkg/brokerhandlers/config.go): loading, defaults, overrides and validation.
  \<^item> \<open>Wire\<close> (internal/brokerwire/wire.go): the broker built from a configuration.
  \<^item> \<open>Tunnel_Frames\<close>, \<open>Tunnel_Proxy\<close>, \<open>Tunnel_Shutdown\<close> (internal/securetunnel): the framing of tunnel messages, and
    the source proxy as goroutines that interleave step by step over a heap of streams.
  \<^item> \<open>File_System\<close> (internal/atomicfile): a disk whose system calls may fail and between which other processes act;
    both atomic writes as sequences of such calls.
  \<^item> \<open>Cert_Cache\<close> (internal/certcache) over that disk: profile keys, certificates, listing and pruning.
  \<^item> \<open>Token_Store\<close> (internal/tokenstore): the file store and the keychain store, both interpreted in the locale
    \<open>token_store\<close>; the locale \<open>os_keyring\<close> states what a keyring promises.
  \<^item> \<open>OAuth_Login\<close> (internal/oauthlogin), a client of the locale \<open>token_store\<close>: login, refresh, client credentials.
  \<^item> \<open>SSH_Conf\<close> (internal/sshconf): the operations on the bytes of the ssh configuration; \<open>SSH_Document\<close>: the same
    operations on a document of lines and named blocks; \<open>SSH_Stanzas\<close>: what follows for the blocks of tunnels and hosts.

  \<^bold>\<open>State and effects.\<close> A dependency is a function on an arbitrary environment \<open>'w\<close>, so it may answer
  differently on every call; a \<open>world\<close> pairs the environment with the calls made so far, each with its
  outcome. Errors are the values of \<open>go_error\<close>, with wrapping and joining as in the source. Integers of 64
  or 32 bits are \<open>int\<close> with \<open>int64\<close> and \<open>int32\<close> written where the code can wrap, serial numbers are words.
  Times are nanoseconds since the epoch.

  \<^bold>\<open>What is proved.\<close> No credential is made before token, rate limit, device, policy and a durable audit row,
  in this order, and the credential agrees with the decision and with the row (\<open>SSH_Cert\<close>, \<open>Time_Payload\<close>,
  \<open>Tunnel\<close>, \<open>Handlers\<close>); the rows a request leaves on each way to fail, one denial for
  a refused token or body, and none only when no request id could be drawn; the bounds of certificate and tunnel
  lifetimes, with the place where a multiplication wraps; that what the broker issues is accepted by the
  device and sets exactly the time of the decision (\<open>Timefix\<close>); that a tunnel target is allowlisted, the
  wildcard loop terminating and deciding the declarative relation (\<open>Tunnel_Target\<close>); the budget of the rate
  limiter under any sequence of requests; what Cedar sees; which tokens are accepted; that the client
  cache of the tunnel backend is transparent; that an audit row reads back; that a configuration that
  loads is safe, that the broker built from it starts, and that its certificates are grounded in the
  answers of the configured services (\<open>Wire\<close>). For the source proxy: framing loses no message, the proxy starts on the
  announced service only and refuses every other first message and one above the read limit, every
  interleaving keeps one stream at most and a well-formed wire, nothing stays open after \<open>Wait\<close>, and the
  goroutines cannot deadlock (\<open>Tunnel_Shutdown\<close>). For the client: a file is replaced whole or not at all, all
  processes agree on the key of a profile and a cached certificate reads back (\<open>File_System\<close>, \<open>Cert_Cache\<close>); both token
  stores are maps from profiles to states; an access token is fresh or just issued, a login is bound to the
  state and the PKCE verifier it drew itself and to its own callback, and lasts (\<open>OAuth_Login\<close>); every sequence of operations on the ssh configuration acts as on a document,
  keeps the lines of the engineer and lets one tunnel per device live (\<open>SSH_Stanzas\<close>).

  \<^bold>\<open>Loops and fuel.\<close> Loops are structural recursion or functions with a measure; the JSON parser recurses
  on the length of its input; reading a tunnel message may wait for ever and is a \<open>partial_function\<close> with
  the value \<open>None\<close> for that. The theorems about it say when it returns.

  \<^bold>\<open>Parameters.\<close> golang.org/x/crypto/ssh, x/oauth2, go-jose, go-oidc, the AWS SDK, YAML, net/url, realclientip,
  the keyring, the process table and the rest of the operating system are arguments of the definitions; hypotheses
  about them are named in the theorems.

  \<^bold>\<open>Not modelled.\<close> Log lines, contexts other than the detached one of the audit sink, PrintResolvedConfig, the
  start-up of the broker processes, and of the client the HTTP transport to the broker and the command line
  application around the packages above.
\<close>

end
